(* ===== verification/Prelude.thy ===== *)
theory Prelude
  imports Main "HOL-Library.Char_ord" "HOL-Library.List_Lexorder"
begin

text \<open>
  What the component theories share.

  \<^item> The named collections \<open>go_simps\<close> (facts about the Go library functions modelled here)
    and \<open>row_simps\<close> (facts about table queries).
  \<^item> The standard-library functions the sources call on byte strings: prefix and suffix tests,
    trimming, searching, decimal printing, hexadecimal encoding.  A Go \<open>string\<close> is a sequence of
    bytes and so is an Isabelle \<open>string\<close>; \<open>len(s)\<close> is \<open>length s\<close>.
  \<^item> Generic lemmas on lists and on tables kept as lists of rows.
\<close>

named_theorems go_simps \<open>facts about modelled Go library functions\<close>
named_theorems row_simps \<open>facts about queries over lists of rows\<close>

section \<open>Strings\<close>

definition HasPrefix :: "string \<Rightarrow> string \<Rightarrow> bool" where
  "HasPrefix s p = (take (length p) s = p)"

definition HasSuffix :: "string \<Rightarrow> string \<Rightarrow> bool" where
  "HasSuffix s p = (length p \<le> length s \<and> drop (length s - length p) s = p)"

definition TrimPrefix :: "string \<Rightarrow> string \<Rightarrow> string" where
  "TrimPrefix s p = (if HasPrefix s p then drop (length p) s else s)"

definition TrimLeftChar :: "char \<Rightarrow> string \<Rightarrow> string" where
  "TrimLeftChar c s = dropWhile (\<lambda>x. x = c) s"

definition TrimRightChar :: "char \<Rightarrow> string \<Rightarrow> string" where
  "TrimRightChar c s = rev (dropWhile (\<lambda>x. x = c) (rev s))"

text \<open>\<open>strings.IndexAny\<close> and \<open>strings.IndexByte\<close>: the first position, or \<open>None\<close> for \<open>-1\<close>.\<close>

fun index_of :: "(char \<Rightarrow> bool) \<Rightarrow> string \<Rightarrow> nat option" where
  "index_of P [] = None"
| "index_of P (c # cs) = (if P c then Some 0 else map_option Suc (index_of P cs))"

text \<open>The UTF-8 encodings of Unicode white space, which \<open>strings.TrimSpace\<close> removes at both ends.\<close>

definition white_space :: "string list" where
  "white_space =
     map (\<lambda>b. [char_of b]) [9, 10, 11, 12, 13, 32 :: nat] @
     map (\<lambda>b. [CHR 0xC2, char_of b]) [0x85, 0xA0 :: nat] @
     [[CHR 0xE1, CHR 0x9A, CHR 0x80], [CHR 0xE3, CHR 0x80, CHR 0x80], [CHR 0xE2, CHR 0x81, CHR 0x9F]] @
     map (\<lambda>b. [CHR 0xE2, CHR 0x80, char_of b])
       [0x80, 0x81, 0x82, 0x83, 0x84, 0x85, 0x86, 0x87, 0x88, 0x89, 0x8A, 0xA8, 0xA9, 0xAF :: nat]"

fun trim_left :: "nat \<Rightarrow> string \<Rightarrow> string" where
  "trim_left 0 s = s"
| "trim_left (Suc n) s =
     (case filter (HasPrefix s) white_space of [] \<Rightarrow> s | w # _ \<Rightarrow> trim_left n (drop (length w) s))"

fun trim_right :: "nat \<Rightarrow> string \<Rightarrow> string" where
  "trim_right 0 s = s"
| "trim_right (Suc n) s =
     (case filter (HasSuffix s) white_space of [] \<Rightarrow> s | w # _ \<Rightarrow> trim_right n (take (length s - length w) s))"

definition TrimSpace :: "string \<Rightarrow> string" where
  "TrimSpace s = trim_right (length s) (trim_left (length s) s)"

definition lower_char :: "char \<Rightarrow> char" where
  "lower_char c = (if 65 \<le> (of_char c :: nat) \<and> (of_char c :: nat) \<le> 90
                   then char_of ((of_char c :: nat) + 32) else c)"

definition ToLower :: "string \<Rightarrow> string" where
  "ToLower s = map lower_char s"

text \<open>Case folding of names: the ASCII letters, and the long s (U+017F), which folds to s.\<close>

fun fold_name :: "string \<Rightarrow> string" where
  "fold_name (a # b # cs) = (if a = CHR 0xC5 \<and> b = CHR 0xBF then CHR ''s'' # fold_name cs else lower_char a # fold_name (b # cs))"
| "fold_name cs = map lower_char cs"

definition EqualFold :: "string \<Rightarrow> string \<Rightarrow> bool" where
  "EqualFold s t = (fold_name s = fold_name t)"

text \<open>\<open>strings.Contains\<close>.\<close>

fun Contains :: "string \<Rightarrow> string \<Rightarrow> bool" where
  "Contains [] p = (p = [])"
| "Contains (c # cs) p = (HasPrefix (c # cs) p \<or> Contains cs p)"

lemma HasPrefix_append [go_simps, simp]: "HasPrefix (p @ s) p"
  by (simp add: HasPrefix_def)

lemma HasPrefix_iff: "HasPrefix s p \<longleftrightarrow> (\<exists>t. s = p @ t)"
  by (auto simp: HasPrefix_def) (metis append_take_drop_id)

lemma TrimPrefix_append [go_simps, simp]: "TrimPrefix (p @ s) p = s"
  by (simp add: TrimPrefix_def)

lemma index_of_None: "index_of P s = None \<longleftrightarrow> (\<forall>c \<in> set s. \<not> P c)"
  by (induction s) auto

lemma index_of_Some:
  "index_of P s = Some i \<Longrightarrow> i < length s \<and> P (s ! i) \<and> (\<forall>c \<in> set (take i s). \<not> P c)"
proof (induction s arbitrary: i)
  case Nil
  then show ?case by simp
next
  case (Cons a s)
  then show ?case by (cases "P a") auto
qed

lemma index_of_append:
  "\<forall>c \<in> set xs. \<not> P c \<Longrightarrow> index_of P (xs @ ys) = map_option (\<lambda>i. length xs + i) (index_of P ys)"
proof (induction xs)
  case Nil
  then show ?case by (cases "index_of P ys") auto
next
  case (Cons a xs)
  then show ?case by (cases "index_of P ys") auto
qed

lemma index_of_split:
  "index_of P s = Some i \<Longrightarrow>
     s = take i s @ s ! i # drop (Suc i) s \<and> P (s ! i) \<and> (\<forall>c \<in> set (take i s). \<not> P c)"
  using index_of_Some [of P s i] by (simp add: id_take_nth_drop)

section \<open>Decimal digits\<close>

definition is_digit :: "char \<Rightarrow> bool" where
  "is_digit c = (48 \<le> (of_char c :: nat) \<and> (of_char c :: nat) \<le> 57)"

definition digit_val :: "char \<Rightarrow> nat" where
  "digit_val c = of_char c - 48"

definition digit_char :: "nat \<Rightarrow> char" where
  "digit_char d = char_of (48 + d mod 10)"

text \<open>The number a string of digits denotes, and the digits of a number.\<close>

definition digits_val :: "string \<Rightarrow> nat" where
  "digits_val s = foldl (\<lambda>n c. 10 * n + digit_val c) 0 s"

fun dec_nat :: "nat \<Rightarrow> string" where
  "dec_nat n = (if n < 10 then [digit_char n] else dec_nat (n div 10) @ [digit_char n])"

declare dec_nat.simps [simp del]

text \<open>\<open>strconv.FormatInt(n, 10)\<close>.\<close>

definition FormatInt :: "int \<Rightarrow> string" where
  "FormatInt n = (if n < 0 then CHR ''-'' # dec_nat (nat (- n)) else dec_nat (nat n))"

lemma is_digit_digit_char [simp]: "is_digit (digit_char d)"
proof -
  have "(48 + d mod 10) mod 256 = 48 + d mod 10" by simp
  then show ?thesis
    by (simp add: is_digit_def digit_char_def)
qed

lemma digit_val_digit_char [simp]: "digit_val (digit_char d) = d mod 10"
proof -
  have "(48 + d mod 10) mod 256 = 48 + d mod 10" by simp
  then show ?thesis
    by (simp add: digit_val_def digit_char_def)
qed

lemma digit_char_0 [simp]: "digit_char 0 = CHR ''0''"
  by code_simp

lemma digit_char_digit_val: "is_digit c \<Longrightarrow> digit_char (digit_val c) = c"
  by (auto simp: is_digit_def digit_val_def digit_char_def)

lemma digit_val_less [simp]: "is_digit c \<Longrightarrow> digit_val c < 10"
  by (auto simp: is_digit_def digit_val_def)

lemma digit_val_inj: "is_digit c \<Longrightarrow> is_digit d \<Longrightarrow> digit_val c = digit_val d \<Longrightarrow> c = d"
  by (metis digit_char_digit_val)

lemma digits_val_Nil [simp]: "digits_val [] = 0"
  by (simp add: digits_val_def)

lemma digits_val_snoc [simp]: "digits_val (s @ [c]) = 10 * digits_val s + digit_val c"
  by (simp add: digits_val_def)

lemma digits_val_append: "digits_val (s @ t) = digits_val s * 10 ^ length t + digits_val t"
proof (induction t rule: rev_induct)
  case Nil
  then show ?case by simp
next
  case (snoc c t)
  have "digits_val (s @ t @ [c]) = 10 * digits_val (s @ t) + digit_val c"
    by (metis append_assoc digits_val_snoc)
  with snoc show ?case by (simp add: algebra_simps)
qed

lemma digits_val_Cons: "digits_val (c # t) = digit_val c * 10 ^ length t + digits_val t"
  using digits_val_append [of "[c]" t] by (simp add: digits_val_def)

lemma dec_nat_digits: "list_all is_digit (dec_nat n)"
proof (induction n rule: dec_nat.induct)
  case (1 n)
  then show ?case by (subst dec_nat.simps) auto
qed

lemma dec_nat_nonempty [simp]: "dec_nat n \<noteq> []"
  by (subst dec_nat.simps) simp

lemma digits_val_dec_nat [simp]: "digits_val (dec_nat n) = n"
proof (induction n rule: dec_nat.induct)
  case (1 n)
  show ?case
  proof (cases "n < 10")
    case True
    then show ?thesis by (subst dec_nat.simps) (simp add: digits_val_def)
  next
    case False
    with 1 have "digits_val (dec_nat (n div 10)) = n div 10" by simp
    with False show ?thesis by (subst dec_nat.simps) simp
  qed
qed

lemma dec_nat_inj [simp]: "dec_nat m = dec_nat n \<longleftrightarrow> m = n"
  by (metis digits_val_dec_nat)

lemma digits_val_lt: "list_all is_digit s \<Longrightarrow> digits_val s < 10 ^ length s"
proof (induction s rule: rev_induct)
  case Nil
  then show ?case by simp
next
  case (snoc c s)
  then have "digits_val s < 10 ^ length s" and "digit_val c < 10" by auto
  then have "10 * digits_val s + digit_val c < 10 * 10 ^ length s" by linarith
  then show ?case by simp
qed

text \<open>A digit string with no leading zero is the decimal representation of its value.\<close>

lemma dec_nat_digits_val:
  assumes "list_all is_digit s" and "s \<noteq> []" and "hd s \<noteq> CHR ''0''"
  shows "dec_nat (digits_val s) = s"
  using assms
proof (induction s rule: rev_induct)
  case Nil
  then show ?case by simp
next
  case (snoc c s)
  have c: "is_digit c" "digit_val c < 10" using snoc.prems by auto
  show ?case
  proof (cases "s = []")
    case True
    with c show ?thesis
      by (subst dec_nat.simps) (simp add: digits_val_def digit_char_digit_val)
  next
    case False
    with snoc have IH: "dec_nat (digits_val s) = s" by simp
    have "digits_val s \<noteq> 0"
    proof
      assume "digits_val s = 0"
      with IH have "s = [CHR ''0'']"
        by (subst (asm) dec_nat.simps) simp
      with snoc.prems False show False by simp
    qed
    then have "\<not> digits_val (s @ [c]) < 10" by simp
    moreover have "digits_val (s @ [c]) div 10 = digits_val s" using c by simp
    moreover have "digit_char (digits_val (s @ [c])) = c"
    proof -
      have "digits_val (s @ [c]) mod 10 = digit_val c" using c by simp
      then have "digit_char (digits_val (s @ [c])) = digit_char (digit_val c)"
        using c by (simp add: digit_char_def)
      with c show ?thesis by (simp add: digit_char_digit_val)
    qed
    ultimately show ?thesis using IH by (subst dec_nat.simps) simp
  qed
qed

lemma digits_val_eq_0: "list_all is_digit s \<Longrightarrow> digits_val s = 0 \<longleftrightarrow> set s \<subseteq> {CHR ''0''}"
proof (induction s rule: rev_induct)
  case (snoc c s)
  have "digit_val c = 0 \<longleftrightarrow> c = CHR ''0''"
  proof
    assume "digit_val c = 0"
    with snoc.prems have "c = digit_char 0" by (metis digit_char_digit_val list_all_append list.pred_inject(2))
    then show "c = CHR ''0''" by simp
  qed (simp add: digit_val_def)
  with snoc show ?case by auto
qed simp

lemma hd_dec_nat: "0 < n \<Longrightarrow> hd (dec_nat n) \<noteq> CHR ''0''"
proof (induction n rule: dec_nat.induct)
  case (1 n)
  show ?case
  proof (cases "n < 10")
    case True
    have "digit_val (CHR ''0'') = 0" by (simp add: digit_val_def)
    with True 1 show ?thesis
      by (subst dec_nat.simps) (metis digit_val_digit_char list.sel(1) mod_less nat_neq_iff)
  next
    case False
    with 1 have "hd (dec_nat (n div 10)) \<noteq> CHR ''0''" by simp
    with False show ?thesis by (subst dec_nat.simps) simp
  qed
qed

lemma minus_not_digit [simp]: "\<not> is_digit CHR ''-''"
  by (simp add: is_digit_def)

lemma FormatInt_inj [simp]: "FormatInt m = FormatInt n \<longleftrightarrow> m = n"
proof -
  have neq: "CHR ''-'' # s \<noteq> dec_nat k" for s k
    using dec_nat_digits [of k] by (metis list.pred_inject(2) minus_not_digit)
  show ?thesis
    using neq neq [symmetric] by (auto simp: FormatInt_def)
qed

section \<open>Hexadecimal encoding\<close>

definition hex_digit :: "nat \<Rightarrow> char" where
  "hex_digit d = (if d < 10 then char_of (48 + d) else char_of (87 + d))"

definition hex_byte :: "char \<Rightarrow> string" where
  "hex_byte c = [hex_digit (of_char c div 16), hex_digit (of_char c mod 16)]"

text \<open>\<open>hex.EncodeToString\<close>.\<close>

definition hex_encode :: "string \<Rightarrow> string" where
  "hex_encode s = concat (map hex_byte s)"

lemma hex_digit_inj: "a < 16 \<Longrightarrow> b < 16 \<Longrightarrow> hex_digit a = hex_digit b \<Longrightarrow> a = b"
proof -
  assume ab: "a < 16" "b < 16" "hex_digit a = hex_digit b"
  have val: "of_char (hex_digit d) = (if d < 10 then 48 + d else 87 + d)" if "d < 16" for d :: nat
    using that by (simp add: hex_digit_def)
  have "(if a < 10 then 48 + a else 87 + a) = (if b < 10 then 48 + b else 87 + b)"
    using val [OF ab(1)] val [OF ab(2)] ab(3) by metis
  then show "a = b"
    using ab(1,2) by (simp split: if_split_asm)
qed

lemma hex_byte_inj: "hex_byte c = hex_byte d \<Longrightarrow> c = d"
proof -
  assume h: "hex_byte c = hex_byte d"
  have lt: "of_char x div 16 < (16::nat)" "of_char x mod 16 < (16::nat)" for x :: char
  proof -
    have "of_char x < (16 * 16 :: nat)" using nat_of_char_less_256 [of x] by simp
    then show "of_char x div 16 < (16::nat)" by (rule less_mult_imp_div_less)
  qed simp
  have "(of_char c :: nat) div 16 = of_char d div 16" "(of_char c :: nat) mod 16 = of_char d mod 16"
    using h by (auto simp: hex_byte_def intro!: hex_digit_inj lt)
  then have "(of_char c :: nat) = of_char d"
    by (metis div_mult_mod_eq)
  then show "c = d" by simp
qed

lemma hex_encode_inj: "hex_encode s = hex_encode t \<Longrightarrow> s = t"
proof (induction s arbitrary: t)
  case Nil
  then show ?case by (cases t) (auto simp: hex_encode_def hex_byte_def)
next
  case (Cons c s)
  then obtain d u where t: "t = d # u"
    by (cases t) (auto simp: hex_encode_def hex_byte_def)
  have "hex_byte c = hex_byte d" and "hex_encode s = hex_encode u"
    using Cons.prems t by (auto simp: hex_encode_def hex_byte_def)
  with Cons.IH t show ?case by (auto dest: hex_byte_inj)
qed

section \<open>Sorted tables\<close>

lemma insort_key_append:
  "\<forall>b \<in> set bs. f x \<le> f b \<Longrightarrow> insort_key f x (as @ bs) = insort_key f x as @ bs"
proof (induction as)
  case Nil
  then show ?case by (cases bs) auto
qed auto

lemma sort_key_append_greater [row_simps]:
  assumes "\<forall>x \<in> set xs. \<forall>y \<in> set ys. f x \<le> f y" "sorted (map f ys)"
  shows "sort_key f (xs @ ys) = sort_key f xs @ ys"
  using assms
proof (induction xs)
  case Nil
  then show ?case by (simp add: sort_key_id_if_sorted)
qed (simp add: insort_key_append)

lemma filter_Cons_mem: "filter P xs = y # ys \<Longrightarrow> y \<in> set xs \<and> P y"
proof -
  assume "filter P xs = y # ys"
  then have "y \<in> set (filter P xs)" by simp
  then show ?thesis by simp
qed

lemma filter_none: "\<forall>x \<in> set xs. \<not> P x \<Longrightarrow> filter P xs = []"
  by (simp add: filter_empty_conv)

lemma filter_all: "\<forall>x \<in> set xs. P x \<Longrightarrow> filter P xs = xs"
  by (simp add: filter_id_conv)

end
