(* ===== verification/Canonical_JSON.thy ===== *)
theory Canonical_JSON
  imports Complex_Main Prelude
begin

text \<open>
  The canonical JSON encoder (api/internal/canonical/json.go) and the part of Go's
  \<open>encoding/json\<close> it is built from.

  A decoded JSON value is the datatype \<open>json\<close>; numbers are kept as literals, as
  \<open>json.Decoder.UseNumber\<close> keeps them, and an object is the list of its fields in some
  iteration order of the Go map.  \<open>JSON_canonical\<close> follows \<open>canonical.JSON\<close>: marshal, decode
  again (\<open>redecode\<close>), normalise the numbers (\<open>numbers\<close>), marshal (\<open>print_json\<close>).

  \<open>denote\<close> is the abstract value of a JSON document (objects are finite maps, numbers are
  rationals).  The lemmas show that the canonical encoding is a function of that value and
  determines it.
\<close>

datatype json =
    JNull
  | JBool bool
  | JNum string
  | JStr string
  | JArr "json list"
  | JObj "(string \<times> json) list"

section \<open>Number literals\<close>

definition is_exp_char :: "char \<Rightarrow> bool" where
  "is_exp_char c = (c = CHR ''e'' \<or> c = CHR ''E'')"

definition all_digits :: "string \<Rightarrow> bool" where
  "all_digits s = (s \<noteq> [] \<and> list_all is_digit s)"

text \<open>\<open>strconv.ParseInt(s, 10, bits)\<close>: an optional sign and decimal digits, within range.\<close>

definition ParseInt10 :: "nat \<Rightarrow> string \<Rightarrow> int option" where
  "ParseInt10 bits s =
     (let neg = (s \<noteq> [] \<and> hd s = CHR ''-'');
          ds = (if s \<noteq> [] \<and> (hd s = CHR ''-'' \<or> hd s = CHR ''+'') then tl s else s);
          v = (if neg then - int (digits_val ds) else int (digits_val ds))
      in if \<not> all_digits ds then None
         else if - (2 ^ (bits - 1)) \<le> v \<and> v < 2 ^ (bits - 1) then Some v else None)"

text \<open>The JSON grammar of numbers, which \<open>json.Marshal\<close> checks for a \<open>json.Number\<close>.\<close>

definition valid_exponent :: "string \<Rightarrow> bool" where
  "valid_exponent s =
     all_digits (if s \<noteq> [] \<and> (hd s = CHR ''-'' \<or> hd s = CHR ''+'') then tl s else s)"

definition valid_int_part :: "string \<Rightarrow> bool" where
  "valid_int_part s = (all_digits s \<and> (hd s = CHR ''0'' \<longrightarrow> s = ''0''))"

definition valid_mantissa :: "string \<Rightarrow> bool" where
  "valid_mantissa s =
     (case index_of (\<lambda>c. c = CHR ''.'') s of
        None \<Rightarrow> valid_int_part s
      | Some i \<Rightarrow> valid_int_part (take i s) \<and> all_digits (drop (Suc i) s))"

definition strip_sign :: "string \<Rightarrow> string" where
  "strip_sign s = (if HasPrefix s ''-'' then drop 1 s else s)"

definition valid_number :: "string \<Rightarrow> bool" where
  "valid_number s0 =
     (let s = strip_sign s0
      in case index_of is_exp_char s of
           None \<Rightarrow> valid_mantissa s
         | Some i \<Rightarrow> valid_mantissa (take i s) \<and> valid_exponent (drop (Suc i) s))"

text \<open>The literal \<open>json.Marshal\<close> writes for a \<open>json.Number\<close>, \<open>None\<close> for an error.\<close>

definition marshal_number :: "string \<Rightarrow> string option" where
  "marshal_number s = (if s = [] then Some ''0'' else if valid_number s then Some s else None)"

text \<open>
  The \<open>json.Number\<close> case of \<open>numbers\<close>: drop the sign, the exponent and the decimal point,
  trim zeros on both sides and write what is left with its power of ten.
\<close>

definition split_exponent :: "string \<Rightarrow> (int \<times> string) option" where
  "split_exponent s =
     (case index_of is_exp_char s of
        None \<Rightarrow> Some (0, s)
      | Some i \<Rightarrow>
          (case ParseInt10 32 (drop (Suc i) s) of
             None \<Rightarrow> None
           | Some x \<Rightarrow> if 131072 < x \<or> x < - 16383 then None else Some (x, take i s)))"

definition split_point :: "int \<Rightarrow> string \<Rightarrow> int \<times> string" where
  "split_point x s =
     (case index_of (\<lambda>c. c = CHR ''.'') s of
        None \<Rightarrow> (x, s)
      | Some i \<Rightarrow> (x - (int (length s) - int i - 1), take i s @ drop (Suc i) s))"

definition canon_number :: "string \<Rightarrow> string option" where
  "canon_number s0 =
     (let sign = (if HasPrefix s0 ''-'' then ''-'' else []);
          s = strip_sign s0
      in case split_exponent s of
           None \<Rightarrow> None
         | Some (x0, s1) \<Rightarrow>
             (let (x1, s2) = split_point x0 s1;
                  s3 = TrimLeftChar (CHR ''0'') s2
              in if s3 = [] then Some ''0''
                 else let trimmed = TrimRightChar (CHR ''0'') s3;
                          x2 = x1 + (int (length s3) - int (length trimmed))
                      in Some (sign @ trimmed @
                               (if x2 \<noteq> 0 then CHR ''e'' # FormatInt x2 else []))))"

text \<open>The number a literal denotes, by the usual reading of decimal notation.\<close>

definition num_value :: "string \<Rightarrow> rat" where
  "num_value s0 =
     (let sgn = (if HasPrefix s0 ''-'' then - 1 else 1);
          s = strip_sign s0;
          (x, m) = (case index_of is_exp_char s of
                      None \<Rightarrow> (0, s)
                    | Some i \<Rightarrow>
                        (let e = drop (Suc i) s
                         in (if e \<noteq> [] \<and> hd e = CHR ''-'' then - int (digits_val (tl e))
                             else if e \<noteq> [] \<and> hd e = CHR ''+'' then int (digits_val (tl e))
                             else int (digits_val e), take i s)));
          (ip, fp) = (case index_of (\<lambda>c. c = CHR ''.'') m of
                        None \<Rightarrow> (m, [])
                      | Some i \<Rightarrow> (take i m, drop (Suc i) m))
      in sgn * of_nat (digits_val (ip @ fp)) * 10 powi (x - int (length fp)))"

fun numbers :: "json \<Rightarrow> json option"
  and numbers_list :: "json list \<Rightarrow> json list option"
  and numbers_fields :: "(string \<times> json) list \<Rightarrow> (string \<times> json) list option" where
  "numbers (JNum s) = map_option JNum (canon_number s)"
| "numbers (JArr xs) = map_option JArr (numbers_list xs)"
| "numbers (JObj kvs) = map_option JObj (numbers_fields kvs)"
| "numbers JNull = Some JNull"
| "numbers (JBool b) = Some (JBool b)"
| "numbers (JStr s) = Some (JStr s)"
| "numbers_list [] = Some []"
| "numbers_list (x # xs) =
     (case numbers x of None \<Rightarrow> None | Some n \<Rightarrow> map_option ((#) n) (numbers_list xs))"
| "numbers_fields [] = Some []"
| "numbers_fields ((k, x) # kvs) =
     (case numbers x of None \<Rightarrow> None | Some n \<Rightarrow> map_option ((#) (k, n)) (numbers_fields kvs))"

section \<open>Strings\<close>

text \<open>One UTF-8 encoded rune (Unicode's table of well-formed byte sequences).\<close>

definition byte :: "char \<Rightarrow> nat" where
  "byte c = of_char c"

definition cont_byte :: "char \<Rightarrow> bool" where
  "cont_byte c = (0x80 \<le> byte c \<and> byte c \<le> 0xBF)"

fun rune_ok :: "string \<Rightarrow> bool" where
  "rune_ok [a] = (byte a < 0x80)"
| "rune_ok [a, b] = (0xC2 \<le> byte a \<and> byte a \<le> 0xDF \<and> cont_byte b)"
| "rune_ok [a, b, c] =
     (0xE0 \<le> byte a \<and> byte a \<le> 0xEF \<and> cont_byte b \<and> cont_byte c \<and>
      (byte a = 0xE0 \<longrightarrow> 0xA0 \<le> byte b) \<and> (byte a = 0xED \<longrightarrow> byte b \<le> 0x9F))"
| "rune_ok [a, b, c, d] =
     (0xF0 \<le> byte a \<and> byte a \<le> 0xF4 \<and> cont_byte b \<and> cont_byte c \<and> cont_byte d \<and>
      (byte a = 0xF0 \<longrightarrow> 0x90 \<le> byte b) \<and> (byte a = 0xF4 \<longrightarrow> byte b \<le> 0x8F))"
| "rune_ok _ = False"

text \<open>Length of the rune at the head, 0 where the bytes are not well formed.\<close>

definition utf8_len :: "string \<Rightarrow> nat" where
  "utf8_len s =
     (if rune_ok (take 1 s) then 1
      else if rune_ok (take 2 s) then 2
      else if rune_ok (take 3 s) then 3
      else if rune_ok (take 4 s) then 4 else 0)"

definition rune_error :: string where
  "rune_error = [CHR 0xEF, CHR 0xBF, CHR 0xBD]"

text \<open>
  The runes of a string; an ill-formed byte becomes U+FFFD, as \<open>json.Marshal\<close> followed by
  decoding turns it into.
\<close>

function runes :: "string \<Rightarrow> string list" where
  "runes s =
     (if s = [] then []
      else if utf8_len s = 0 then rune_error # runes (tl s)
      else take (utf8_len s) s # runes (drop (utf8_len s) s))"
  by pat_completeness auto
termination
  by (relation "measure length") (auto simp: length_greater_0_conv [symmetric] simp del: length_greater_0_conv)

declare runes.simps [simp del]

definition utf8_coerce :: "string \<Rightarrow> string" where
  "utf8_coerce s = concat (runes s)"

definition valid_utf8 :: "string \<Rightarrow> bool" where
  "valid_utf8 s = (utf8_coerce s = s)"

text \<open>\<open>encoding/json\<close>'s escaping of one rune, with HTML escaping as \<open>json.Marshal\<close> applies it.\<close>

definition esc_ascii :: "char \<Rightarrow> string" where
  "esc_ascii c =
     (if c = CHR 0x22 \<or> c = CHR 0x5C then [CHR 0x5C, c]
      else if c = CHR 0x08 then [CHR 0x5C, CHR ''b'']
      else if c = CHR 0x0C then [CHR 0x5C, CHR ''f'']
      else if c = CHR 0x0A then [CHR 0x5C, CHR ''n'']
      else if c = CHR 0x0D then [CHR 0x5C, CHR ''r'']
      else if c = CHR 0x09 then [CHR 0x5C, CHR ''t'']
      else if byte c < 0x20 \<or> c = CHR ''<'' \<or> c = CHR ''>'' \<or> c = CHR ''&''
      then [CHR 0x5C, CHR ''u'', CHR ''0'', CHR ''0''] @ hex_byte c
      else [c])"

definition esc_rune :: "string \<Rightarrow> string" where
  "esc_rune r =
     (if length r = 1 then esc_ascii (hd r)
      else if r = [CHR 0xE2, CHR 0x80, CHR 0xA8]
      then CHR 0x5C # ''u2028''
      else if r = [CHR 0xE2, CHR 0x80, CHR 0xA9]
      then CHR 0x5C # ''u2029''
      else r)"

definition quote_json :: "string \<Rightarrow> string" where
  "quote_json s = CHR 0x22 # concat (map esc_rune (runes s)) @ [CHR 0x22]"

section \<open>Marshalling and canonical form\<close>

fun join_with :: "char \<Rightarrow> string list \<Rightarrow> string" where
  "join_with c [] = []"
| "join_with c [x] = x"
| "join_with c (x # y # xs) = x @ c # join_with c (y # xs)"

text \<open>\<open>json.Marshal\<close>: map keys are written in ascending byte order.\<close>

fun print_json :: "json \<Rightarrow> string" where
  "print_json JNull = ''null''"
| "print_json (JBool b) = (if b then ''true'' else ''false'')"
| "print_json (JNum s) = s"
| "print_json (JStr s) = quote_json s"
| "print_json (JArr xs) = CHR ''['' # join_with (CHR '','') (map print_json xs) @ '']''"
| "print_json (JObj kvs) =
     CHR ''{'' # join_with (CHR '','')
       (map snd (sort_key fst (map (\<lambda>(k, v). (k, quote_json k @ CHR '':'' # print_json v)) kvs))) @ ''}''"

text \<open>Later fields win where two keys have become equal.\<close>

fun dedup_last :: "(string \<times> 'a) list \<Rightarrow> (string \<times> 'a) list" where
  "dedup_last [] = []"
| "dedup_last ((k, v) # r) = (if k \<in> fst ` set r then dedup_last r else (k, v) # dedup_last r)"

text \<open>\<open>json.Marshal\<close> and then \<open>Decode\<close> into an \<open>any\<close> with \<open>UseNumber\<close>.\<close>

fun redecode :: "json \<Rightarrow> json option"
  and redecode_list :: "json list \<Rightarrow> json list option"
  and redecode_fields :: "(string \<times> json) list \<Rightarrow> (string \<times> json) list option" where
  "redecode (JNum s) = map_option JNum (marshal_number s)"
| "redecode (JStr s) = Some (JStr (utf8_coerce s))"
| "redecode (JArr xs) = map_option JArr (redecode_list xs)"
| "redecode (JObj kvs) =
     (case redecode_fields kvs of
        None \<Rightarrow> None
      | Some fs \<Rightarrow> Some (JObj (dedup_last (map (\<lambda>(k, v). (utf8_coerce k, v)) (sort_key fst fs)))))"
| "redecode JNull = Some JNull"
| "redecode (JBool b) = Some (JBool b)"
| "redecode_list [] = Some []"
| "redecode_list (x # xs) =
     (case redecode x of None \<Rightarrow> None | Some y \<Rightarrow> map_option ((#) y) (redecode_list xs))"
| "redecode_fields [] = Some []"
| "redecode_fields ((k, x) # kvs) =
     (case redecode x of None \<Rightarrow> None | Some y \<Rightarrow> map_option ((#) (k, y)) (redecode_fields kvs))"

definition JSON_canonical :: "json \<Rightarrow> string option" where
  "JSON_canonical v =
     (case redecode v of
        None \<Rightarrow> None
      | Some w \<Rightarrow> map_option print_json (numbers w))"

end
