(* ===== verification/JSON_Numbers.thy ===== *)
theory JSON_Numbers
  imports Canonical_JSON
begin

text \<open>
  Normalisation of number literals: \<open>canon_number\<close> keeps the value of a literal
  (\<open>num_value_canon\<close>), and literals with the same value get the same text
  (\<open>canon_number_eq_iff\<close>).  This is what makes the hash of an event independent of how
  PostgreSQL's \<open>jsonb\<close> prints a number back.
\<close>

section \<open>Shape of a canonical literal\<close>

definition sign_str :: "bool \<Rightarrow> string" where
  "sign_str n = (if n then ''-'' else [])"

definition sign_val :: "bool \<Rightarrow> rat" where
  "sign_val n = (if n then - 1 else 1)"

definition canon_text :: "bool \<Rightarrow> string \<Rightarrow> int \<Rightarrow> string" where
  "canon_text n ds x = sign_str n @ ds @ (if x \<noteq> 0 then CHR ''e'' # FormatInt x else [])"

text \<open>Significant digits: neither a leading nor a trailing zero.\<close>

definition sig_digits :: "string \<Rightarrow> bool" where
  "sig_digits ds = (ds \<noteq> [] \<and> list_all is_digit ds \<and> hd ds \<noteq> CHR ''0'' \<and> last ds \<noteq> CHR ''0'')"

lemma digit_val_0_iff: "is_digit c \<Longrightarrow> digit_val c = 0 \<longleftrightarrow> c = CHR ''0''"
  by (metis digit_char_0 digit_char_digit_val digit_val_digit_char mod_0)

lemma sig_digits_not_dvd: "sig_digits ds \<Longrightarrow> \<not> 10 dvd digits_val ds"
proof -
  assume sd: "sig_digits ds"
  then obtain c bs where ds: "ds = bs @ [c]" by (metis rev_exhaust sig_digits_def)
  with sd have "is_digit c" "c \<noteq> CHR ''0''" by (auto simp: sig_digits_def)
  then have "digit_val c \<noteq> 0" "digit_val c < 10" by (auto simp: digit_val_0_iff)
  with ds show ?thesis by (simp add: dvd_eq_mod_eq_0)
qed

lemma sig_digits_pos: "sig_digits ds \<Longrightarrow> 0 < digits_val ds"
  by (metis dvd_0_right neq0_conv sig_digits_not_dvd)

lemma sig_digits_inj:
  "sig_digits ds \<Longrightarrow> sig_digits es \<Longrightarrow> digits_val ds = digits_val es \<Longrightarrow> ds = es"
  by (metis dec_nat_digits_val sig_digits_def)

lemma digits_val_dropWhile_zero:
  "digits_val (dropWhile (\<lambda>x. x = CHR ''0'') s) = digits_val s"
  by (induction s) (auto simp: digits_val_Cons digit_val_def)

lemma digits_val_replicate_zero [simp]: "digits_val (replicate k (CHR ''0'')) = 0"
  by (induction k) (auto simp: digits_val_Cons digit_val_def)

lemma TrimRight_split:
  "\<exists>k. s = TrimRightChar c s @ replicate k c \<and> k = length s - length (TrimRightChar c s)"
proof -
  have "takeWhile (\<lambda>x. x = c) (rev s) = replicate (length (takeWhile (\<lambda>x. x = c) (rev s))) c"
    by (rule replicate_length_same [symmetric]) (auto dest: set_takeWhileD)
  moreover have "s = rev (dropWhile (\<lambda>x. x = c) (rev s)) @ rev (takeWhile (\<lambda>x. x = c) (rev s))"
    by (metis rev_append rev_rev_ident takeWhile_dropWhile_id)
  ultimately have eq: "s = TrimRightChar c s @ replicate (length (takeWhile (\<lambda>x. x = c) (rev s))) c"
    by (metis TrimRightChar_def rev_replicate)
  then have "length (takeWhile (\<lambda>x. x = c) (rev s)) = length s - length (TrimRightChar c s)"
    by (metis add_diff_cancel_left' length_append length_replicate)
  with eq show ?thesis by metis
qed

lemma TrimRight_last: "TrimRightChar c s \<noteq> [] \<Longrightarrow> last (TrimRightChar c s) \<noteq> c"
  unfolding TrimRightChar_def
  by (metis (mono_tags, lifting) hd_dropWhile last_rev rev_is_Nil_conv)

lemma TrimRight_hd: "TrimRightChar c s \<noteq> [] \<Longrightarrow> hd (TrimRightChar c s) = hd s"
  using TrimRight_split [of s c] by (metis hd_append2)

lemma TrimRight_Nil: "TrimRightChar c s = [] \<Longrightarrow> set s \<subseteq> {c}"
  unfolding TrimRightChar_def by (auto simp: dropWhile_eq_Nil_conv)

lemma trim_sig_digits:
  assumes "list_all is_digit s" and "TrimLeftChar (CHR ''0'') s \<noteq> []"
  shows "sig_digits (TrimRightChar (CHR ''0'') (TrimLeftChar (CHR ''0'') s))"
proof -
  let ?l = "TrimLeftChar (CHR ''0'') s" and ?t = "TrimRightChar (CHR ''0'') (TrimLeftChar (CHR ''0'') s)"
  have hd: "hd ?l \<noteq> CHR ''0''"
    using assms(2) unfolding TrimLeftChar_def by (metis (mono_tags, lifting) hd_dropWhile)
  have "set ?l \<subseteq> set s" unfolding TrimLeftChar_def by (auto dest: set_dropWhileD)
  with assms(1) have dl: "list_all is_digit ?l" by (auto simp: list_all_iff)
  have ne: "?t \<noteq> []"
    using hd assms(2) TrimRight_Nil [of "CHR ''0''" ?l] by (metis hd_in_set singletonD subsetD)
  obtain k where "?l = ?t @ replicate k (CHR ''0'')"
    using TrimRight_split [of ?l "CHR ''0''"] by blast
  with dl have "list_all is_digit ?t" by (metis list_all_append)
  with ne hd show ?thesis
    by (simp add: sig_digits_def TrimRight_hd TrimRight_last)
qed

lemma digits_val_trim:
  "digits_val s = digits_val (TrimRightChar (CHR ''0'') s) *
     10 ^ (length s - length (TrimRightChar (CHR ''0'') s))"
proof -
  obtain k where "s = TrimRightChar (CHR ''0'') s @ replicate k (CHR ''0'')"
    and "k = length s - length (TrimRightChar (CHR ''0'') s)"
    using TrimRight_split by blast
  then show ?thesis
    by (metis (no_types, lifting) add.right_neutral digits_val_append digits_val_replicate_zero
        length_replicate)
qed

lemma TrimRight_length: "length (TrimRightChar c s) \<le> length s"
  unfolding TrimRightChar_def by (metis length_dropWhile_le length_rev)

section \<open>The value of a literal\<close>

lemma split_exponent_value:
  assumes "split_exponent s = Some (x, m)"
  shows "(case index_of is_exp_char s of
            None \<Rightarrow> (0, s)
          | Some i \<Rightarrow>
              (let e = drop (Suc i) s
               in (if e \<noteq> [] \<and> hd e = CHR ''-'' then - int (digits_val (tl e))
                   else if e \<noteq> [] \<and> hd e = CHR ''+'' then int (digits_val (tl e))
                   else int (digits_val e), take i s))) = (x, m)"
  using assms
  by (auto simp: split_exponent_def ParseInt10_def Let_def split: option.splits if_splits)

lemma num_value_split:
  assumes "split_exponent (strip_sign s) = Some (x0, s1)" and "split_point x0 s1 = (x1, s2)"
  shows "num_value s = sign_val (HasPrefix s ''-'') * of_nat (digits_val s2) * 10 powi x1"
proof (cases "index_of (\<lambda>c. c = CHR ''.'') s1")
  case None
  with assms show ?thesis
    by (simp add: num_value_def split_exponent_value [OF assms(1)] split_point_def sign_val_def)
next
  case (Some i)
  then have "i < length s1" by (blast dest: index_of_Some)
  then have "int (length s1) - int i - 1 = int (length (drop (Suc i) s1))" by simp
  with Some assms show ?thesis
    by (auto simp: num_value_def split_exponent_value [OF assms(1)] split_point_def sign_val_def)
qed

lemma valid_mantissa_digits:
  "valid_mantissa m \<Longrightarrow> split_point x m = (y, ds) \<Longrightarrow> list_all is_digit ds"
  by (auto simp: valid_mantissa_def split_point_def valid_int_part_def all_digits_def
      split: option.splits)

lemma valid_number_mantissa:
  "valid_number s \<Longrightarrow> split_exponent (strip_sign s) = Some (x, m) \<Longrightarrow> valid_mantissa m"
  by (auto simp: valid_number_def split_exponent_def Let_def split: option.splits if_splits)

lemma ten_powi_add: "(10::rat) powi (x + int k) = 10 powi x * 10 ^ k"
  by (simp add: power_int_add)

lemma canon_number_cases:
  assumes "valid_number s" and "canon_number s = Some t"
  obtains (zero) "t = ''0''" "num_value s = 0"
  | (nonzero) ds x where "sig_digits ds" "t = canon_text (HasPrefix s ''-'') ds x"
      "num_value s = sign_val (HasPrefix s ''-'') * of_nat (digits_val ds) * 10 powi x"
proof -
  obtain x0 s1 where e: "split_exponent (strip_sign s) = Some (x0, s1)"
    using assms(2) by (auto simp: canon_number_def Let_def split: option.splits)
  obtain x1 s2 where p: "split_point x0 s1 = (x1, s2)" by fastforce
  have dg: "list_all is_digit s2"
    using valid_mantissa_digits [OF valid_number_mantissa [OF assms(1) e] p] .
  define l where "l = TrimLeftChar (CHR ''0'') s2"
  define r where "r = TrimRightChar (CHR ''0'') l"
  have v: "num_value s = sign_val (HasPrefix s ''-'') * of_nat (digits_val l) * 10 powi x1"
    using num_value_split [OF e p] by (simp add: l_def TrimLeftChar_def digits_val_dropWhile_zero)
  show thesis
  proof (cases "l = []")
    case True
    with v assms(2) e p show thesis
      by (intro zero) (auto simp: canon_number_def Let_def l_def [symmetric])
  next
    case False
    have sd: "sig_digits r" using trim_sig_digits [OF dg] False by (simp add: l_def r_def)
    have len: "int (length l) - int (length r) = int (length l - length r)"
      using TrimRight_length [of "CHR ''0''" l] by (simp add: r_def of_nat_diff)
    have "t = canon_text (HasPrefix s ''-'') r (x1 + int (length l - length r))"
      using assms(2) e p False
      by (auto simp: canon_number_def canon_text_def sign_str_def Let_def l_def [symmetric]
          r_def [symmetric] len)
    moreover have "num_value s = sign_val (HasPrefix s ''-'') * of_nat (digits_val r) *
        10 powi (x1 + int (length l - length r))"
      using v digits_val_trim [of l] by (simp add: r_def ten_powi_add)
    ultimately show thesis using nonzero sd by blast
  qed
qed

section \<open>Uniqueness\<close>

lemma powi_unique_le:
  fixes a b :: int
  assumes "\<not> 10 dvd a" and "x \<le> y" and eq: "of_int a * (10::rat) powi x = of_int b * 10 powi y"
  shows "a = b \<and> x = y"
proof -
  obtain k where k: "y = x + int k" using assms(2) by (metis zle_iff_zadd)
  have nz: "(10::rat) powi x \<noteq> 0" by simp
  from eq k have "of_int a * (10::rat) powi x = (of_int b * 10 ^ k) * 10 powi x"
    by (simp add: ten_powi_add)
  with nz have "(of_int a :: rat) = of_int b * 10 ^ k" by simp
  then have ab: "a = b * 10 ^ k"
    by (metis of_int_eq_iff of_int_mult of_int_numeral of_int_power)
  then have "k = 0" using assms(1) by (metis dvd_mult dvd_power neq0_conv)
  with ab k show ?thesis by simp
qed

lemma powi_unique:
  fixes a b :: int
  assumes "\<not> 10 dvd a" and "\<not> 10 dvd b" and "of_int a * (10::rat) powi x = of_int b * 10 powi y"
  shows "a = b \<and> x = y"
  using powi_unique_le [of a x y b] powi_unique_le [of b y x a] assms by (cases "x \<le> y") auto

lemma canon_text_unique:
  assumes "sig_digits ds" and "sig_digits es"
    and "sign_val m * of_nat (digits_val ds) * 10 powi x =
         sign_val n * of_nat (digits_val es) * 10 powi y"
  shows "canon_text m ds x = canon_text n es y"
proof -
  define a where "a = (if m then - int (digits_val ds) else int (digits_val ds))"
  define b where "b = (if n then - int (digits_val es) else int (digits_val es))"
  have "\<not> 10 dvd int (digits_val ds)" "\<not> 10 dvd int (digits_val es)"
    using sig_digits_not_dvd [OF assms(1)] sig_digits_not_dvd [OF assms(2)] by presburger+
  then have nd: "\<not> 10 dvd a" "\<not> 10 dvd b" by (simp_all add: a_def b_def)
  have eq: "of_int a * (10::rat) powi x = of_int b * 10 powi y"
  proof -
    have "of_int a = sign_val m * of_nat (digits_val ds)" "of_int b = sign_val n * of_nat (digits_val es)"
      by (simp_all add: a_def b_def sign_val_def)
    with assms(3) show ?thesis by (simp only:)
  qed
  have ab: "a = b" and xy: "x = y" using powi_unique [OF nd eq] by blast+
  have "m = n \<and> digits_val ds = digits_val es"
    using ab sig_digits_pos [OF assms(1)] sig_digits_pos [OF assms(2)]
    unfolding a_def b_def by (cases m; cases n; simp)
  then show ?thesis using sig_digits_inj [OF assms(1,2)] xy by simp
qed

section \<open>Reading a canonical literal back\<close>

lemma strip_sign_text: "sig_digits ds \<Longrightarrow> strip_sign (canon_text n ds x) = canon_text False ds x"
  by (cases ds) (auto simp: strip_sign_def canon_text_def sign_str_def HasPrefix_def sig_digits_def)

lemma HasPrefix_text: "sig_digits ds \<Longrightarrow> HasPrefix (canon_text n ds x) ''-'' = n"
  by (cases ds) (auto simp: canon_text_def sign_str_def HasPrefix_def sig_digits_def)

lemma digit_not_exp: "is_digit c \<Longrightarrow> \<not> is_exp_char c \<and> c \<noteq> CHR ''.'' \<and> c \<noteq> CHR ''+''"
  by (auto simp: is_digit_def is_exp_char_def)

lemma index_exp_text:
  "sig_digits ds \<Longrightarrow>
     index_of is_exp_char (canon_text False ds x) = (if x = 0 then None else Some (length ds))"
proof -
  assume "sig_digits ds"
  then have "\<forall>c \<in> set ds. \<not> is_exp_char c"
    by (auto simp: sig_digits_def list_all_iff dest: digit_not_exp)
  then show ?thesis
    by (auto simp: canon_text_def sign_str_def index_of_append index_of_None) (simp add: is_exp_char_def)
qed

lemma index_point_digits:
  "list_all is_digit ds \<Longrightarrow> index_of (\<lambda>c. c = CHR ''.'') ds = None"
  by (auto simp: list_all_iff index_of_None dest: digit_not_exp)

lemma hd_dec_nat_digit: "is_digit (hd (dec_nat n))"
  using dec_nat_digits [of n] by (cases "dec_nat n") auto

lemma num_value_text:
  assumes "sig_digits ds"
  shows "num_value (canon_text n ds x) = sign_val n * of_nat (digits_val ds) * 10 powi x"
proof -
  have dg: "index_of (\<lambda>c. c = CHR ''.'') ds = None"
    using assms by (auto simp: sig_digits_def index_point_digits)
  have hd: "hd (dec_nat k) \<noteq> CHR ''-''" "hd (dec_nat k) \<noteq> CHR ''+''" for k
    using hd_dec_nat_digit [of k] minus_not_digit digit_not_exp by metis+
  have "drop (Suc (length ds)) (canon_text False ds x) = FormatInt x" if "x \<noteq> 0"
    using that by (simp add: canon_text_def sign_str_def)
  moreover have "take (length ds) (canon_text False ds x) = ds"
    by (simp add: canon_text_def sign_str_def)
  moreover have "canon_text False ds 0 = ds" by (simp add: canon_text_def sign_str_def)
  ultimately show ?thesis
    using assms dg hd
    by (auto simp: num_value_def strip_sign_text HasPrefix_text index_exp_text sign_val_def Let_def
        FormatInt_def)
qed

lemma num_value_zero: "num_value ''0'' = 0"
  by (simp add: num_value_def strip_sign_def HasPrefix_def is_exp_char_def digits_val_def
      digit_val_def)

lemma valid_number_text: "sig_digits ds \<Longrightarrow> valid_number (canon_text n ds x)"
proof -
  assume sd: "sig_digits ds"
  have m: "valid_mantissa ds"
    using sd by (auto simp: valid_mantissa_def valid_int_part_def all_digits_def sig_digits_def
        index_point_digits)
  have "drop (Suc (length ds)) (canon_text False ds x) = FormatInt x" if "x \<noteq> 0"
    using that by (simp add: canon_text_def sign_str_def)
  moreover have "valid_exponent (FormatInt x)"
  proof -
    have "hd (dec_nat k) \<noteq> CHR ''-''" "hd (dec_nat k) \<noteq> CHR ''+''" for k
      using hd_dec_nat_digit [of k] minus_not_digit digit_not_exp by metis+
    then show ?thesis
      by (auto simp: valid_exponent_def FormatInt_def all_digits_def dec_nat_digits)
  qed
  moreover have "take (length ds) (canon_text False ds x) = ds"
    by (simp add: canon_text_def sign_str_def)
  moreover have "canon_text False ds 0 = ds" by (simp add: canon_text_def sign_str_def)
  ultimately show ?thesis
    using sd m by (auto simp: valid_number_def strip_sign_text index_exp_text Let_def)
qed

lemma num_value_canon:
  "valid_number s \<Longrightarrow> canon_number s = Some t \<Longrightarrow> num_value t = num_value s"
  by (erule (1) canon_number_cases) (simp_all add: num_value_zero num_value_text)

lemma valid_number_canon:
  "valid_number s \<Longrightarrow> canon_number s = Some t \<Longrightarrow> valid_number t"
  by (erule (1) canon_number_cases)
    (simp_all add: valid_number_text, simp add: valid_number_def strip_sign_def HasPrefix_def
      is_exp_char_def valid_mantissa_def valid_int_part_def all_digits_def is_digit_def)

lemma canon_number_unique:
  assumes "valid_number s" "canon_number s = Some t" "valid_number s'" "canon_number s' = Some t'"
    and "num_value s = num_value s'"
  shows "t = t'"
  using assms(1,2)
proof (cases rule: canon_number_cases)
  case zero
  from assms(3,4) show ?thesis
  proof (cases rule: canon_number_cases)
    case (nonzero ds x)
    then have "num_value s' \<noteq> 0" using sig_digits_pos by (auto simp: sign_val_def)
    with zero assms(5) show ?thesis by simp
  qed (use zero in simp)
next
  case (nonzero ds x)
  from assms(3,4) show ?thesis
  proof (cases rule: canon_number_cases)
    case zero
    from nonzero have "num_value s \<noteq> 0" using sig_digits_pos by (auto simp: sign_val_def)
    with zero assms(5) show ?thesis by simp
  next
    case nonzero': (nonzero es y)
    with nonzero assms(5) show ?thesis by (simp add: canon_text_unique)
  qed
qed

lemma canon_number_eq_iff:
  assumes "valid_number s" "canon_number s = Some t" "valid_number s'" "canon_number s' = Some t'"
  shows "t = t' \<longleftrightarrow> num_value s = num_value s'"
  using assms canon_number_unique num_value_canon by metis

end
