(* ===== verification/JSON_Encoding.thy ===== *)
theory JSON_Encoding
  imports JSON_Numbers
begin

text \<open>
  The written form of a canonical value determines it.  A string is written rune by rune with
  a prefix code (\<open>quote_json_inj\<close>), numbers end where a delimiter starts, arrays and objects
  are bracketed (\<open>print_json_inj\<close>).
\<close>

section \<open>Runes\<close>

lemma rune_ok_length: "rune_ok r \<Longrightarrow> 1 \<le> length r \<and> length r \<le> 4"
  by (cases r rule: rune_ok.cases) auto

lemma rune_ok_Nil [simp]: "\<not> rune_ok []"
  by simp

text \<open>The first byte of a rune fixes its length.\<close>

definition lead_len :: "char \<Rightarrow> nat" where
  "lead_len c = (if byte c < 0x80 then 1 else if byte c \<le> 0xDF then 2
                 else if byte c \<le> 0xEF then 3 else 4)"

lemma rune_ok_lead: "rune_ok r \<Longrightarrow> length r = lead_len (hd r)"
  by (cases r rule: rune_ok.cases) (auto simp: lead_len_def)

lemma rune_ok_prefix:
  assumes "rune_ok r" and "rune_ok (take n (r @ s))" and "1 \<le> n"
  shows "take n (r @ s) = r"
proof -
  have ne: "r \<noteq> []" using assms(1) by auto
  have "hd (take n (r @ s)) = hd r" using ne assms(3) by (cases r; cases n) auto
  then have len: "length (take n (r @ s)) = length r"
    using rune_ok_lead assms(1,2) by metis
  then show ?thesis
    by (metis (no_types, lifting) append_eq_append_conv append_take_drop_id take_all_iff
        take_append append.right_neutral diff_is_0_eq linorder_linear take_eq_Nil)
qed

lemma utf8_len_rune: "rune_ok r \<Longrightarrow> utf8_len (r @ s) = length r"
proof -
  assume ok: "rune_ok r"
  have pre: "n = length r" if "rune_ok (take n (r @ s))" "1 \<le> n" "n \<le> length (r @ s)" for n
    using rune_ok_prefix [OF ok that(1,2)] that(3) by (metis length_take min.absorb2)
  have tk: "take (length r) (r @ s) = r" by simp
  have le: "length r \<le> n \<Longrightarrow> rune_ok (take n (r @ s)) \<Longrightarrow> take n (r @ s) = r" for n
    using rune_ok_prefix [OF ok] rune_ok_length [OF ok] by (metis order.trans)
  have lt: "\<not> rune_ok (take n (r @ s))" if "n < length r" for n
  proof
    assume r: "rune_ok (take n (r @ s))"
    then have "1 \<le> n" by (metis One_nat_def rune_ok_Nil Suc_leI neq0_conv take0)
    with pre [OF r] that show False by simp
  qed
  have "length r = 1 \<or> length r = 2 \<or> length r = 3 \<or> length r = 4"
    using rune_ok_length [OF ok] by arith
  then show ?thesis
    using ok tk lt by (elim disjE) (simp_all add: utf8_len_def)
qed

lemma rune_error_ok [simp]: "rune_ok rune_error"
  by (simp add: rune_error_def byte_def cont_byte_def)

lemma utf8_len_ok: "utf8_len s \<noteq> 0 \<Longrightarrow> rune_ok (take (utf8_len s) s)"
  by (auto simp: utf8_len_def split: if_splits)

lemma runes_ok: "\<forall>r \<in> set (runes s). rune_ok r"
proof (induction s rule: runes.induct)
  case (1 s)
  then show ?case by (subst runes.simps) (auto intro: utf8_len_ok)
qed

lemma runes_concat: "\<forall>r \<in> set rs. rune_ok r \<Longrightarrow> runes (concat rs) = rs"
proof (induction rs)
  case Nil
  then show ?case by (simp add: runes.simps)
next
  case (Cons r rs)
  then have ok: "rune_ok r" by simp
  then have "r \<noteq> []" by auto
  with Cons ok show ?case
    by (subst runes.simps) (auto simp: utf8_len_rune)
qed

lemma valid_utf8_coerce [simp]: "valid_utf8 (utf8_coerce s)"
  by (simp add: valid_utf8_def utf8_coerce_def runes_concat runes_ok)

lemma runes_inj: "valid_utf8 s \<Longrightarrow> valid_utf8 t \<Longrightarrow> runes s = runes t \<Longrightarrow> s = t"
  by (metis utf8_coerce_def valid_utf8_def)

section \<open>Escaping is a prefix code\<close>

definition unesc_rune :: "string \<Rightarrow> string" where
  "unesc_rune s =
     (if s = CHR 0x5C # ''u2028'' then [CHR 0xE2, CHR 0x80, CHR 0xA8]
      else if s = CHR 0x5C # ''u2029'' then [CHR 0xE2, CHR 0x80, CHR 0xA9]
      else if hd s \<noteq> CHR 0x5C then s
      else if s ! 1 = CHR ''b'' then [CHR 0x08]
      else if s ! 1 = CHR ''f'' then [CHR 0x0C]
      else if s ! 1 = CHR ''n'' then [CHR 0x0A]
      else if s ! 1 = CHR ''r'' then [CHR 0x0D]
      else if s ! 1 = CHR ''t'' then [CHR 0x09]
      else if s ! 1 = CHR ''u''
      then (let h = byte (s ! 4) - 48; l = byte (s ! 5)
            in [char_of (16 * h + (if l < 58 then l - 48 else l - 87))])
      else [s ! 1])"

definition tok_len :: "string \<Rightarrow> nat" where
  "tok_len s =
     (if s = [] then 0
      else if hd s = CHR 0x5C then (if hd (tl s) = CHR ''u'' then 6 else 2)
      else lead_len (hd s))"

lemma byte_hex_digit: "d < 16 \<Longrightarrow> byte (hex_digit d) = (if d < 10 then 48 + d else 87 + d)"
  by (simp add: byte_def hex_digit_def)

lemma byte_char_of [simp]: "char_of (byte c) = c"
  by (simp add: byte_def)

lemma hex_byte_byte: "hex_byte c = [hex_digit (byte c div 16), hex_digit (byte c mod 16)]"
  by (simp add: hex_byte_def byte_def)

lemma unesc_hex:
  assumes "byte c < 0x80"
  shows "unesc_rune ([CHR 0x5C, CHR ''u'', CHR ''0'', CHR ''0''] @ hex_byte c) = [c]"
proof -
  let ?h = "byte c div 16" and ?l = "byte c mod 16"
  have h: "?h < 10" and l: "?l < 16" using assms by simp_all
  have "16 * ?h + ?l = byte c" by simp
  moreover have "byte (hex_digit ?h) = 48 + ?h" using h by (simp add: byte_hex_digit)
  moreover have "(if byte (hex_digit ?l) < 58 then byte (hex_digit ?l) - 48
                  else byte (hex_digit ?l) - 87) = ?l"
    using l by (auto simp: byte_hex_digit)
  ultimately have "[char_of (16 * (byte (hex_digit ?h) - 48) +
      (if byte (hex_digit ?l) < 58 then byte (hex_digit ?l) - 48 else byte (hex_digit ?l) - 87))] = [c]"
    by simp
  then show ?thesis
    by (simp add: unesc_rune_def hex_byte_byte Let_def)
qed

lemma ascii_unesc:
  assumes "byte c < 128"
  shows "unesc_rune (esc_ascii c) = [c] \<and> esc_ascii c \<noteq> [] \<and> hd (esc_ascii c) \<noteq> CHR 0x22 \<and>
      tok_len (esc_ascii c @ s) = length (esc_ascii c)"
proof -
  let ?S = "{CHR 0x22, CHR 0x5C, CHR 0x08, CHR 0x0C, CHR 0x0A, CHR 0x0D, CHR 0x09}"
  let ?hex = "byte c < 0x20 \<or> c = CHR ''<'' \<or> c = CHR ''>'' \<or> c = CHR ''&''"
  show ?thesis
  proof (cases "c \<in> ?S")
    case True
    then show ?thesis
      by (elim insertE emptyE; hypsubst) (simp_all add: esc_ascii_def unesc_rune_def tok_len_def)
  next
    case nS: False
    show ?thesis
    proof (cases ?hex)
      case True
      with nS have "esc_ascii c = [CHR 0x5C, CHR ''u'', CHR ''0'', CHR ''0''] @ hex_byte c"
        by (simp add: esc_ascii_def)
      then show ?thesis using unesc_hex [OF assms] by (simp add: tok_len_def hex_byte_def)
    next
      case False
      with nS have "esc_ascii c = [c]" by (simp add: esc_ascii_def)
      then show ?thesis using nS assms by (simp add: unesc_rune_def tok_len_def lead_len_def)
    qed
  qed
qed

lemma esc_rune_props:
  assumes "rune_ok r"
  shows "unesc_rune (esc_rune r) = r \<and> esc_rune r \<noteq> [] \<and> hd (esc_rune r) \<noteq> CHR 0x22 \<and>
      tok_len (esc_rune r @ s) = length (esc_rune r)"
proof (cases "length r = 1")
  case True
  then obtain c where r: "r = [c]" by (cases r) auto
  with assms ascii_unesc [of c s] show ?thesis by (simp add: esc_rune_def)
next
  case False
  have ne: "r \<noteq> []" using assms by auto
  have "byte (hd r) \<ge> 0x80"
    using assms False rune_ok_lead [OF assms] by (auto simp: lead_len_def split: if_splits)
  then have hd: "hd r \<noteq> CHR 0x5C" "hd r \<noteq> CHR 0x22" by (auto simp: byte_def)
  have raw: "unesc_rune r = r \<and> tok_len (r @ s) = length r"
    using hd ne rune_ok_lead [OF assms] by (auto simp: unesc_rune_def tok_len_def)
  consider "r = [CHR 0xE2, CHR 0x80, CHR 0xA8]" | "r = [CHR 0xE2, CHR 0x80, CHR 0xA9]"
    | "esc_rune r = r"
    using False unfolding esc_rune_def by presburger
  then show ?thesis
  proof cases
    case 3
    with raw ne hd show ?thesis by simp
  qed (simp_all add: esc_rune_def unesc_rune_def tok_len_def)
qed

lemma esc_rune_inj:
  assumes "rune_ok r" "rune_ok r'" "esc_rune r @ s = esc_rune r' @ t"
  shows "r = r' \<and> s = t"
proof -
  have "length (esc_rune r) = length (esc_rune r')"
    using assms esc_rune_props by metis
  then have "esc_rune r = esc_rune r'" "s = t" using assms(3) by auto
  with assms(1,2) show ?thesis using esc_rune_props by metis
qed

lemma esc_runes_inj:
  assumes "\<forall>r \<in> set rs. rune_ok r" "\<forall>r \<in> set rs'. rune_ok r"
    and "concat (map esc_rune rs) @ CHR 0x22 # s = concat (map esc_rune rs') @ CHR 0x22 # t"
  shows "rs = rs' \<and> s = t"
  using assms
proof (induction rs arbitrary: rs')
  case Nil
  then show ?case
  proof (cases rs')
    case (Cons r rs'')
    then have "esc_rune r \<noteq> []" "hd (esc_rune r) \<noteq> CHR 0x22"
      using Nil.prems(2) esc_rune_props by auto
    then have False
      using Nil.prems(3) Cons by (cases "esc_rune r") auto
    then show ?thesis ..
  qed (use Nil in simp)
next
  case (Cons r rs)
  show ?case
  proof (cases rs')
    case Nil
    have "esc_rune r \<noteq> []" "hd (esc_rune r) \<noteq> CHR 0x22"
      using Cons.prems(1) esc_rune_props by auto
    then have False
      using Cons.prems(3) Nil by (cases "esc_rune r") auto
    then show ?thesis ..
  next
    case rs': (Cons r' rs'')
    with Cons.prems have "esc_rune r @ (concat (map esc_rune rs) @ CHR 0x22 # s) =
        esc_rune r' @ (concat (map esc_rune rs'') @ CHR 0x22 # t)" by simp
    moreover have "rune_ok r" "rune_ok r'" using Cons.prems(1,2) rs' by auto
    ultimately have "r = r'"
      "concat (map esc_rune rs) @ CHR 0x22 # s = concat (map esc_rune rs'') @ CHR 0x22 # t"
      using esc_rune_inj by blast+
    with Cons.IH [of rs''] Cons.prems(1,2) rs' show ?thesis by simp
  qed
qed

lemma quote_json_inj:
  assumes "valid_utf8 s" "valid_utf8 s'" "quote_json s @ t = quote_json s' @ t'"
  shows "s = s' \<and> t = t'"
proof -
  have "concat (map esc_rune (runes s)) @ CHR 0x22 # t = concat (map esc_rune (runes s')) @ CHR 0x22 # t'"
    using assms(3) by (simp add: quote_json_def)
  then have "runes s = runes s' \<and> t = t'" using esc_runes_inj runes_ok by blast
  then show ?thesis using runes_inj assms(1,2) by blast
qed

section \<open>ASCII text in UTF-8\<close>

definition ascii :: "string \<Rightarrow> bool" where
  "ascii s = list_all (\<lambda>c. byte c < 128) s"

lemma ascii_utf8: "ascii s \<Longrightarrow> valid_utf8 s"
proof -
  assume "ascii s"
  then have "\<forall>r \<in> set (map (\<lambda>c. [c]) s). rune_ok r" by (auto simp: ascii_def list_all_iff)
  then have "runes (concat (map (\<lambda>c. [c]) s)) = map (\<lambda>c. [c]) s" by (rule runes_concat)
  then show ?thesis by (simp add: valid_utf8_def utf8_coerce_def)
qed

lemma ascii_append [simp]: "ascii (s @ t) \<longleftrightarrow> ascii s \<and> ascii t"
  by (simp add: ascii_def)

lemma ascii_Cons [simp]: "ascii (c # t) \<longleftrightarrow> byte c < 128 \<and> ascii t"
  by (simp add: ascii_def)

lemma ascii_Nil [simp]: "ascii []"
  by (simp add: ascii_def)

lemma valid_utf8_runes: "valid_utf8 s \<longleftrightarrow> (\<exists>rs. (\<forall>r \<in> set rs. rune_ok r) \<and> s = concat rs)"
  by (metis runes_concat runes_ok utf8_coerce_def valid_utf8_def)

lemma valid_utf8_append: "valid_utf8 s \<Longrightarrow> valid_utf8 t \<Longrightarrow> valid_utf8 (s @ t)"
  unfolding valid_utf8_runes by (metis Un_iff concat_append set_append)

lemma rune_multibyte: "rune_ok r \<Longrightarrow> c \<in> set r \<Longrightarrow> byte c < 128 \<Longrightarrow> r = [c]"
  by (cases r rule: rune_ok.cases) (auto simp: cont_byte_def)

text \<open>An ASCII byte of a well-formed string is a rune of its own.\<close>

lemma concat_runes_split:
  "\<forall>r \<in> set rs. rune_ok r \<Longrightarrow> byte c < 128 \<Longrightarrow> concat rs = xs @ c # ys \<Longrightarrow> valid_utf8 xs \<and> valid_utf8 ys"
proof (induction rs arbitrary: xs)
  case (Cons r rs)
  show ?case
  proof (cases "length r \<le> length xs")
    case True
    have "r @ concat rs = xs @ c # ys" using Cons.prems(3) by simp
    with True obtain zs where z: "xs = r @ zs" "concat rs = zs @ c # ys"
      by (metis append_eq_append_conv_if append_take_drop_id)
    then have "valid_utf8 zs \<and> valid_utf8 ys" using Cons by simp
    moreover have "valid_utf8 r" using Cons.prems(1) unfolding valid_utf8_runes by (intro exI [of _ "[r]"]) simp
    ultimately show ?thesis using z valid_utf8_append by simp
  next
    case False
    then have "r = take (length r) (xs @ c # ys)" using Cons.prems(3) by (metis append_eq_conv_conj concat.simps(2))
    with False have "c \<in> set r" by (metis append_Cons append_assoc in_set_conv_nth le_eq_less_or_eq length_take
        linorder_not_less nth_append_length nth_take take_all)
    then have "r = [c]" using Cons.prems(1,2) rune_multibyte by simp
    with False have "xs = []" by (cases xs) simp_all
    with \<open>r = [c]\<close> Cons.prems(3) have "ys = concat rs" by simp
    note ys = this \<open>xs = []\<close>
    have "valid_utf8 (concat rs)" using Cons.prems(1) unfolding valid_utf8_runes by auto
    with ys show ?thesis by (simp add: ascii_utf8)
  qed
qed simp

lemma valid_utf8_ascii_split: "byte c < 128 \<Longrightarrow> valid_utf8 (xs @ c # ys) \<Longrightarrow> valid_utf8 xs \<and> valid_utf8 ys"
  using concat_runes_split valid_utf8_runes by metis

lemma valid_utf8_replace:
  assumes "ascii m" "m \<noteq> []" "ascii n" "valid_utf8 (xs @ m @ ys)"
  shows "valid_utf8 (xs @ n @ ys)"
proof -
  have "valid_utf8 xs \<and> valid_utf8 ys" using assms(2,1,4)
  proof (induction m arbitrary: xs rule: list_nonempty_induct)
    case (single c)
    then show ?case using valid_utf8_ascii_split [of c xs ys] by simp
  next
    case (cons c m)
    have "valid_utf8 xs \<and> valid_utf8 (m @ ys)"
      using cons.prems by (intro valid_utf8_ascii_split [of c]) simp_all
    moreover have "ascii m" using cons.prems(1) by simp
    ultimately show ?case using cons.IH [of "[]"] by simp
  qed
  then show ?thesis using assms(3) ascii_utf8 valid_utf8_append by simp
qed

end
