(* ===== verification/JSON_Value.thy ===== *)
theory JSON_Value
  imports JSON_Encoding
begin

text \<open>
  The canonical encoding against the abstract value of a document.  \<open>print_json_inj\<close>: the text
  of a canonical value determines the value.  \<open>canonical_eq_iff\<close>: two documents have the same
  canonical text exactly when they denote the same value.
\<close>

section \<open>Abstract values\<close>

datatype jval =
    VNull
  | VBool bool
  | VNum rat
  | VStr string
  | VArr "jval list"
  | VObj "string \<Rightarrow> jval option"

fun denote :: "json \<Rightarrow> jval" where
  "denote JNull = VNull"
| "denote (JBool b) = VBool b"
| "denote (JNum s) = VNum (num_value s)"
| "denote (JStr s) = VStr s"
| "denote (JArr xs) = VArr (map denote xs)"
| "denote (JObj kvs) = VObj (map_of (map (\<lambda>(k, v). (k, denote v)) kvs))"

text \<open>What every value decoded by Go satisfies: distinct keys, well-formed UTF-8, valid literals.\<close>

fun wf_json :: "json \<Rightarrow> bool" where
  "wf_json (JNum s) = valid_number s"
| "wf_json (JStr s) = valid_utf8 s"
| "wf_json (JArr xs) = list_all wf_json xs"
| "wf_json (JObj kvs) =
     (distinct (map fst kvs) \<and> list_all (\<lambda>(k, v). valid_utf8 k \<and> wf_json v) kvs)"
| "wf_json _ = True"

text \<open>Canonical values are well formed with their keys in order.\<close>

fun canon_json :: "json \<Rightarrow> bool" where
  "canon_json (JNum s) = valid_number s"
| "canon_json (JStr s) = valid_utf8 s"
| "canon_json (JArr xs) = list_all canon_json xs"
| "canon_json (JObj kvs) =
     (sorted (map fst kvs) \<and> distinct (map fst kvs) \<and>
      list_all (\<lambda>(k, v). valid_utf8 k \<and> canon_json v) kvs)"
| "canon_json _ = True"

section \<open>Printing is injective on canonical values\<close>

definition delim :: "string \<Rightarrow> bool" where
  "delim s = (s = [] \<or> hd s \<in> {CHR '','', CHR '']'', CHR ''}''})"

definition num_char :: "char \<Rightarrow> bool" where
  "num_char c = (is_digit c \<or> c \<in> {CHR ''-'', CHR ''+'', CHR ''.'', CHR ''e'', CHR ''E''})"

lemma all_digits_num: "all_digits s \<Longrightarrow> list_all num_char s"
  by (auto simp: all_digits_def list_all_iff num_char_def)

lemma list_all_take_drop:
  "i < length s \<Longrightarrow> list_all P (take i s) \<Longrightarrow> P (s ! i) \<Longrightarrow> list_all P (drop (Suc i) s) \<Longrightarrow> list_all P s"
  by (metis id_take_nth_drop list.pred_inject(2) list_all_append)

lemma valid_mantissa_num: "valid_mantissa s \<Longrightarrow> s \<noteq> [] \<and> is_digit (hd s) \<and> list_all num_char s"
proof (cases "index_of (\<lambda>c. c = CHR ''.'') s")
  case None
  assume "valid_mantissa s"
  with None have "all_digits s" by (simp add: valid_mantissa_def valid_int_part_def)
  then show ?thesis by (cases s) (auto simp: all_digits_def all_digits_num list_all_iff num_char_def)
next
  case (Some i)
  assume "valid_mantissa s"
  with Some have d: "all_digits (take i s)" "all_digits (drop (Suc i) s)"
    by (auto simp: valid_mantissa_def valid_int_part_def)
  have i: "i < length s" "s ! i = CHR ''.''" using index_of_Some [OF Some] by auto
  then have "list_all num_char s"
    using d all_digits_num by (intro list_all_take_drop [OF i(1)]) (auto simp: num_char_def)
  moreover have "0 < i" using d(1) by (cases i) (auto simp: all_digits_def)
  then have "is_digit (hd s)" using d(1) by (cases s; cases i) (auto simp: all_digits_def)
  ultimately show ?thesis using i by auto
qed

lemma valid_exponent_num: "valid_exponent s \<Longrightarrow> list_all num_char s"
  by (cases s) (auto simp: valid_exponent_def num_char_def split: if_splits dest: all_digits_num)

lemma unsigned_num:
  assumes "case index_of is_exp_char s of None \<Rightarrow> valid_mantissa s
           | Some i \<Rightarrow> valid_mantissa (take i s) \<and> valid_exponent (drop (Suc i) s)"
  shows "s \<noteq> [] \<and> is_digit (hd s) \<and> list_all num_char s"
proof (cases "index_of is_exp_char s")
  case None
  with assms show ?thesis using valid_mantissa_num by simp
next
  case (Some i)
  have i: "i < length s" "is_exp_char (s ! i)" using index_of_Some [OF Some] by auto
  have m: "take i s \<noteq> []" "is_digit (hd (take i s))" "list_all num_char (take i s)"
    and e: "list_all num_char (drop (Suc i) s)"
    using assms Some valid_mantissa_num [of "take i s"] valid_exponent_num [of "drop (Suc i) s"]
    unfolding Some option.case by blast+
  have "list_all num_char s"
    using i m e by (intro list_all_take_drop [OF i(1)]) (auto simp: num_char_def is_exp_char_def)
  with m show ?thesis by (cases s; cases i) auto
qed

lemma valid_number_num:
  "valid_number s \<Longrightarrow> s \<noteq> [] \<and> (is_digit (hd s) \<or> hd s = CHR ''-'') \<and> list_all num_char s"
proof -
  assume "valid_number s"
  then have u: "strip_sign s \<noteq> []" "is_digit (hd (strip_sign s))" "list_all num_char (strip_sign s)"
    using unsigned_num [of "strip_sign s"] by (auto simp: valid_number_def Let_def)
  show ?thesis
  proof (cases "HasPrefix s ''-''")
    case True
    then obtain r where "s = CHR ''-'' # r" by (auto simp: HasPrefix_iff)
    with u show ?thesis by (simp add: strip_sign_def HasPrefix_def num_char_def)
  qed (use u in \<open>simp add: strip_sign_def\<close>)
qed

lemma delim_not_num: "delim s \<Longrightarrow> takeWhile num_char s = []"
  by (cases s) (auto simp: delim_def num_char_def is_digit_def)

lemma number_inj:
  assumes "valid_number x" "valid_number y" "delim s" "delim t" "x @ s = y @ t"
  shows "x = y \<and> s = t"
proof -
  have "takeWhile num_char (x @ s) = x" "takeWhile num_char (y @ t) = y"
    using valid_number_num [OF assms(1)] valid_number_num [OF assms(2)]
      delim_not_num [OF assms(3)] delim_not_num [OF assms(4)]
    by (auto simp: takeWhile_append2 list_all_iff)
  then have "x = y" using assms(5) by metis
  with assms(5) show ?thesis by simp
qed

text \<open>The first character of a value tells its kind.\<close>

definition opens_with :: "json \<Rightarrow> char \<Rightarrow> bool" where
  "opens_with v c = (case v of
      JNull \<Rightarrow> c = CHR ''n''
    | JBool b \<Rightarrow> c = (if b then CHR ''t'' else CHR ''f'')
    | JNum _ \<Rightarrow> is_digit c \<or> c = CHR ''-''
    | JStr _ \<Rightarrow> c = CHR 0x22
    | JArr _ \<Rightarrow> c = CHR ''[''
    | JObj _ \<Rightarrow> c = CHR ''{'')"

lemma print_opening: "canon_json v \<Longrightarrow> print_json v \<noteq> [] \<and> opens_with v (hd (print_json v))"
  by (cases v) (auto simp: opens_with_def quote_json_def dest: valid_number_num)

lemma opening_not_close: "opens_with v c \<Longrightarrow> c \<noteq> CHR '']'' \<and> c \<noteq> CHR ''}'' \<and> c \<noteq> CHR '',''"
  by (cases v) (auto simp: opens_with_def is_digit_def split: if_splits)

lemma join_with_Cons:
  "join_with c (x # xs) = x @ (if xs = [] then [] else c # join_with c xs)"
  by (cases xs) auto

lemma join_inj:
  assumes cl: "c \<in> {CHR '']'', CHR ''}''}"
    and ok: "\<forall>y \<in> set xs \<union> set ys. f y \<noteq> [] \<and> hd (f y) \<notin> {CHR '']'', CHR ''}''}"
    and inj: "\<And>x y s t. x \<in> set xs \<Longrightarrow> y \<in> set ys \<Longrightarrow> delim s \<Longrightarrow> delim t \<Longrightarrow>
                f x @ s = f y @ t \<Longrightarrow> x = y \<and> s = t"
    and eq: "join_with (CHR '','') (map f xs) @ c # s = join_with (CHR '','') (map f ys) @ c # t"
  shows "xs = ys \<and> s = t"
  using ok inj eq
proof (induction xs arbitrary: ys)
  case Nil
  show ?case
  proof (cases ys)
    case (Cons y ys')
    with Nil.prems(1) have "f y \<noteq> []" "hd (f y) \<noteq> c" using cl by auto
    with Nil.prems(3) Cons show ?thesis by (cases "f y") (auto simp: join_with_Cons)
  qed (use Nil in simp)
next
  case (Cons x xs)
  show ?case
  proof (cases ys)
    case Nil
    from Cons.prems(1) have "f x \<noteq> []" "hd (f x) \<noteq> c" using cl by auto
    with Cons.prems(3) Nil show ?thesis by (cases "f x") (auto simp: join_with_Cons)
  next
    case ys: (Cons y ys')
    let ?r = "(if xs = [] then [] else CHR '','' # join_with (CHR '','') (map f xs)) @ c # s"
    let ?r' = "(if ys' = [] then [] else CHR '','' # join_with (CHR '','') (map f ys')) @ c # t"
    have d: "delim ?r" "delim ?r'" using cl by (auto simp: delim_def)
    have "f x @ ?r = f y @ ?r'" using Cons.prems(3) ys by (simp add: join_with_Cons split: if_splits)
    then have "x = y \<and> ?r = ?r'" using ys by (intro Cons.prems(2) d) simp_all
    then have xy: "x = y" and r: "?r = ?r'" by blast+
    have c: "c \<noteq> CHR '',''" using cl by auto
    have "xs = ys' \<and> s = t"
    proof (cases "xs = []")
      case True
      with r c show ?thesis by (cases "ys' = []") auto
    next
      case False
      with r c have "ys' \<noteq> []" by auto
      with False r have
        "join_with (CHR '','') (map f xs) @ c # s = join_with (CHR '','') (map f ys') @ c # t" by simp
      moreover have "\<forall>y \<in> set xs \<union> set ys'. f y \<noteq> [] \<and> hd (f y) \<notin> {CHR '']'', CHR ''}''}"
        using Cons.prems(1) ys by auto
      moreover have "\<And>x y s t. x \<in> set xs \<Longrightarrow> y \<in> set ys' \<Longrightarrow> delim s \<Longrightarrow> delim t \<Longrightarrow>
                f x @ s = f y @ t \<Longrightarrow> x = y \<and> s = t"
        using Cons.prems(2) ys by auto
      ultimately show ?thesis using Cons.IH by blast
    qed
    with xy ys show ?thesis by simp
  qed
qed

definition print_field :: "string \<times> json \<Rightarrow> string" where
  "print_field kv = quote_json (fst kv) @ CHR '':'' # print_json (snd kv)"

lemma print_obj_sorted:
  assumes "sorted (map fst kvs)"
  shows "print_json (JObj kvs) = CHR ''{'' # join_with (CHR '','') (map print_field kvs) @ ''}''"
proof -
  let ?g = "\<lambda>kv. (fst kv, print_field kv)"
  have m: "map (\<lambda>(k, v). (k, quote_json k @ CHR '':'' # print_json v)) kvs = map ?g kvs"
    by (auto simp: print_field_def)
  have "sort_key fst (map ?g kvs) = map ?g kvs"
    using assms by (intro sort_key_id_if_sorted) (simp add: comp_def)
  then show ?thesis unfolding print_json.simps m by (simp add: comp_def)
qed

lemma opens_same:
  "canon_json w \<Longrightarrow> c # u = print_json w @ t \<Longrightarrow> opens_with w c"
  using print_opening [of w] by (cases "print_json w") auto

lemma print_json_inj:
  assumes "canon_json v" "canon_json w" "delim s" "delim t" "print_json v @ s = print_json w @ t"
  shows "v = w \<and> s = t"
  using assms
proof (induction v arbitrary: w s t)
  case (JNum x)
  then have "opens_with w (hd x)" "is_digit (hd x) \<or> hd x = CHR ''-''"
    using print_opening [of "JNum x"] print_opening [of w] valid_number_num [of x]
    by (metis canon_json.simps(1) hd_append2 print_json.simps(3))+
  then obtain y where "w = JNum y" by (cases w) (auto simp: opens_with_def is_digit_def split: if_splits)
  with JNum show ?case using number_inj [of x y s t] by simp
next
  case (JStr x)
  then have "opens_with w (CHR 0x22)"
    using print_opening [of "JStr x"] print_opening [of w]
    by (metis append_Cons hd_append2 list.sel(1) print_json.simps(4) quote_json_def)
  then obtain y where "w = JStr y" by (cases w) (auto simp: opens_with_def is_digit_def split: if_splits)
  with JStr show ?case using quote_json_inj [of x y s t] by simp
next
  case (JArr xs)
  then have "opens_with w (CHR ''['')" by (intro opens_same) auto
  then obtain ys where w: "w = JArr ys" by (cases w) (auto simp: opens_with_def is_digit_def split: if_splits)
  have ok: "\<forall>y \<in> set xs \<union> set ys. canon_json y" using JArr.prems(1,2) w by (auto simp: list_all_iff)
  then have "\<forall>y \<in> set xs \<union> set ys. print_json y \<noteq> [] \<and> hd (print_json y) \<notin> {CHR '']'', CHR ''}''}"
    using print_opening opening_not_close by fastforce
  moreover have "join_with (CHR '','') (map print_json xs) @ CHR '']'' # s =
      join_with (CHR '','') (map print_json ys) @ CHR '']'' # t"
    using JArr.prems(5) w by simp
  ultimately have "xs = ys \<and> s = t"
    using ok JArr.IH by (intro join_inj [where c = "CHR '']''" and f = print_json]) blast+
  with w show ?case by simp
next
  case (JObj kvs)
  then have "opens_with w (CHR ''{'')" by (intro opens_same) auto
  then obtain lvs where w: "w = JObj lvs" by (cases w) (auto simp: opens_with_def is_digit_def split: if_splits)
  have so: "sorted (map fst kvs)" "sorted (map fst lvs)" using JObj.prems(1,2) w by auto
  have ok: "\<forall>kv \<in> set kvs \<union> set lvs. valid_utf8 (fst kv) \<and> canon_json (snd kv)"
    using JObj.prems(1,2) w by (auto simp: list_all_iff)
  have "\<forall>y \<in> set kvs \<union> set lvs. print_field y \<noteq> [] \<and> hd (print_field y) \<notin> {CHR '']'', CHR ''}''}"
    by (simp add: print_field_def quote_json_def)
  moreover have "join_with (CHR '','') (map print_field kvs) @ CHR ''}'' # s =
      join_with (CHR '','') (map print_field lvs) @ CHR ''}'' # t"
    using JObj.prems(5) w so by (simp add: print_obj_sorted del: print_json.simps)
  moreover have "x = y \<and> s' = t'" if "x \<in> set kvs" "y \<in> set lvs" "delim s'" "delim t'"
    "print_field x @ s' = print_field y @ t'" for x y s' t'
  proof -
    have "quote_json (fst x) @ CHR '':'' # print_json (snd x) @ s' =
          quote_json (fst y) @ CHR '':'' # print_json (snd y) @ t'"
      using that(5) by (simp add: print_field_def)
    then have "fst x = fst y" "print_json (snd x) @ s' = print_json (snd y) @ t'"
      using quote_json_inj [of "fst x" "fst y"] ok that(1,2) by blast+
    moreover have "snd x \<in> Basic_BNFs.snds x" by (cases x) auto
    ultimately show ?thesis
      using JObj.IH [OF that(1), of "snd x" "snd y" s' t'] ok that by (auto simp: prod_eq_iff)
  qed
  ultimately have "kvs = lvs \<and> s = t"
    by (intro join_inj [where c = "CHR ''}''" and f = print_field]) auto
  with w show ?case by simp
next
  case JNull
  then have "opens_with w (CHR ''n'')" by (intro opens_same) auto
  then have "w = JNull" by (cases w) (auto simp: opens_with_def is_digit_def split: if_splits)
  with JNull show ?case by simp
next
  case (JBool b)
  then have "opens_with w (if b then CHR ''t'' else CHR ''f'')"
    by (cases b) (simp_all add: opens_same [of w _ "_ # _"])
  then have "w = JBool b" by (cases w) (auto simp: opens_with_def is_digit_def split: if_splits)
  with JBool show ?case by (simp split: if_splits)
qed

section \<open>Canonical form and abstract value\<close>

definition canon :: "json \<Rightarrow> json option" where
  "canon v = Option.bind (redecode v) numbers"

lemma JSON_canonical_canon: "JSON_canonical v = map_option print_json (canon v)"
  by (simp add: JSON_canonical_def canon_def split: option.splits)

lemma numbers_list_Some: "numbers_list xs = Some ys \<longleftrightarrow> list_all2 (\<lambda>x y. numbers x = Some y) xs ys"
proof (induction xs arbitrary: ys)
  case (Cons x xs)
  then show ?case by (cases ys) (auto split: option.splits)
qed auto

lemma numbers_fields_Some:
  "numbers_fields xs = Some ys \<longleftrightarrow>
     list_all2 (\<lambda>(k, x) (l, y). k = l \<and> numbers x = Some y) xs ys"
proof (induction xs arbitrary: ys)
  case (Cons x xs)
  then show ?case by (cases x; cases ys) (auto split: option.splits)
qed auto

lemma redecode_list_Some: "redecode_list xs = Some ys \<longleftrightarrow> list_all2 (\<lambda>x y. redecode x = Some y) xs ys"
proof (induction xs arbitrary: ys)
  case (Cons x xs)
  then show ?case by (cases ys) (auto split: option.splits)
qed auto

lemma redecode_fields_Some:
  "redecode_fields xs = Some ys \<longleftrightarrow>
     list_all2 (\<lambda>(k, x) (l, y). k = l \<and> redecode x = Some y) xs ys"
proof (induction xs arbitrary: ys)
  case (Cons x xs)
  then show ?case by (cases x; cases ys) (auto split: option.splits)
qed auto

lemma dedup_last_distinct: "distinct (map fst kvs) \<Longrightarrow> dedup_last kvs = kvs"
  by (induction kvs rule: dedup_last.induct) auto

text \<open>What \<open>canon\<close> does to a field list, key by key.\<close>

definition canon_fields :: "(string \<times> json) list \<Rightarrow> (string \<times> json) list \<Rightarrow> bool" where
  "canon_fields kvs gs =
     (sorted (map fst gs) \<and> distinct (map fst gs) \<and> fst ` set gs = fst ` set kvs \<and>
      (\<forall>(k, y) \<in> set gs. \<exists>x. (k, x) \<in> set kvs \<and> canon x = Some y))"

lemma list_all2_fields_keys:
  "list_all2 (\<lambda>(k, x) (l, y). k = l \<and> P x y) xs ys \<Longrightarrow> map fst xs = map fst ys"
  by (induction rule: list_all2_induct) auto

lemma list_all2_fields_mem:
  "list_all2 (\<lambda>(k, x) (l, y). k = l \<and> P x y) xs ys \<Longrightarrow> (k, y) \<in> set ys \<Longrightarrow> \<exists>x. (k, x) \<in> set xs \<and> P x y"
  by (induction rule: list_all2_induct) auto

lemma canon_JObj:
  assumes wf: "distinct (map fst kvs)" "\<forall>(k, v) \<in> set kvs. valid_utf8 k"
    and c: "canon (JObj kvs) = Some w"
  shows "\<exists>gs. w = JObj gs \<and> canon_fields kvs gs"
proof -
  from c obtain fs gs where fs: "redecode_fields kvs = Some fs"
    and gs: "numbers_fields (dedup_last (map (\<lambda>(k, v). (utf8_coerce k, v)) (sort_key fst fs))) = Some gs"
    and w: "w = JObj gs"
    by (auto simp: canon_def split: option.splits)
  have l1: "list_all2 (\<lambda>(k, x) (l, y). k = l \<and> redecode x = Some y) kvs fs"
    using fs by (simp add: redecode_fields_Some)
  have k1: "map fst kvs = map fst fs" using list_all2_fields_keys [OF l1] .
  then have s1: "fst ` set fs = fst ` set kvs" by (metis set_map)
  have u: "\<forall>k \<in> fst ` set fs. utf8_coerce k = k"
    using wf(2) s1 by (auto simp: valid_utf8_def)
  have i: "map (\<lambda>(k, v). (utf8_coerce k, v)) (sort_key fst fs) = sort_key fst fs"
    using u by (intro map_idI) auto
  have d: "distinct (map fst (sort_key fst fs))"
    using wf(1) k1 by (metis distinct_map distinct_sort set_sort)
  have l2: "list_all2 (\<lambda>(k, x) (l, y). k = l \<and> numbers x = Some y) (sort_key fst fs) gs"
    using gs d by (simp add: i dedup_last_distinct numbers_fields_Some)
  have k2: "map fst (sort_key fst fs) = map fst gs" using list_all2_fields_keys [OF l2] .
  have "\<exists>x. (k, x) \<in> set kvs \<and> canon x = Some y" if y: "(k, y) \<in> set gs" for k y
  proof -
    obtain z where z: "(k, z) \<in> set fs" "numbers z = Some y"
      using list_all2_fields_mem [OF l2 y] by auto
    with list_all2_fields_mem [OF l1 z(1)] show ?thesis by (auto simp: canon_def)
  qed
  moreover have "sorted (map fst gs)" using k2 [symmetric] by simp
  moreover have "fst ` set gs = fst ` set kvs" using k2 s1 by (metis set_map set_sort)
  ultimately show ?thesis using w k2 d by (auto simp: canon_fields_def)
qed

lemma canon_fields_lookup:
  assumes "canon_fields kvs gs" "distinct (map fst kvs)"
  shows "map_of gs k = None \<longleftrightarrow> map_of kvs k = None"
    and "map_of gs k = Some y \<Longrightarrow> \<exists>x. map_of kvs k = Some x \<and> (k, x) \<in> set kvs \<and> canon x = Some y"
  using assms by (auto simp: canon_fields_def map_of_eq_None_iff dest!: map_of_SomeD)

lemma denote_fields:
  "denote (JObj kvs) = VObj (map_option denote \<circ> map_of kvs)"
  by (simp add: map_of_map [symmetric] case_prod_beta)

lemma canon_JArr: "canon (JArr xs) = Some w \<Longrightarrow> \<exists>ys. w = JArr ys \<and> list_all2 (\<lambda>x y. canon x = Some y) xs ys"
proof -
  assume "canon (JArr xs) = Some w"
  then obtain zs ys where "list_all2 (\<lambda>x y. redecode x = Some y) xs zs"
      "list_all2 (\<lambda>x y. numbers x = Some y) zs ys" and w: "w = JArr ys"
    by (auto simp: canon_def redecode_list_Some numbers_list_Some bind_eq_Some_conv)
  then have "list_all2 (\<lambda>x y. canon x = Some y) xs ys"
    by (auto simp: list_all2_conv_all_nth canon_def)
  with w show ?thesis by blast
qed

lemma canon_atoms [simp]:
  "canon JNull = Some JNull" "canon (JBool b) = Some (JBool b)"
  "valid_utf8 s \<Longrightarrow> canon (JStr s) = Some (JStr s)"
  "valid_number n \<Longrightarrow> canon (JNum n) = map_option JNum (canon_number n)"
  using valid_number_num [of n] by (auto simp: canon_def marshal_number_def valid_utf8_def)

lemma canon_sound:
  "wf_json v \<Longrightarrow> canon v = Some a \<Longrightarrow> canon_json a \<and> denote a = denote v"
proof (induction v arbitrary: a)
  case (JNum n)
  then show ?case by (auto simp: num_value_canon valid_number_canon)
next
  case (JArr xs)
  obtain ys where ys: "a = JArr ys" "list_all2 (\<lambda>x y. canon x = Some y) xs ys"
    using canon_JArr [OF JArr.prems(2)] by auto
  have "list_all2 (\<lambda>x y. canon_json y \<and> denote y = denote x) xs ys"
    using ys(2) by (rule list.rel_mono_strong) (use JArr in \<open>auto simp: list_all_iff\<close>)
  then have "list_all canon_json ys \<and> map denote ys = map denote xs"
    by (induction rule: list_all2_induct) auto
  with ys(1) show ?case by simp
next
  case (JObj kvs)
  have wf: "distinct (map fst kvs)" "\<forall>(k, v) \<in> set kvs. valid_utf8 k" "\<forall>(k, v) \<in> set kvs. wf_json v"
    using JObj.prems(1) by (auto simp: list_all_iff)
  obtain gs where gs: "a = JObj gs" "canon_fields kvs gs"
    using canon_JObj [OF wf(1,2) JObj.prems(2)] by auto
  have IH: "canon_json y \<and> denote y = denote x" if "(k, x) \<in> set kvs" "canon x = Some y" for k x y
    using JObj.IH [OF that(1), of x y] wf(3) that by auto
  have "map_option denote (map_of gs k) = map_option denote (map_of kvs k)" for k
  proof (cases "map_of gs k")
    case None
    then show ?thesis using canon_fields_lookup(1) [OF gs(2) wf(1)] by simp
  next
    case (Some y)
    then show ?thesis using canon_fields_lookup(2) [OF gs(2) wf(1) Some] IH by fastforce
  qed
  then have "denote a = denote (JObj kvs)" by (auto simp: denote_fields gs(1) simp del: denote.simps)
  moreover have "canon_json a"
    using gs wf(2) IH by (fastforce simp: canon_fields_def list_all_iff)
  ultimately show ?case by blast
qed auto

lemma sorted_fields_unique:
  assumes "sorted (map fst gs)" "distinct (map fst gs)" "sorted (map fst hs)" "distinct (map fst hs)"
    and "map_of gs = map_of hs"
  shows "gs = hs"
proof -
  have "set gs = set hs" using assms by (simp add: map_of_inject_set)
  moreover have "inj_on fst (set gs \<union> set hs)" using assms(2) calculation by (simp add: distinct_map)
  ultimately show ?thesis using assms by (intro map_sorted_distinct_set_unique)
qed

lemma canon_unique:
  "wf_json v \<Longrightarrow> wf_json w \<Longrightarrow> canon v = Some a \<Longrightarrow> canon w = Some b \<Longrightarrow> denote v = denote w \<Longrightarrow> a = b"
proof (induction v arbitrary: w a b)
  case (JNum n)
  then obtain m where "w = JNum m" by (cases w) auto
  with JNum show ?case by (auto intro: canon_number_unique)
next
  case (JArr xs)
  then obtain zs where w: "w = JArr zs" by (cases w) auto
  obtain ys where ys: "a = JArr ys" "list_all2 (\<lambda>x y. canon x = Some y) xs ys"
    using canon_JArr [OF JArr.prems(3)] by auto
  obtain us where us: "b = JArr us" "list_all2 (\<lambda>x y. canon x = Some y) zs us"
    using canon_JArr JArr.prems(4) w by blast
  have m: "map denote xs = map denote zs" using JArr.prems(5) w by simp
  have l: "length ys = length us" "length xs = length ys" "length zs = length xs"
    using ys us m by (metis length_map list_all2_lengthD)+
  have "ys ! i = us ! i" if "i < length ys" for i
  proof (rule JArr.IH)
    show "xs ! i \<in> set xs" using that l by simp
    show "wf_json (xs ! i)" "wf_json (zs ! i)"
      using JArr.prems(1,2) w that l by (auto simp: list_all_length)
    show "canon (xs ! i) = Some (ys ! i)" "canon (zs ! i) = Some (us ! i)"
      using ys(2) us(2) that l by (auto simp: list_all2_conv_all_nth)
    show "denote (xs ! i) = denote (zs ! i)" using m that l by (metis nth_map)
  qed
  with ys(1) us(1) l show ?case by (simp add: list_eq_iff_nth_eq)
next
  case (JObj kvs)
  then obtain lvs where w: "w = JObj lvs" by (cases w) auto
  have wf: "distinct (map fst kvs)" "\<forall>(k, v) \<in> set kvs. valid_utf8 k" "\<forall>(k, v) \<in> set kvs. wf_json v"
    "distinct (map fst lvs)" "\<forall>(k, v) \<in> set lvs. valid_utf8 k" "\<forall>(k, v) \<in> set lvs. wf_json v"
    using JObj.prems(1,2) w by (auto simp: list_all_iff)
  obtain gs where gs: "a = JObj gs" "canon_fields kvs gs"
    using canon_JObj [OF wf(1,2) JObj.prems(3)] by auto
  obtain hs where hs: "b = JObj hs" "canon_fields lvs hs"
    using canon_JObj [OF wf(4,5)] JObj.prems(4) w by auto
  have d: "map_option denote (map_of kvs k) = map_option denote (map_of lvs k)" for k
    using JObj.prems(5) w by (simp add: denote_fields fun_eq_iff del: denote.simps)
  have "map_of gs k = map_of hs k" for k
  proof (cases "map_of gs k")
    case None
    then show ?thesis
      using canon_fields_lookup(1) [OF gs(2) wf(1)] canon_fields_lookup(1) [OF hs(2) wf(4)] d [of k]
      by (metis option.map_disc_iff)
  next
    case (Some y)
    then obtain x where x: "map_of kvs k = Some x" "(k, x) \<in> set kvs" "canon x = Some y"
      using canon_fields_lookup(2) [OF gs(2) wf(1)] by blast
    then obtain x' where x': "map_of lvs k = Some x'" "denote x = denote x'"
      using d [of k] by (cases "map_of lvs k") auto
    then obtain y' where y': "map_of hs k = Some y'" "canon x' = Some y'" "(k, x') \<in> set lvs"
      using canon_fields_lookup [OF hs(2) wf(4)] by (metis not_None_eq option.sel)
    then have "y = y'"
      using JObj.IH [OF x(2), of x x' y y'] x x' wf(3,6) by auto
    with Some y' show ?thesis by simp
  qed
  then have "gs = hs"
    using gs(2) hs(2) by (intro sorted_fields_unique) (auto simp: canon_fields_def)
  with gs(1) hs(1) show ?case by simp
next
  case (JStr s) then show ?case by (cases w) auto
next
  case (JBool s) then show ?case by (cases w) auto
next
  case JNull then show ?case by (cases w) auto
qed

theorem JSON_canonical_denote:
  assumes "wf_json v" "wf_json w" "JSON_canonical v = Some a" "JSON_canonical w = Some b"
  shows "a = b \<longleftrightarrow> denote v = denote w"
proof -
  obtain x y where x: "canon v = Some x" "a = print_json x" and y: "canon w = Some y" "b = print_json y"
    using assms(3,4) by (auto simp: JSON_canonical_canon)
  have d: "delim []" by (simp add: delim_def)
  show ?thesis
    using canon_sound [OF assms(1) x(1)] canon_sound [OF assms(2) y(1)]
      canon_unique [OF assms(1,2) x(1) y(1)] print_json_inj [OF _ _ d d, of x y] x(2) y(2) by auto
qed

end
