(* ===== verification/Go_Time.thy ===== *)
theory Go_Time
  imports Prelude
begin

text \<open>
  \<open>time.Time\<close>: an instant is the number of nanoseconds since the zero time of Go, midnight of
  1 January of the year 1, UTC.  The civil date of an instant is computed by the usual cycles of
  400, 100, 4 and 1 years; \<open>Format_micro\<close> is \<open>Format("2006-01-02T15:04:05.000000Z")\<close>, the
  layout of api/internal/audit/hash.go, and \<open>Format_month\<close> is \<open>Format("2006-01")\<close>, the layout
  of the quota alerts in api/internal/audit/limit.go.

  \<open>Format_micro_inj\<close>: on the years 1 to 9999 the text determines the instant to the microsecond.
\<close>

type_synonym time = int

definition IsZero :: "time \<Rightarrow> bool" where
  "IsZero t = (t = 0)"

definition Microsecond :: int where "Microsecond = 1000"
definition Second :: int where "Second = 1000000000"
definition Day :: int where "Day = 86400 * Second"

text \<open>\<open>Truncate\<close> rounds down to a multiple of the duration since the zero time.\<close>

definition Truncate :: "time \<Rightarrow> int \<Rightarrow> time" where
  "Truncate t d = t - t mod d"

definition unix_epoch :: time where
  "unix_epoch = 62135596800 * Second"

text \<open>\<open>9999-12-31T23:59:59.999999999Z\<close>.\<close>

definition year_9999_end :: time where
  "year_9999_end = 3652059 * Day - 1"

section \<open>The civil calendar\<close>

definition month_lengths :: "bool \<Rightarrow> int list" where
  "month_lengths leap = [31, if leap then 29 else 28, 31, 30, 31, 30, 31, 31, 30, 31, 30, 31]"

text \<open>Month and day of the month, both from 1, of the \<open>d\<close>-th day (from 0) of a year.\<close>

fun month_day :: "int list \<Rightarrow> int \<Rightarrow> int \<Rightarrow> int \<times> int" where
  "month_day [] m d = (m, d + 1)"
| "month_day (l # ls) m d = (if d < l then (m, d + 1) else month_day ls (m + 1) (d - l))"

text \<open>The completed cycles of 400, 100, 4 and 1 years before day \<open>d\<close>, and the day of the year.\<close>

definition year_parts :: "int \<Rightarrow> int \<times> int \<times> int \<times> int \<times> int" where
  "year_parts d =
     (let r = d mod 146097; b = min 3 (r div 36524);
          r2 = r - 36524 * b; c = r2 div 1461;
          r3 = r2 mod 1461; e = min 3 (r3 div 365)
      in (d div 146097, b, c, e, r3 - 365 * e))"

definition civil :: "int \<Rightarrow> int \<times> int \<times> int" where
  "civil d =
     (let (a, b, c, e, y) = year_parts d;
          leap = (e = 3 \<and> (c \<noteq> 24 \<or> b = 3));
          (m, dd) = month_day (month_lengths leap) 1 y
      in (400 * a + 100 * b + 4 * c + e + 1, m, dd))"

text \<open>\<open>appendInt(x, width)\<close> of package time.\<close>

definition zpad :: "nat \<Rightarrow> nat \<Rightarrow> string" where
  "zpad w n = replicate (w - length (dec_nat n)) (CHR ''0'') @ dec_nat n"

definition append_int :: "nat \<Rightarrow> int \<Rightarrow> string" where
  "append_int w x = (if x < 0 then CHR ''-'' # zpad w (nat (- x)) else zpad w (nat x))"

definition Format_month :: "time \<Rightarrow> string" where
  "Format_month t =
     (let (y, m, d) = civil (t div Day) in append_int 4 y @ ''-'' @ append_int 2 m)"

definition Format_micro :: "time \<Rightarrow> string" where
  "Format_micro t =
     (let (y, m, d) = civil (t div Day);
          s = t mod Day div Second
      in append_int 4 y @ ''-'' @ append_int 2 m @ ''-'' @ append_int 2 d @ ''T'' @
         append_int 2 (s div 3600) @ '':'' @ append_int 2 (s div 60 mod 60) @ '':'' @
         append_int 2 (s mod 60) @ ''.'' @ append_int 6 (t mod Second div Microsecond) @ ''Z'')"

text \<open>\<open>date_trunc('month', t)\<close> of PostgreSQL, in UTC.\<close>

definition month_start :: "time \<Rightarrow> time" where
  "month_start t = (let (y, m, d) = civil (t div Day) in (t div Day - (d - 1)) * Day)"

section \<open>Lemmas\<close>

lemma Truncate_le: "0 < d \<Longrightarrow> Truncate t d \<le> t"
  by (simp add: Truncate_def)

lemma Truncate_idem [simp]: "Truncate (Truncate t d) d = Truncate t d"
  by (simp add: Truncate_def)

lemma Truncate_eq_iff: "Truncate s d = Truncate t d \<longleftrightarrow> s div d = t div d" if "0 < d"
proof -
  have "Truncate s d = d * (s div d)" "Truncate t d = d * (t div d)"
    by (simp_all add: Truncate_def minus_mod_eq_mult_div)
  then show ?thesis using that by simp
qed

lemma Truncate_mono: "0 < d \<Longrightarrow> s \<le> t \<Longrightarrow> Truncate s d \<le> Truncate t d"
  by (simp add: Truncate_def minus_mod_eq_mult_div zdiv_mono1)

lemma capped_div:
  fixes r k q :: int
  assumes "0 < k" "0 \<le> r" "r \<le> 4 * k" "q = min 3 (r div k)"
  shows "0 \<le> q \<and> q \<le> 3 \<and> 0 \<le> r - k * q \<and> r - k * q \<le> k \<and> (q < 3 \<longrightarrow> r - k * q < k)"
proof (cases "r div k \<le> 3")
  case True
  with assms have "q = r div k" by simp
  moreover from this have "r - k * q = r mod k" by (simp add: minus_mult_div_eq_mod)
  moreover have "0 \<le> r div k" using assms by (simp add: pos_imp_zdiv_nonneg_iff)
  ultimately show ?thesis using True assms(1) pos_mod_bound [of k r] pos_mod_sign [of k r] by linarith
next
  case False
  then have "4 \<le> r div k" by simp
  then have "k * 4 \<le> k * (r div k)" using assms(1) by (intro mult_left_mono) simp_all
  moreover have "k * (r div k) + r mod k = r" by (rule mult_div_mod_eq)
  ultimately have "4 * k \<le> r" using assms(1) pos_mod_sign [of k r] by linarith
  with False assms show ?thesis by simp
qed

lemma year_parts_day:
  assumes "year_parts d = (a, b, c, e, y)"
  shows "d = 146097 * a + 36524 * b + 1461 * c + 365 * e + y"
    and "0 \<le> b" "b \<le> 3" "0 \<le> c" "c \<le> 24" "0 \<le> e" "e \<le> 3" "0 \<le> y" "y \<le> 365"
    and "e < 3 \<Longrightarrow> y < 365" and "e = 3 \<Longrightarrow> c = 24 \<Longrightarrow> b < 3 \<Longrightarrow> y < 365"
proof -
  define r where "r = d mod 146097"
  define q where "q = r - 36524 * b"
  define p where "p = q mod 1461"
  note parts = assms [unfolded year_parts_def Let_def prod.inject, folded r_def]
  have b': "min 3 (r div 36524) = b" using parts by blast
  note parts = parts [unfolded b', folded q_def, folded p_def]
  have e': "min 3 (p div 365) = e" using parts by blast
  have eqs: "a = d div 146097" "b = min 3 (r div 36524)" "c = q div 1461" "e = min 3 (p div 365)"
    "y = p - 365 * e"
    using parts [unfolded e'] b' e' by blast+
  have d: "d = 146097 * a + r" unfolding eqs r_def by (rule mult_div_mod_eq [symmetric])
  have qp: "q = 1461 * c + p" unfolding eqs p_def by (rule mult_div_mod_eq [symmetric])
  have "0 \<le> r" "r < 146097" unfolding r_def by simp_all
  then have b: "0 \<le> b" "b \<le> 3" "0 \<le> q" "q \<le> 36524" "b < 3 \<Longrightarrow> q < 36524"
    using capped_div [OF _ _ _ eqs(2)] unfolding q_def [symmetric] by auto
  have "0 \<le> p" "p < 1461" unfolding p_def by simp_all
  then have e: "0 \<le> e" "e \<le> 3" "0 \<le> y" "y \<le> 365" "e < 3 \<Longrightarrow> y < 365"
    using capped_div [OF _ _ _ eqs(4)] unfolding eqs(5) [symmetric] by auto
  have c: "0 \<le> c" "c \<le> 24" using qp b(3,4) \<open>0 \<le> p\<close> \<open>p < 1461\<close> by linarith+
  show "d = 146097 * a + 36524 * b + 1461 * c + 365 * e + y"
    using d qp eqs(5) q_def by linarith
  show "0 \<le> b" "b \<le> 3" "0 \<le> c" "c \<le> 24" "0 \<le> e" "e \<le> 3" "0 \<le> y" "y \<le> 365" "e < 3 \<Longrightarrow> y < 365"
    by (fact b c e)+
  assume "e = 3" "c = 24" "b < 3"
  with qp b(5) eqs(5) show "y < 365" by linarith
qed

lemma month_day_inj:
  "month_day ls m d = month_day ls m d' \<Longrightarrow> d < sum_list ls \<Longrightarrow> d' < sum_list ls \<Longrightarrow> d = d'"
proof -
  have ge: "m \<le> fst (month_day ls m d)" for ls m d
    by (induction ls arbitrary: m d) (auto, smt)
  show "month_day ls m d = month_day ls m d' \<Longrightarrow> d < sum_list ls \<Longrightarrow> d' < sum_list ls \<Longrightarrow> d = d'"
  proof (induction ls arbitrary: m d d')
    case (Cons l ls)
    show ?case
      using Cons.prems Cons.IH [of "m + 1" "d - l" "d' - l"]
        ge [of "m + 1" ls "d - l"] ge [of "m + 1" ls "d' - l"]
      by (cases "month_day ls (m + 1) (d - l)"; cases "month_day ls (m + 1) (d' - l)")
        (simp split: if_splits)
  qed simp
qed

lemma month_day_bounds:
  assumes "month_day ls m d = (x, y)" "0 \<le> d" "d < sum_list ls" "\<forall>l \<in> set ls. l \<le> 31"
  shows "m \<le> x" "x < m + int (length ls)" "1 \<le> y" "y \<le> 31"
  using assms by (induction ls arbitrary: m d) (auto split: if_splits, fastforce+)

lemma sum_month_lengths [simp]: "sum_list (month_lengths leap) = (if leap then 366 else 365)"
  by (simp add: month_lengths_def)

lemma civil_inj: "civil d = civil d' \<Longrightarrow> d = d'"
proof -
  obtain a b c e y where p: "year_parts d = (a, b, c, e, y)" by (metis surj_pair)
  obtain a' b' c' e' y' where p': "year_parts d' = (a', b', c', e', y')" by (metis surj_pair)
  note q = year_parts_day [OF p] and q' = year_parts_day [OF p']
  let ?l = "e = 3 \<and> (c \<noteq> 24 \<or> b = 3)"
  let ?l' = "e' = 3 \<and> (c' \<noteq> 24 \<or> b' = 3)"
  assume eq: "civil d = civil d'"
  then have "400 * a + 100 * b + 4 * c + e = 400 * a' + 100 * b' + 4 * c' + e'"
    by (simp add: civil_def p p' split: prod.splits)
  note eqy = this
  have a: "a = a'" using eqy q(2-7) q'(2-7) by linarith
  have b: "b = b'" using eqy a q(2-7) q'(2-7) by linarith
  have c: "c = c'" using eqy a b q(2-7) q'(2-7) by linarith
  note abc = a b c
  have e: "e = e'" using eqy abc by linarith
  note abc = a b c e
  have "month_day (month_lengths ?l) 1 y = month_day (month_lengths ?l) 1 y'"
    using eq abc by (simp add: civil_def p p' split: prod.splits)
  moreover have "y < sum_list (month_lengths ?l)" "y' < sum_list (month_lengths ?l)"
    using q(3,7,9-11) q'(3,7,9-11) abc by (auto simp: order_le_less)
  ultimately have "y = y'" by (rule month_day_inj)
  with abc q(1) q'(1) show "d = d'" by simp
qed

lemma civil_bounds:
  assumes "civil d = (y, m, dd)" "0 \<le> d" "d < 3652059"
  shows "0 \<le> y" "y < 10000" "1 \<le> m" "m < 13" "1 \<le> dd" "dd \<le> 31"
proof -
  obtain a b c e yd where p: "year_parts d = (a, b, c, e, yd)" by (metis surj_pair)
  note q = year_parts_day [OF p]
  let ?l = "e = 3 \<and> (c \<noteq> 24 \<or> b = 3)"
  have y: "y = 400 * a + 100 * b + 4 * c + e + 1" and md: "month_day (month_lengths ?l) 1 yd = (m, dd)"
    using assms(1) by (auto simp: civil_def p split: prod.splits)
  have "0 \<le> a" "a \<le> 24" using q(1-9) assms(2,3) by linarith+
  moreover have "400 * a + 100 * b + 4 * c + e < 9999"
    using q(1-9) assms(2,3) calculation by linarith
  ultimately show "0 \<le> y" "y < 10000" using y q(2-7) by linarith+
  have "yd < sum_list (month_lengths ?l)" using q(3,7,9-11) by (auto simp: order_le_less)
  moreover have "\<forall>l \<in> set (month_lengths ?l). l \<le> 31" by (simp add: month_lengths_def)
  ultimately show "1 \<le> m" "m < 13" "1 \<le> dd" "dd \<le> 31"
    using month_day_bounds [OF md q(8)] by (auto simp: month_lengths_def)
qed

lemma digits_val_replicate0 [simp]: "digits_val (replicate n (CHR ''0'') @ s) = digits_val s"
  by (induction n) (simp_all add: digits_val_Cons digit_val_def)

lemma digits_val_zpad [simp]: "digits_val (zpad w n) = n"
  by (simp add: zpad_def)

lemma length_dec_nat_le: "n < 10 ^ w \<Longrightarrow> 0 < w \<Longrightarrow> length (dec_nat n) \<le> w"
proof (induction n arbitrary: w rule: dec_nat.induct)
  case (1 n)
  show ?case
  proof (cases "n < 10")
    case True
    with 1 show ?thesis by (subst dec_nat.simps) simp
  next
    case False
    with 1(2,3) obtain v where w: "w = Suc v" "0 < v" by (cases w; cases "w - 1") auto
    with 1 False have "length (dec_nat (n div 10)) \<le> v" by (intro 1) auto
    with w False show ?thesis by (subst dec_nat.simps) simp
  qed
qed

lemma length_append_int: "0 \<le> x \<Longrightarrow> x < 10 ^ w \<Longrightarrow> 0 < w \<Longrightarrow> length (append_int w x) = w"
proof -
  assume x: "0 \<le> x" "x < 10 ^ w" "0 < w"
  then have "nat x < 10 ^ w" by (metis nat_less_iff of_nat_numeral of_nat_power)
  then show ?thesis using x length_dec_nat_le [of "nat x" w] by (simp add: append_int_def zpad_def)
qed

lemma append_int_inj: "0 \<le> x \<Longrightarrow> 0 \<le> y \<Longrightarrow> append_int w x = append_int w y \<Longrightarrow> x = y"
  by (metis append_int_def digits_val_zpad int_nat_eq linorder_not_less)

definition in_width :: "nat \<Rightarrow> int \<Rightarrow> bool" where
  "in_width w x = (0 < w \<and> 0 \<le> x \<and> x < 10 ^ w)"

lemma append_int_chunk:
  assumes "in_width w x" "in_width w y"
  shows "append_int w x @ s = append_int w y @ t \<longleftrightarrow> x = y \<and> s = t"
  using assms length_append_int [of x w] length_append_int [of y w] append_int_inj [of x y w]
  by (auto simp: in_width_def)

lemma mod_mult_div: "0 < a \<Longrightarrow> 0 < b \<Longrightarrow> x mod (a * b) div a = x div a mod (b :: int)"
  by (simp add: zmod_zmult2_eq)

text \<open>The fields of the text as functions of the number of microseconds.\<close>

lemma micro_parts:
  "t div Day = t div Microsecond div 1000000 div 86400"
  "t mod Day div Second = t div Microsecond div 1000000 mod 86400"
  "t mod Second div Microsecond = t div Microsecond mod 1000000"
proof -
  have s: "Second = Microsecond * 1000000" "Day = Second * 86400"
    by (simp_all add: Second_def Microsecond_def Day_def)
  have d: "t div Second = t div Microsecond div 1000000"
    unfolding s by (rule zdiv_zmult2_eq) simp
  show "t div Day = t div Microsecond div 1000000 div 86400"
    unfolding s(2) d [symmetric] by (rule zdiv_zmult2_eq) simp
  show "t mod Day div Second = t div Microsecond div 1000000 mod 86400"
    unfolding s(2) d [symmetric] by (rule mod_mult_div) (simp_all add: Second_def)
  show "t mod Second div Microsecond = t div Microsecond mod 1000000"
    unfolding s(1) by (rule mod_mult_div) (simp_all add: Microsecond_def)
qed

lemma sexagesimal:
  "x = 3600 * (x div 3600) + 60 * (x div 60 mod 60) + x mod (60 :: int)"
proof -
  have "x div 3600 = x div 60 div 60" using zdiv_zmult2_eq [of 60 x 60] by simp
  moreover have "60 * (x div 60 div 60) + x div 60 mod 60 = x div 60" by (rule mult_div_mod_eq)
  moreover have "60 * (x div 60) + x mod 60 = x" by (rule mult_div_mod_eq)
  ultimately show ?thesis by linarith
qed

lemma Format_micro_inj:
  assumes r: "0 \<le> s" "s \<le> year_9999_end" "0 \<le> t" "t \<le> year_9999_end"
    and eq: "Format_micro s = Format_micro t"
  shows "Truncate s Microsecond = Truncate t Microsecond"
proof -
  obtain y m d where c: "civil (s div Day) = (y, m, d)" by (metis surj_pair)
  obtain y' m' d' where c': "civil (t div Day) = (y', m', d')" by (metis surj_pair)
  let ?s = "s mod Day div Second" and ?t = "t mod Day div Second"
  have day: "0 \<le> s div Day" "s div Day < 3652059" "0 \<le> t div Day" "t div Day < 3652059"
    using r by (auto simp: year_9999_end_def Day_def Second_def)
  note b = civil_bounds [OF c day(1,2)] and b' = civil_bounds [OF c' day(3,4)]
  have clock: "in_width 2 (x mod Day div Second div 3600)" "in_width 2 (x mod Day div Second div 60 mod 60)"
    "in_width 2 (x mod Day div Second mod 60)" "in_width 6 (x mod Second div Microsecond)" for x
  proof -
    let ?x = "x mod Day div Second"
    have "0 \<le> ?x" "?x < 86400" unfolding micro_parts by simp_all
    moreover have "0 \<le> z \<Longrightarrow> z < 86400 \<Longrightarrow> in_width 2 (z div 3600)" for z :: int
      using zdiv_mono1 [of z 86399 3600] by (simp add: in_width_def pos_imp_zdiv_nonneg_iff)
    ultimately show "in_width 2 (?x div 3600)" by blast
    have "in_width 2 (z mod 60)" for z :: int
      using pos_mod_bound [of 60 z] by (simp add: in_width_def)
    then show "in_width 2 (?x div 60 mod 60)" "in_width 2 (?x mod 60)" by blast+
    show "in_width 6 (x mod Second div Microsecond)" unfolding micro_parts by (simp add: in_width_def)
  qed
  have w: "in_width 4 y" "in_width 2 m" "in_width 2 d"
    using b by (simp_all add: in_width_def)
  have w': "in_width 4 y'" "in_width 2 m'" "in_width 2 d'"
    using b' by (simp_all add: in_width_def)
  have e: "append_int 4 y @ ''-'' @ append_int 2 m @ ''-'' @ append_int 2 d @ ''T'' @
         append_int 2 (?s div 3600) @ '':'' @ append_int 2 (?s div 60 mod 60) @ '':'' @
         append_int 2 (?s mod 60) @ ''.'' @ append_int 6 (s mod Second div Microsecond) @ ''Z'' =
       append_int 4 y' @ ''-'' @ append_int 2 m' @ ''-'' @ append_int 2 d' @ ''T'' @
         append_int 2 (?t div 3600) @ '':'' @ append_int 2 (?t div 60 mod 60) @ '':'' @
         append_int 2 (?t mod 60) @ ''.'' @ append_int 6 (t mod Second div Microsecond) @ ''Z''"
    using eq by (simp add: Format_micro_def c c' Let_def)
  have ymd: "y = y'" "m = m'" "d = d'" and hms: "?s div 3600 = ?t div 3600"
    "?s div 60 mod 60 = ?t div 60 mod 60" "?s mod 60 = ?t mod 60"
    and us: "s mod Second div Microsecond = t mod Second div Microsecond"
    using e append_int_chunk [OF clock(4) [of s] clock(4) [of t], of "[]" "[]"]
    by (simp_all add: append_int_chunk w w' clock)
  have dd: "s div Day = t div Day" using c c' ymd by (intro civil_inj) simp
  have "?s = ?t" using sexagesimal [of ?s] sexagesimal [of ?t] unfolding hms by simp
  with dd have "s div Microsecond div 1000000 = t div Microsecond div 1000000"
    unfolding micro_parts by (metis mult_div_mod_eq)
  with us have "s div Microsecond = t div Microsecond"
    unfolding micro_parts by (metis mult_div_mod_eq)
  then show ?thesis by (simp add: Truncate_eq_iff Microsecond_def)
qed

lemma Format_micro_cong:
  "Truncate s Microsecond = Truncate t Microsecond \<Longrightarrow> Format_micro s = Format_micro t"
proof -
  assume "Truncate s Microsecond = Truncate t Microsecond"
  then have m: "s div Microsecond = t div Microsecond" by (simp add: Truncate_eq_iff Microsecond_def)
  show ?thesis unfolding Format_micro_def micro_parts m by simp
qed

end
