(* ===== verification/App_Errors.thy ===== *)
theory App_Errors
  imports Prelude "HOL-Library.Monad_Syntax"
begin

text \<open>
  The domain errors of api/internal/platform/errors/errors.go.  An error value keeps the
  constructor that built it and its arguments; the wrapped cause of \<open>Internal\<close> (an opaque
  \<open>error\<close> used for logging only) is not kept.  \<open>err_code\<close> is the machine-readable code and
  \<open>HTTPStatus\<close> the status of the response.

  A fallible Go function returns \<open>app_error + 'a\<close>: \<open>Inl\<close> for a non-nil error, \<open>Inr\<close> for
  the result.
\<close>

datatype code =
    CodeNotFound
  | CodeAlreadyExists
  | CodeInvalidInput
  | CodeInternal
  | CodeValidation
  | CodeConflict
  | CodePayloadTooLarge
  | CodeRateLimited

datatype app_error =
    NotFound string string
  | AlreadyExists string string
  | InvalidInput string
  | Validation string string
  | Internal string
  | MonthlyLimitExceeded int int
  | Conflict string

type_synonym 'a result = "app_error + 'a"

fun err_code :: "app_error \<Rightarrow> code" where
  "err_code (NotFound entity i) = CodeNotFound"
| "err_code (AlreadyExists entity i) = CodeAlreadyExists"
| "err_code (InvalidInput msg) = CodeInvalidInput"
| "err_code (Validation field reason) = CodeValidation"
| "err_code (Internal msg) = CodeInternal"
| "err_code (MonthlyLimitExceeded limit used) = CodeRateLimited"
| "err_code (Conflict msg) = CodeConflict"

fun HTTPStatus :: "code \<Rightarrow> nat" where
  "HTTPStatus CodeNotFound = 404"
| "HTTPStatus CodeAlreadyExists = 409"
| "HTTPStatus CodeConflict = 409"
| "HTTPStatus CodeInvalidInput = 400"
| "HTTPStatus CodeValidation = 400"
| "HTTPStatus CodePayloadTooLarge = 413"
| "HTTPStatus CodeRateLimited = 429"
| "HTTPStatus CodeInternal = 500"

text \<open>Early return on an error.\<close>

definition bind_result :: "'a result \<Rightarrow> ('a \<Rightarrow> 'b result) \<Rightarrow> 'b result" where
  "bind_result r f = (case r of Inl e \<Rightarrow> Inl e | Inr x \<Rightarrow> f x)"

lemma bind_result_simps [simp]:
  "bind_result (Inl e) f = Inl e" "bind_result (Inr x) f = f x"
  by (simp_all add: bind_result_def)

lemma bind_result_Inr: "bind_result r f = Inr y \<longleftrightarrow> (\<exists>x. r = Inr x \<and> f x = Inr y)"
  by (cases r) auto

lemma bind_result_Inl: "bind_result r f = Inl e \<longleftrightarrow> r = Inl e \<or> (\<exists>x. r = Inr x \<and> f x = Inl e)"
  by (cases r) auto

lemma HTTPStatus_error: "400 \<le> HTTPStatus c \<and> HTTPStatus c < 600"
  by (cases c) simp_all

end
