(* ===== verification/Audit_Model.thy ===== *)
theory Audit_Model
  imports JSON_Value Go_Time App_Errors
begin

text \<open>
  The audit domain model: api/internal/audit/model.go, validation.go and hash.go.

  The metadata of an event is the field list of a JSON object; a nil map and an empty map are
  told apart by \<open>option\<close>.  \<open>ComputeHash\<close> takes SHA-256 as the parameter \<open>H\<close>.
\<close>

section \<open>Enumerations\<close>

text \<open>
  \<open>ActorType\<close>, \<open>Outcome\<close> and \<open>Scope\<close> are named string types: a decoded value may be any
  string, and \<open>IsValid\<close> tells the declared constants.
\<close>

definition ActorHuman :: string where "ActorHuman = ''human''"
definition ActorAgent :: string where "ActorAgent = ''agent''"
definition ActorSystem :: string where "ActorSystem = ''system''"

definition ActorType_IsValid :: "string \<Rightarrow> bool" where
  "ActorType_IsValid t = (t = ActorHuman \<or> t = ActorAgent \<or> t = ActorSystem)"

definition OutcomeSuccess :: string where "OutcomeSuccess = ''success''"
definition OutcomeFailure :: string where "OutcomeFailure = ''failure''"
definition OutcomeError :: string where "OutcomeError = ''error''"

definition Outcome_IsValid :: "string \<Rightarrow> bool" where
  "Outcome_IsValid out = (out = OutcomeSuccess \<or> out = OutcomeFailure \<or> out = OutcomeError)"

definition ScopeRead :: string where "ScopeRead = ''read''"
definition ScopeWrite :: string where "ScopeWrite = ''write''"

definition CanWrite :: "string \<Rightarrow> bool" where
  "CanWrite s = (s = ScopeWrite)"

definition Scope_IsValid :: "string \<Rightarrow> bool" where
  "Scope_IsValid s = (s = ScopeRead \<or> s = ScopeWrite)"

definition GenesisHash :: string where
  "GenesisHash = ''genesis''"

section \<open>Records\<close>

record actor =
  ActorID :: string
  ActorTyp :: string
  ActorEmail :: string

record resource =
  ResourceID :: string
  ResourceType :: string
  ResourceName :: string

type_synonym metadata = "(string \<times> json) list"

record audit_event =
  ID :: string
  TenantID :: string
  Timestamp :: time
  Actor :: actor
  Action :: string
  Resource :: resource
  Outcome :: string
  Metadata :: "metadata option"
  PrevHash :: string
  Hash :: string
  SequenceNumber :: int

record filter_spec =
  FSessionID :: string
  FActorID :: string
  FActorType :: string
  FAction :: string
  FResourceID :: string
  FOutcome :: string
  FFrom :: time
  FTo :: time
  FPage :: int
  FPageSize :: int

definition Normalise :: "filter_spec \<Rightarrow> filter_spec" where
  "Normalise f =
     (let f1 = (if FPage f \<le> 0 then f\<lparr>FPage := 1\<rparr> else f);
          f2 = (if FPageSize f1 \<le> 0 then f1\<lparr>FPageSize := 50\<rparr> else f1)
      in if FPageSize f2 > 1000 then f2\<lparr>FPageSize := 1000\<rparr> else f2)"

definition Offset :: "filter_spec \<Rightarrow> int" where
  "Offset f = (FPage f - 1) * FPageSize f"

record broken_event =
  BEventID :: string
  BSequenceNumber :: int
  BTimestamp :: time
  BAction :: string
  BActorID :: string
  BReason :: string

record verify_result =
  Valid :: bool
  VTenantID :: string
  EventsChecked :: nat
  RootHash :: string
  From :: time
  To :: time
  FirstBrokenEventID :: string
  Reason :: string
  AllBrokenEvents :: "broken_event list"
  BrokenCount :: nat

section \<open>Validation\<close>

definition historyStart :: time where
  "historyStart = unix_epoch"

definition farFuture :: time where
  "farFuture = year_9999_end"

text \<open>\<open>Validate\<close>: \<open>None\<close> is the nil pointer as argument and the nil error as result.\<close>

definition Validate :: "audit_event option \<Rightarrow> app_error option" where
  "Validate ev =
     (case ev of
        None \<Rightarrow> Some (InvalidInput ''event must not be nil'')
      | Some e \<Rightarrow>
          if \<not> IsZero (Timestamp e) \<and> Timestamp e < historyStart
          then Some (Validation ''timestamp'' ''must be at or after 1970-01-01T00:00:00Z'')
          else if farFuture < Timestamp e
          then Some (Validation ''timestamp'' ''must be at or before 9999-12-31T23:59:59.999999999Z'')
          else if ActorID (Actor e) = ''''
          then Some (Validation ''actor.id'' ''must not be empty'')
          else if \<not> ActorType_IsValid (ActorTyp (Actor e))
          then Some (Validation ''actor.type'' ''must be one of human|agent|system'')
          else if Action e = ''''
          then Some (Validation ''action'' ''must not be empty'')
          else if ResourceID (Resource e) = ''''
          then Some (Validation ''resource.id'' ''must not be empty'')
          else if ResourceType (Resource e) = ''''
          then Some (Validation ''resource.type'' ''must not be empty'')
          else if \<not> Outcome_IsValid (Outcome e)
          then Some (Validation ''outcome'' ''must be one of success|failure|error'')
          else None)"

section \<open>The content hash\<close>

definition HashPrefix :: string where
  "HashPrefix = ''sha256:v2:''"

text \<open>\<open>json:",omitempty"\<close> on a string field.\<close>

definition omitempty :: "string \<Rightarrow> string \<Rightarrow> (string \<times> json) list" where
  "omitempty k s = (if s = '''' then [] else [(k, JStr s)])"

definition actor_json :: "actor \<Rightarrow> json" where
  "actor_json a =
     JObj ([(''id'', JStr (ActorID a)), (''type'', JStr (ActorTyp a))] @ omitempty ''email'' (ActorEmail a))"

definition resource_json :: "resource \<Rightarrow> json" where
  "resource_json r =
     JObj ([(''id'', JStr (ResourceID r)), (''type'', JStr (ResourceType r))] @
           omitempty ''name'' (ResourceName r))"

text \<open>The anonymous struct \<open>ComputeHash\<close> encodes.\<close>

definition hash_preimage :: "audit_event \<Rightarrow> json" where
  "hash_preimage e = JObj
     [(''id'', JStr (ID e)),
      (''tenant_id'', JStr (TenantID e)),
      (''timestamp'', JStr (Format_micro (Truncate (Timestamp e) Microsecond))),
      (''actor'', actor_json (Actor e)),
      (''action'', JStr (Action e)),
      (''resource'', resource_json (Resource e)),
      (''outcome'', JStr (Outcome e)),
      (''metadata'', JObj (case Metadata e of None \<Rightarrow> [] | Some m \<Rightarrow> m)),
      (''prev_hash'', JStr (PrevHash e)),
      (''sequence_number'', JNum (FormatInt (SequenceNumber e)))]"

type_synonym hash_function = "string \<Rightarrow> string"

definition ComputeHash :: "hash_function \<Rightarrow> audit_event option \<Rightarrow> string" where
  "ComputeHash H ev =
     (case ev of
        None \<Rightarrow> ''''
      | Some e \<Rightarrow>
          (case JSON_canonical (hash_preimage e) of
             None \<Rightarrow> ''''
           | Some b \<Rightarrow> HashPrefix @ hex_encode (H b)))"

abbreviation compute_hash :: "hash_function \<Rightarrow> audit_event \<Rightarrow> string" where
  "compute_hash H e \<equiv> ComputeHash H (Some e)"

end
