(* ===== verification/Audit_Hash.thy ===== *)
theory Audit_Hash
  imports Audit_Model
begin

text \<open>
  What the content hash binds.  \<open>event_content\<close> is the public content of an event as the
  comment on \<open>ComputeHash\<close> describes it: every immutable field, the time to the microsecond, the
  metadata as an abstract JSON value.  \<open>preimage_content\<close>: the encoded struct determines the
  content.  \<open>compute_hash_eq\<close>: events with one hash have one content, or their encodings are a
  collision of the hash function.
\<close>

section \<open>Sequence numbers and times as JSON\<close>

lemma dec_nat_plain:
  "index_of is_exp_char (dec_nat n) = None" "index_of (\<lambda>c. c = CHR ''.'') (dec_nat n) = None"
  "hd (dec_nat n) \<noteq> CHR ''-''"
proof -
  have d: "is_digit c" if "c \<in> set (dec_nat n)" for c
    using dec_nat_digits [of n] that by (simp add: list_all_iff)
  show "index_of is_exp_char (dec_nat n) = None" "index_of (\<lambda>c. c = CHR ''.'') (dec_nat n) = None"
    using d [of "CHR ''e''"] d [of "CHR ''E''"] d [of "CHR ''.''"]
    by (auto simp: index_of_None is_exp_char_def is_digit_def)
  show "hd (dec_nat n) \<noteq> CHR ''-''" using d [OF hd_in_set] by auto
qed

lemma strip_sign_FormatInt: "strip_sign (FormatInt n) = dec_nat (nat \<bar>n\<bar>)"
  using dec_nat_plain(3) [of "nat n"] dec_nat_nonempty [of "nat n"]
  by (cases "dec_nat (nat n)") (auto simp: strip_sign_def FormatInt_def HasPrefix_def)

lemma HasPrefix_FormatInt: "HasPrefix (FormatInt n) ''-'' \<longleftrightarrow> n < 0"
  using dec_nat_plain(3) [of "nat n"] dec_nat_nonempty [of "nat n"]
  by (cases "dec_nat (nat n)") (auto simp: FormatInt_def HasPrefix_def)

lemma dec_nat_0: "dec_nat 0 = ''0''"
  by (subst dec_nat.simps) simp

lemma valid_FormatInt [simp]: "valid_number (FormatInt n)"
proof -
  have "hd (dec_nat k) = CHR ''0'' \<longrightarrow> dec_nat k = ''0''" for k
    using hd_dec_nat [of k] dec_nat_0 by (cases "k = 0") auto
  then show ?thesis
    by (simp add: valid_number_def Let_def strip_sign_FormatInt dec_nat_plain valid_mantissa_def
        valid_int_part_def all_digits_def dec_nat_digits)
qed

lemma num_value_FormatInt [simp]: "num_value (FormatInt n) = of_int n"
  by (simp add: num_value_def Let_def strip_sign_FormatInt dec_nat_plain HasPrefix_FormatInt)

lemma canon_FormatInt: "\<exists>t. canon_number (FormatInt n) = Some t"
  by (simp add: canon_number_def Let_def strip_sign_FormatInt dec_nat_plain split_exponent_def
      split_point_def)

lemma ascii_dec_nat [simp]: "ascii (dec_nat n)"
  using dec_nat_digits [of n] by (auto simp: ascii_def list_all_iff is_digit_def byte_def)

lemma ascii_append_int [simp]: "ascii (append_int w x)"
proof -
  have "ascii (replicate k (CHR ''0''))" for k by (induction k) (simp_all add: byte_def)
  then show ?thesis by (simp add: append_int_def zpad_def byte_def)
qed

lemma utf8_Format_micro [simp]: "valid_utf8 (Format_micro t)"
  by (rule ascii_utf8) (simp add: Format_micro_def Let_def byte_def split: prod.splits)

section \<open>The content of an event\<close>

definition meta_value :: "metadata option \<Rightarrow> jval" where
  "meta_value m = denote (JObj (case m of None \<Rightarrow> [] | Some kvs \<Rightarrow> kvs))"

text \<open>
  Events as they reach the hash: strings are well-formed UTF-8, the metadata is a decoded JSON
  object, the time lies within the years \<open>time.Format\<close> writes with four digits.
\<close>

definition event_ok :: "audit_event \<Rightarrow> bool" where
  "event_ok e =
     (list_all valid_utf8
        [ID e, TenantID e, ActorID (Actor e), ActorTyp (Actor e), ActorEmail (Actor e), Action e,
         ResourceID (Resource e), ResourceType (Resource e), ResourceName (Resource e), Outcome e,
         PrevHash e] \<and>
      wf_json (JObj (case Metadata e of None \<Rightarrow> [] | Some m \<Rightarrow> m)) \<and>
      0 \<le> Timestamp e \<and> Timestamp e \<le> year_9999_end)"

definition event_content where
  "event_content e =
     (ID e, TenantID e, Truncate (Timestamp e) Microsecond, Actor e, Action e, Resource e, Outcome e,
      meta_value (Metadata e), PrevHash e, SequenceNumber e)"

lemma denote_actor_json: "denote (actor_json a) = denote (actor_json b) \<longleftrightarrow> a = b"
proof
  assume "denote (actor_json a) = denote (actor_json b)"
  then have f: "map_of (map (\<lambda>(k, v). (k, denote v)) ([(''id'', JStr (ActorID a)), (''type'', JStr (ActorTyp a))] @
      omitempty ''email'' (ActorEmail a))) k = map_of (map (\<lambda>(k, v). (k, denote v)) ([(''id'', JStr (ActorID b)),
      (''type'', JStr (ActorTyp b))] @ omitempty ''email'' (ActorEmail b))) k" for k
    by (simp add: actor_json_def)
  show "a = b"
    using f [of "''id''"] f [of "''type''"] f [of "''email''"]
    by (intro actor.equality) (auto simp: omitempty_def split: if_splits)
qed simp

lemma denote_resource_json: "denote (resource_json a) = denote (resource_json b) \<longleftrightarrow> a = b"
proof
  assume "denote (resource_json a) = denote (resource_json b)"
  then have f: "map_of (map (\<lambda>(k, v). (k, denote v)) ([(''id'', JStr (ResourceID a)),
      (''type'', JStr (ResourceType a))] @ omitempty ''name'' (ResourceName a))) k =
      map_of (map (\<lambda>(k, v). (k, denote v)) ([(''id'', JStr (ResourceID b)),
      (''type'', JStr (ResourceType b))] @ omitempty ''name'' (ResourceName b))) k" for k
    by (simp add: resource_json_def)
  show "a = b"
    using f [of "''id''"] f [of "''type''"] f [of "''name''"]
    by (intro resource.equality) (auto simp: omitempty_def split: if_splits)
qed simp

lemma wf_preimage: "event_ok e \<Longrightarrow> wf_json (hash_preimage e)"
  by (auto simp: event_ok_def hash_preimage_def actor_json_def resource_json_def omitempty_def
      ascii_utf8 byte_def)

lemma preimage_content:
  assumes "event_ok e" "event_ok f"
  shows "denote (hash_preimage e) = denote (hash_preimage f) \<longleftrightarrow> event_content e = event_content f"
proof -
  have r: "0 \<le> Truncate t Microsecond" "Truncate t Microsecond \<le> year_9999_end"
    if "0 \<le> t" "t \<le> year_9999_end" for t
    using that Truncate_mono [of Microsecond 0 t] Truncate_le [of Microsecond t]
    by (auto simp: Microsecond_def Truncate_def)
  have t: "Format_micro (Truncate (Timestamp e) Microsecond) = Format_micro (Truncate (Timestamp f) Microsecond)
      \<longleftrightarrow> Truncate (Timestamp e) Microsecond = Truncate (Timestamp f) Microsecond"
    using Format_micro_inj [OF r r, of "Timestamp e" "Timestamp f"] assms by (auto simp: event_ok_def)
  let ?d = "\<lambda>e. map_of [(''id'', VStr (ID e)), (''tenant_id'', VStr (TenantID e)),
      (''timestamp'', VStr (Format_micro (Truncate (Timestamp e) Microsecond))),
      (''actor'', denote (actor_json (Actor e))), (''action'', VStr (Action e)),
      (''resource'', denote (resource_json (Resource e))), (''outcome'', VStr (Outcome e)),
      (''metadata'', meta_value (Metadata e)), (''prev_hash'', VStr (PrevHash e)),
      (''sequence_number'', VNum (of_int (SequenceNumber e)))]"
  have d: "denote (hash_preimage e) = VObj (?d e)" for e
    by (simp add: hash_preimage_def meta_value_def)
  show ?thesis
  proof
    assume "denote (hash_preimage e) = denote (hash_preimage f)"
    then have q: "?d e k = ?d f k" for k unfolding d by (metis jval.inject(5))
    show "event_content e = event_content f"
      using q [of "''id''"] q [of "''tenant_id''"] q [of "''timestamp''"] q [of "''actor''"] q [of "''action''"]
        q [of "''resource''"] q [of "''outcome''"] q [of "''metadata''"] q [of "''prev_hash''"] q [of "''sequence_number''"]
      by (simp add: event_content_def t denote_actor_json denote_resource_json)
  next
    assume "event_content e = event_content f"
    then show "denote (hash_preimage e) = denote (hash_preimage f)"
      unfolding d event_content_def by simp
  qed
qed

section \<open>Hash and content\<close>

lemma compute_hash_empty: "compute_hash H e = '''' \<longleftrightarrow> JSON_canonical (hash_preimage e) = None"
  by (auto simp: ComputeHash_def HashPrefix_def split: option.splits)

lemma compute_hash_Some:
  "compute_hash H e \<noteq> '''' \<Longrightarrow>
     \<exists>b. JSON_canonical (hash_preimage e) = Some b \<and> compute_hash H e = HashPrefix @ hex_encode (H b)"
  by (auto simp: ComputeHash_def split: option.splits)

lemma compute_hash_congr:
  assumes "event_ok e" "event_ok f" "event_content e = event_content f"
    and "compute_hash H e \<noteq> ''''" "compute_hash H f \<noteq> ''''"
  shows "compute_hash H e = compute_hash H f"
proof -
  obtain a b where "JSON_canonical (hash_preimage e) = Some a" "compute_hash H e = HashPrefix @ hex_encode (H a)"
      "JSON_canonical (hash_preimage f) = Some b" "compute_hash H f = HashPrefix @ hex_encode (H b)"
    using assms(4,5) by (meson compute_hash_Some)
  moreover from this have "a = b"
    using JSON_canonical_denote wf_preimage preimage_content assms(1-3) by metis
  ultimately show ?thesis by simp
qed

text \<open>The encodings of two events are an explicit collision of the hash function.\<close>

definition hash_collision :: "hash_function \<Rightarrow> audit_event \<Rightarrow> audit_event \<Rightarrow> bool" where
  "hash_collision H e f =
     (\<exists>a b. JSON_canonical (hash_preimage e) = Some a \<and> JSON_canonical (hash_preimage f) = Some b \<and>
            a \<noteq> b \<and> H a = H b)"

lemma compute_hash_eq:
  assumes "event_ok e" "event_ok f" "compute_hash H e = compute_hash H f" "compute_hash H e \<noteq> ''''"
  shows "event_content e = event_content f \<or> hash_collision H e f"
proof -
  obtain a b where ab: "JSON_canonical (hash_preimage e) = Some a" "compute_hash H e = HashPrefix @ hex_encode (H a)"
      "JSON_canonical (hash_preimage f) = Some b" "compute_hash H f = HashPrefix @ hex_encode (H b)"
    using assms(3,4) by (metis compute_hash_Some)
  then have "H a = H b" using assms(3) by (auto dest: hex_encode_inj)
  moreover have "a = b \<longleftrightarrow> event_content e = event_content f"
    using JSON_canonical_denote [OF wf_preimage wf_preimage, OF assms(1,2) ab(1,3)]
      preimage_content [OF assms(1,2)] by simp
  ultimately show ?thesis using ab by (auto simp: hash_collision_def)
qed

end
