(* ===== verification/Audit_Repository.thy ===== *)
theory Audit_Repository
  imports Audit_Hash
begin

text \<open>
  The storage interface of the audit service (api/internal/audit/repository.go) and its contract.

  \<open>repository\<close> is the Go interface \<open>Repository\<close>: a record of operations over a store of type
  \<open>'d\<close>; \<open>'s\<close> is the state of a \<open>Walk\<close> callback.  The locale \<open>audit_repository\<close> states what a
  store promises, in terms of the chain of a tenant as a list of events; the lemmas proved inside it
  are what the service relies on.  The PostgreSQL store interprets it in theory Audit_Repo_Pg.
\<close>

section \<open>Chains\<close>

text \<open>The chain recipe: every event holds the hash of its predecessor and its own content hash.\<close>

fun chain_ok :: "hash_function \<Rightarrow> string \<Rightarrow> audit_event list \<Rightarrow> bool" where
  "chain_ok H p [] = True"
| "chain_ok H p (e # es) = (PrevHash e = p \<and> Hash e = compute_hash H e \<and> chain_ok H (Hash e) es)"

definition chain_tip :: "string \<Rightarrow> audit_event list \<Rightarrow> string" where
  "chain_tip p es = (if es = [] then p else Hash (last es))"

text \<open>Every event with the hash its predecessor stores.\<close>

fun with_prev :: "string \<Rightarrow> audit_event list \<Rightarrow> (string \<times> audit_event) list" where
  "with_prev p [] = []"
| "with_prev p (e # es) = (p, e) # with_prev (Hash e) es"

text \<open>A chain linked anew from a given hash.\<close>

fun relink :: "hash_function \<Rightarrow> string \<Rightarrow> audit_event list \<Rightarrow> audit_event list" where
  "relink H p [] = []"
| "relink H p (e # es) =
     (let h = compute_hash H (e\<lparr>PrevHash := p\<rparr>)
      in e\<lparr>PrevHash := p, Hash := h\<rparr> # relink H h es)"

lemma chain_tip_simps [simp]:
  "chain_tip p [] = p" "chain_tip p (e # es) = chain_tip (Hash e) es" "chain_tip p (es @ [e]) = Hash e"
  by (simp_all add: chain_tip_def)

lemma chain_ok_append [simp]:
  "chain_ok H p (xs @ ys) \<longleftrightarrow> chain_ok H p xs \<and> chain_ok H (chain_tip p xs) ys"
  by (induction xs arbitrary: p) auto

lemma with_prev_append: "with_prev p (xs @ ys) = with_prev p xs @ with_prev (chain_tip p xs) ys"
  by (induction xs arbitrary: p) auto

lemma map_snd_with_prev [simp]: "map snd (with_prev p es) = es"
  by (induction es arbitrary: p) auto

lemma chain_ok_with_prev:
  "chain_ok H p es \<longleftrightarrow> (\<forall>(q, e) \<in> set (with_prev p es). PrevHash e = q \<and> Hash e = compute_hash H e)"
  by (induction es arbitrary: p) auto

lemma compute_hash_Hash [simp]: "compute_hash H (e\<lparr>Hash := h\<rparr>) = compute_hash H e"
  by (simp add: ComputeHash_def hash_preimage_def)

lemma chain_ok_relink: "chain_ok H p (relink H p es)"
  by (induction es arbitrary: p) (simp_all add: Let_def)

lemma relink_keeps:
  "map ID (relink H p es) = map ID es" "map SequenceNumber (relink H p es) = map SequenceNumber es"
  "map Timestamp (relink H p es) = map Timestamp es"
  by (induction es arbitrary: p) (simp_all add: Let_def)

lemma with_prev_split:
  "(q, e) \<in> set (with_prev p es) \<Longrightarrow> \<exists>xs ys. es = xs @ e # ys \<and> q = chain_tip p xs"
proof (induction es arbitrary: p)
  case (Cons a es)
  show ?case
  proof (cases "(q, e) = (p, a)")
    case True
    then have "a # es = [] @ e # es \<and> q = chain_tip p []" by simp
    then show ?thesis by blast
  next
    case False
    with Cons.prems have "(q, e) \<in> set (with_prev (Hash a) es)" by auto
    then obtain xs ys where "es = xs @ e # ys" "q = chain_tip (Hash a) xs" using Cons.IH by blast
    then have "a # es = (a # xs) @ e # ys \<and> q = chain_tip p (a # xs)" by simp
    then show ?thesis by blast
  qed
qed simp

lemma strict_sorted_filter_less:
  assumes "sorted_wrt (<) (map SequenceNumber (xs @ e # ys))"
  shows "filter (\<lambda>r. SequenceNumber r < SequenceNumber e) (xs @ e # ys) = xs"
    "filter (\<lambda>r. SequenceNumber e \<le> SequenceNumber r) (xs @ e # ys) = e # ys"
proof -
  have b: "\<forall>x \<in> set xs. SequenceNumber x < SequenceNumber e" "\<forall>x \<in> set ys. SequenceNumber e < SequenceNumber x"
    using assms by (auto simp: sorted_wrt_append)
  then have "filter (\<lambda>r. SequenceNumber e \<le> SequenceNumber r) xs = []"
      "filter (\<lambda>r. SequenceNumber e \<le> SequenceNumber r) ys = ys"
      "filter (\<lambda>r. SequenceNumber r < SequenceNumber e) xs = xs"
      "filter (\<lambda>r. SequenceNumber r < SequenceNumber e) ys = []"
    by (auto intro!: filter_none filter_all)
  then show "filter (\<lambda>r. SequenceNumber r < SequenceNumber e) (xs @ e # ys) = xs"
    "filter (\<lambda>r. SequenceNumber e \<le> SequenceNumber r) (xs @ e # ys) = e # ys" by simp_all
qed

section \<open>The interface\<close>

text \<open>A callback that may fail, run over a list of events.\<close>

fun run_events :: "(audit_event \<Rightarrow> 's \<Rightarrow> 's result) \<Rightarrow> audit_event list \<Rightarrow> 's \<Rightarrow> 's result" where
  "run_events fn [] st = Inr st"
| "run_events fn (e # es) st = bind_result (fn e st) (run_events fn es)"

definition in_window :: "time \<Rightarrow> time \<Rightarrow> audit_event \<Rightarrow> bool" where
  "in_window from to e = (from \<le> Timestamp e \<and> Timestamp e \<le> to)"

record ('d, 's) repository =
  rAppendChained :: "'d \<Rightarrow> string \<Rightarrow> audit_event \<Rightarrow> audit_event result \<times> 'd"
  rAppendBatchChained :: "'d \<Rightarrow> string \<Rightarrow> audit_event list \<Rightarrow> audit_event list result \<times> 'd"
  rGet :: "'d \<Rightarrow> string \<Rightarrow> string \<Rightarrow> audit_event result"
  rPrevious :: "'d \<Rightarrow> string \<Rightarrow> string \<Rightarrow> audit_event option result"
  rList :: "'d \<Rightarrow> string \<Rightarrow> filter_spec \<Rightarrow> (audit_event list \<times> nat) result"
  rWalk :: "'d \<Rightarrow> string \<Rightarrow> time \<Rightarrow> time \<Rightarrow> (audit_event \<Rightarrow> 's \<Rightarrow> 's result) \<Rightarrow> 's \<Rightarrow> ('s \<times> nat) result"
  rCountByAction :: "'d \<Rightarrow> string \<Rightarrow> time \<Rightarrow> time \<Rightarrow> (string \<rightharpoonup> nat) result"
  rCountByActorType :: "'d \<Rightarrow> string \<Rightarrow> time \<Rightarrow> time \<Rightarrow> (string \<rightharpoonup> nat) result"
  rReanchorFrom :: "'d \<Rightarrow> string \<Rightarrow> int \<Rightarrow> string \<Rightarrow> int result \<times> 'd"
  rGetBySeq :: "'d \<Rightarrow> string \<Rightarrow> int \<Rightarrow> audit_event result"

text \<open>
  Events as the service hands them to the store: metadata decoded from JSON, time within the
  supported range.
\<close>

definition input_ok :: "audit_event \<Rightarrow> bool" where
  "input_ok e =
     (wf_json (JObj (case Metadata e of None \<Rightarrow> [] | Some m \<Rightarrow> m)) \<and>
      0 \<le> Timestamp e \<and> Timestamp e \<le> year_9999_end)"

locale audit_repository =
  fixes repo :: "('d, 's) repository"
    and H :: hash_function
    and chain :: "'d \<Rightarrow> string \<Rightarrow> audit_event list"
    and inv :: "'d \<Rightarrow> bool"
  assumes chain_order: "inv d \<Longrightarrow> sorted_wrt (<) (map SequenceNumber (chain d t))"
    and chain_ids: "inv d \<Longrightarrow> distinct (map ID (chain d t))"
    and get_ok: "inv d \<Longrightarrow> rGet repo d t i = Inr e \<Longrightarrow> e \<in> set (chain d t) \<and> ID e = i"
    and previous_ok: "inv d \<Longrightarrow> rPrevious repo d t i = Inr pr \<Longrightarrow>
      \<exists>xs e ys. chain d t = xs @ e # ys \<and> ID e = i \<and> pr = (if xs = [] then None else Some (last xs))"
    and walk_ok: "inv d \<Longrightarrow> rWalk repo d t from to fn st = Inr (st', n) \<Longrightarrow>
      run_events fn (filter (in_window from to) (chain d t)) st = Inr st' \<and>
      n = length (filter (in_window from to) (chain d t))"
    and append_batch_ok: "inv d \<Longrightarrow> \<forall>e \<in> set es. input_ok e \<Longrightarrow>
      rAppendBatchChained repo d t es = (Inr out, d') \<Longrightarrow>
      inv d' \<and> (\<exists>rs. chain d' t = chain d t @ rs \<and> chain_ok H (chain_tip GenesisHash (chain d t)) rs \<and>
        ID ` set rs = ID ` set es - ID ` set (chain d t)) \<and> (\<forall>t'. t' \<noteq> t \<longrightarrow> chain d' t' = chain d t')"
    and append_batch_err: "inv d \<Longrightarrow> rAppendBatchChained repo d t es = (Inl err, d') \<Longrightarrow>
      inv d' \<and> (\<forall>t'. chain d' t' = chain d t')"
    and append_is_batch: "rAppendChained repo d t e = (r, d') \<Longrightarrow>
      \<exists>rb. rAppendBatchChained repo d t [e] = (rb, d') \<and> (\<forall>out. r = Inr out \<longrightarrow> rb = Inr [out])"
    and reanchor_ok: "inv d \<Longrightarrow> p = GenesisHash \<or> p \<in> Hash ` set (chain d t) \<Longrightarrow>
      rReanchorFrom repo d t s p = (Inr updated, d') \<Longrightarrow>
      inv d' \<and> chain d' t = filter (\<lambda>e. SequenceNumber e < s) (chain d t) @
        relink H p (filter (\<lambda>e. s \<le> SequenceNumber e) (chain d t)) \<and>
      updated = int (length (filter (\<lambda>e. s \<le> SequenceNumber e) (chain d t))) \<and>
      (\<forall>t'. t' \<noteq> t \<longrightarrow> chain d' t' = chain d t')"
    and reanchor_err: "rReanchorFrom repo d t s p = (Inl err, d') \<Longrightarrow> d' = d"
begin

lemma chain_split_unique:
  assumes "inv d" "chain d t = xs @ e # ys" "chain d t = xs' @ e' # ys'" "ID e = ID e'"
  shows "xs = xs' \<and> e = e' \<and> ys = ys'"
proof -
  have d: "distinct (map ID (chain d t))" using chain_ids [OF assms(1)] .
  have at: "length us < length (chain d t) \<and> chain d t ! length us = x" if "chain d t = us @ x # vs" for us x vs
    using that by simp
  have n: "length xs < length (chain d t)" "chain d t ! length xs = e"
    "length xs' < length (chain d t)" "chain d t ! length xs' = e'"
    using at [OF assms(2)] at [OF assms(3)] by blast+
  have "map ID (chain d t) ! length xs = map ID (chain d t) ! length xs'"
    using n assms(4) by simp
  then have "length xs = length xs'" using nth_eq_iff_index_eq [OF d] n(1,3) by simp
  with assms(2,3) show ?thesis by simp
qed

text \<open>What \<open>Previous\<close> answers for an event of the chain is the hash it must point to.\<close>

lemma previous_expected:
  assumes "inv d" "(q, e) \<in> set (with_prev GenesisHash (chain d t))" "rPrevious repo d t (ID e) = Inr p"
  shows "(case p of None \<Rightarrow> GenesisHash | Some x \<Rightarrow> Hash x) = q"
proof -
  obtain xs ys where a: "chain d t = xs @ e # ys" "q = chain_tip GenesisHash xs"
    using with_prev_split [OF assms(2)] by blast
  obtain xs' e' ys' where b: "chain d t = xs' @ e' # ys'" "ID e' = ID e"
      "p = (if xs' = [] then None else Some (last xs'))"
    using previous_ok [OF assms(1,3)] by blast
  have "xs' = xs" using chain_split_unique [OF assms(1) b(1) a(1) b(2)] by blast
  with a b show ?thesis by (simp add: chain_tip_def)
qed

lemma append_batch_chain:
  assumes "inv d" "\<forall>e \<in> set es. input_ok e" "rAppendBatchChained repo d t es = (r, d')"
  shows "inv d' \<and> (chain_ok H GenesisHash (chain d t') \<longrightarrow> chain_ok H GenesisHash (chain d' t'))"
proof (cases r)
  case (Inl err)
  then show ?thesis using append_batch_err [OF assms(1)] assms(3) by simp
next
  case (Inr out)
  then have "inv d'" and "\<exists>rs. chain d' t = chain d t @ rs \<and> chain_ok H (chain_tip GenesisHash (chain d t)) rs"
    and "\<forall>t'. t' \<noteq> t \<longrightarrow> chain d' t' = chain d t'"
    using append_batch_ok [OF assms(1,2)] assms(3) by blast+
  then show ?thesis by (cases "t' = t") auto
qed

end

end
