(* ===== verification/JSON_Storage.thy ===== *)
theory JSON_Storage
  imports JSON_Value
begin

text \<open>
  A document on its way through \<open>json.Marshal\<close> and a \<open>jsonb\<close> column.  \<open>redecode_sound\<close>:
  marshalling and decoding keeps the value of a well-formed document.  \<open>JSON_canonical_defined\<close>:
  the canonical encoding exists exactly when every number literal can be normalised; in
  particular it exists for the plain decimals \<open>jsonb\<close> prints.
\<close>

text \<open>The number literals of a document.\<close>

fun num_lits :: "json \<Rightarrow> string list" where
  "num_lits (JNum s) = [s]"
| "num_lits (JArr xs) = concat (map num_lits xs)"
| "num_lits (JObj kvs) = concat (map (\<lambda>(k, v). num_lits v) kvs)"
| "num_lits _ = []"

text \<open>No number literal has an exponent.\<close>

definition plain_numbers :: "json \<Rightarrow> bool" where
  "plain_numbers v = list_all (\<lambda>s. index_of is_exp_char (strip_sign s) = None) (num_lits v)"

lemma numbers_defined:
  "numbers v \<noteq> None \<longleftrightarrow> (\<forall>s \<in> set (num_lits v). canon_number s \<noteq> None)"
  "numbers_list xs \<noteq> None \<longleftrightarrow> (\<forall>x \<in> set xs. \<forall>s \<in> set (num_lits x). canon_number s \<noteq> None)"
  "numbers_fields kvs \<noteq> None \<longleftrightarrow> (\<forall>(k, x) \<in> set kvs. \<forall>s \<in> set (num_lits x). canon_number s \<noteq> None)"
  by (induction v and xs and kvs rule: numbers_numbers_list_numbers_fields.induct)
    (auto split: option.splits)

lemma redecode_JArr:
  "redecode (JArr xs) = Some w \<longleftrightarrow> (\<exists>ys. w = JArr ys \<and> list_all2 (\<lambda>x y. redecode x = Some y) xs ys)"
  by (auto simp: redecode_list_Some [symmetric])

lemma redecode_fields_sorted:
  assumes "redecode_fields kvs = Some fs" "distinct (map fst kvs)" "\<forall>(k, v) \<in> set kvs. valid_utf8 k"
  shows "redecode (JObj kvs) = Some (JObj (sort_key fst fs))"
    and "map fst fs = map fst kvs" "distinct (map fst (sort_key fst fs))"
    and "(k, y) \<in> set fs \<Longrightarrow> \<exists>x. (k, x) \<in> set kvs \<and> redecode x = Some y"
    and "map_of (sort_key fst fs) = map_of fs"
proof -
  have l: "list_all2 (\<lambda>(k, x) (l, y). k = l \<and> redecode x = Some y) kvs fs"
    using assms(1) by (simp add: redecode_fields_Some)
  show k: "map fst fs = map fst kvs" using list_all2_fields_keys [OF l] by simp
  show d: "distinct (map fst (sort_key fst fs))"
    using assms(2) k by (metis distinct_map distinct_sort set_sort)
  have "\<forall>k \<in> set (map fst fs). valid_utf8 k" unfolding k using assms(3) by auto
  then have "map (\<lambda>(k, v). (utf8_coerce k, v)) (sort_key fst fs) = sort_key fst fs"
    by (intro map_idI) (auto simp: valid_utf8_def)
  then show "redecode (JObj kvs) = Some (JObj (sort_key fst fs))"
    using assms(1) d by (simp add: dedup_last_distinct)
  show "(k, y) \<in> set fs \<Longrightarrow> \<exists>x. (k, x) \<in> set kvs \<and> redecode x = Some y"
    using list_all2_fields_mem [OF l] by blast
  show "map_of (sort_key fst fs) = map_of fs"
    using d k assms(2) by (simp add: map_of_inject_set)
qed

lemma redecode_fields_defined:
  "\<forall>(k, x) \<in> set kvs. \<exists>y. redecode x = Some y \<Longrightarrow> \<exists>fs. redecode_fields kvs = Some fs"
  by (induction kvs) (auto split: prod.splits)

lemma redecode_sound:
  "wf_json v \<Longrightarrow> \<exists>w. redecode v = Some w \<and> wf_json w \<and> denote w = denote v \<and>
     set (num_lits w) = set (num_lits v)"
proof (induction v)
  case (JNum s)
  then show ?case using valid_number_num [of s] by (simp add: marshal_number_def)
next
  case (JStr s)
  then show ?case by (simp add: valid_utf8_def)
next
  case (JArr xs)
  let ?P = "\<lambda>x y. redecode x = Some y \<and> wf_json y \<and> denote y = denote x \<and> set (num_lits y) = set (num_lits x)"
  have "\<forall>x \<in> set xs. \<exists>y. ?P x y" using JArr by (auto simp: list_all_iff)
  then obtain f where "\<forall>x \<in> set xs. ?P x (f x)" using bchoice [of "set xs" ?P] by blast
  then obtain ys where "list_all2 ?P xs ys" by (auto simp: list_all2_conv_all_nth intro!: that [of "map f xs"])
  moreover from this have "list_all wf_json ys \<and> map denote ys = map denote xs \<and>
      (\<Union>y \<in> set ys. set (num_lits y)) = (\<Union>x \<in> set xs. set (num_lits x))"
    by (induction rule: list_all2_induct) auto
  ultimately show ?case
    by (intro exI [of _ "JArr ys"]) (auto simp: redecode_JArr simp del: redecode.simps elim: list.rel_mono_strong)
next
  case (JObj kvs)
  have wf: "distinct (map fst kvs)" "\<forall>(k, v) \<in> set kvs. valid_utf8 k" "\<forall>(k, v) \<in> set kvs. wf_json v"
    using JObj.prems by (auto simp: list_all_iff)
  let ?P = "\<lambda>x y. wf_json y \<and> denote y = denote x \<and> set (num_lits y) = set (num_lits x)"
  have IH: "\<exists>y. redecode x = Some y \<and> ?P x y" if "(k, x) \<in> set kvs" for k x
    using JObj.IH [OF that, of x] wf(3) that by auto
  then obtain fs where fs: "redecode_fields kvs = Some fs" using redecode_fields_defined [of kvs] by blast
  note s = redecode_fields_sorted [OF fs wf(1,2)]
  have mem: "\<exists>x. (k, x) \<in> set kvs \<and> ?P x y" if "(k, y) \<in> set fs" for k y
    using s(4) [OF that] IH by fastforce
  have onto: "\<exists>y. (k, y) \<in> set fs \<and> ?P x y" if x: "(k, x) \<in> set kvs" for k x
  proof -
    have "k \<in> fst ` set fs" using x s(2) by (metis (no_types, lifting) fst_conv image_eqI set_map)
    then obtain y where y: "(k, y) \<in> set fs" by auto
    then obtain x' where x': "(k, x') \<in> set kvs" "?P x' y" using mem by blast
    then have "x' = x" using x wf(1) by (metis map_of_eq_Some_iff option.inject)
    with x' y show ?thesis by blast
  qed
  have "wf_json (JObj (sort_key fst fs))"
    using s(3) mem wf(2) by (fastforce simp: list_all_iff)
  moreover have "map_option denote (map_of fs k) = map_option denote (map_of kvs k)" for k
  proof (cases "map_of fs k")
    case None
    then have "k \<notin> fst ` set kvs" using s(2) by (metis (mono_tags, lifting) map_of_eq_None_iff set_map)
    then have "map_of kvs k = None" by (simp add: map_of_eq_None_iff)
    with None show ?thesis by simp
  next
    case (Some y)
    then obtain x where "(k, x) \<in> set kvs" "?P x y" using mem by (blast dest: map_of_SomeD)
    with wf(1) Some show ?thesis by simp
  qed
  then have "denote (JObj (sort_key fst fs)) = denote (JObj kvs)"
    by (auto simp: denote_fields s(5) simp del: denote.simps)
  moreover have "set (num_lits (JObj (sort_key fst fs))) = set (num_lits (JObj kvs))"
    using mem onto by fastforce
  ultimately show ?case using s(1) by blast
qed auto

lemma canon_defined:
  assumes "wf_json v"
  shows "canon v \<noteq> None \<longleftrightarrow> (\<forall>s \<in> set (num_lits v). canon_number s \<noteq> None)"
proof -
  obtain w where "redecode v = Some w" "set (num_lits w) = set (num_lits v)"
    using redecode_sound [OF assms] by blast
  then show ?thesis using numbers_defined(1) [of w] by (simp add: canon_def)
qed

lemma JSON_canonical_defined:
  "wf_json v \<Longrightarrow> JSON_canonical v \<noteq> None \<longleftrightarrow> (\<forall>s \<in> set (num_lits v). canon_number s \<noteq> None)"
  using canon_defined [of v] by (simp add: JSON_canonical_canon)

lemma plain_canon_number: "index_of is_exp_char (strip_sign s) = None \<Longrightarrow> canon_number s \<noteq> None"
  by (auto simp: canon_number_def Let_def split_exponent_def split: prod.splits)

lemma plain_canonical: "wf_json v \<Longrightarrow> plain_numbers v \<Longrightarrow> JSON_canonical v \<noteq> None"
  unfolding JSON_canonical_defined by (auto simp: plain_numbers_def list_all_iff plain_canon_number)

end
