(* ===== verification/Pg_Db.thy ===== *)
theory Pg_Db
  imports Audit_Repository JSON_Storage
begin

text \<open>
  The database behind api/internal/storage/postgres: the tables the stores write, their
  constraints, and the environment of a call.

  A table is a list of rows in insertion order.  \<open>pgdb\<close> holds the tables of the audit store; the
  schema constraints (primary keys, \<open>UNIQUE\<close>, \<open>REFERENCES\<close>, \<open>CHECK\<close>) are those of
  baseline/001_core.sql and are checked by the insert functions.  The read pool is the write pool.

  \<open>env\<close> collects what is outside the program: SHA-256, PostgreSQL's \<open>jsonb\<close> input function
  (\<open>None\<close> where it rejects a document), the clock, and an oracle telling which database
  statements fail: \<open>fault site i\<close> is true where the \<open>i\<close>-th execution of the statement whose error
  message is \<open>site\<close> returns an error.
\<close>

section \<open>Environment\<close>

record env =
  sha256 :: "string \<Rightarrow> string"
  jsonb :: "metadata \<Rightarrow> metadata option"
  now :: time
  fault :: "string \<Rightarrow> nat \<Rightarrow> bool"

text \<open>
  What the program relies on of \<open>jsonb\<close>: an accepted document reads back as a well-formed
  document with the same value, its numbers printed as plain decimals.
\<close>

definition jsonb_ok :: "(metadata \<Rightarrow> metadata option) \<Rightarrow> bool" where
  "jsonb_ok J = (\<forall>m m'. J m = Some m' \<longrightarrow> wf_json (JObj m) \<longrightarrow>
     wf_json (JObj m') \<and> plain_numbers (JObj m') \<and> denote (JObj m') = denote (JObj m))"

section \<open>Tables\<close>

record tenant_row =
  TID :: string
  TName :: string
  TCreatedAt :: time
  TDeletedAt :: "time option"
  TPlanID :: string
  TPeriodEnd :: "time option"
  TSubStatus :: "string option"
  TAlertWebhookURL :: string
  TAlertEmail :: string
  TQuotaAlertMonth :: string
  TQuotaAlertLevel :: int

record api_key =
  KID :: string
  KTenantID :: string
  KHash :: string
  KScope :: string
  KLabel :: string
  KCreatedAt :: time
  KRevokedAt :: "time option"

record plan =
  PlanID :: string
  PlanName :: string
  RetentionDays :: "int option"
  MonthlyEventLimit :: "int option"
  MonthlyCopilotLimit :: "int option"
  CopilotTranscriptRetentionDays :: "int option"
  PlanDescription :: string

record pgdb =
  audit_rows :: "audit_event list"
  audit_seq :: int
  tenant_rows :: "tenant_row list"
  identity_rows :: "((string \<times> string) \<times> string) list"
  key_rows :: "api_key list"
  webhook_rows :: "(string \<times> string \<times> string) list"
  plan_rows :: "plan list"
  append_only :: bool

text \<open>A \<open>text\<close> column takes well-formed UTF-8 without the NUL character.\<close>

definition storable :: "string \<Rightarrow> bool" where
  "storable s = (valid_utf8 s \<and> CHR 0x00 \<notin> set s)"

definition event_texts :: "audit_event \<Rightarrow> string list" where
  "event_texts e =
     [ID e, TenantID e, ActorID (Actor e), ActorTyp (Actor e), ActorEmail (Actor e), Action e,
      ResourceID (Resource e), ResourceType (Resource e), ResourceName (Resource e), Outcome e,
      PrevHash e, Hash e]"

text \<open>The constraints of table \<open>audit_events\<close> for one new row.\<close>

definition audit_row_ok :: "pgdb \<Rightarrow> audit_event \<Rightarrow> bool" where
  "audit_row_ok db e =
     (list_all storable (event_texts e) \<and>
      ActorType_IsValid (ActorTyp (Actor e)) \<and> Outcome_IsValid (Outcome e) \<and>
      list_ex (\<lambda>t. TID t = TenantID e) (tenant_rows db) \<and>
      \<not> list_ex (\<lambda>r. ID r = ID e) (audit_rows db) \<and>
      \<not> list_ex (\<lambda>r. TenantID r = TenantID e \<and> SequenceNumber r = SequenceNumber e) (audit_rows db))"

text \<open>
  The row the database keeps: \<open>timestamptz\<close> holds microseconds, \<open>metadata\<close> is the \<open>jsonb\<close>
  value of the marshalled document, the JSON \<open>null\<close> for a nil map.
\<close>

definition store_metadata :: "env \<Rightarrow> metadata option \<Rightarrow> metadata option option" where
  "store_metadata v md =
     (case md of
        None \<Rightarrow> Some None
      | Some m \<Rightarrow>
          (case redecode (JObj m) of
             Some (JObj m') \<Rightarrow> map_option Some (jsonb v m')
           | _ \<Rightarrow> None))"

definition insert_audit_row :: "env \<Rightarrow> audit_event \<Rightarrow> pgdb \<Rightarrow> pgdb option" where
  "insert_audit_row v e db =
     (case store_metadata v (Metadata e) of
        None \<Rightarrow> None
      | Some md \<Rightarrow>
          if audit_row_ok db e
          then Some (db\<lparr>audit_rows := audit_rows db @
                 [e\<lparr>Metadata := md, Timestamp := Truncate (Timestamp e) Microsecond\<rparr>]\<rparr>)
          else None)"

text \<open>A multi-row \<open>INSERT\<close>: all rows or none.\<close>

fun insert_audit_rows :: "env \<Rightarrow> audit_event list \<Rightarrow> pgdb \<Rightarrow> pgdb option" where
  "insert_audit_rows v [] db = Some db"
| "insert_audit_rows v (e # es) db =
     (case insert_audit_row v e db of None \<Rightarrow> None | Some db' \<Rightarrow> insert_audit_rows v es db')"

text \<open>The events of a tenant in chain order (\<open>ORDER BY sequence_number\<close>).\<close>

definition chain_rows :: "pgdb \<Rightarrow> string \<Rightarrow> audit_event list" where
  "chain_rows db tid = sort_key SequenceNumber (filter (\<lambda>r. TenantID r = tid) (audit_rows db))"

section \<open>The state invariant\<close>

text \<open>What the constraints keep true of the stored rows.\<close>

definition wf_rows :: "pgdb \<Rightarrow> bool" where
  "wf_rows db =
     (distinct (map ID (audit_rows db)) \<and>
      distinct (map (\<lambda>r. (TenantID r, SequenceNumber r)) (audit_rows db)) \<and>
      (\<forall>r \<in> set (audit_rows db).
         0 < SequenceNumber r \<and> SequenceNumber r \<le> audit_seq db \<and>
         list_ex (\<lambda>t. TID t = TenantID r) (tenant_rows db)) \<and>
      0 \<le> audit_seq db \<and> audit_seq db < 2 ^ 63)"

section \<open>Lemmas\<close>

lemma chain_rows_set: "set (chain_rows db tid) = {r \<in> set (audit_rows db). TenantID r = tid}"
  by (simp add: chain_rows_def)

lemma chain_rows_sorted: "sorted (map SequenceNumber (chain_rows db tid))"
  by (simp add: chain_rows_def)

lemma chain_rows_distinct:
  assumes "wf_rows db"
  shows "distinct (map SequenceNumber (chain_rows db tid))"
proof -
  let ?f = "filter (\<lambda>r. TenantID r = tid) (audit_rows db)"
  have "distinct (map (\<lambda>r. (TenantID r, SequenceNumber r)) ?f)"
    using assms by (simp add: wf_rows_def distinct_map_filter)
  then have "distinct ?f" "inj_on (\<lambda>r. (TenantID r, SequenceNumber r)) (set ?f)"
    by (simp_all add: distinct_map)
  then have "distinct ?f" "inj_on SequenceNumber (set ?f)"
    by (auto simp: inj_on_def)
  then show ?thesis
    by (simp add: chain_rows_def distinct_map)
qed

lemma chain_rows_strict:
  "wf_rows db \<Longrightarrow> sorted_wrt (<) (map SequenceNumber (chain_rows db tid))"
  using chain_rows_sorted chain_rows_distinct by (simp add: strict_sorted_iff)

end
