(* ===== verification/Audit_Store.thy ===== *)
theory Audit_Store
  imports Pg_Db
begin

text \<open>
  api/internal/storage/postgres/audit_store.go: the chained append, the reads of the audit log and
  the re-anchoring of a chain.  One function per method; an operation that writes returns the new
  database, and a transaction that fails returns the tables it started from (the sequence keeps the
  values it handed out, as PostgreSQL sequences do).  \<open>e\<close> pointers become values: the events the Go
  code mutates in place are the ones the functions return.
\<close>

section \<open>Appending to the chain\<close>

text \<open>\<open>nextval\<close> of the \<open>bigserial\<close> sequence.\<close>

definition nextval :: "int \<Rightarrow> int option" where
  "nextval s = (if s < 2 ^ 63 - 1 then Some (s + 1) else None)"

definition lastHashTx :: "env \<Rightarrow> pgdb \<Rightarrow> string \<Rightarrow> string result" where
  "lastHashTx v db tid =
     (if fault v ''reading chain head'' 0 then Inl (Internal ''reading chain head'')
      else case chain_rows db tid of
             [] \<Rightarrow> Inr GenesisHash
           | r # rs \<Rightarrow> Inr (Hash (last (r # rs))))"

definition loadExistingEventsTx ::
    "env \<Rightarrow> pgdb \<Rightarrow> string \<Rightarrow> string list \<Rightarrow> (string \<rightharpoonup> audit_event) result" where
  "loadExistingEventsTx v db tid ids =
     (if ids = [] then Inr Map.empty
      else if fault v ''checking existing audit events'' 0
      then Inl (Internal ''checking existing audit events'')
      else Inr (foldl (\<lambda>m e. m(ID e \<mapsto> e)) Map.empty
                  (filter (\<lambda>r. TenantID r = tid \<and> ID r \<in> set ids) (audit_rows db))))"

text \<open>
  The loop over the batch: events already stored (or seen earlier in the batch) are skipped; every
  other one gets the next sequence number, the running previous hash and its content hash.  The
  result carries the events to insert, the extended \<open>existing\<close> map, and the sequence value.
\<close>

fun chain_events :: "env \<Rightarrow> string \<Rightarrow> nat \<Rightarrow> int \<Rightarrow> string \<Rightarrow> (string \<rightharpoonup> audit_event) \<Rightarrow>
    audit_event list \<Rightarrow> (audit_event list \<times> (string \<rightharpoonup> audit_event)) result \<times> int" where
  "chain_events v tid i s prevHash existing [] = (Inr ([], existing), s)"
| "chain_events v tid i s prevHash existing (e0 # es) =
     (let e1 = e0\<lparr>TenantID := tid\<rparr>
      in if existing (ID e1) \<noteq> None then chain_events v tid (Suc i) s prevHash existing es
         else let e2 = e1\<lparr>Timestamp := Truncate (Timestamp e1) Microsecond\<rparr>
              in if fault v ''allocating audit sequence'' i
                 then (Inl (Internal ''allocating audit sequence''), s)
                 else case nextval s of
                        None \<Rightarrow> (Inl (Internal ''allocating audit sequence''), s)
                      | Some n \<Rightarrow>
                          (let e3 = e2\<lparr>SequenceNumber := n, PrevHash := prevHash\<rparr>;
                               h = compute_hash (sha256 v) e3;
                               e4 = e3\<lparr>Hash := h\<rparr>
                           in if h = ''''
                              then (Inl (InvalidInput ''audit metadata is not canonical JSON''), n)
                              else case chain_events v tid (Suc i) n h (existing(ID e4 \<mapsto> e4)) es of
                                     (Inl err, s') \<Rightarrow> (Inl err, s')
                                   | (Inr (ins, ex), s') \<Rightarrow> (Inr (e4 # ins, ex), s')))"

definition bulkInsertChunkSize :: nat where
  "bulkInsertChunkSize = 100"

text \<open>One multi-row \<open>INSERT ... RETURNING id, sequence_number\<close> and the check of what it returned.\<close>

definition bulkInsertChunkTx :: "env \<Rightarrow> nat \<Rightarrow> audit_event list \<Rightarrow> pgdb \<Rightarrow> pgdb result" where
  "bulkInsertChunkTx v c events db =
     (if events = [] then Inr db
      else if list_ex (\<lambda>e. case Metadata e of None \<Rightarrow> False | Some m \<Rightarrow> redecode (JObj m) = None) events
      then Inl (Internal ''marshaling metadata'')
      else if fault v ''bulk inserting audit events'' c
      then Inl (Internal ''bulk inserting audit events'')
      else case insert_audit_rows v events db of
             None \<Rightarrow> Inl (Internal ''bulk inserting audit events'')
           | Some db' \<Rightarrow>
               if list_all (\<lambda>e. map_of (map (\<lambda>r. (ID r, SequenceNumber r))
                                 (drop (length (audit_rows db)) (audit_rows db'))) (ID e) \<noteq> None) events
               then Inr db' else Inl (Internal ''missing sequence for inserted event''))"

function bulkInsertAuditEventsTx :: "env \<Rightarrow> nat \<Rightarrow> audit_event list \<Rightarrow> pgdb \<Rightarrow> pgdb result" where
  "bulkInsertAuditEventsTx v c events db =
     (if events = [] then Inr db
      else case bulkInsertChunkTx v c (take bulkInsertChunkSize events) db of
             Inl err \<Rightarrow> Inl err
           | Inr db' \<Rightarrow> bulkInsertAuditEventsTx v (Suc c) (drop bulkInsertChunkSize events) db')"
  by pat_completeness auto
termination
  by (relation "measure (\<lambda>(v, c, events, db). length events)")
    (auto simp: bulkInsertChunkSize_def length_greater_0_conv [symmetric] simp del: length_greater_0_conv)

declare bulkInsertAuditEventsTx.simps [simp del]

definition AppendBatchChained ::
    "env \<Rightarrow> pgdb \<Rightarrow> string \<Rightarrow> audit_event list \<Rightarrow> audit_event list result \<times> pgdb" where
  "AppendBatchChained v db tid events =
     (if events = [] then (Inr [], db)
      else if fault v ''beginning audit tx'' 0 then (Inl (Internal ''beginning audit tx''), db)
      else if fault v ''acquiring tenant lock'' 0 then (Inl (Internal ''acquiring tenant lock''), db)
      else case lastHashTx v db tid of
             Inl err \<Rightarrow> (Inl err, db)
           | Inr prevHash \<Rightarrow>
      (case loadExistingEventsTx v db tid (map ID events) of
         Inl err \<Rightarrow> (Inl err, db)
       | Inr existing \<Rightarrow>
      (case chain_events v tid 0 (audit_seq db) prevHash existing events of
         (Inl err, s) \<Rightarrow> (Inl err, db\<lparr>audit_seq := s\<rparr>)
       | (Inr (toInsert, existing'), s) \<Rightarrow>
           (let db1 = db\<lparr>audit_seq := s\<rparr>
            in case bulkInsertAuditEventsTx v 0 toInsert db1 of
                 Inl err \<Rightarrow> (Inl err, db1)
               | Inr db2 \<Rightarrow>
                   if fault v ''committing audit tx'' 0
                   then (Inl (Internal ''committing audit tx''), db1)
                   else (Inr (map (\<lambda>e. case existing' (ID e) of Some ex \<Rightarrow> ex | None \<Rightarrow> e) events), db2)))))"

definition AppendChained :: "env \<Rightarrow> pgdb \<Rightarrow> string \<Rightarrow> audit_event \<Rightarrow> audit_event result \<times> pgdb" where
  "AppendChained v db tid e =
     (case AppendBatchChained v db tid [e] of
        (Inl err, db') \<Rightarrow> (Inl err, db')
      | (Inr [], db') \<Rightarrow> (Inl (Internal ''append returned no events''), db')
      | (Inr (out # _), db') \<Rightarrow> (Inr out, db'))"

section \<open>Reading\<close>

definition Get :: "env \<Rightarrow> pgdb \<Rightarrow> string \<Rightarrow> string \<Rightarrow> audit_event result" where
  "Get v db tid i =
     (if fault v ''getting audit event'' 0 then Inl (Internal ''getting audit event'')
      else case filter (\<lambda>r. TenantID r = tid \<and> ID r = i) (audit_rows db) of
             [] \<Rightarrow> Inl (NotFound ''audit_event'' i)
           | r # _ \<Rightarrow> Inr r)"

text \<open>\<open>Ok None\<close> is the pair \<open>nil, nil\<close>: the event is the first of its chain.\<close>

definition Previous :: "env \<Rightarrow> pgdb \<Rightarrow> string \<Rightarrow> string \<Rightarrow> audit_event option result" where
  "Previous v db tid i =
     (if fault v ''looking up sequence'' 0 then Inl (Internal ''looking up sequence'')
      else case filter (\<lambda>r. TenantID r = tid \<and> ID r = i) (audit_rows db) of
             [] \<Rightarrow> Inl (NotFound ''audit_event'' i)
           | e # _ \<Rightarrow>
               if fault v ''getting previous event'' 0 then Inl (Internal ''getting previous event'')
               else case rev (filter (\<lambda>r. SequenceNumber r < SequenceNumber e) (chain_rows db tid)) of
                      [] \<Rightarrow> Inr None
                    | r # _ \<Rightarrow> Inr (Some r))"

definition GetBySeq :: "env \<Rightarrow> pgdb \<Rightarrow> string \<Rightarrow> int \<Rightarrow> audit_event result" where
  "GetBySeq v db tid s =
     (if fault v ''getting audit event by seq'' 0 then Inl (Internal ''getting audit event by seq'')
      else case filter (\<lambda>r. TenantID r = tid \<and> SequenceNumber r = s) (audit_rows db) of
             [] \<Rightarrow> Inl (NotFound ''audit_event'' (''seq='' @ FormatInt s))
           | r # _ \<Rightarrow> Inr r)"

text \<open>
  \<open>LIKE\<close> with the default escape character, on the patterns \<open>buildAuditFilter\<close> builds, and the
  escaping \<open>strings.NewReplacer\<close> does.
\<close>

fun like_escape :: "string \<Rightarrow> string" where
  "like_escape [] = []"
| "like_escape (c # cs) =
     (if c = CHR 0x5C \<or> c = CHR ''%'' \<or> c = CHR ''_'' then CHR 0x5C # c # like_escape cs
      else c # like_escape cs)"

fun like :: "string \<Rightarrow> string \<Rightarrow> bool" where
  "like [] s = (s = [])"
| "like (p # ps) s =
     (if p = CHR ''%'' then list_ex (\<lambda>n. like ps (drop n s)) [0..<Suc (length s)]
      else if p = CHR 0x5C
      then (case ps of
              [] \<Rightarrow> False
            | q # qs \<Rightarrow> (case s of [] \<Rightarrow> False | c # cs \<Rightarrow> c = q \<and> like qs cs))
      else (case s of [] \<Rightarrow> False | c # cs \<Rightarrow> (p = CHR ''_'' \<or> c = p) \<and> like ps cs))"

text \<open>\<open>metadata->>'session_id'\<close>: the text of a top-level field, SQL \<open>NULL\<close> for none.\<close>

definition meta_text :: "audit_event \<Rightarrow> string \<Rightarrow> string option" where
  "meta_text e k =
     (case Metadata e of
        None \<Rightarrow> None
      | Some m \<Rightarrow>
          (case map_of m k of
             None \<Rightarrow> None
           | Some JNull \<Rightarrow> None
           | Some (JStr s) \<Rightarrow> Some s
           | Some w \<Rightarrow> Some (print_json w)))"

definition TrimSuffixStar :: "string \<Rightarrow> string" where
  "TrimSuffixStar s = (if HasSuffix s ''*'' then butlast s else s)"

text \<open>The \<open>WHERE\<close> clause of \<open>buildAuditFilter\<close> as a predicate on rows.\<close>

definition buildAuditFilter :: "string \<Rightarrow> filter_spec \<Rightarrow> audit_event \<Rightarrow> bool" where
  "buildAuditFilter tid f r =
     (TenantID r = tid \<and>
      (FSessionID f \<noteq> '''' \<longrightarrow>
         meta_text r ''session_id'' = Some (FSessionID f) \<or>
         (ResourceType (Resource r) = ''claude_code.session'' \<and> ResourceID (Resource r) = FSessionID f)) \<and>
      (FActorID f \<noteq> '''' \<longrightarrow> ActorID (Actor r) = FActorID f) \<and>
      (FActorType f \<noteq> '''' \<longrightarrow> ActorTyp (Actor r) = FActorType f) \<and>
      (FAction f \<noteq> '''' \<longrightarrow>
         (if HasSuffix (FAction f) ''*''
          then like (like_escape (TrimSuffixStar (FAction f)) @ ''%'') (Action r)
          else Action r = FAction f)) \<and>
      (FResourceID f \<noteq> '''' \<longrightarrow> ResourceID (Resource r) = FResourceID f) \<and>
      (FOutcome f \<noteq> '''' \<longrightarrow> Outcome r = FOutcome f) \<and>
      (\<not> IsZero (FFrom f) \<longrightarrow> FFrom f \<le> Timestamp r) \<and>
      (\<not> IsZero (FTo f) \<longrightarrow> Timestamp r \<le> FTo f))"

definition List_audit :: "env \<Rightarrow> pgdb \<Rightarrow> string \<Rightarrow> filter_spec \<Rightarrow> (audit_event list \<times> nat) result" where
  "List_audit v db tid f0 =
     (let f = Normalise f0;
          hits = filter (buildAuditFilter tid f) (audit_rows db)
      in if fault v ''counting audit events'' 0 then Inl (Internal ''counting audit events'')
         else if fault v ''listing audit events'' 0 then Inl (Internal ''listing audit events'')
         else Inr (take (nat (FPageSize f)) (drop (nat (Offset f)) (rev (sort_key SequenceNumber hits))),
                   length hits))"

definition window_rows :: "pgdb \<Rightarrow> string \<Rightarrow> time \<Rightarrow> time \<Rightarrow> audit_event list" where
  "window_rows db tid from to = filter (\<lambda>r. from \<le> Timestamp r \<and> Timestamp r \<le> to) (chain_rows db tid)"

definition walkPageSize :: nat where
  "walkPageSize = 1000"

text \<open>The loop of \<open>Walk\<close>: pages of the window after \<open>lastSeq\<close> until one is not full.\<close>

function walk_pages :: "env \<Rightarrow> audit_event list \<Rightarrow> (audit_event \<Rightarrow> 's \<Rightarrow> 's result) \<Rightarrow> nat \<Rightarrow> int \<Rightarrow>
    nat \<Rightarrow> 's \<Rightarrow> ('s \<times> nat) result" where
  "walk_pages v rs fn page lastSeq count st =
     (let rest = filter (\<lambda>r. lastSeq < SequenceNumber r) rs; chunk = take walkPageSize rest
      in if fault v ''walking audit events chunk'' page then Inl (Internal ''walking audit events chunk'')
         else case run_events fn chunk st of
                Inl err \<Rightarrow> Inl err
              | Inr st' \<Rightarrow>
                  if length chunk < walkPageSize then Inr (st', count + length chunk)
                  else walk_pages v rs fn (Suc page) (SequenceNumber (last chunk)) (count + length chunk) st')"
  by pat_completeness auto

lemma walk_page_decreases:
  assumes "chunk = take walkPageSize (filter (\<lambda>r. s < SequenceNumber r) rs)" "\<not> length chunk < walkPageSize"
  shows "length (filter (\<lambda>r. SequenceNumber (last chunk) < SequenceNumber r) rs)
    < length (filter (\<lambda>r. s < SequenceNumber r) rs)"
proof -
  have "chunk \<noteq> []" using assms(2) by (auto simp: walkPageSize_def)
  then have "last chunk \<in> set (filter (\<lambda>r. s < SequenceNumber r) rs)"
    using assms(1) by (metis in_set_takeD last_in_set)
  then have l: "last chunk \<in> set rs" "s < SequenceNumber (last chunk)" by auto
  have "filter (\<lambda>r. SequenceNumber (last chunk) < SequenceNumber r) rs =
      filter (\<lambda>r. SequenceNumber (last chunk) < SequenceNumber r) (filter (\<lambda>r. s < SequenceNumber r) rs)"
    using l(2) by (auto intro: filter_cong)
  also have "length \<dots> < length (filter (\<lambda>r. s < SequenceNumber r) rs)"
    using l by (intro length_filter_less [of "last chunk"]) auto
  finally show ?thesis .
qed

termination walk_pages
  by (relation "measure (\<lambda>(v, rs, fn, page, s, count, st). length (filter (\<lambda>r. s < SequenceNumber r) rs))")
    (auto intro: walk_page_decreases [simplified])

declare walk_pages.simps [simp del]

definition Walk :: "env \<Rightarrow> pgdb \<Rightarrow> string \<Rightarrow> time \<Rightarrow> time \<Rightarrow> (audit_event \<Rightarrow> 's \<Rightarrow> 's result) \<Rightarrow> 's \<Rightarrow>
    ('s \<times> nat) result" where
  "Walk v db tid from to fn st = walk_pages v (window_rows db tid from to) fn 0 (- 1) 0 st"

definition ChainHead :: "env \<Rightarrow> pgdb \<Rightarrow> string \<Rightarrow> (int \<times> string) result" where
  "ChainHead v db tid =
     (if fault v ''reading chain head'' 0 then Inl (Internal ''reading chain head'')
      else case rev (chain_rows db tid) of
             [] \<Rightarrow> Inr (0, '''')
           | r # _ \<Rightarrow> Inr (SequenceNumber r, Hash r))"

definition CountEvents :: "env \<Rightarrow> pgdb \<Rightarrow> string \<Rightarrow> nat result" where
  "CountEvents v db tid =
     (if fault v ''counting events'' 0 then Inl (Internal ''counting events'')
      else Inr (length (filter (\<lambda>r. TenantID r = tid) (audit_rows db))))"

definition CountEventsSince :: "env \<Rightarrow> pgdb \<Rightarrow> string \<Rightarrow> time \<Rightarrow> nat result" where
  "CountEventsSince v db tid since =
     (if fault v ''counting recent events'' 0 then Inl (Internal ''counting recent events'')
      else Inr (length (filter (\<lambda>r. TenantID r = tid \<and> since \<le> Timestamp r) (audit_rows db))))"

definition CountEventsThisMonth :: "env \<Rightarrow> pgdb \<Rightarrow> string \<Rightarrow> nat result" where
  "CountEventsThisMonth v db tid =
     (if fault v ''counting monthly events'' 0 then Inl (Internal ''counting monthly events'')
      else Inr (length (filter (\<lambda>r. TenantID r = tid \<and> month_start (now v) \<le> Timestamp r) (audit_rows db))))"

definition ListDistinctActions :: "env \<Rightarrow> pgdb \<Rightarrow> string \<Rightarrow> time \<Rightarrow> string list result" where
  "ListDistinctActions v db tid since =
     (if fault v ''listing distinct actions'' 0 then Inl (Internal ''listing distinct actions'')
      else Inr (sort (remdups (map Action
             (filter (\<lambda>r. TenantID r = tid \<and> since \<le> Timestamp r) (audit_rows db))))))"

text \<open>\<open>GROUP BY\<close>: the resulting Go map, absent keys are \<open>None\<close>.\<close>

definition groupCount :: "env \<Rightarrow> pgdb \<Rightarrow> (audit_event \<Rightarrow> string) \<Rightarrow> string \<Rightarrow> time \<Rightarrow> time \<Rightarrow>
    (string \<rightharpoonup> nat) result" where
  "groupCount v db col tid from to =
     (if fault v ''group count'' 0 then Inl (Internal ''group count'')
      else let ks = map col (filter (\<lambda>r. TenantID r = tid \<and> from \<le> Timestamp r \<and> Timestamp r \<le> to) (audit_rows db))
           in Inr (\<lambda>k. if k \<in> set ks then Some (length (filter ((=) k) ks)) else None))"

definition CountByAction where
  "CountByAction v db tid from to = groupCount v db Action tid from to"

definition CountByActorType where
  "CountByActorType v db tid from to = groupCount v db (\<lambda>e. ActorTyp (Actor e)) tid from to"

section \<open>Re-anchoring\<close>

text \<open>The patches: every row from the break on, linked anew.\<close>

fun reanchor_patches :: "(string \<Rightarrow> string) \<Rightarrow> string \<Rightarrow> audit_event list \<Rightarrow> (int \<times> string \<times> string) list" where
  "reanchor_patches H prevHash [] = []"
| "reanchor_patches H prevHash (e # es) =
     (let h = compute_hash H (e\<lparr>PrevHash := prevHash\<rparr>)
      in (SequenceNumber e, prevHash, h) # reanchor_patches H h es)"

definition patch_row :: "string \<Rightarrow> int \<times> string \<times> string \<Rightarrow> audit_event \<Rightarrow> audit_event" where
  "patch_row tid p r =
     (case p of (s, ph, h) \<Rightarrow>
        if TenantID r = tid \<and> SequenceNumber r = s then r\<lparr>PrevHash := ph, Hash := h\<rparr> else r)"

text \<open>
  The update loop.  On the open-source schema (\<open>append_only\<close>) the trigger rejects an \<open>UPDATE\<close>
  that hits a row; on the hosted schema \<open>fact0.reanchor_mode\<close> lets the hash columns change.
\<close>

fun apply_patches :: "env \<Rightarrow> string \<Rightarrow> nat \<Rightarrow> (int \<times> string \<times> string) list \<Rightarrow> pgdb \<Rightarrow> int \<Rightarrow>
    (int \<times> pgdb) result" where
  "apply_patches v tid i [] db n = Inr (n, db)"
| "apply_patches v tid i (p # ps) db n =
     (let hit = length (filter (\<lambda>r. TenantID r = tid \<and> SequenceNumber r = fst p) (audit_rows db))
      in if fault v ''updating hash'' i \<or> (append_only db \<and> 0 < hit)
         then Inl (Internal (''updating hash for seq '' @ FormatInt (fst p)))
         else apply_patches v tid (Suc i) ps (db\<lparr>audit_rows := map (patch_row tid p) (audit_rows db)\<rparr>)
                (n + int hit))"

definition ReanchorFrom :: "env \<Rightarrow> pgdb \<Rightarrow> string \<Rightarrow> int \<Rightarrow> string \<Rightarrow> int result \<times> pgdb" where
  "ReanchorFrom v db tid fromSeq startPrevHash =
     (if fault v ''beginning reanchor tx'' 0 then (Inl (Internal ''beginning reanchor tx''), db)
      else if fault v ''acquiring tenant lock for reanchor'' 0
      then (Inl (Internal ''acquiring tenant lock for reanchor''), db)
      else if fault v ''setting reanchor mode'' 0 then (Inl (Internal ''setting reanchor mode''), db)
      else if fault v ''querying events for reanchor'' 0
      then (Inl (Internal ''querying events for reanchor''), db)
      else case apply_patches v tid 0
                  (reanchor_patches (sha256 v) startPrevHash
                     (filter (\<lambda>r. fromSeq \<le> SequenceNumber r) (chain_rows db tid))) db 0 of
             Inl err \<Rightarrow> (Inl err, db)
           | Inr (n, db') \<Rightarrow>
               if fault v ''committing reanchor tx'' 0
               then (Inl (Internal ''committing reanchor tx''), db)
               else (Inr n, db'))"

end
