(* ===== verification/Audit_Chain.thy ===== *)
theory Audit_Chain
  imports Audit_Store
begin

text \<open>
  The hash chain kept by \<open>AppendBatchChained\<close>.  The lemmas follow the code: the loop that
  links the batch (\<open>chain_events_spec\<close>), the chunked insert (\<open>bulkInsert_rows\<close>), what a stored
  row is (\<open>stored_hash\<close>), and the whole transaction (\<open>append_spec\<close>, \<open>append_keeps\<close>).
\<close>

section \<open>The chain of a tenant\<close>

definition chained :: "hash_function \<Rightarrow> pgdb \<Rightarrow> string \<Rightarrow> bool" where
  "chained H db tid = chain_ok H GenesisHash (chain_rows db tid)"

section \<open>Rows as stored\<close>

definition stored_as :: "env \<Rightarrow> audit_event \<Rightarrow> audit_event \<Rightarrow> bool" where
  "stored_as v e r =
     (\<exists>md. store_metadata v (Metadata e) = Some md \<and>
           r = e\<lparr>Metadata := md, Timestamp := Truncate (Timestamp e) Microsecond\<rparr>)"

lemma stored_as_fields:
  assumes "stored_as v e r"
  shows "ID r = ID e" "TenantID r = TenantID e" "SequenceNumber r = SequenceNumber e"
    "Hash r = Hash e" "PrevHash r = PrevHash e" "Timestamp r = Truncate (Timestamp e) Microsecond"
    "event_texts r = event_texts e" "Actor r = Actor e" "Outcome r = Outcome e"
    "Action r = Action e" "Resource r = Resource e"
  using assms by (auto simp: stored_as_def event_texts_def)

lemma insert_audit_row_Some:
  "insert_audit_row v e db = Some db' \<longleftrightarrow>
     audit_row_ok db e \<and> (\<exists>r. stored_as v e r \<and> db' = db\<lparr>audit_rows := audit_rows db @ [r]\<rparr>)"
  by (auto simp: insert_audit_row_def stored_as_def split: option.splits)

lemma insert_audit_rows_append:
  "insert_audit_rows v (xs @ ys) db =
     Option.bind (insert_audit_rows v xs db) (insert_audit_rows v ys)"
  by (induction xs arbitrary: db) (auto split: option.splits)

text \<open>What a successful multi-row insert has checked and done.\<close>

definition rows_inserted :: "env \<Rightarrow> audit_event list \<Rightarrow> pgdb \<Rightarrow> pgdb \<Rightarrow> audit_event list \<Rightarrow> bool" where
  "rows_inserted v es db db' rs =
     (list_all2 (stored_as v) es rs \<and> db' = db\<lparr>audit_rows := audit_rows db @ rs\<rparr> \<and>
      (\<forall>e \<in> set es. list_all storable (event_texts e) \<and> ActorType_IsValid (ActorTyp (Actor e)) \<and>
         Outcome_IsValid (Outcome e) \<and> list_ex (\<lambda>t. TID t = TenantID e) (tenant_rows db)))"

lemma insert_audit_rows_Some:
  "insert_audit_rows v es db = Some db' \<Longrightarrow> \<exists>rs. rows_inserted v es db db' rs"
proof (induction es arbitrary: db)
  case Nil
  then show ?case by (simp add: rows_inserted_def)
next
  case (Cons e es)
  then obtain r where r: "audit_row_ok db e" "stored_as v e r"
      and rest: "insert_audit_rows v es (db\<lparr>audit_rows := audit_rows db @ [r]\<rparr>) = Some db'"
    by (auto split: option.splits simp: insert_audit_row_Some)
  from Cons.IH [OF rest] obtain rs where "rows_inserted v es (db\<lparr>audit_rows := audit_rows db @ [r]\<rparr>) db' rs"
    by blast
  with r have "rows_inserted v (e # es) db db' (r # rs)"
    by (auto simp: rows_inserted_def audit_row_ok_def)
  then show ?case by blast
qed

lemma bulkInsert_rows:
  "bulkInsertAuditEventsTx v c es db = Inr db' \<Longrightarrow> insert_audit_rows v es db = Some db'"
proof (induction v c es db rule: bulkInsertAuditEventsTx.induct)
  case (1 v c es db)
  show ?case
  proof (cases "es = []")
    case True
    with 1 show ?thesis by (simp add: bulkInsertAuditEventsTx.simps)
  next
    case False
    with 1(2) obtain db1 where c: "bulkInsertChunkTx v c (take bulkInsertChunkSize es) db = Inr db1"
      and r: "bulkInsertAuditEventsTx v (Suc c) (drop bulkInsertChunkSize es) db1 = Inr db'"
      by (subst (asm) bulkInsertAuditEventsTx.simps) (auto split: sum.splits)
    from c False have "insert_audit_rows v (take bulkInsertChunkSize es) db = Some db1"
      by (auto simp: bulkInsertChunkTx_def bulkInsertChunkSize_def split: if_splits option.splits)
    with 1(1) [OF False c r] show ?thesis
      using insert_audit_rows_append [of v "take bulkInsertChunkSize es" "drop bulkInsertChunkSize es" db]
      by simp
  qed
qed

section \<open>The hash of a stored row\<close>

lemma store_metadata_value:
  assumes "jsonb_ok (jsonb v)" "store_metadata v md = Some md'"
    and "wf_json (JObj (case md of None \<Rightarrow> [] | Some m \<Rightarrow> m))"
  shows "wf_json (JObj (case md' of None \<Rightarrow> [] | Some m \<Rightarrow> m)) \<and> meta_value md' = meta_value md \<and>
    plain_numbers (JObj (case md' of None \<Rightarrow> [] | Some m \<Rightarrow> m))"
proof (cases md)
  case None
  with assms(2) have "md' = None" by (simp add: store_metadata_def)
  with None show ?thesis by (simp add: plain_numbers_def)
next
  case (Some m)
  with assms(3) obtain w where w: "redecode (JObj m) = Some w" "wf_json w" "denote w = denote (JObj m)"
    using redecode_sound [of "JObj m"] by auto
  with assms(2) Some obtain m1 m2 where m: "w = JObj m1" "jsonb v m1 = Some m2" "md' = Some m2"
    by (auto simp: store_metadata_def split: json.splits)
  then have "wf_json (JObj m2) \<and> plain_numbers (JObj m2) \<and> denote (JObj m2) = denote (JObj m1)"
    using assms(1) w unfolding jsonb_ok_def by blast
  with w m Some show ?thesis by (simp add: meta_value_def)
qed

lemma Truncate_range:
  "0 \<le> t \<Longrightarrow> t \<le> year_9999_end \<Longrightarrow> 0 \<le> Truncate t Microsecond \<and> Truncate t Microsecond \<le> year_9999_end"
  using Truncate_mono [of Microsecond 0 t] Truncate_le [of Microsecond t]
  by (auto simp: Microsecond_def Truncate_def)

lemma storable_utf8: "list_all storable (event_texts e) \<Longrightarrow> input_ok e \<Longrightarrow> event_ok e"
  by (auto simp: event_texts_def event_ok_def input_ok_def storable_def)

lemma plain_hash:
  assumes "event_ok e" "plain_numbers (JObj (case Metadata e of None \<Rightarrow> [] | Some m \<Rightarrow> m))"
  shows "compute_hash H e \<noteq> ''''"
proof -
  let ?m = "JObj (case Metadata e of None \<Rightarrow> [] | Some m \<Rightarrow> m)"
  have "num_lits (actor_json (Actor e)) = []" "num_lits (resource_json (Resource e)) = []"
    by (simp_all add: actor_json_def resource_json_def omitempty_def)
  then have lits: "set (num_lits (hash_preimage e)) = insert (FormatInt (SequenceNumber e)) (set (num_lits ?m))"
    by (auto simp: hash_preimage_def)
  have "canon_number s \<noteq> None" if "s \<in> set (num_lits ?m)" for s
    using assms(2) that by (intro plain_canon_number) (simp only: plain_numbers_def list_all_iff)
  moreover have "canon_number (FormatInt (SequenceNumber e)) \<noteq> None"
    using canon_FormatInt [of "SequenceNumber e"] by auto
  ultimately have "\<forall>s \<in> set (num_lits (hash_preimage e)). canon_number s \<noteq> None"
    unfolding lits by blast
  then have "JSON_canonical (hash_preimage e) \<noteq> None"
    using JSON_canonical_defined [OF wf_preimage [OF assms(1)]] by simp
  then show ?thesis using compute_hash_empty [of H e] by simp
qed

lemma stored_ok:
  assumes "jsonb_ok (jsonb v)" "stored_as v e r" "list_all storable (event_texts e)" "input_ok e"
  shows "input_ok r" "event_ok r" "event_content r = event_content e"
    "plain_numbers (JObj (case Metadata r of None \<Rightarrow> [] | Some m \<Rightarrow> m))"
proof -
  obtain md where md: "store_metadata v (Metadata e) = Some md"
      "r = e\<lparr>Metadata := md, Timestamp := Truncate (Timestamp e) Microsecond\<rparr>"
    using assms(2) by (auto simp: stored_as_def)
  have "wf_json (JObj (case Metadata e of None \<Rightarrow> [] | Some m \<Rightarrow> m))" using assms(4) by (simp add: input_ok_def)
  then have s: "wf_json (JObj (case md of None \<Rightarrow> [] | Some m \<Rightarrow> m))" "meta_value md = meta_value (Metadata e)"
    "plain_numbers (JObj (case md of None \<Rightarrow> [] | Some m \<Rightarrow> m))"
    using store_metadata_value [OF assms(1) md(1)] by blast+
  show i: "input_ok r" using s(1) assms(4) Truncate_range by (simp add: input_ok_def md(2))
  show "event_ok r" using i assms(3) by (intro storable_utf8) (simp_all add: stored_as_fields [OF assms(2)])
  show "event_content r = event_content e" using s(2) by (simp add: event_content_def md(2))
  show "plain_numbers (JObj (case Metadata r of None \<Rightarrow> [] | Some m \<Rightarrow> m))" using s(3) by (simp add: md(2))
qed

lemma stored_hash:
  assumes "jsonb_ok (jsonb v)" "stored_as v e r" "list_all storable (event_texts e)" "input_ok e"
    and "compute_hash H e \<noteq> ''''"
  shows "compute_hash H r = compute_hash H e"
  using assms stored_ok [OF assms(1-4)] storable_utf8 [OF assms(3,4)] plain_hash
  by (intro compute_hash_congr) auto

lemma stored_chain:
  assumes "list_all2 (stored_as v) es rs" "jsonb_ok (jsonb v)"
    and "\<forall>e \<in> set es. list_all storable (event_texts e) \<and> input_ok e \<and> Hash e \<noteq> ''''"
    and "chain_ok H p es"
  shows "chain_ok H p rs"
  using assms(1,3,4)
proof (induction arbitrary: p rule: list_all2_induct)
  case (Cons e es r rs)
  then have "compute_hash H r = compute_hash H e" by (intro stored_hash [OF assms(2)]) auto
  with Cons show ?case using stored_as_fields [OF Cons.hyps(1)] by auto
qed simp

section \<open>The linking loop\<close>

text \<open>What the loop guarantees of the events it selects for insertion.\<close>

definition derived_from :: "audit_event \<Rightarrow> audit_event \<Rightarrow> bool" where
  "derived_from e0 e =
     (ID e = ID e0 \<and> Metadata e = Metadata e0 \<and> Actor e = Actor e0 \<and> Action e = Action e0 \<and>
      Resource e = Resource e0 \<and> Outcome e = Outcome e0 \<and>
      Timestamp e = Truncate (Timestamp e0) Microsecond)"

definition linked :: "env \<Rightarrow> string \<Rightarrow> int \<Rightarrow> string \<Rightarrow> (string \<rightharpoonup> audit_event) \<Rightarrow> audit_event list \<Rightarrow>
    audit_event list \<Rightarrow> (string \<rightharpoonup> audit_event) \<Rightarrow> int \<Rightarrow> bool" where
  "linked v tid s p ex es ins ex' s' =
     (chain_ok (sha256 v) p ins \<and>
      sorted_wrt (<) (map SequenceNumber ins) \<and>
      (\<forall>e \<in> set ins. TenantID e = tid \<and> s < SequenceNumber e \<and> SequenceNumber e \<le> s' \<and>
         Hash e \<noteq> '''' \<and> ex (ID e) = None) \<and>
      (\<forall>e \<in> set ins. \<exists>e0 \<in> set es. derived_from e0 e) \<and>
      distinct (map ID ins) \<and>
      ex' = ex ++ map_of (map (\<lambda>e. (ID e, e)) ins) \<and>
      (\<forall>e \<in> set es. ex' (ID e) \<noteq> None) \<and> s \<le> s')"

lemma chain_events_seq:
  "chain_events v tid i s p ex es = (r, s') \<Longrightarrow> s < 2 ^ 63 \<Longrightarrow> s \<le> s' \<and> s' < 2 ^ 63"
proof (induction es arbitrary: i s p ex r s')
  case (Cons e0 es)
  let ?e3 = "\<lambda>n. e0\<lparr>TenantID := tid, Timestamp := Truncate (Timestamp e0) Microsecond,
      SequenceNumber := n, PrevHash := p\<rparr>"
  show ?case
  proof (cases "ex (ID e0) = None \<and> \<not> fault v ''allocating audit sequence'' i \<and> s < 2 ^ 63 - 1 \<and>
      compute_hash (sha256 v) (?e3 (s + 1)) \<noteq> ''''")
    case True
    let ?e4 = "(?e3 (s + 1))\<lparr>Hash := compute_hash (sha256 v) (?e3 (s + 1))\<rparr>"
    obtain r1 where "chain_events v tid (Suc i) (s + 1) (Hash ?e4) (ex(ID e0 \<mapsto> ?e4)) es = (r1, s')"
      using Cons.prems(1) True by (auto simp: nextval_def Let_def split: sum.splits prod.splits)
    then show ?thesis using Cons.IH True by fastforce
  next
    case False
    then show ?thesis
      using Cons.prems Cons.IH [of "Suc i" s p ex r s']
      by (auto simp: nextval_def Let_def split: if_splits)
  qed
qed simp

lemma map_upd_add: "m k = None \<Longrightarrow> f(k \<mapsto> x) ++ m = f ++ m(k \<mapsto> x)"
  by (auto simp: map_add_def fun_eq_iff split: option.splits)

lemma linked_skip:
  assumes L: "linked v tid s p ex es ins ex' s'" and "ex (ID e0) = Some x"
  shows "linked v tid s p ex (e0 # es) ins ex' s'"
proof -
  have "ex' = ex ++ map_of (map (\<lambda>e. (ID e, e)) ins)" using L by (simp add: linked_def)
  then have "ex' (ID e0) \<noteq> None" using assms(2) by (simp add: map_add_def split: option.splits)
  then have a: "\<forall>e \<in> set (e0 # es). ex' (ID e) \<noteq> None" using L unfolding linked_def by (elim conjE) simp
  have "\<forall>e \<in> set ins. \<exists>d \<in> set (e0 # es). derived_from d e"
    using L unfolding linked_def by (elim conjE) fastforce
  with a L show ?thesis unfolding linked_def by (elim conjE) (intro conjI, assumption+)
qed

lemma linked_Cons:
  assumes L: "linked v tid (s + 1) h (ex(ID e0 \<mapsto> e4)) es ins1 ex' s'"
    and e4: "ID e4 = ID e0" "TenantID e4 = tid" "SequenceNumber e4 = s + 1" "Hash e4 = h" "PrevHash e4 = p"
      "derived_from e0 e4"
    and h: "h = compute_hash (sha256 v) e4" "h \<noteq> ''''" and ex: "ex (ID e0) = None"
  shows "linked v tid s p ex (e0 # es) (e4 # ins1) ex' s'"
proof -
  have n: "\<forall>e \<in> set ins1. ID e \<noteq> ID e0 \<and> ex (ID e) = None"
    using L by (auto simp: linked_def split: if_splits)
  then have "map_of (map (\<lambda>e. (ID e, e)) ins1) (ID e0) = None"
    by (auto simp: map_of_eq_None_iff)
  then have "ex' = ex ++ map_of (map (\<lambda>e. (ID e, e)) (e4 # ins1))"
    using L e4(1) by (simp add: linked_def map_upd_add)
  note m = this
  then have "ex' (ID e0) \<noteq> None" using e4(1) by (auto simp: map_add_Some_iff)
  then have a: "\<forall>e \<in> set (e0 # es). ex' (ID e) \<noteq> None" using L unfolding linked_def by (elim conjE) simp
  have d: "\<forall>e \<in> set (e4 # ins1). \<exists>d \<in> set (e0 # es). derived_from d e"
    using L e4(6) unfolding linked_def by (elim conjE) fastforce
  have q: "chain_ok (sha256 v) h ins1" "sorted_wrt (<) (map SequenceNumber ins1)" "distinct (map ID ins1)" "s + 1 \<le> s'"
    and r: "\<forall>e \<in> set ins1. TenantID e = tid \<and> s + 1 < SequenceNumber e \<and> SequenceNumber e \<le> s' \<and> Hash e \<noteq> ''''"
    using L unfolding linked_def by blast+
  have "chain_ok (sha256 v) p (e4 # ins1)" using q(1) e4(4,5) h(1) by simp
  moreover have "sorted_wrt (<) (map SequenceNumber (e4 # ins1))" using q(2) r e4(3) by auto
  moreover have "distinct (map ID (e4 # ins1))" using q(3) n e4(1) by auto
  moreover have "s \<le> s'" using q(4) by simp
  moreover have "\<forall>e \<in> set (e4 # ins1). TenantID e = tid \<and> s < SequenceNumber e \<and> SequenceNumber e \<le> s' \<and>
      Hash e \<noteq> '''' \<and> ex (ID e) = None"
    using q(4) r n e4(1-4) h(2) ex by auto
  ultimately show ?thesis using a d m unfolding linked_def by blast
qed

lemma chain_events_spec:
  "chain_events v tid i s p ex es = (Inr (ins, ex'), s') \<Longrightarrow> linked v tid s p ex es ins ex' s'"
proof (induction es arbitrary: i s p ex ins ex' s')
  case Nil
  then show ?case by (simp add: linked_def)
next
  case (Cons e0 es)
  show ?case
  proof (cases "ex (ID e0)")
    case (Some x)
    with Cons.prems have "chain_events v tid (Suc i) s p ex es = (Inr (ins, ex'), s')" by simp
    from Cons.IH [OF this] Some show ?thesis by (simp add: linked_skip)
  next
    case None
    let ?e3 = "e0\<lparr>TenantID := tid, Timestamp := Truncate (Timestamp e0) Microsecond,
        SequenceNumber := s + 1, PrevHash := p\<rparr>"
    let ?h = "compute_hash (sha256 v) ?e3"
    let ?e4 = "?e3\<lparr>Hash := ?h\<rparr>"
    obtain ins1 where step: "chain_events v tid (Suc i) (s + 1) ?h (ex(ID e0 \<mapsto> ?e4)) es = (Inr (ins1, ex'), s')"
      and ins: "ins = ?e4 # ins1" and h: "?h \<noteq> ''''"
      using Cons.prems None
      by (auto simp: nextval_def Let_def split: if_splits sum.splits prod.splits)
    have L: "linked v tid (s + 1) ?h (ex(ID e0 \<mapsto> ?e4)) es ins1 ex' s'" using Cons.IH [OF step] .
    have "compute_hash (sha256 v) ?e4 = ?h" by (simp add: ComputeHash_def hash_preimage_def)
    then show ?thesis unfolding ins by (intro linked_Cons [OF L]) (simp_all add: h None derived_from_def)
  qed
qed

section \<open>The transaction\<close>

text \<open>Every stored row is well formed and could be read back.\<close>

definition row_inv :: "audit_event \<Rightarrow> bool" where
  "row_inv r =
     (list_all storable (event_texts r) \<and> input_ok r \<and>
      plain_numbers (JObj (case Metadata r of None \<Rightarrow> [] | Some m \<Rightarrow> m)) \<and>
      Truncate (Timestamp r) Microsecond = Timestamp r)"

definition wf_db :: "pgdb \<Rightarrow> bool" where
  "wf_db db = (wf_rows db \<and> (\<forall>r \<in> set (audit_rows db). row_inv r))"

lemma row_inv_event_ok: "row_inv r \<Longrightarrow> event_ok r"
  by (simp add: row_inv_def storable_utf8)

lemma wf_db_chain_event_ok: "wf_db db \<Longrightarrow> r \<in> set (chain_rows db tid) \<Longrightarrow> event_ok r"
  by (auto simp: wf_db_def chain_rows_set row_inv_event_ok)

text \<open>The effect of a committed append: the batch is the new end of one tenant's chain.\<close>

definition appended :: "env \<Rightarrow> string \<Rightarrow> audit_event list \<Rightarrow> pgdb \<Rightarrow> pgdb \<Rightarrow> audit_event list \<Rightarrow> bool" where
  "appended v tid es db db' rs =
     (audit_rows db' = audit_rows db @ rs \<and>
      chain_rows db' tid = chain_rows db tid @ rs \<and>
      (\<forall>t. t \<noteq> tid \<longrightarrow> chain_rows db' t = chain_rows db t) \<and>
      chain_ok (sha256 v) (chain_tip GenesisHash (chain_rows db tid)) rs \<and>
      db' = db\<lparr>audit_rows := audit_rows db', audit_seq := audit_seq db'\<rparr> \<and> wf_db db' \<and>
      ID ` set rs = ID ` set es - ID ` {r \<in> set (audit_rows db). TenantID r = tid})"

lemma chain_rows_seq [simp]: "chain_rows (db\<lparr>audit_seq := s\<rparr>) t = chain_rows db t"
  by (simp add: chain_rows_def)

lemma wf_db_seq: "wf_db db \<Longrightarrow> audit_seq db \<le> s \<Longrightarrow> s < 2 ^ 63 \<Longrightarrow> wf_db (db\<lparr>audit_seq := s\<rparr>)"
  by (fastforce simp: wf_db_def wf_rows_def)

lemma lastHash_tip: "lastHashTx v db tid = Inr p \<Longrightarrow> p = chain_tip GenesisHash (chain_rows db tid)"
  by (auto simp: lastHashTx_def chain_tip_def split: if_splits list.splits)

lemma foldl_upd_map_of:
  "foldl (\<lambda>m e. m(ID e \<mapsto> e)) m es = m ++ map_of (rev (map (\<lambda>e. (ID e, e)) es))"
  by (induction es arbitrary: m) (simp_all add: map_add_upd_left map_add_assoc [symmetric])

lemma loadExisting_spec:
  assumes "loadExistingEventsTx v db tid ids = Inr ex" "distinct (map ID (audit_rows db))"
  shows "ex i = Some e \<longleftrightarrow> e \<in> set (audit_rows db) \<and> TenantID e = tid \<and> ID e = i \<and> i \<in> set ids"
proof (cases "ids = []")
  case True
  with assms show ?thesis by (auto simp: loadExistingEventsTx_def)
next
  case False
  let ?f = "filter (\<lambda>r. TenantID r = tid \<and> ID r \<in> set ids) (audit_rows db)"
  have d: "distinct (map fst (rev (map (\<lambda>e. (ID e, e)) ?f)))"
    using assms(2) by (simp add: comp_def rev_map [symmetric] distinct_map_filter)
  have "ex = map_of (rev (map (\<lambda>e. (ID e, e)) ?f))"
    using assms(1) False by (simp add: loadExistingEventsTx_def foldl_upd_map_of split: if_splits)
  then show ?thesis using map_of_eq_Some_iff [OF d, of i e] by auto
qed

lemma rows_inserted_chain:
  assumes ins: "rows_inserted v es db db' rs"
    and es: "sorted_wrt (<) (map SequenceNumber es)" "\<forall>e \<in> set es. TenantID e = tid"
    and new: "\<forall>e \<in> set es. \<forall>r \<in> set (audit_rows db). SequenceNumber r < SequenceNumber e"
  shows "chain_rows db' tid = chain_rows db tid @ rs" "t \<noteq> tid \<Longrightarrow> chain_rows db' t = chain_rows db t"
proof -
  have l: "list_all2 (stored_as v) es rs" and db': "audit_rows db' = audit_rows db @ rs"
    using ins by (auto simp: rows_inserted_def)
  have m: "map SequenceNumber rs = map SequenceNumber es \<and> map TenantID rs = map TenantID es"
    using l by (induction rule: list_all2_induct) (auto simp: stored_as_fields)
  have t: "\<forall>r \<in> set rs. TenantID r = tid" using es(2) m by (metis (mono_tags, lifting) image_iff set_map)
  have s: "\<forall>r \<in> set rs. \<exists>e \<in> set es. SequenceNumber r = SequenceNumber e"
    using m by (metis (mono_tags, lifting) image_iff set_map)
  have so: "sorted (map SequenceNumber rs)" using es(1) m by (metis strict_sorted_imp_sorted)
  have "filter (\<lambda>r. TenantID r = tid) rs = rs" using t by (simp add: filter_id_conv)
  moreover have "\<forall>x \<in> set (filter (\<lambda>r. TenantID r = tid) (audit_rows db)). \<forall>y \<in> set rs. SequenceNumber x \<le> SequenceNumber y"
    using s new by force
  ultimately show "chain_rows db' tid = chain_rows db tid @ rs"
    using so by (simp add: chain_rows_def db' sort_key_append_greater)
  assume "t \<noteq> tid"
  then have "filter (\<lambda>r. TenantID r = t) rs = []" using t by (auto simp: filter_empty_conv)
  then show "chain_rows db' t = chain_rows db t" by (simp add: chain_rows_def db')
qed

lemma insert_audit_row_wf:
  assumes "insert_audit_row v e db = Some db'" "wf_db db" "jsonb_ok (jsonb v)" "input_ok e"
    and "0 < SequenceNumber e" "SequenceNumber e \<le> audit_seq db"
  shows "wf_db db'"
proof -
  obtain r where ok: "audit_row_ok db e" and r: "stored_as v e r" and db': "db' = db\<lparr>audit_rows := audit_rows db @ [r]\<rparr>"
    using assms(1) by (auto simp: insert_audit_row_Some)
  note f = stored_as_fields [OF r]
  have st: "list_all storable (event_texts e)" using ok by (simp add: audit_row_ok_def)
  have "row_inv r"
    using stored_ok [OF assms(3) r st assms(4)] st by (simp add: row_inv_def f)
  moreover have "wf_rows db'"
    using ok assms(2,5,6) unfolding audit_row_ok_def wf_db_def wf_rows_def db'
    by (auto simp: f list_ex_iff)
  ultimately show ?thesis using assms(2) by (auto simp: wf_db_def db')
qed

lemma insert_audit_rows_wf:
  "insert_audit_rows v es db = Some db' \<Longrightarrow> wf_db db \<Longrightarrow> jsonb_ok (jsonb v) \<Longrightarrow>
   \<forall>e \<in> set es. input_ok e \<and> 0 < SequenceNumber e \<and> SequenceNumber e \<le> audit_seq db \<Longrightarrow> wf_db db'"
proof (induction es arbitrary: db)
  case (Cons e es)
  then obtain db1 where i: "insert_audit_row v e db = Some db1" and r: "insert_audit_rows v es db1 = Some db'"
    by (auto split: option.splits)
  moreover have "audit_seq db1 = audit_seq db" using i by (auto simp: insert_audit_row_Some)
  moreover have "wf_db db1" using i Cons.prems by (intro insert_audit_row_wf [OF i]) auto
  ultimately show ?case using Cons by simp
qed simp

text \<open>The stages of a successful append.\<close>

lemma append_stages:
  assumes "AppendBatchChained v db tid es = (Inr out, db')" "es \<noteq> []"
  obtains ex ins ex' s where
    "loadExistingEventsTx v db tid (map ID es) = Inr ex"
    "linked v tid (audit_seq db) (chain_tip GenesisHash (chain_rows db tid)) ex es ins ex' s"
    "chain_events v tid 0 (audit_seq db) (chain_tip GenesisHash (chain_rows db tid)) ex es = (Inr (ins, ex'), s)"
    "insert_audit_rows v ins (db\<lparr>audit_seq := s\<rparr>) = Some db'"
    "out = map (\<lambda>e. case ex' (ID e) of Some x \<Rightarrow> x | None \<Rightarrow> e) es"
proof -
  obtain p where p: "lastHashTx v db tid = Inr p"
    using assms by (auto simp: AppendBatchChained_def Let_def split: if_splits sum.splits prod.splits)
  obtain ex where ex: "loadExistingEventsTx v db tid (map ID es) = Inr ex"
    using assms p by (auto simp: AppendBatchChained_def Let_def split: if_splits sum.splits prod.splits)
  obtain ins ex' s where c: "chain_events v tid 0 (audit_seq db) p ex es = (Inr (ins, ex'), s)"
    using assms p ex by (auto simp: AppendBatchChained_def Let_def split: if_splits sum.splits prod.splits)
  have b: "bulkInsertAuditEventsTx v 0 ins (db\<lparr>audit_seq := s\<rparr>) = Inr db'"
    and o: "out = map (\<lambda>e. case ex' (ID e) of Some x \<Rightarrow> x | None \<Rightarrow> e) es"
    using assms p ex c by (auto simp: AppendBatchChained_def Let_def split: if_splits sum.splits)
  have "p = chain_tip GenesisHash (chain_rows db tid)" using lastHash_tip [OF p] .
  with c b o ex show thesis
    using chain_events_spec [OF c] bulkInsert_rows [OF b] that by blast
qed

lemma append_ok:
  assumes run: "AppendBatchChained v db tid es = (Inr out, db')" and wf: "wf_db db"
    and J: "jsonb_ok (jsonb v)" and inp: "\<forall>e \<in> set es. input_ok e"
  shows "\<exists>rs. appended v tid es db db' rs"
proof (cases "es = []")
  case True
  with run have "db' = db" by (simp add: AppendBatchChained_def)
  with True wf have "appended v tid es db db' []" by (simp add: appended_def)
  then show ?thesis by blast
next
  case False
  obtain ex ins ex' s where st: "loadExistingEventsTx v db tid (map ID es) = Inr ex"
    "linked v tid (audit_seq db) (chain_tip GenesisHash (chain_rows db tid)) ex es ins ex' s"
    "chain_events v tid 0 (audit_seq db) (chain_tip GenesisHash (chain_rows db tid)) ex es = (Inr (ins, ex'), s)"
    "insert_audit_rows v ins (db\<lparr>audit_seq := s\<rparr>) = Some db'"
    "out = map (\<lambda>e. case ex' (ID e) of Some x \<Rightarrow> x | None \<Rightarrow> e) es"
    by (rule append_stages [OF run False])
  let ?db = "db\<lparr>audit_seq := s\<rparr>"
  have L: "chain_ok (sha256 v) (chain_tip GenesisHash (chain_rows db tid)) ins"
    "sorted_wrt (<) (map SequenceNumber ins)" "ex' = ex ++ map_of (map (\<lambda>e. (ID e, e)) ins)"
    "\<forall>e \<in> set ins. TenantID e = tid \<and> audit_seq db < SequenceNumber e \<and> SequenceNumber e \<le> s \<and>
       Hash e \<noteq> '''' \<and> ex (ID e) = None"
    "\<forall>e \<in> set ins. \<exists>d \<in> set es. derived_from d e" "\<forall>e \<in> set es. ex' (ID e) \<noteq> None"
    using st(2) unfolding linked_def by - (elim conjE, assumption)+
  have db: "0 \<le> audit_seq db" "audit_seq db < 2 ^ 63" "distinct (map ID (audit_rows db))"
    "\<forall>r \<in> set (audit_rows db). SequenceNumber r \<le> audit_seq db"
    using wf unfolding wf_db_def wf_rows_def by blast+
  have s: "audit_seq db \<le> s" "s < 2 ^ 63" using chain_events_seq [OF st(3) db(2)] by blast+
  have ok: "\<forall>e \<in> set ins. input_ok e"
  proof
    fix e assume "e \<in> set ins"
    then obtain d where "d \<in> set es" "derived_from d e" using L(5) by blast
    with inp Truncate_range show "input_ok e" by (simp add: derived_from_def input_ok_def)
  qed
  obtain rs where ri: "rows_inserted v ins ?db db' rs" using insert_audit_rows_Some [OF st(4)] by blast
  have l: "list_all2 (stored_as v) ins rs" and db': "db' = ?db\<lparr>audit_rows := audit_rows db @ rs\<rparr>"
    and sto: "\<forall>e \<in> set ins. list_all storable (event_texts e)"
    using ri by (auto simp: rows_inserted_def)
  have wf': "wf_db db'"
  proof (rule insert_audit_rows_wf [OF st(4) wf_db_seq [OF wf s] J], rule ballI)
    fix e assume "e \<in> set ins"
    then have "audit_seq db < SequenceNumber e" "SequenceNumber e \<le> s" "input_ok e" using L(4) ok by blast+
    then show "input_ok e \<and> 0 < SequenceNumber e \<and> SequenceNumber e \<le> audit_seq ?db" using db(1) by simp
  qed
  have ch: "chain_rows db' tid = chain_rows db tid @ rs" "\<And>t. t \<noteq> tid \<Longrightarrow> chain_rows db' t = chain_rows db t"
  proof -
    have t: "\<forall>e \<in> set ins. TenantID e = tid" using L(4) by blast
    have n: "\<forall>e \<in> set ins. \<forall>r \<in> set (audit_rows ?db). SequenceNumber r < SequenceNumber e"
      using L(4) db(4) by force
    show "chain_rows db' tid = chain_rows db tid @ rs" using rows_inserted_chain(1) [OF ri L(2) t n] by simp
    show "chain_rows db' t = chain_rows db t" if "t \<noteq> tid" for t
      using rows_inserted_chain(2) [OF ri L(2) t n that] by simp
  qed
  have co: "chain_ok (sha256 v) (chain_tip GenesisHash (chain_rows db tid)) rs"
    using stored_chain [OF l J _ L(1)] sto ok L(4) by blast
  have idr: "ID ` set rs = ID ` set ins"
  proof -
    have "map ID rs = map ID ins" using l by (induction rule: list_all2_induct) (auto simp: stored_as_fields)
    then show ?thesis by (metis set_map)
  qed
  have dom_ex: "ex i \<noteq> None \<longleftrightarrow> i \<in> ID ` set es \<and> i \<in> ID ` {r \<in> set (audit_rows db). TenantID r = tid}" for i
    using loadExisting_spec [OF st(1) db(3), of i] by auto
  have "ID ` set ins = {i \<in> ID ` set es. ex i = None}"
  proof (intro set_eqI iffI)
    fix i assume "i \<in> ID ` set ins"
    then obtain e where e: "e \<in> set ins" "i = ID e" by blast
    then obtain d where d: "d \<in> set es" "ID d = i" using L(5) unfolding derived_from_def by metis
    have "i \<in> ID ` set es" using d by (intro image_eqI [of _ _ d]) simp_all
    moreover have "ex i = None" using e L(4) by simp
    ultimately show "i \<in> {i \<in> ID ` set es. ex i = None}" by simp
  next
    fix i assume i: "i \<in> {i \<in> ID ` set es. ex i = None}"
    then have "(ex ++ map_of (map (\<lambda>e. (ID e, e)) ins)) i \<noteq> None" using L(3,6) by auto
    with i have "map_of (map (\<lambda>e. (ID e, e)) ins) i \<noteq> None" by (auto simp: map_add_def split: option.splits)
    then show "i \<in> ID ` set ins" by (auto simp: map_of_eq_None_iff image_iff)
  qed
  then have "ID ` set rs = ID ` set es - ID ` {r \<in> set (audit_rows db). TenantID r = tid}"
    unfolding idr using dom_ex by blast
  then have "appended v tid es db db' rs"
    using ch co wf' by (simp add: appended_def db')
  then show ?thesis by blast
qed

lemma appended_ids:
  assumes "appended v tid es db db' rs"
  shows "ID ` set rs = ID ` set es - ID ` set (chain_rows db tid)" "ID ` set es \<subseteq> ID ` set (chain_rows db' tid)"
proof -
  show i: "ID ` set rs = ID ` set es - ID ` set (chain_rows db tid)"
    using assms by (simp add: appended_def chain_rows_set)
  have "set (chain_rows db' tid) = set (chain_rows db tid) \<union> set rs" using assms by (simp add: appended_def)
  with i show "ID ` set es \<subseteq> ID ` set (chain_rows db' tid)" by (simp add: image_Un)
qed

lemma append_out_ids:
  assumes "AppendBatchChained v db tid es = (Inr out, db')" "wf_db db"
  shows "map ID out = map ID es"
proof (cases "es = []")
  case True
  with assms(1) show ?thesis by (simp add: AppendBatchChained_def)
next
  case False
  obtain ex ins ex' s where st: "loadExistingEventsTx v db tid (map ID es) = Inr ex"
      "linked v tid (audit_seq db) (chain_tip GenesisHash (chain_rows db tid)) ex es ins ex' s"
      "out = map (\<lambda>e. case ex' (ID e) of Some x \<Rightarrow> x | None \<Rightarrow> e) es"
    by (rule append_stages [OF assms(1) False])
  have d: "distinct (map ID (audit_rows db))" using assms(2) by (simp add: wf_db_def wf_rows_def)
  have ex': "ex' = ex ++ map_of (map (\<lambda>e. (ID e, e)) ins)"
    using st(2) unfolding linked_def by - (elim conjE, assumption)
  have "ID x = i" if "ex' i = Some x" for i x
  proof -
    from that have "map_of (map (\<lambda>e. (ID e, e)) ins) i = Some x \<or> ex i = Some x"
      unfolding ex' map_add_Some_iff by blast
    then show ?thesis
    proof
      assume "map_of (map (\<lambda>e. (ID e, e)) ins) i = Some x"
      then show ?thesis by (auto dest: map_of_SomeD)
    next
      assume "ex i = Some x"
      then show ?thesis using loadExisting_spec [OF st(1) d, of i x] by blast
    qed
  qed
  then show ?thesis unfolding st(3) by (auto split: option.splits)
qed

lemma append_err:
  assumes "AppendBatchChained v db tid es = (Inl err, db')" "wf_db db"
  shows "\<exists>s. audit_seq db \<le> s \<and> s < 2 ^ 63 \<and> db' = db\<lparr>audit_seq := s\<rparr>"
proof -
  have s: "0 \<le> audit_seq db" "audit_seq db < 2 ^ 63" using assms(2) by (auto simp: wf_db_def wf_rows_def)
  then have "db' = db \<or> (\<exists>p ex r s. chain_events v tid 0 (audit_seq db) p ex es = (r, s) \<and> db' = db\<lparr>audit_seq := s\<rparr>)"
    using assms(1)
    by (auto simp: AppendBatchChained_def Let_def split: if_splits sum.splits prod.splits)
  then show ?thesis using chain_events_seq s by (metis order_refl pgdb.surjective pgdb.update_convs(2))
qed

text \<open>Invariant and chains survive every outcome of an append.\<close>

lemma append_keeps:
  assumes "AppendBatchChained v db tid es = (r, db')" "wf_db db" "jsonb_ok (jsonb v)"
    and "\<forall>e \<in> set es. input_ok e"
  shows "wf_db db' \<and> (chained (sha256 v) db t \<longrightarrow> chained (sha256 v) db' t)"
proof (cases r)
  case (Inl err)
  then obtain s where "audit_seq db \<le> s" "s < 2 ^ 63" "db' = db\<lparr>audit_seq := s\<rparr>"
    using append_err assms(1,2) by blast
  with assms(2) show ?thesis by (simp add: wf_db_seq chained_def)
next
  case (Inr out)
  then obtain rs where "appended v tid es db db' rs" using append_ok assms by blast
  then show ?thesis by (cases "t = tid") (auto simp: appended_def chained_def)
qed

end
