(* ===== verification/Audit_Repo_Pg.thy ===== *)
theory Audit_Repo_Pg
  imports Audit_Chain
begin

text \<open>
  The PostgreSQL store meets the contract of the repository interface: every law of the locale
  \<open>audit_repository\<close> is proved of the definitions of Audit_Store.  \<open>walk_pages_all\<close>: the paged
  walk visits exactly the rows an unpaged scan would.  \<open>reanchor_rows\<close>: the update loop leaves the
  relinked chain behind.
\<close>

definition pg_repository :: "env \<Rightarrow> (pgdb, 's) repository" where
  "pg_repository v =
     \<lparr>rAppendChained = AppendChained v, rAppendBatchChained = AppendBatchChained v, rGet = Get v,
      rPrevious = Previous v, rList = List_audit v, rWalk = Walk v, rCountByAction = CountByAction v,
      rCountByActorType = CountByActorType v, rReanchorFrom = ReanchorFrom v, rGetBySeq = GetBySeq v\<rparr>"

definition pg_inv :: "env \<Rightarrow> pgdb \<Rightarrow> bool" where
  "pg_inv v db = (jsonb_ok (jsonb v) \<and> wf_db db)"

section \<open>Reads\<close>

lemma chain_rows_ids: "wf_db db \<Longrightarrow> distinct (map ID (chain_rows db tid))"
  by (simp add: wf_db_def wf_rows_def chain_rows_def distinct_map inj_on_def)

lemma Get_Inr: "Get v db tid i = Inr e \<Longrightarrow> e \<in> set (chain_rows db tid) \<and> ID e = i"
  by (auto simp: Get_def chain_rows_set split: if_splits list.splits dest!: filter_Cons_mem)

lemma Previous_Inr:
  assumes "wf_db db" "Previous v db tid i = Inr p"
  shows "\<exists>xs e ys. chain_rows db tid = xs @ e # ys \<and> ID e = i \<and> p = (if xs = [] then None else Some (last xs))"
proof -
  obtain e es where e: "filter (\<lambda>r. TenantID r = tid \<and> ID r = i) (audit_rows db) = e # es"
      and p: "p = (case rev (filter (\<lambda>r. SequenceNumber r < SequenceNumber e) (chain_rows db tid)) of
                     [] \<Rightarrow> None | r # _ \<Rightarrow> Some r)"
    using assms(2) by (auto simp: Previous_def split: if_splits list.splits)
  have "e \<in> set (filter (\<lambda>r. TenantID r = tid \<and> ID r = i) (audit_rows db))" unfolding e by simp
  then have m: "e \<in> set (chain_rows db tid)" "ID e = i" by (simp_all add: chain_rows_set)
  then obtain xs ys where c: "chain_rows db tid = xs @ e # ys" by (meson split_list)
  have "sorted_wrt (<) (map SequenceNumber (chain_rows db tid))"
    using assms(1) by (intro chain_rows_strict) (simp add: wf_db_def)
  then have "filter (\<lambda>r. SequenceNumber r < SequenceNumber e) (chain_rows db tid) = xs"
    unfolding c by (rule strict_sorted_filter_less)
  then have "p = (if xs = [] then None else Some (last xs))"
    using p by (cases xs rule: rev_cases) simp_all
  with c m show ?thesis by blast
qed

section \<open>The paged walk\<close>

lemma run_events_append:
  "run_events fn (xs @ ys) st = bind_result (run_events fn xs st) (run_events fn ys)"
proof (induction xs arbitrary: st)
  case (Cons x xs)
  then show ?case by (cases "fn x st") simp_all
qed simp

lemma next_page:
  assumes so: "sorted_wrt (<) (map SequenceNumber rs)"
    and rest: "rest = filter (\<lambda>r. s < SequenceNumber r) rs" and n: "0 < n" "n \<le> length rest"
  shows "filter (\<lambda>r. SequenceNumber (last (take n rest)) < SequenceNumber r) rs = drop n rest"
proof -
  let ?l = "last (take n rest)"
  have ne: "take n rest \<noteq> []" using n by auto
  then have "?l \<in> set rest" by (metis in_set_takeD last_in_set)
  then have "s < SequenceNumber ?l" using rest by simp
  then have "filter (\<lambda>r. SequenceNumber ?l < SequenceNumber r) rs =
      filter (\<lambda>r. SequenceNumber ?l < SequenceNumber r) rest"
    unfolding rest by (auto intro: filter_cong)
  also have "\<dots> = filter (\<lambda>r. SequenceNumber ?l < SequenceNumber r) (take n rest) @
      filter (\<lambda>r. SequenceNumber ?l < SequenceNumber r) (drop n rest)"
    by (metis append_take_drop_id filter_append)
  also have "\<dots> = drop n rest"
  proof -
    have sr: "sorted_wrt (<) (map SequenceNumber (take n rest @ drop n rest))"
      using so unfolding rest append_take_drop_id by (simp add: sorted_wrt_map sorted_wrt_filter)
    obtain zs where z: "take n rest = zs @ [?l]" using ne by (metis append_butlast_last_id)
    have "\<forall>r \<in> set (take n rest). SequenceNumber r \<le> SequenceNumber ?l"
      using sr by (subst z, subst (asm) z) (auto simp: sorted_wrt_append)
    moreover have "\<forall>r \<in> set (drop n rest). SequenceNumber ?l < SequenceNumber r"
      using sr by (subst (asm) z) (auto simp: sorted_wrt_append)
    ultimately show ?thesis by (auto simp: filter_empty_conv filter_id_conv not_less)
  qed
  finally show ?thesis .
qed

lemma walk_pages_all:
  assumes "sorted_wrt (<) (map SequenceNumber rs)"
    and "walk_pages v rs fn page s count st = Inr (st', n)"
  shows "run_events fn (filter (\<lambda>r. s < SequenceNumber r) rs) st = Inr st' \<and>
    n = count + length (filter (\<lambda>r. s < SequenceNumber r) rs)"
  using assms
proof (induction v rs fn page s count st rule: walk_pages.induct)
  case (1 v rs fn page s count st)
  let ?rest = "filter (\<lambda>r. s < SequenceNumber r) rs"
  let ?chunk = "take walkPageSize ?rest"
  have w: "0 < walkPageSize" by (simp add: walkPageSize_def)
  obtain st1 where nf: "\<not> fault v ''walking audit events chunk'' page" and st1: "run_events fn ?chunk st = Inr st1"
    using 1(3) by (subst (asm) walk_pages.simps) (auto simp: Let_def split: if_splits sum.splits)
  show ?case
  proof (cases "length ?chunk < walkPageSize")
    case True
    then have "?chunk = ?rest" by simp
    with 1(3) nf st1 True show ?thesis
      by (subst (asm) walk_pages.simps) (simp add: Let_def del: length_take)
  next
    case False
    let ?l = "SequenceNumber (last ?chunk)"
    have more: "walk_pages v rs fn (Suc page) ?l (count + length ?chunk) st1 = Inr (st', n)"
      using 1(3) nf st1 False by (subst (asm) walk_pages.simps) (simp add: Let_def del: length_take)
    have d: "filter (\<lambda>r. ?l < SequenceNumber r) rs = drop walkPageSize ?rest"
      using False by (intro next_page [OF 1(2) refl w]) simp
    have "run_events fn (drop walkPageSize ?rest) st1 = Inr st' \<and>
        n = count + length ?chunk + length (drop walkPageSize ?rest)"
      using 1(1) [OF refl refl nf st1 False 1(2) more] unfolding d .
    moreover have "run_events fn ?rest st = bind_result (run_events fn ?chunk st) (run_events fn (drop walkPageSize ?rest))"
      by (metis append_take_drop_id run_events_append)
    moreover have "length ?chunk + length (drop walkPageSize ?rest) = length ?rest"
      by (metis append_take_drop_id length_append)
    ultimately show ?thesis using st1 by simp
  qed
qed

lemma Walk_Inr:
  assumes "wf_db db" "Walk v db tid from to fn st = Inr (st', n)"
  shows "run_events fn (filter (in_window from to) (chain_rows db tid)) st = Inr st' \<and>
    n = length (filter (in_window from to) (chain_rows db tid))"
proof -
  have win: "window_rows db tid from to = filter (in_window from to) (chain_rows db tid)"
    by (simp add: window_rows_def in_window_def [abs_def])
  have so: "sorted_wrt (<) (map SequenceNumber (window_rows db tid from to))"
    using chain_rows_strict [of db tid] assms(1)
    by (simp add: window_rows_def sorted_wrt_map sorted_wrt_filter wf_db_def)
  have "\<forall>r \<in> set (window_rows db tid from to). - 1 < SequenceNumber r"
    using assms(1) by (force simp: window_rows_def chain_rows_set wf_db_def wf_rows_def)
  then have "filter (\<lambda>r. - 1 < SequenceNumber r) (window_rows db tid from to) = window_rows db tid from to"
    by (simp add: filter_id_conv)
  then show ?thesis
    using walk_pages_all [OF so assms(2) [unfolded Walk_def]] by (simp only: win add_0)
qed

lemma Walk_one_page:
  assumes "wf_db db" "\<not> fault v ''walking audit events chunk'' 0" "length (window_rows db tid from to) < walkPageSize"
  shows "Walk v db tid from to fn st =
    (case run_events fn (window_rows db tid from to) st of
       Inl err \<Rightarrow> Inl err | Inr st' \<Rightarrow> Inr (st', length (window_rows db tid from to)))"
proof -
  have "\<forall>r \<in> set (window_rows db tid from to). - 1 < SequenceNumber r"
    using assms(1) by (force simp: window_rows_def chain_rows_set wf_db_def wf_rows_def)
  then have "filter (\<lambda>r. - 1 < SequenceNumber r) (window_rows db tid from to) = window_rows db tid from to"
    by (rule filter_all)
  then show ?thesis
    using assms(2,3) unfolding Walk_def by (subst walk_pages.simps) (simp add: Let_def split: sum.splits)
qed

section \<open>Re-anchoring\<close>

lemma hex_digit_plain: "d < 16 \<Longrightarrow> byte (hex_digit d) < 128 \<and> hex_digit d \<noteq> CHR 0x00"
proof -
  assume "d < 16"
  then have b: "byte (hex_digit d) = (if d < 10 then 48 + d else 87 + d)" by (rule byte_hex_digit)
  then have "byte (hex_digit d) \<noteq> 0" by simp
  moreover have "byte (CHR 0x00) = 0" by (simp add: byte_def)
  ultimately show ?thesis using b \<open>d < 16\<close> by (auto split: if_splits)
qed

lemma hex_byte_plain: "\<forall>x \<in> set (hex_byte c). byte x < 128 \<and> x \<noteq> CHR 0x00"
proof -
  have "byte c < 16 * 16" using nat_of_char_less_256 [of c] by (simp add: byte_def)
  then have "byte c div 16 < 16" by (rule less_mult_imp_div_less)
  then show ?thesis using hex_digit_plain by (simp add: hex_byte_byte)
qed

lemma storable_compute_hash: "storable (compute_hash H e)"
proof -
  have "\<forall>x \<in> set (HashPrefix @ hex_encode s). byte x < 128 \<and> x \<noteq> CHR 0x00" for s
    using hex_byte_plain by (auto simp: HashPrefix_def hex_encode_def byte_def)
  then have "storable (HashPrefix @ hex_encode s)" for s
    unfolding storable_def by (auto intro!: ascii_utf8 simp: ascii_def list_all_iff simp del: set_append)
  moreover have "storable ''''" by (simp add: storable_def ascii_utf8)
  ultimately show ?thesis by (simp add: ComputeHash_def split: option.splits)
qed

lemma storable_genesis: "storable GenesisHash"
  by (auto simp: storable_def GenesisHash_def byte_def intro!: ascii_utf8)

definition patched :: "string \<Rightarrow> (int \<times> string \<times> string) list \<Rightarrow> audit_event \<Rightarrow> audit_event" where
  "patched tid ps r = foldl (\<lambda>r p. patch_row tid p r) r ps"

lemma patch_row_keeps [simp]:
  "TenantID (patch_row tid p r) = TenantID r" "SequenceNumber (patch_row tid p r) = SequenceNumber r"
  "ID (patch_row tid p r) = ID r" "Timestamp (patch_row tid p r) = Timestamp r"
  by (simp_all add: patch_row_def split: prod.splits)

lemma patched_simps [simp]:
  "patched tid [] r = r" "patched tid (p # ps) r = patched tid ps (patch_row tid p r)"
  by (simp_all add: patched_def)

lemma patched_keeps [simp]:
  "TenantID (patched tid ps r) = TenantID r" "SequenceNumber (patched tid ps r) = SequenceNumber r"
  "ID (patched tid ps r) = ID r"
  by (induction ps arbitrary: r) simp_all

lemma patched_miss:
  "TenantID r \<noteq> tid \<or> SequenceNumber r \<notin> fst ` set ps \<Longrightarrow> patched tid ps r = r"
  by (induction ps arbitrary: r) (auto simp: patch_row_def split: prod.splits)

lemma apply_patches_Inr:
  "apply_patches v tid i ps db n = Inr (m, db') \<Longrightarrow>
     db' = db\<lparr>audit_rows := map (patched tid ps) (audit_rows db)\<rparr> \<and>
     m = n + (\<Sum>p \<leftarrow> ps. int (length (filter (\<lambda>r. TenantID r = tid \<and> SequenceNumber r = fst p) (audit_rows db))))"
proof (induction ps arbitrary: i db n)
  case (Cons p ps)
  let ?db = "db\<lparr>audit_rows := map (patch_row tid p) (audit_rows db)\<rparr>"
  from Cons.prems have "apply_patches v tid (Suc i) ps ?db
      (n + int (length (filter (\<lambda>r. TenantID r = tid \<and> SequenceNumber r = fst p) (audit_rows db)))) = Inr (m, db')"
    by (auto simp: Let_def split: if_splits)
  from Cons.IH [OF this] show ?case by (simp add: comp_def filter_map)
qed (simp add: patched_def [abs_def])

lemma patches_seqs: "map fst (reanchor_patches H p es) = map SequenceNumber es"
  by (induction es arbitrary: p) (simp_all add: Let_def)

lemma patched_relink:
  assumes "sorted_wrt (<) (map SequenceNumber es)" "\<forall>e \<in> set es. TenantID e = tid"
  shows "map (patched tid (reanchor_patches H p es)) es = relink H p es"
  using assms
proof (induction es arbitrary: p)
  case (Cons e es)
  let ?h = "compute_hash H (e\<lparr>PrevHash := p\<rparr>)"
  let ?q = "(SequenceNumber e, p, ?h)"
  let ?ps = "reanchor_patches H ?h es"
  have gt: "\<forall>r \<in> set es. SequenceNumber e < SequenceNumber r" using Cons.prems(1) by simp
  have "fst ` set ?ps = SequenceNumber ` set es" by (metis patches_seqs set_map)
  then have "patched tid ?ps (patch_row tid ?q e) = patch_row tid ?q e"
    using gt by (intro patched_miss) auto
  moreover have "patch_row tid ?q e = e\<lparr>PrevHash := p, Hash := ?h\<rparr>"
    using Cons.prems(2) by (simp add: patch_row_def)
  moreover have "map (\<lambda>r. patched tid ?ps (patch_row tid ?q r)) es = relink H ?h es"
  proof -
    have "map (\<lambda>r. patched tid ?ps (patch_row tid ?q r)) es = map (patched tid ?ps) es"
      using gt by (intro map_cong refl) (auto simp: patch_row_def)
    also have "\<dots> = relink H ?h es" using Cons by (intro Cons.IH) simp_all
    finally show ?thesis .
  qed
  ultimately show ?case by (simp add: Let_def)
qed simp

lemma sort_key_map_same:
  "\<forall>x \<in> set xs. k (f x) = k x \<Longrightarrow> sort_key k (map f xs) = map f (sort_key k xs)"
proof (induction xs)
  case (Cons x xs)
  have "insort_key k (f x) (map f ys) = map f (insort_key k x ys)" if "\<forall>y \<in> set (x # ys). k (f y) = k y" for ys
    using that by (induction ys) auto
  with Cons show ?case by simp
qed simp

lemma patched_chain:
  "chain_rows (db\<lparr>audit_rows := map (patched tid ps) (audit_rows db)\<rparr>) t = map (patched tid ps) (chain_rows db t)"
  by (simp add: chain_rows_def filter_map comp_def sort_key_map_same)

lemma row_hit_once:
  assumes "wf_db db" "e \<in> set (chain_rows db tid)"
  shows "length (filter (\<lambda>r. TenantID r = tid \<and> SequenceNumber r = SequenceNumber e) (audit_rows db)) = 1"
proof -
  let ?k = "\<lambda>r. (TenantID r, SequenceNumber r)"
  have e: "e \<in> set (audit_rows db)" "TenantID e = tid" using assms(2) by (auto simp: chain_rows_set)
  have "distinct (map ?k (audit_rows db))" using assms(1) by (simp add: wf_db_def wf_rows_def)
  then have d: "distinct (audit_rows db)" "inj_on ?k (set (audit_rows db))" by (simp_all add: distinct_map)
  have "set (filter (\<lambda>r. TenantID r = tid \<and> SequenceNumber r = SequenceNumber e) (audit_rows db)) = {e}"
    using e d(2) by (auto simp: inj_on_def)
  moreover have "distinct (filter (\<lambda>r. TenantID r = tid \<and> SequenceNumber r = SequenceNumber e) (audit_rows db))"
    using d(1) by simp
  ultimately show ?thesis by (metis card.empty card_insert_disjoint distinct_card empty_iff finite.emptyI One_nat_def)
qed

lemma reanchor_patches_storable:
  "storable p \<Longrightarrow> (s, ph, h) \<in> set (reanchor_patches H p es) \<Longrightarrow> storable ph \<and> storable h"
proof (induction es arbitrary: p)
  case (Cons e es)
  let ?h = "compute_hash H (e\<lparr>PrevHash := p\<rparr>)"
  have "storable ?h" by (rule storable_compute_hash)
  with Cons.prems Cons.IH [of ?h] show ?case by (auto simp: Let_def)
qed simp

lemma strict_sorted_split:
  "sorted_wrt (<) (map SequenceNumber es) \<Longrightarrow>
     es = filter (\<lambda>e. SequenceNumber e < s) es @ filter (\<lambda>e. s \<le> SequenceNumber e) es"
proof (induction es)
  case (Cons e es)
  show ?case
  proof (cases "SequenceNumber e < s")
    case False
    then have "\<forall>r \<in> set es. s \<le> SequenceNumber r" using Cons.prems by force
    then have "filter (\<lambda>r. SequenceNumber r < s) es = []" "filter (\<lambda>r. s \<le> SequenceNumber r) es = es"
      by (auto intro!: filter_none filter_all)
    with False show ?thesis by simp
  qed (use Cons in simp)
qed simp

lemma patched_row_inv:
  "row_inv r \<Longrightarrow> \<forall>(s, ph, h) \<in> set ps. storable ph \<and> storable h \<Longrightarrow> row_inv (patched tid ps r)"
proof (induction ps arbitrary: r)
  case (Cons p ps)
  have "row_inv (patch_row tid p r)"
    using Cons.prems by (auto simp: row_inv_def patch_row_def event_texts_def input_ok_def split: prod.splits)
  with Cons show ?case by simp
qed simp

lemma reanchor_rows:
  assumes wf: "wf_db db" and p: "storable p" and run: "ReanchorFrom v db tid s p = (Inr n, db')"
  shows "wf_db db' \<and>
    chain_rows db' tid = filter (\<lambda>e. SequenceNumber e < s) (chain_rows db tid) @
      relink (sha256 v) p (filter (\<lambda>e. s \<le> SequenceNumber e) (chain_rows db tid)) \<and>
    n = int (length (filter (\<lambda>e. s \<le> SequenceNumber e) (chain_rows db tid))) \<and>
    (\<forall>t. t \<noteq> tid \<longrightarrow> chain_rows db' t = chain_rows db t)"
proof -
  let ?c = "chain_rows db tid"
  let ?suf = "filter (\<lambda>e. s \<le> SequenceNumber e) ?c" and ?pre = "filter (\<lambda>e. SequenceNumber e < s) ?c"
  let ?ps = "reanchor_patches (sha256 v) p ?suf"
  have so: "sorted_wrt (<) (map SequenceNumber ?c)" using wf by (intro chain_rows_strict) (simp add: wf_db_def)
  have split: "?c = ?pre @ ?suf" using strict_sorted_split [OF so] .
  have "apply_patches v tid 0 ?ps db 0 = Inr (n, db')"
    using run by (auto simp: ReanchorFrom_def split: if_splits sum.splits)
  then have db': "db' = db\<lparr>audit_rows := map (patched tid ?ps) (audit_rows db)\<rparr>"
    and n: "n = (\<Sum>q \<leftarrow> ?ps. int (length (filter (\<lambda>r. TenantID r = tid \<and> SequenceNumber r = fst q) (audit_rows db))))"
    using apply_patches_Inr by force+
  have seqs: "fst ` set ?ps = SequenceNumber ` set ?suf" by (metis patches_seqs set_map)
  have "chain_rows db' tid = map (patched tid ?ps) (?pre @ ?suf)"
    unfolding db' patched_chain using split by simp
  also have "\<dots> = ?pre @ relink (sha256 v) p ?suf"
  proof -
    have "map (patched tid ?ps) ?pre = ?pre" using seqs by (intro map_idI patched_miss) auto
    moreover have "map (patched tid ?ps) ?suf = relink (sha256 v) p ?suf"
      using so by (intro patched_relink) (auto simp: sorted_wrt_map sorted_wrt_filter chain_rows_set)
    ultimately show ?thesis by simp
  qed
  finally have c: "chain_rows db' tid = ?pre @ relink (sha256 v) p ?suf" .
  have "chain_rows db' t = chain_rows db t" if "t \<noteq> tid" for t
    unfolding db' patched_chain using that by (intro map_idI patched_miss) (auto simp: chain_rows_set)
  moreover have "n = int (length ?suf)"
  proof -
    have "n = (\<Sum>q \<leftarrow> map fst ?ps. int (length (filter (\<lambda>r. TenantID r = tid \<and> SequenceNumber r = q) (audit_rows db))))"
      unfolding n by (simp add: comp_def)
    also have "\<dots> = (\<Sum>e \<leftarrow> ?suf. int (length (filter (\<lambda>r. TenantID r = tid \<and> SequenceNumber r = SequenceNumber e) (audit_rows db))))"
      unfolding patches_seqs by (simp add: comp_def)
    also have "\<dots> = (\<Sum>e \<leftarrow> ?suf. 1)"
      using row_hit_once [OF wf] by (intro arg_cong [of _ _ sum_list] map_cong refl) simp
    finally show ?thesis by (simp add: sum_list_triv)
  qed
  moreover have "wf_db db'"
  proof -
    have "\<forall>(s, ph, h) \<in> set ?ps. storable ph \<and> storable h" using reanchor_patches_storable [OF p] by blast
    then have "\<forall>r \<in> set (audit_rows db'). row_inv r"
      using wf patched_row_inv by (auto simp: db' wf_db_def)
    moreover have "wf_rows db'" using wf by (simp add: wf_db_def wf_rows_def db' comp_def)
    ultimately show ?thesis by (simp add: wf_db_def)
  qed
  ultimately show ?thesis using c by blast
qed

section \<open>The contract\<close>

lemma AppendChained_batch:
  "AppendChained v db tid e = (r, db') \<Longrightarrow>
     \<exists>rb. AppendBatchChained v db tid [e] = (rb, db') \<and> (\<forall>out. r = Inr out \<longrightarrow> rb = Inr [out])"
proof -
  assume a: "AppendChained v db tid e = (r, db')"
  obtain rb db1 where b: "AppendBatchChained v db tid [e] = (rb, db1)" by (metis surj_pair)
  have len: "length out = 1" if "rb = Inr out" for out
    using b that by (auto simp: AppendBatchChained_def Let_def split: if_splits sum.splits prod.splits)
  show ?thesis
  proof (cases rb)
    case (Inl err)
    with a b show ?thesis by (auto simp: AppendChained_def)
  next
    case (Inr out)
    then obtain x where "out = [x]" using len [OF Inr] by (cases out) auto
    with a b Inr show ?thesis by (auto simp: AppendChained_def)
  qed
qed

lemma ReanchorFrom_err: "ReanchorFrom v db tid s p = (Inl err, db') \<Longrightarrow> db' = db"
  by (auto simp: ReanchorFrom_def split: if_splits sum.splits)

interpretation pg: audit_repository "pg_repository v" "sha256 v" chain_rows "pg_inv v" for v
proof (unfold_locales, goal_cases)
  case (1 d t)
  then show ?case by (simp add: chain_rows_strict pg_inv_def wf_db_def)
next
  case (2 d t)
  then show ?case by (simp add: chain_rows_ids pg_inv_def)
next
  case (3 d t i e)
  then show ?case by (simp add: pg_repository_def Get_Inr)
next
  case (4 d t i pr)
  then show ?case using Previous_Inr by (simp add: pg_repository_def pg_inv_def)
next
  case (5 d t t1 t2 fn st st' n)
  then show ?case using Walk_Inr [of d v t t1 t2 fn st st' n] by (simp add: pg_repository_def pg_inv_def)
next
  case (6 d es t out d')
  then obtain rs where a: "appended v t es d d' rs"
    using append_ok [of v d t es out d'] by (auto simp: pg_repository_def pg_inv_def)
  then show ?case using 6(1) by (auto simp: appended_def pg_inv_def chain_rows_set)
next
  case (7 d t es err d')
  then obtain s where "audit_seq d \<le> s" "s < 2 ^ 63" "d' = d\<lparr>audit_seq := s\<rparr>"
    using append_err [of v d t es err d'] by (auto simp: pg_repository_def pg_inv_def)
  then show ?case using 7(1) by (simp add: pg_inv_def wf_db_seq)
next
  case (8 d t e r d')
  then show ?case using AppendChained_batch by (simp add: pg_repository_def)
next
  case (9 d p t s n d')
  have "storable p"
    using 9(1,2) storable_genesis by (auto simp: pg_inv_def wf_db_def chain_rows_set row_inv_def event_texts_def)
  then show ?case using reanchor_rows [of d p v t s n d'] 9 by (simp add: pg_repository_def pg_inv_def)
next
  case (10 d t s p err d')
  then show ?case using ReanchorFrom_err by (simp add: pg_repository_def)
qed

end
