(* ===== verification/Redaction.thy ===== *)
theory Redaction
  imports JSON_Value
begin

text \<open>
  api/internal/redaction/redactor.go: the secret patterns, the string scrubber and the recursion
  over JSON values (\<open>Redact\<close>, \<open>RedactStringMap\<close>, \<open>RedactJSONMap\<close>, \<open>RedactInline\<close>).

  The regular expressions of the source use character classes, concatenation, greedy repetition
  and the ASCII word boundary.  \<open>re_ends\<close> lists the ends of the matches that start at a position,
  in the order of preference of Go's leftmost-first semantics; the first one is the match.  The
  lemmas show that redaction never damages a document: keys, numbers and structure stay, text stays
  well-formed UTF-8 (\<open>redactValue_wf\<close>), and a value is reported unchanged exactly when it is the
  same value (\<open>redactValue_unchanged\<close>).
\<close>

section \<open>Regular expressions\<close>

datatype re =
    WordBoundary
  | Cls "char \<Rightarrow> bool"
  | Cat "re list"
  | Rep re nat "nat option"

definition word_char :: "char \<Rightarrow> bool" where
  "word_char c = (is_digit c \<or> c = CHR ''_'' \<or> (CHR ''A'' \<le> c \<and> c \<le> CHR ''Z'') \<or> (CHR ''a'' \<le> c \<and> c \<le> CHR ''z''))"

definition word_at :: "string \<Rightarrow> nat \<Rightarrow> bool" where
  "word_at s i = (i < length s \<and> word_char (s ! i))"

definition at_boundary :: "string \<Rightarrow> nat \<Rightarrow> bool" where
  "at_boundary s i = ((0 < i \<and> word_at s (i - 1)) \<noteq> word_at s i)"

text \<open>Greedy repetition, longest alternatives first.\<close>

fun rep_ends :: "(nat \<Rightarrow> nat list) \<Rightarrow> nat \<Rightarrow> nat \<Rightarrow> nat \<Rightarrow> nat list" where
  "rep_ends f lo 0 i = (if lo = 0 then [i] else [])"
| "rep_ends f lo (Suc hi) i =
     concat (map (rep_ends f (lo - 1) hi) (f i)) @ (if lo = 0 then [i] else [])"

fun re_ends :: "re \<Rightarrow> string \<Rightarrow> nat \<Rightarrow> nat list" where
  "re_ends WordBoundary s i = (if at_boundary s i then [i] else [])"
| "re_ends (Cls P) s i = (if i < length s \<and> P (s ! i) then [Suc i] else [])"
| "re_ends (Cat rs) s i = foldl (\<lambda>is r. concat (map (re_ends r s) is)) [i] rs"
| "re_ends (Rep r lo hi) s i =
     rep_ends (re_ends r s) lo (case hi of None \<Rightarrow> length s | Some h \<Rightarrow> h) i"

definition range_cls :: "char \<Rightarrow> char \<Rightarrow> char \<Rightarrow> bool" where
  "range_cls a b c = (a \<le> c \<and> c \<le> b)"

definition upper :: "char \<Rightarrow> bool" where "upper = range_cls (CHR ''A'') (CHR ''Z'')"
definition lower :: "char \<Rightarrow> bool" where "lower = range_cls (CHR ''a'') (CHR ''z'')"
definition alnum :: "char \<Rightarrow> bool" where "alnum c = (upper c \<or> lower c \<or> is_digit c)"
definition one_of :: "string \<Rightarrow> char \<Rightarrow> bool" where "one_of cs c = (c \<in> set cs)"

definition lit :: "string \<Rightarrow> re" where
  "lit s = Cat (map (\<lambda>c. Cls (\<lambda>x. x = c)) s)"

definition lit_fold :: "string \<Rightarrow> re" where
  "lit_fold s = Cat (map (\<lambda>c. Cls (\<lambda>x. lower_char x = c)) s)"

section \<open>The patterns\<close>

definition looksLikeAWSSecret :: "string \<Rightarrow> bool" where
  "looksLikeAWSSecret s =
     (list_ex upper s \<and> list_ex lower s \<and> list_ex is_digit s \<and>
      list_ex (\<lambda>c. c = CHR ''/'' \<or> c = CHR ''+'') s)"

text \<open>The Luhn sum from the last digit on; \<open>alt\<close> doubles every second one.\<close>

fun luhn_sum :: "bool \<Rightarrow> nat list \<Rightarrow> nat" where
  "luhn_sum alt [] = 0"
| "luhn_sum alt (d # ds) =
     (let d1 = (if alt then (if 9 < d * 2 then d * 2 - 9 else d * 2) else d)
      in d1 + luhn_sum (\<not> alt) ds)"

definition luhnValid :: "string \<Rightarrow> bool" where
  "luhnValid s =
     (let digits = map digit_val (filter is_digit s); n = length digits
      in list_all (\<lambda>c. is_digit c \<or> c = CHR '' '' \<or> c = CHR ''-'') s \<and> 13 \<le> n \<and> n \<le> 19 \<and>
         luhn_sum False (rev digits) mod 10 = 0)"

record pattern =
  kind :: string
  pat :: re
  postCheck :: "(string \<Rightarrow> bool) option"

definition patterns :: "pattern list" where
  "patterns =
     [\<lparr>kind = ''aws_access_key'',
       pat = Cat [WordBoundary, lit ''AKIA'', Rep (Cls (\<lambda>c. is_digit c \<or> upper c)) 16 (Some 16), WordBoundary],
       postCheck = None\<rparr>,
      \<lparr>kind = ''aws_secret_key'',
       pat = Cat [WordBoundary, Rep (Cls (\<lambda>c. alnum c \<or> one_of ''/+'' c)) 40 (Some 40), WordBoundary],
       postCheck = Some looksLikeAWSSecret\<rparr>,
      \<lparr>kind = ''github_token'',
       pat = Cat [WordBoundary, lit ''gh'', Cls (one_of ''pousr''), lit ''_'', Rep (Cls alnum) 36 None, WordBoundary],
       postCheck = None\<rparr>,
      \<lparr>kind = ''slack_token'',
       pat = Cat [WordBoundary, lit ''xox'', Cls (one_of ''abprs''), lit ''-'',
                  Rep (Cls (\<lambda>c. alnum c \<or> c = CHR ''-'')) 10 None, WordBoundary],
       postCheck = None\<rparr>,
      \<lparr>kind = ''openai_key'',
       pat = Cat [WordBoundary, lit ''sk-'', Rep (Cls (\<lambda>c. alnum c \<or> one_of ''_-'' c)) 20 None, WordBoundary],
       postCheck = None\<rparr>,
      \<lparr>kind = ''jwt'',
       pat = Cat [WordBoundary, lit ''eyJ'', Rep (Cls (\<lambda>c. alnum c \<or> one_of ''_-'' c)) 1 None, lit ''.'',
                  Rep (Cls (\<lambda>c. alnum c \<or> one_of ''_-'' c)) 1 None, lit ''.'',
                  Rep (Cls (\<lambda>c. alnum c \<or> one_of ''_-'' c)) 1 None, WordBoundary],
       postCheck = None\<rparr>,
      \<lparr>kind = ''ssn'',
       pat = Cat [WordBoundary, Rep (Cls is_digit) 3 (Some 3), lit ''-'', Rep (Cls is_digit) 2 (Some 2), lit ''-'',
                  Rep (Cls is_digit) 4 (Some 4), WordBoundary],
       postCheck = None\<rparr>,
      \<lparr>kind = ''credit_card'',
       pat = Cat [WordBoundary,
                  Rep (Cat [Cls is_digit, Rep (Cls (one_of '' -'')) 0 (Some 1)]) 13 (Some 19), WordBoundary],
       postCheck = Some luhnValid\<rparr>,
      \<lparr>kind = ''bearer_token'',
       pat = Cat [WordBoundary, lit_fold ''bearer'',
                  Rep (Cls (one_of [CHR 0x09, CHR 0x0A, CHR 0x0C, CHR 0x0D, CHR '' ''])) 1 None,
                  Rep (Cls (\<lambda>c. alnum c \<or> one_of ''._-'' c)) 1 None],
       postCheck = None\<rparr>,
      \<lparr>kind = ''email'',
       pat = Cat [WordBoundary, Rep (Cls (\<lambda>c. alnum c \<or> one_of ''._%+-'' c)) 1 None, lit ''@'',
                  Rep (Cls (\<lambda>c. alnum c \<or> one_of ''.-'' c)) 1 None, lit ''.'',
                  Rep (Cls (\<lambda>c. upper c \<or> lower c)) 2 None, WordBoundary],
       postCheck = None\<rparr>]"

definition marker :: "pattern \<Rightarrow> string" where
  "marker p = ''[REDACTED:'' @ kind p @ '']''"

section \<open>Scrubbing\<close>

text \<open>
  \<open>ReplaceAllStringFunc\<close>: from left to right, the preferred match at the first position that has
  one; the replacement function either keeps the match or gives the marker.  No pattern matches the
  empty string.
\<close>

function replace_all :: "pattern \<Rightarrow> string \<Rightarrow> nat \<Rightarrow> string \<times> bool" where
  "replace_all p s i =
     (if length s \<le> i then ([], False)
      else case filter (\<lambda>j. i < j) (re_ends (pat p) s i) of
             [] \<Rightarrow> (let (t, c) = replace_all p s (Suc i) in (s ! i # t, c))
           | j # _ \<Rightarrow>
               (let m = take (j - i) (drop i s);
                    keep = (case postCheck p of None \<Rightarrow> False | Some f \<Rightarrow> \<not> f m);
                    (t, c) = replace_all p s j
                in if keep then (m @ t, c) else (marker p @ t, True)))"
  by pat_completeness auto
termination
  by (relation "measure (\<lambda>(p, s, i). length s - i)") (auto dest!: filter_Cons_mem)

declare replace_all.simps [simp del]

definition Redact :: "string \<Rightarrow> string \<times> bool" where
  "Redact s =
     (if s = '''' then (s, False)
      else foldl (\<lambda>(t, c) p. let (u, d) = replace_all p t 0 in (u, c \<or> d)) (s, False) patterns)"

definition RedactStringMap :: "(string \<times> string) list \<Rightarrow> (string \<times> string) list \<times> bool" where
  "RedactStringMap m =
     (map (\<lambda>(k, v). (k, if snd (Redact v) then fst (Redact v) else v)) m,
      list_ex (\<lambda>(k, v). snd (Redact v)) m)"

text \<open>\<open>redactValue\<close> and \<open>RedactJSONMap\<close>, which call each other; a nil map is the empty field list.\<close>

fun redactValue :: "json \<Rightarrow> json \<times> bool"
  and redact_items :: "json list \<Rightarrow> json list \<times> bool"
  and RedactJSONMap :: "(string \<times> json) list \<Rightarrow> (string \<times> json) list \<times> bool" where
  "redactValue (JStr s) = (let (t, c) = Redact s in (JStr t, c))"
| "redactValue (JObj m) = (let (n, c) = RedactJSONMap m in (JObj n, c))"
| "redactValue (JArr xs) = (let (ys, c) = redact_items xs in (JArr ys, c))"
| "redactValue JNull = (JNull, False)"
| "redactValue (JBool b) = (JBool b, False)"
| "redactValue (JNum n) = (JNum n, False)"
| "redact_items [] = ([], False)"
| "redact_items (x # xs) =
     (let (y, c) = redactValue x; (ys, d) = redact_items xs in ((if c then y else x) # ys, c \<or> d))"
| "RedactJSONMap [] = ([], False)"
| "RedactJSONMap ((k, x) # m) =
     (let (y, c) = redactValue x; (n, d) = RedactJSONMap m in ((k, if c then y else x) # n, c \<or> d))"

text \<open>
  \<open>RedactInline\<close>: a string that holds a JSON text is decoded, scrubbed and printed again.
  \<open>Unmarshal\<close> is \<open>json.Unmarshal\<close> into an \<open>any\<close>, its numbers as they are printed back.
\<close>

definition RedactInline :: "(string \<Rightarrow> json option) \<Rightarrow> json \<Rightarrow> json \<times> bool" where
  "RedactInline Unmarshal x =
     (case x of
        JNull \<Rightarrow> (JNull, False)
      | JStr s \<Rightarrow>
          (let trim = TrimSpace s; plain = (case Redact s of (t, c) \<Rightarrow> (JStr t, c))
           in if 2 \<le> length trim \<and> hd trim \<in> {CHR ''{'', CHR ''[''}
              then (case Unmarshal trim of
                      None \<Rightarrow> plain
                    | Some d \<Rightarrow>
                        (case redactValue d of
                           (y, c) \<Rightarrow> if c \<and> redecode y \<noteq> None then (JStr (print_json y), True) else plain))
              else plain)
      | _ \<Rightarrow> redactValue x)"

section \<open>Matches are ASCII\<close>

fun re_ascii :: "re \<Rightarrow> bool" where
  "re_ascii WordBoundary = True"
| "re_ascii (Cls P) = (\<forall>c. P c \<longrightarrow> byte c < 128)"
| "re_ascii (Cat rs) = list_all re_ascii rs"
| "re_ascii (Rep r lo hi) = re_ascii r"

definition ascii_span :: "string \<Rightarrow> nat \<Rightarrow> nat \<Rightarrow> bool" where
  "ascii_span s i j = (i \<le> j \<and> (i \<le> length s \<longrightarrow> j \<le> length s) \<and> (\<forall>k. i \<le> k \<and> k < j \<longrightarrow> byte (s ! k) < 128))"

lemma ascii_span_refl [simp]: "ascii_span s i i"
  by (simp add: ascii_span_def)

lemma ascii_span_trans: "ascii_span s i j \<Longrightarrow> ascii_span s j k \<Longrightarrow> ascii_span s i k"
  unfolding ascii_span_def by (metis le_trans not_le)

lemma rep_ends_span:
  "(\<And>i j. j \<in> set (f i) \<Longrightarrow> ascii_span s i j) \<Longrightarrow> j \<in> set (rep_ends f lo hi i) \<Longrightarrow> ascii_span s i j"
proof (induction f lo hi i rule: rep_ends.induct)
  case (2 f lo hi i)
  then show ?case by (auto split: if_splits intro: ascii_span_trans)
qed (auto split: if_splits)

lemma foldl_ends_span:
  assumes "\<And>r i j. r \<in> set rs \<Longrightarrow> j \<in> set (re_ends r s i) \<Longrightarrow> ascii_span s i j"
  shows "j \<in> set (foldl (\<lambda>is r. concat (map (re_ends r s) is)) is rs) \<Longrightarrow> \<exists>i \<in> set is. ascii_span s i j"
  using assms
proof (induction rs arbitrary: "is")
  case (Cons r rs)
  then obtain k where k: "k \<in> set (concat (map (re_ends r s) is))" "ascii_span s k j" by fastforce
  then obtain i where "i \<in> set is" "k \<in> set (re_ends r s i)" by auto
  with k Cons.prems(2) show ?case by (meson ascii_span_trans list.set_intros(1))
qed (auto intro: bexI [of _ j])

lemma re_ends_span: "re_ascii r \<Longrightarrow> j \<in> set (re_ends r s i) \<Longrightarrow> ascii_span s i j"
proof (induction r arbitrary: i j)
  case (Cls P)
  then show ?case by (auto simp: ascii_span_def less_Suc_eq_le split: if_splits)
next
  case (Cat rs)
  have "\<exists>k \<in> set [i]. ascii_span s k j"
    using Cat by (intro foldl_ends_span [of rs]) (auto simp: list_all_iff)
  then show ?case by simp
next
  case (Rep r lo hi)
  then show ?case by (auto intro: rep_ends_span [of "re_ends r s"])
qed (auto split: if_splits)

lemma char_le_byte: "c \<le> d \<longleftrightarrow> byte c \<le> byte d"
  by (simp add: less_eq_char_def byte_def)

lemma class_ascii:
  "upper c \<Longrightarrow> byte c < 128" "lower c \<Longrightarrow> byte c < 128" "is_digit c \<Longrightarrow> byte c < 128" "alnum c \<Longrightarrow> byte c < 128"
  by (auto simp: upper_def lower_def alnum_def range_cls_def is_digit_def char_le_byte byte_def)

lemma lower_char_ascii: "lower_char x = c \<Longrightarrow> byte c < 128 \<Longrightarrow> byte x < 128"
  by (auto simp: lower_char_def byte_def split: if_splits)

lemma one_of_ascii: "one_of cs c \<Longrightarrow> ascii cs \<Longrightarrow> byte c < 128"
  by (auto simp: one_of_def ascii_def list_all_iff)

lemma lit_ascii: "re_ascii (lit s) \<longleftrightarrow> ascii s"
  by (simp add: lit_def ascii_def list_all_iff)

lemma lit_fold_ascii: "ascii s \<Longrightarrow> re_ascii (lit_fold s)"
  by (auto simp: lit_fold_def ascii_def list_all_iff intro: lower_char_ascii)

lemma patterns_ascii: "list_all (\<lambda>p. re_ascii (pat p) \<and> ascii (marker p)) patterns"
  unfolding patterns_def
  by (auto simp: lit_ascii lit_fold_ascii marker_def byte_def class_ascii [unfolded byte_def]
      dest: one_of_ascii)

section \<open>Redaction keeps documents well formed\<close>

lemma replace_all_unchanged:
  "snd (replace_all p s i) = False \<Longrightarrow> fst (replace_all p s i) = drop i s"
proof (induction p s i rule: replace_all.induct)
  case (1 p s i)
  show ?case
  proof (cases "length s \<le> i")
    case True
    then show ?thesis by (simp add: replace_all.simps)
  next
    case i: False
    show ?thesis
    proof (cases "filter (\<lambda>j. i < j) (re_ends (pat p) s i)")
      case Nil
      then show ?thesis using 1(1) [OF i Nil] 1(3) i
        by (subst replace_all.simps, subst (asm) (2) replace_all.simps)
          (auto simp: Cons_nth_drop_Suc split: prod.splits)
    next
      case (Cons j js)
      then have j: "i < j" using filter_Cons_mem by metis
      then have d: "take (j - i) (drop i s) @ drop j s = drop i s"
        by (metis append_take_drop_id drop_drop le_add_diff_inverse2 less_imp_le_nat)
      have e: "replace_all p s i = (let m = take (j - i) (drop i s);
                    keep = (case postCheck p of None \<Rightarrow> False | Some f \<Rightarrow> \<not> f m);
                    (t, c) = replace_all p s j
                in if keep then (m @ t, c) else (marker p @ t, True))"
        using i Cons by (subst replace_all.simps) simp
      from 1(3) have "snd (replace_all p s j) = False"
        unfolding e by (auto simp: Let_def split: if_splits prod.splits)
      then have "fst (replace_all p s j) = drop j s" using 1(2) [OF i Cons refl refl] by blast
      then show ?thesis using 1(3) d unfolding e by (auto simp: Let_def split: if_splits prod.splits)
    qed
  qed
qed

lemma replace_all_utf8:
  assumes "re_ascii (pat p)" "ascii (marker p)"
  shows "valid_utf8 (xs @ drop i s) \<Longrightarrow> valid_utf8 (xs @ fst (replace_all p s i))"
  using assms
proof (induction p s i arbitrary: xs rule: replace_all.induct)
  case (1 p s i)
  show ?case
  proof (cases "length s \<le> i")
    case True
    with 1(3) show ?thesis by (simp add: replace_all.simps)
  next
    case i: False
    show ?thesis
    proof (cases "filter (\<lambda>j. i < j) (re_ends (pat p) s i)")
      case Nil
      have "valid_utf8 ((xs @ [s ! i]) @ drop (Suc i) s)" using 1(3) i by (simp add: Cons_nth_drop_Suc)
      from 1(1) [OF i Nil this 1(4,5)] show ?thesis
        using i Nil by (subst replace_all.simps) (auto split: prod.splits)
    next
      case (Cons j js)
      let ?m = "take (j - i) (drop i s)"
      have j: "i < j" "j \<in> set (re_ends (pat p) s i)" using filter_Cons_mem [OF Cons] by blast+
      then have sp: "ascii_span s i j" using re_ends_span 1(4) by blast
      then have m: "?m \<noteq> []" "ascii ?m"
        using j(1) i by (auto simp: ascii_span_def ascii_def list_all_length)
      have d: "drop i s = ?m @ drop j s"
        using j(1) by (metis append_take_drop_id drop_drop le_add_diff_inverse2 less_imp_le_nat)
      have v: "valid_utf8 (xs @ ?m @ drop j s)" using 1(3) d by simp
      then have "valid_utf8 (xs @ marker p @ drop j s)" using valid_utf8_replace m 1(5) by blast
      then have "valid_utf8 (xs @ marker p @ fst (replace_all p s j))" "valid_utf8 (xs @ ?m @ fst (replace_all p s j))"
        using 1(2) [OF i Cons refl refl _ 1(4,5), of "xs @ marker p"] v
          1(2) [OF i Cons refl refl _ 1(4,5), of "xs @ ?m"] by simp_all
      then show ?thesis using i Cons by (subst replace_all.simps) (auto simp: Let_def split: prod.splits)
    qed
  qed
qed

lemma foldl_redact:
  assumes "list_all (\<lambda>p. re_ascii (pat p) \<and> ascii (marker p)) ps"
  shows "(valid_utf8 s \<longrightarrow> valid_utf8 (fst (foldl (\<lambda>(t, c) p. let (u, d) = replace_all p t 0 in (u, c \<or> d)) (s, c) ps))) \<and>
    (\<not> snd (foldl (\<lambda>(t, c) p. let (u, d) = replace_all p t 0 in (u, c \<or> d)) (s, c) ps) \<longrightarrow>
       \<not> c \<and> fst (foldl (\<lambda>(t, c) p. let (u, d) = replace_all p t 0 in (u, c \<or> d)) (s, c) ps) = s)"
  using assms
proof (induction ps arbitrary: s c)
  case (Cons p ps)
  obtain u d where r: "replace_all p s 0 = (u, d)" by (metis surj_pair)
  have "valid_utf8 s \<longrightarrow> valid_utf8 u"
    using replace_all_utf8 [of p "[]" 0 s] Cons.prems r by simp
  moreover have "\<not> d \<longrightarrow> u = s" using replace_all_unchanged [of p s 0] r by simp
  ultimately show ?case using Cons.IH [of u "c \<or> d"] Cons.prems r by auto
qed simp

lemma Redact_utf8: "valid_utf8 s \<Longrightarrow> valid_utf8 (fst (Redact s))"
  using foldl_redact [OF patterns_ascii, of s False] by (auto simp: Redact_def)

lemma Redact_unchanged: "\<not> snd (Redact s) \<Longrightarrow> fst (Redact s) = s"
  using foldl_redact [OF patterns_ascii, of s False] by (simp add: Redact_def split: if_splits)

lemma Redact_unchanged': "Redact s = (t, False) \<Longrightarrow> t = s"
  using Redact_unchanged [of s] by simp

lemma redactValue_unchanged:
  "\<not> snd (redactValue v) \<Longrightarrow> fst (redactValue v) = v"
  "\<not> snd (redact_items xs) \<Longrightarrow> fst (redact_items xs) = xs"
  "\<not> snd (RedactJSONMap m) \<Longrightarrow> fst (RedactJSONMap m) = m"
  by (induction v and xs and m rule: redactValue_redact_items_RedactJSONMap.induct)
    (auto simp: Let_def split: prod.splits dest: Redact_unchanged')

lemma redactValue_wf:
  "wf_json v \<Longrightarrow> wf_json (fst (redactValue v))"
  "list_all wf_json xs \<Longrightarrow> list_all wf_json (fst (redact_items xs))"
  "list_all (\<lambda>(k, v). valid_utf8 k \<and> wf_json v) m \<Longrightarrow>
     list_all (\<lambda>(k, v). valid_utf8 k \<and> wf_json v) (fst (RedactJSONMap m)) \<and> map fst (fst (RedactJSONMap m)) = map fst m"
  by (induction v and xs and m rule: redactValue_redact_items_RedactJSONMap.induct)
    (auto simp: Let_def split: prod.splits dest: Redact_utf8)

end
