(* ===== verification/Audit_Service.thy ===== *)
theory Audit_Service
  imports Audit_Repository Redaction
begin

text \<open>
  api/internal/audit/service.go over the repository interface: ingestion (\<open>Log\<close>, \<open>LogBatch\<close>,
  \<open>EnqueueBatch\<close>), verification (\<open>Verify\<close>, \<open>VerifyDeep\<close>, \<open>VerifyOne\<close>), re-anchoring and live
  subscriptions.  The repository is an argument of every operation, as the \<open>repo\<close> field of the Go
  struct is; \<open>svc\<close> holds the rest of that struct that the operations read, together with the clock
  and the source of fresh identifiers.

  The lemmas of the locale \<open>verify_repository\<close> say what the verifiers compute, for every store
  that meets the contract.
\<close>

section \<open>Service state\<close>

record svc =
  svcHash :: hash_function
  svcNow :: time
  svcRedactOn :: bool
  svcNewEventID :: "nat \<Rightarrow> string"
  svcNewReceiptID :: string

text \<open>A subscriber: its channel, buffered up to 64 events.\<close>

type_synonym channel = "nat \<times> audit_event list"

record subscriptions =
  subs :: "channel list"
  next_chan :: nat

definition channelCapacity :: nat where
  "channelCapacity = 64"

definition Subscribe :: "subscriptions \<Rightarrow> nat \<times> subscriptions" where
  "Subscribe ss = (next_chan ss, ss\<lparr>subs := subs ss @ [(next_chan ss, [])], next_chan := Suc (next_chan ss)\<rparr>)"

definition cancel :: "nat \<Rightarrow> subscriptions \<Rightarrow> subscriptions" where
  "cancel c ss =
     (case filter (\<lambda>i. fst (subs ss ! i) = c) [0..<length (subs ss)] of
        [] \<Rightarrow> ss
      | i # _ \<Rightarrow> ss\<lparr>subs := take i (subs ss) @ drop (Suc i) (subs ss)\<rparr>)"

text \<open>A non-blocking send to every channel: a full buffer drops the event.\<close>

definition fanout :: "audit_event \<Rightarrow> subscriptions \<Rightarrow> subscriptions" where
  "fanout e ss = ss\<lparr>subs := map (\<lambda>(c, buf). if length buf < channelCapacity then (c, buf @ [e]) else (c, buf)) (subs ss)\<rparr>"

definition FanoutEvents :: "audit_event list \<Rightarrow> subscriptions \<Rightarrow> subscriptions" where
  "FanoutEvents es ss = foldl (\<lambda>s e. fanout e s) ss es"

section \<open>Ingestion\<close>

definition MaxBatchSize :: nat where
  "MaxBatchSize = 1000"

definition applyDefaults :: "svc \<Rightarrow> nat \<Rightarrow> audit_event \<Rightarrow> audit_event" where
  "applyDefaults s i e0 =
     (let e1 = (if ID e0 = '''' then e0\<lparr>ID := svcNewEventID s i\<rparr> else e0);
          e2 = (if IsZero (Timestamp e1) then e1\<lparr>Timestamp := Truncate (svcNow s) Microsecond\<rparr>
                else e1\<lparr>Timestamp := Truncate (Timestamp e1) Microsecond\<rparr>)
      in if Metadata e2 = None then e2\<lparr>Metadata := Some []\<rparr> else e2)"

text \<open>Assignment to a key of a Go map.\<close>

definition map_put :: "string \<Rightarrow> json \<Rightarrow> metadata \<Rightarrow> metadata" where
  "map_put k v m = (if k \<in> fst ` set m then map (\<lambda>(l, w). (l, if l = k then v else w)) m else m @ [(k, v)])"

definition applyRedaction :: "svc \<Rightarrow> audit_event \<Rightarrow> audit_event" where
  "applyRedaction s e =
     (if \<not> svcRedactOn s then e
      else case Metadata e of
             None \<Rightarrow> e
           | Some m \<Rightarrow>
               (let (n, c) = RedactJSONMap m
                in if c then e\<lparr>Metadata := Some (map_put ''redacted'' (JBool True) n)\<rparr> else e))"

text \<open>\<open>Log\<close>: the incoming pointer may be nil (\<open>None\<close>).\<close>

definition Log :: "svc \<Rightarrow> ('d, 's) repository \<Rightarrow> string \<Rightarrow> audit_event option \<Rightarrow> 'd \<times> subscriptions \<Rightarrow>
    audit_event result \<times> 'd \<times> subscriptions" where
  "Log s repo tid inp st =
     (if tid = '''' then (Inl (InvalidInput ''tenant_id required''), st)
      else case Validate inp of
             Some err \<Rightarrow> (Inl err, st)
           | None \<Rightarrow>
               (let e = applyRedaction s (applyDefaults s 0 (the inp))
                in case rAppendChained repo (fst st) tid e of
                     (Inl err, d') \<Rightarrow> (Inl err, d', snd st)
                   | (Inr out, d') \<Rightarrow> (Inr out, d', fanout out (snd st))))"

record batch_result =
  Accepted :: nat
  Rejected :: nat
  IDs :: "string list"
  Errors :: "(nat \<times> app_error) list"

definition empty_batch :: batch_result where
  "empty_batch = \<lparr>Accepted = 0, Rejected = 0, IDs = [], Errors = []\<rparr>"

fun prepare_loop :: "svc \<Rightarrow> nat \<Rightarrow> audit_event option list \<Rightarrow> batch_result \<Rightarrow> audit_event list \<Rightarrow>
    batch_result \<times> audit_event list" where
  "prepare_loop s i [] res valid = (res, valid)"
| "prepare_loop s i (p # ps) res valid =
     (case Validate p of
        Some err \<Rightarrow>
          prepare_loop s (Suc i) ps
            (res\<lparr>Rejected := Suc (Rejected res), Errors := Errors res @ [(i, err)]\<rparr>) valid
      | None \<Rightarrow> prepare_loop s (Suc i) ps res (valid @ [applyRedaction s (applyDefaults s i (the p))]))"

definition prepareBatch :: "svc \<Rightarrow> string \<Rightarrow> audit_event option list \<Rightarrow> (batch_result \<times> audit_event list) result" where
  "prepareBatch s tid inp =
     (if tid = '''' then Inl (InvalidInput ''tenant_id required'')
      else if inp = [] then Inr (empty_batch, [])
      else if MaxBatchSize < length inp then Inl (InvalidInput ''batch exceeds maximum of 1000 events'')
      else Inr (prepare_loop s 0 inp empty_batch []))"

definition CommitBatch :: "('d, 's) repository \<Rightarrow> string \<Rightarrow> audit_event list \<Rightarrow> 'd \<Rightarrow>
    audit_event list result \<times> 'd" where
  "CommitBatch repo tid events d =
     (if events = [] then (Inr [], d) else rAppendBatchChained repo d tid events)"

definition LogBatch :: "svc \<Rightarrow> ('d, 's) repository \<Rightarrow> string \<Rightarrow> audit_event option list \<Rightarrow> 'd \<times> subscriptions \<Rightarrow>
    batch_result result \<times> 'd \<times> subscriptions" where
  "LogBatch s repo tid inp st =
     (case prepareBatch s tid inp of
        Inl err \<Rightarrow> (Inl err, st)
      | Inr (res, valid) \<Rightarrow>
          if valid = [] then (Inr res, st)
          else case CommitBatch repo tid valid (fst st) of
                 (Inl err, d') \<Rightarrow> (Inl err, d', snd st)
               | (Inr written, d') \<Rightarrow>
                   (Inr (res\<lparr>IDs := IDs res @ map ID written, Accepted := length written\<rparr>),
                    d', FanoutEvents written (snd st)))"

text \<open>The asynchronous path hands the valid events to the enqueuer, if one is configured.\<close>

record async_receipt =
  ReceiptID :: string
  Status :: string
  Batch :: batch_result

type_synonym 'q enqueuer = "'q \<Rightarrow> string \<Rightarrow> string \<Rightarrow> audit_event list \<Rightarrow> batch_result \<Rightarrow> app_error option \<times> 'q"

definition EnqueueBatch :: "svc \<Rightarrow> 'q enqueuer option \<Rightarrow> string \<Rightarrow> audit_event option list \<Rightarrow> 'q \<Rightarrow>
    async_receipt result \<times> 'q" where
  "EnqueueBatch s enq tid inp q =
     (case enq of
        None \<Rightarrow> (Inl (Internal ''async ingest not configured''), q)
      | Some enqueue \<Rightarrow>
          (case prepareBatch s tid inp of
             Inl err \<Rightarrow> (Inl err, q)
           | Inr (res0, valid) \<Rightarrow>
               (let rid = svcNewReceiptID s; res = res0\<lparr>Accepted := length valid\<rparr>
                in if valid = [] then (Inr \<lparr>ReceiptID = rid, Status = ''committed'', Batch = res\<rparr>, q)
                   else case enqueue q tid rid valid res of
                          (Some err, q') \<Rightarrow> (Inl err, q')
                        | (None, q') \<Rightarrow> (Inr \<lparr>ReceiptID = rid, Status = ''queued'', Batch = res\<rparr>, q'))))"

section \<open>Verification\<close>

definition expected_prev :: "audit_event option \<Rightarrow> string" where
  "expected_prev prev = (case prev of None \<Rightarrow> GenesisHash | Some p \<Rightarrow> Hash p)"

definition new_result :: "string \<Rightarrow> time \<Rightarrow> time \<Rightarrow> verify_result" where
  "new_result tid from to =
     \<lparr>Valid = True, VTenantID = tid, EventsChecked = 0, RootHash = '''', From = from, To = to,
      FirstBrokenEventID = '''', Reason = '''', AllBrokenEvents = [], BrokenCount = 0\<rparr>"

text \<open>The callback of \<open>Verify\<close>.\<close>

definition verify_step :: "hash_function \<Rightarrow> ('d, 's) repository \<Rightarrow> 'd \<Rightarrow> string \<Rightarrow> audit_event \<Rightarrow>
    verify_result \<Rightarrow> verify_result result" where
  "verify_step H repo d tid e res =
     (if \<not> Valid res then Inr res
      else case rPrevious repo d tid (ID e) of
             Inl err \<Rightarrow> Inl err
           | Inr prev \<Rightarrow>
               if PrevHash e \<noteq> expected_prev prev
               then Inr (res\<lparr>Valid := False, FirstBrokenEventID := ID e, Reason := ''prev_hash mismatch''\<rparr>)
               else if compute_hash H e \<noteq> Hash e
               then Inr (res\<lparr>Valid := False, FirstBrokenEventID := ID e, Reason := ''hash mismatch''\<rparr>)
               else Inr (res\<lparr>RootHash := Hash e\<rparr>))"

definition default_from :: "time \<Rightarrow> time" where
  "default_from from = (if IsZero from then historyStart else from)"

definition default_to :: "time \<Rightarrow> time" where
  "default_to to = (if IsZero to then farFuture else to)"

definition Verify :: "hash_function \<Rightarrow> ('d, verify_result) repository \<Rightarrow> 'd \<Rightarrow> string \<Rightarrow> time \<Rightarrow> time \<Rightarrow>
    verify_result result" where
  "Verify H repo d tid from0 to0 =
     (let from = default_from from0; to = default_to to0
      in case rWalk repo d tid from to (verify_step H repo d tid) (new_result tid from to) of
           Inl err \<Rightarrow> Inl err
         | Inr (res, count) \<Rightarrow> Inr (res\<lparr>EventsChecked := count\<rparr>))"

text \<open>The callback of \<open>VerifyDeep\<close>: a hash mismatch overrides a broken link as the reason.\<close>

definition deep_step :: "hash_function \<Rightarrow> ('d, 's) repository \<Rightarrow> 'd \<Rightarrow> string \<Rightarrow> audit_event \<Rightarrow>
    verify_result \<Rightarrow> verify_result result" where
  "deep_step H repo d tid e res =
     (case rPrevious repo d tid (ID e) of
        Inl err \<Rightarrow> Inl err
      | Inr prev \<Rightarrow>
          (let link = (PrevHash e \<noteq> expected_prev prev); digest = (compute_hash H e \<noteq> Hash e);
               broken = (link \<or> digest);
               reason = (if digest then ''hash mismatch'' else if link then ''prev_hash mismatch'' else '''')
           in if broken
              then Inr (res\<lparr>Valid := False, AllBrokenEvents := AllBrokenEvents res @
                     [\<lparr>BEventID = ID e, BSequenceNumber = SequenceNumber e, BTimestamp = Timestamp e,
                       BAction = Action e, BActorID = ActorID (Actor e), BReason = reason\<rparr>]\<rparr>)
              else Inr (res\<lparr>RootHash := Hash e\<rparr>)))"

definition VerifyDeep :: "hash_function \<Rightarrow> ('d, verify_result) repository \<Rightarrow> 'd \<Rightarrow> string \<Rightarrow> time \<Rightarrow> time \<Rightarrow>
    verify_result result" where
  "VerifyDeep H repo d tid from0 to0 =
     (let from = default_from from0; to = default_to to0
      in case rWalk repo d tid from to (deep_step H repo d tid) (new_result tid from to) of
           Inl err \<Rightarrow> Inl err
         | Inr (res, count) \<Rightarrow>
             (let r1 = res\<lparr>EventsChecked := count, BrokenCount := length (AllBrokenEvents res)\<rparr>
              in case AllBrokenEvents res of
                   [] \<Rightarrow> Inr r1
                 | b # _ \<Rightarrow> Inr (r1\<lparr>FirstBrokenEventID := BEventID b, Reason := BReason b\<rparr>)))"

definition VerifyOne :: "hash_function \<Rightarrow> ('d, 's) repository \<Rightarrow> 'd \<Rightarrow> string \<Rightarrow> string \<Rightarrow> verify_result result" where
  "VerifyOne H repo d tid i =
     (case rGet repo d tid i of
        Inl err \<Rightarrow> Inl err
      | Inr e \<Rightarrow>
          (let res = (new_result tid (Timestamp e) (Timestamp e))\<lparr>EventsChecked := 1, RootHash := Hash e\<rparr>
           in case rPrevious repo d tid i of
                Inl err \<Rightarrow> Inl err
              | Inr prev \<Rightarrow>
                  if PrevHash e \<noteq> expected_prev prev
                  then Inr (res\<lparr>Valid := False, FirstBrokenEventID := ID e, Reason := ''prev_hash mismatch''\<rparr>)
                  else if compute_hash H e \<noteq> Hash e
                  then Inr (res\<lparr>Valid := False, FirstBrokenEventID := ID e, Reason := ''hash mismatch''\<rparr>)
                  else Inr res))"

section \<open>Re-anchoring\<close>

definition reanchor_meta :: "string \<Rightarrow> string \<Rightarrow> int \<Rightarrow> int \<Rightarrow> audit_event" where
  "reanchor_meta first reason brokenSeq updated =
     \<lparr>ID = '''', TenantID = '''', Timestamp = 0,
      Actor = \<lparr>ActorID = ''system'', ActorTyp = ActorSystem, ActorEmail = ''''\<rparr>,
      Action = ''chain.reanchored'',
      Resource = \<lparr>ResourceID = first, ResourceType = ''audit_chain'', ResourceName = ''''\<rparr>,
      Outcome = OutcomeSuccess,
      Metadata = Some [(''reason'', JStr reason), (''first_broken_seq'', JNum (FormatInt brokenSeq)),
        (''events_reanchored'', JNum (FormatInt updated)),
        (''reanchor_system_note'',
         JStr ''Hashes recomputed forward from break point. See reason for root cause.'')],
      PrevHash = '''', Hash = '''', SequenceNumber = 0\<rparr>"

definition ReanchorChain :: "svc \<Rightarrow> ('d, 's) repository \<Rightarrow> string \<Rightarrow> string \<Rightarrow> string \<Rightarrow> 'd \<Rightarrow>
    audit_event result \<times> 'd" where
  "ReanchorChain s repo tid first reason d =
     (if tid = '''' then (Inl (InvalidInput ''tenant_id required''), d)
      else if first = '''' then (Inl (InvalidInput ''first_broken_event_id required''), d)
      else if reason = '''' then (Inl (InvalidInput ''reason required - document why the chain broke''), d)
      else case rGet repo d tid first of
             Inl err \<Rightarrow> (Inl err, d)
           | Inr broken \<Rightarrow>
      (case rPrevious repo d tid first of
         Inl err \<Rightarrow> (Inl err, d)
       | Inr prev \<Rightarrow>
      (case rReanchorFrom repo d tid (SequenceNumber broken) (expected_prev prev) of
         (Inl err, d1) \<Rightarrow> (Inl err, d1)
       | (Inr updated, d1) \<Rightarrow>
           rAppendChained repo d1 tid
             (applyDefaults s 0 (reanchor_meta first reason (SequenceNumber broken) updated)))))"

definition ReanchorAll :: "svc \<Rightarrow> ('d, verify_result) repository \<Rightarrow> string \<Rightarrow> string \<Rightarrow> 'd \<Rightarrow>
    audit_event result \<times> 'd" where
  "ReanchorAll s repo tid reason d =
     (if tid = '''' then (Inl (InvalidInput ''tenant_id required''), d)
      else if reason = '''' then (Inl (InvalidInput ''reason required''), d)
      else case Verify (svcHash s) repo d tid 0 0 of
             Inl err \<Rightarrow> (Inl err, d)
           | Inr r \<Rightarrow>
               if Valid r then (Inl (InvalidInput ''chain is already intact - nothing to re-anchor''), d)
               else ReanchorChain s repo tid (FirstBrokenEventID r) reason d)"

end
