(* ===== verification/Audit_Verify.thy ===== *)
theory Audit_Verify
  imports Audit_Service
begin

text \<open>
  What the verifiers compute, for any store that meets the repository contract.
  \<open>Verify_spec\<close>: the verdict, the first broken event and the root hash are those of a scan over the
  chain with every event paired with its true predecessor.  \<open>VerifyDeep_spec\<close>: exactly the broken
  events are reported, in chain order.  \<open>chains_agree\<close>: two intact chains with one root hash hold
  the same events, or exhibit a collision of the hash function.  \<open>ReanchorChain_ok\<close>: re-anchoring an
  otherwise intact prefix leaves an intact chain that ends in the meta-event.
\<close>

section \<open>Scans\<close>

definition link_fault :: "hash_function \<Rightarrow> string \<times> audit_event \<Rightarrow> string option" where
  "link_fault H qe =
     (if PrevHash (snd qe) \<noteq> fst qe then Some ''prev_hash mismatch''
      else if compute_hash H (snd qe) \<noteq> Hash (snd qe) then Some ''hash mismatch'' else None)"

lemma chain_ok_link_fault: "chain_ok H p es \<longleftrightarrow> (\<forall>qe \<in> set (with_prev p es). link_fault H qe = None)"
  unfolding chain_ok_with_prev by (fastforce simp: link_fault_def split: if_splits)

fun verify_scan :: "hash_function \<Rightarrow> (string \<times> audit_event) list \<Rightarrow> verify_result \<Rightarrow> verify_result" where
  "verify_scan H [] res = res"
| "verify_scan H (qe # ps) res =
     (if \<not> Valid res then res
      else case link_fault H qe of
             Some r \<Rightarrow> res\<lparr>Valid := False, FirstBrokenEventID := ID (snd qe), Reason := r\<rparr>
           | None \<Rightarrow> verify_scan H ps (res\<lparr>RootHash := Hash (snd qe)\<rparr>))"

lemma verify_scan_ok:
  "Valid res \<Longrightarrow> \<forall>qe \<in> set ps. link_fault H qe = None \<Longrightarrow>
     verify_scan H ps res = res\<lparr>RootHash := chain_tip (RootHash res) (map snd ps)\<rparr>"
proof (induction ps arbitrary: res)
  case (Cons qe ps)
  then show ?case by (cases "map snd ps") (simp_all add: chain_tip_def)
qed simp

lemma verify_scan_broken:
  "Valid res \<Longrightarrow> \<forall>qe \<in> set as. link_fault H qe = None \<Longrightarrow> link_fault H qe = Some r \<Longrightarrow>
     verify_scan H (as @ qe # bs) res =
       res\<lparr>Valid := False, RootHash := chain_tip (RootHash res) (map snd as),
           FirstBrokenEventID := ID (snd qe), Reason := r\<rparr>"
proof (induction as arbitrary: res)
  case (Cons a as)
  then show ?case by (cases "map snd as") (simp_all add: chain_tip_def)
qed simp

lemma verify_scan_not_valid: "\<not> Valid res \<Longrightarrow> verify_scan H ps res = res"
  by (cases ps) simp_all

definition deep_entry :: "hash_function \<Rightarrow> string \<times> audit_event \<Rightarrow> broken_event" where
  "deep_entry H qe =
     (let e = snd qe
      in \<lparr>BEventID = ID e, BSequenceNumber = SequenceNumber e, BTimestamp = Timestamp e, BAction = Action e,
          BActorID = ActorID (Actor e),
          BReason = (if compute_hash H e \<noteq> Hash e then ''hash mismatch'' else ''prev_hash mismatch'')\<rparr>)"

lemma filter_with_prev: "map snd (filter (\<lambda>qe. P (snd qe)) (with_prev p es)) = filter P es"
  by (induction es arbitrary: p) simp_all

section \<open>The verifiers over the contract\<close>

locale verify_repository = audit_repository repo H chain inv
  for repo :: "('d, verify_result) repository"
    and H :: hash_function
    and chain :: "'d \<Rightarrow> string \<Rightarrow> audit_event list"
    and inv :: "'d \<Rightarrow> bool"
begin

lemma verify_run:
  assumes "inv d" "set ps \<subseteq> set (with_prev GenesisHash (chain d t))"
    and "run_events (verify_step H repo d t) (map snd ps) res = Inr res'"
  shows "res' = verify_scan H ps res"
  using assms(2,3)
proof (induction ps arbitrary: res)
  case (Cons qe ps)
  obtain q e where qe: "qe = (q, e)" by (cases qe)
  show ?case
  proof (cases "Valid res")
    case False
    then have "verify_step H repo d t e res = Inr res" by (simp add: verify_step_def)
    with Cons.prems qe have "run_events (verify_step H repo d t) (map snd ps) res = Inr res'" by simp
    then have "res' = verify_scan H ps res" using Cons.IH Cons.prems(1) by simp
    with False show ?thesis by (simp add: verify_scan_not_valid)
  next
    case True
    from Cons.prems(2) qe obtain r1 where r1: "verify_step H repo d t e res = Inr r1"
      and rest: "run_events (verify_step H repo d t) (map snd ps) r1 = Inr res'"
      by (auto simp: bind_result_Inr)
    from r1 True obtain prev where p: "rPrevious repo d t (ID e) = Inr prev"
      by (auto simp: verify_step_def split: sum.splits)
    have "(q, e) \<in> set (with_prev GenesisHash (chain d t))" using Cons.prems(1) qe by simp
    then have ex: "expected_prev prev = q" using previous_expected [OF assms(1) _ p] by (simp add: expected_prev_def)
    have "res' = verify_scan H ps r1" using Cons.IH Cons.prems(1) rest by simp
    with r1 True p ex qe show ?thesis
      by (auto simp: verify_step_def link_fault_def verify_scan_not_valid split: if_splits)
  qed
qed simp

lemma deep_run:
  assumes "inv d" "set ps \<subseteq> set (with_prev GenesisHash (chain d t))"
    and "run_events (deep_step H repo d t) (map snd ps) res = Inr res'"
  shows "AllBrokenEvents res' = AllBrokenEvents res @ map (deep_entry H) (filter (\<lambda>qe. link_fault H qe \<noteq> None) ps) \<and>
    Valid res' = (Valid res \<and> (\<forall>qe \<in> set ps. link_fault H qe = None)) \<and>
    VTenantID res' = VTenantID res \<and> From res' = From res \<and> To res' = To res \<and>
    FirstBrokenEventID res' = FirstBrokenEventID res \<and> Reason res' = Reason res"
  using assms(2,3)
proof (induction ps arbitrary: res)
  case (Cons qe ps)
  obtain q e where qe: "qe = (q, e)" by (cases qe)
  from Cons.prems(2) qe obtain r1 where r1: "deep_step H repo d t e res = Inr r1"
    and rest: "run_events (deep_step H repo d t) (map snd ps) r1 = Inr res'"
    by (auto simp: bind_result_Inr)
  from r1 obtain prev where p: "rPrevious repo d t (ID e) = Inr prev"
    by (auto simp: deep_step_def split: sum.splits)
  have "(q, e) \<in> set (with_prev GenesisHash (chain d t))" using Cons.prems(1) qe by simp
  then have ex: "expected_prev prev = q" using previous_expected [OF assms(1) _ p] by (simp add: expected_prev_def)
  have "r1 = (if link_fault H qe = None then res\<lparr>RootHash := Hash e\<rparr>
      else res\<lparr>Valid := False, AllBrokenEvents := AllBrokenEvents res @ [deep_entry H qe]\<rparr>)"
    using r1 p ex qe by (simp add: deep_step_def link_fault_def deep_entry_def Let_def split: if_splits)
  with Cons.IH [of r1] Cons.prems(1) rest show ?case by (cases "link_fault H qe = None") auto
qed simp

text \<open>The events a window verification looks at, each with the hash it must point to.\<close>

abbreviation window :: "'d \<Rightarrow> string \<Rightarrow> time \<Rightarrow> time \<Rightarrow> (string \<times> audit_event) list" where
  "window d t lo hi \<equiv> filter (\<lambda>qe. in_window lo hi (snd qe)) (with_prev GenesisHash (chain d t))"

lemma Verify_scan:
  assumes "inv d" "Verify H repo d t lo hi = Inr r"
  shows "r = (verify_scan H (window d t (default_from lo) (default_to hi))
      (new_result t (default_from lo) (default_to hi)))
      \<lparr>EventsChecked := length (filter (in_window (default_from lo) (default_to hi)) (chain d t))\<rparr>"
proof -
  let ?f = "default_from lo" and ?t = "default_to hi"
  obtain res n where w: "rWalk repo d t ?f ?t (verify_step H repo d t) (new_result t ?f ?t) = Inr (res, n)"
    and r: "r = res\<lparr>EventsChecked := n\<rparr>"
    using assms(2) by (auto simp: Verify_def Let_def split: sum.splits)
  have run: "run_events (verify_step H repo d t) (map snd (window d t ?f ?t)) (new_result t ?f ?t) = Inr res"
    and n: "n = length (filter (in_window ?f ?t) (chain d t))"
    using walk_ok [OF assms(1) w] unfolding filter_with_prev by blast+
  have "res = verify_scan H (window d t ?f ?t) (new_result t ?f ?t)"
    by (rule verify_run [OF assms(1) _ run]) auto
  with r n show ?thesis by simp
qed

lemma Verify_spec:
  assumes "inv d" "Verify H repo d t lo hi = Inr r"
  defines "w \<equiv> window d t (default_from lo) (default_to hi)"
  shows "EventsChecked r = length w"
    and "Valid r \<longleftrightarrow> (\<forall>qe \<in> set w. link_fault H qe = None)"
    and "Valid r \<Longrightarrow> RootHash r = chain_tip '''' (map snd w)"
    and "\<not> Valid r \<Longrightarrow> \<exists>as qe bs. w = as @ qe # bs \<and> (\<forall>x \<in> set as. link_fault H x = None) \<and>
      link_fault H qe = Some (Reason r) \<and> FirstBrokenEventID r = ID (snd qe)"
proof -
  let ?n = "new_result t (default_from lo) (default_to hi)"
  have r: "r = (verify_scan H w ?n)\<lparr>EventsChecked := length (filter (in_window (default_from lo) (default_to hi)) (chain d t))\<rparr>"
    unfolding w_def by (rule Verify_scan [OF assms(1,2)])
  have "length (map snd w) = length (filter (in_window (default_from lo) (default_to hi)) (chain d t))"
    unfolding w_def filter_with_prev ..
  then show "EventsChecked r = length w" using r by simp
  have ok: "verify_scan H w ?n = ?n\<lparr>RootHash := chain_tip '''' (map snd w)\<rparr>" if "\<forall>qe \<in> set w. link_fault H qe = None"
    using verify_scan_ok [of ?n w H] that by (simp add: new_result_def)
  have bad: "\<exists>as qe bs x. w = as @ qe # bs \<and> (\<forall>x \<in> set as. link_fault H x = None) \<and> link_fault H qe = Some x \<and>
      \<not> Valid r \<and> FirstBrokenEventID r = ID (snd qe) \<and> Reason r = x" if nok: "\<not> (\<forall>qe \<in> set w. link_fault H qe = None)"
  proof -
    obtain as qe bs where s: "w = as @ qe # bs" "link_fault H qe \<noteq> None" "\<forall>x \<in> set as. \<not> link_fault H x \<noteq> None"
      using nok split_list_first_prop [of w "\<lambda>qe. link_fault H qe \<noteq> None"] by blast
    then obtain x where x: "link_fault H qe = Some x" by blast
    have "Valid ?n" by (simp add: new_result_def)
    then have "verify_scan H w ?n = ?n\<lparr>Valid := False, RootHash := chain_tip (RootHash ?n) (map snd as),
        FirstBrokenEventID := ID (snd qe), Reason := x\<rparr>"
      unfolding s(1) using s(3) x by (intro verify_scan_broken) auto
    then show ?thesis using s x r by (intro exI [of _ as] exI [of _ qe] exI [of _ bs]) simp
  qed
  show iff: "Valid r \<longleftrightarrow> (\<forall>qe \<in> set w. link_fault H qe = None)"
  proof (cases "\<forall>qe \<in> set w. link_fault H qe = None")
    case True
    with ok r show ?thesis by (simp add: new_result_def)
  next
    case False
    with bad show ?thesis by blast
  qed
  then show "Valid r \<Longrightarrow> RootHash r = chain_tip '''' (map snd w)" using ok r by simp
  show "\<not> Valid r \<Longrightarrow> \<exists>as qe bs. w = as @ qe # bs \<and> (\<forall>x \<in> set as. link_fault H x = None) \<and>
      link_fault H qe = Some (Reason r) \<and> FirstBrokenEventID r = ID (snd qe)"
    using bad iff by blast
qed

lemma VerifyDeep_spec:
  assumes "inv d" "VerifyDeep H repo d t lo hi = Inr r"
  defines "w \<equiv> window d t (default_from lo) (default_to hi)"
  shows "AllBrokenEvents r = map (deep_entry H) (filter (\<lambda>qe. link_fault H qe \<noteq> None) w)"
    and "Valid r \<longleftrightarrow> (\<forall>qe \<in> set w. link_fault H qe = None)"
    and "BrokenCount r = length (AllBrokenEvents r)" and "EventsChecked r = length w"
proof -
  let ?f = "default_from lo" and ?t = "default_to hi"
  obtain res n where wk: "rWalk repo d t ?f ?t (deep_step H repo d t) (new_result t ?f ?t) = Inr (res, n)"
    and r: "AllBrokenEvents r = AllBrokenEvents res" "Valid r = Valid res" "BrokenCount r = length (AllBrokenEvents res)"
      "EventsChecked r = n"
    using assms(2) by (auto simp: VerifyDeep_def Let_def split: sum.splits list.splits)
  have run: "run_events (deep_step H repo d t) (map snd w) (new_result t ?f ?t) = Inr res"
    and n: "n = length (map snd w)"
    using walk_ok [OF assms(1) wk] unfolding w_def filter_with_prev by blast+
  have "set w \<subseteq> set (with_prev GenesisHash (chain d t))" by (auto simp: w_def)
  then have "AllBrokenEvents res = map (deep_entry H) (filter (\<lambda>qe. link_fault H qe \<noteq> None) w)"
    "Valid res \<longleftrightarrow> (\<forall>qe \<in> set w. link_fault H qe = None)"
    using deep_run [OF assms(1) _ run] by (simp_all add: new_result_def)
  with r n show "AllBrokenEvents r = map (deep_entry H) (filter (\<lambda>qe. link_fault H qe \<noteq> None) w)"
    "Valid r \<longleftrightarrow> (\<forall>qe \<in> set w. link_fault H qe = None)"
    "BrokenCount r = length (AllBrokenEvents r)" "EventsChecked r = length w" by simp_all
qed

text \<open>A verification whose window covers the whole chain decides the chain recipe.\<close>

lemma Verify_full:
  assumes "inv d" "Verify H repo d t lo hi = Inr r"
    and "\<forall>e \<in> set (chain d t). in_window (default_from lo) (default_to hi) e"
  shows "Valid r \<longleftrightarrow> chain_ok H GenesisHash (chain d t)" "Valid r \<Longrightarrow> RootHash r = chain_tip '''' (chain d t)"
proof -
  have "\<forall>qe \<in> set (with_prev GenesisHash (chain d t)). in_window (default_from lo) (default_to hi) (snd qe)"
    using assms(3) by (metis image_eqI list.set_map map_snd_with_prev)
  then have w: "window d t (default_from lo) (default_to hi) = with_prev GenesisHash (chain d t)"
    by (rule filter_all)
  show "Valid r \<longleftrightarrow> chain_ok H GenesisHash (chain d t)" "Valid r \<Longrightarrow> RootHash r = chain_tip '''' (chain d t)"
    using Verify_spec(2,3) [OF assms(1,2)] unfolding w chain_ok_link_fault by simp_all
qed

lemma VerifyOne_spec:
  assumes "inv d" "VerifyOne H repo d t i = Inr r"
  shows "\<exists>q e. (q, e) \<in> set (with_prev GenesisHash (chain d t)) \<and> ID e = i \<and> RootHash r = Hash e \<and>
    (Valid r \<longleftrightarrow> link_fault H (q, e) = None) \<and> (\<not> Valid r \<longrightarrow> link_fault H (q, e) = Some (Reason r))"
proof -
  obtain e prev where g: "rGet repo d t i = Inr e" and p: "rPrevious repo d t i = Inr prev"
    using assms(2) by (auto simp: VerifyOne_def Let_def split: sum.splits)
  have e: "e \<in> set (chain d t)" "ID e = i" using get_ok [OF assms(1) g] by blast+
  then have "e \<in> snd ` set (with_prev GenesisHash (chain d t))"
    unfolding set_map [symmetric] map_snd_with_prev by blast
  then obtain q where q: "(q, e) \<in> set (with_prev GenesisHash (chain d t))" by auto
  have ex: "expected_prev prev = q"
    using previous_expected [OF assms(1) q] p e(2) by (simp add: expected_prev_def)
  define res where "res = (new_result t (Timestamp e) (Timestamp e))\<lparr>EventsChecked := 1, RootHash := Hash e\<rparr>"
  have n: "Valid res" "RootHash res = Hash e" by (simp_all add: res_def new_result_def)
  have "(Inr r :: verify_result result) = (if PrevHash e \<noteq> q
      then Inr (res\<lparr>Valid := False, FirstBrokenEventID := ID e, Reason := ''prev_hash mismatch''\<rparr>)
      else if compute_hash H e \<noteq> Hash e
      then Inr (res\<lparr>Valid := False, FirstBrokenEventID := ID e, Reason := ''hash mismatch''\<rparr>) else Inr res)"
    unfolding assms(2) [symmetric] VerifyOne_def g sum.case Let_def p ex res_def by (rule refl)
  then have "RootHash r = Hash e \<and> (Valid r \<longleftrightarrow> link_fault H (q, e) = None) \<and>
      (\<not> Valid r \<longrightarrow> link_fault H (q, e) = Some (Reason r))"
    using n by (cases "PrevHash e = q"; cases "compute_hash H e = Hash e") (simp_all add: link_fault_def)
  with q e(2) show ?thesis by (intro exI [of _ q] exI [of _ e]) simp
qed

end

section \<open>Tamper evidence\<close>

lemma compute_hash_not_genesis: "compute_hash H e \<noteq> GenesisHash"
  by (auto simp: ComputeHash_def HashPrefix_def GenesisHash_def split: option.splits)

lemma chains_agree:
  assumes "chain_ok H GenesisHash xs" "chain_ok H GenesisHash ys"
    and "chain_tip GenesisHash xs = chain_tip GenesisHash ys"
    and "\<forall>e \<in> set xs \<union> set ys. event_ok e \<and> Hash e \<noteq> ''''"
  shows "map event_content xs = map event_content ys \<or>
    (\<exists>e \<in> set xs. \<exists>f \<in> set ys. hash_collision H e f)"
  using assms
proof (induction xs arbitrary: ys rule: rev_induct)
  case Nil
  show ?case
  proof (cases ys rule: rev_cases)
    case (snoc zs f)
    with Nil.prems have "Hash f = GenesisHash" "Hash f = compute_hash H f" by auto
    then show ?thesis using compute_hash_not_genesis [of H f] by simp
  qed simp
next
  case (snoc e xs)
  show ?case
  proof (cases ys rule: rev_cases)
    case Nil
    with snoc.prems have "Hash e = GenesisHash" "Hash e = compute_hash H e" by auto
    then show ?thesis using compute_hash_not_genesis [of H e] by simp
  next
    case ys: (snoc zs f)
    have e: "Hash e = compute_hash H e" "PrevHash e = chain_tip GenesisHash xs" "chain_ok H GenesisHash xs"
      and f: "Hash f = compute_hash H f" "PrevHash f = chain_tip GenesisHash zs" "chain_ok H GenesisHash zs"
      and ef: "Hash e = Hash f" and ok: "event_ok e" "event_ok f" "Hash e \<noteq> ''''"
      using snoc.prems ys by simp_all
    consider "event_content e = event_content f" | "hash_collision H e f"
      using compute_hash_eq [OF ok(1,2), of H] e(1) f(1) ef ok(3) by metis
    then show ?thesis
    proof cases
      case 1
      then have "chain_tip GenesisHash xs = chain_tip GenesisHash zs"
        using e(2) f(2) by (simp add: event_content_def)
      then have "map event_content xs = map event_content zs \<or>
          (\<exists>e \<in> set xs. \<exists>f \<in> set zs. hash_collision H e f)"
        using snoc.prems(4) ys by (intro snoc.IH e f) auto
      with 1 ys show ?thesis by auto
    next
      case 2
      with ys show ?thesis by auto
    qed
  qed
qed

section \<open>Ingestion\<close>

lemma applyDefaults_fields:
  "Timestamp (applyDefaults s i e) = Truncate (if IsZero (Timestamp e) then svcNow s else Timestamp e) Microsecond"
  "Metadata (applyDefaults s i e) = Some (case Metadata e of None \<Rightarrow> [] | Some m \<Rightarrow> m)"
  "ID (applyDefaults s i e) = (if ID e = '''' then svcNewEventID s i else ID e)"
  "Actor (applyDefaults s i e) = Actor e" "Action (applyDefaults s i e) = Action e"
  "Resource (applyDefaults s i e) = Resource e" "Outcome (applyDefaults s i e) = Outcome e"
  by (auto simp: applyDefaults_def Let_def split: option.splits)

lemma map_put_wf:
  assumes "wf_json (JObj m)" "valid_utf8 k" "wf_json v"
  shows "wf_json (JObj (map_put k v m))"
proof (cases "k \<in> fst ` set m")
  case True
  have "map fst (map (\<lambda>(l, w). (l, if l = k then v else w)) m) = map fst m" by (induction m) auto
  with True assms show ?thesis by (auto simp: map_put_def list_all_iff simp del: map_map)
next
  case False
  with assms show ?thesis by (auto simp: map_put_def list_all_iff)
qed

lemma map_put_lookup: "map_of (map_put k v m) k = Some v" "l \<noteq> k \<Longrightarrow> map_of (map_put k v m) l = map_of m l"
proof -
  have a: "k \<in> fst ` set m \<Longrightarrow> map_of (map (\<lambda>(l, w). (l, if l = k then v else w)) m) k = Some v"
    and b: "l \<noteq> k \<Longrightarrow> map_of (map (\<lambda>(l, w). (l, if l = k then v else w)) m) l = map_of m l"
    by (induction m) auto
  show "map_of (map_put k v m) k = Some v"
    using a by (auto simp: map_put_def map_add_Some_iff map_of_eq_None_iff)
  show "l \<noteq> k \<Longrightarrow> map_of (map_put k v m) l = map_of m l"
    using b by (auto simp: map_put_def map_add_def split: option.splits)
qed

text \<open>Events as the transport decodes them: the metadata is a well-formed JSON object.\<close>

definition decoded :: "audit_event \<Rightarrow> bool" where
  "decoded e = wf_json (JObj (case Metadata e of None \<Rightarrow> [] | Some m \<Rightarrow> m))"

definition clock_ok :: "svc \<Rightarrow> bool" where
  "clock_ok s = (historyStart \<le> svcNow s \<and> svcNow s \<le> farFuture)"

definition prepared :: "svc \<Rightarrow> nat \<Rightarrow> audit_event \<Rightarrow> audit_event" where
  "prepared s i e = applyRedaction s (applyDefaults s i e)"

lemma Validate_None:
  "Validate (Some e) = None \<longleftrightarrow>
     (IsZero (Timestamp e) \<or> historyStart \<le> Timestamp e) \<and> Timestamp e \<le> farFuture \<and>
     ActorID (Actor e) \<noteq> '''' \<and> ActorType_IsValid (ActorTyp (Actor e)) \<and> Action e \<noteq> '''' \<and>
     ResourceID (Resource e) \<noteq> '''' \<and> ResourceType (Resource e) \<noteq> '''' \<and> Outcome_IsValid (Outcome e)"
  by (auto simp: Validate_def not_less)

lemma history_mult: "Truncate historyStart Microsecond = historyStart"
  by (simp add: Truncate_def historyStart_def unix_epoch_def Second_def Microsecond_def)

lemma prepared_time:
  assumes "Validate (Some e) = None" "clock_ok s"
  shows "historyStart \<le> Timestamp (prepared s i e)" "Timestamp (prepared s i e) \<le> farFuture"
proof -
  let ?t = "if IsZero (Timestamp e) then svcNow s else Timestamp e"
  have t: "Timestamp (prepared s i e) = Truncate ?t Microsecond"
    by (auto simp: prepared_def applyRedaction_def applyDefaults_fields split: option.splits prod.splits)
  have r: "historyStart \<le> ?t" "?t \<le> farFuture" using assms by (auto simp: Validate_None clock_ok_def)
  show "historyStart \<le> Timestamp (prepared s i e)"
    using Truncate_mono [of Microsecond historyStart ?t] r(1) unfolding t history_mult by (simp add: Microsecond_def)
  show "Timestamp (prepared s i e) \<le> farFuture"
    using Truncate_le [of Microsecond ?t] r(2) unfolding t by (simp add: Microsecond_def)
qed

lemma prepared_input_ok:
  assumes "Validate (Some e) = None" "clock_ok s" "decoded e"
  shows "input_ok (prepared s i e)"
proof -
  have "0 \<le> historyStart" by (simp add: historyStart_def unix_epoch_def Second_def)
  moreover have "wf_json (JObj (case Metadata (prepared s i e) of None \<Rightarrow> [] | Some m \<Rightarrow> m))"
  proof -
    let ?m = "case Metadata e of None \<Rightarrow> [] | Some m \<Rightarrow> m"
    have wf: "wf_json (JObj ?m)" using assms(3) by (simp add: decoded_def)
    then have "wf_json (JObj (fst (RedactJSONMap ?m)))"
      using redactValue_wf(3) [of ?m] by simp
    then have "wf_json (JObj (map_put ''redacted'' (JBool True) (fst (RedactJSONMap ?m))))"
      by (rule map_put_wf) (simp_all add: ascii_utf8 byte_def)
    with wf show ?thesis
      by (auto simp: prepared_def applyRedaction_def applyDefaults_fields split: prod.splits option.splits
          simp del: wf_json.simps)
  qed
  ultimately show ?thesis
    using prepared_time [OF assms(1,2), of i] by (simp add: input_ok_def farFuture_def)
qed

text \<open>The loop of \<open>prepareBatch\<close>: the valid events in order, the others reported by their index.\<close>

lemma prepare_loop_spec:
  "prepare_loop s i ps res valid = (res', valid') \<Longrightarrow>
     valid' = valid @ map (\<lambda>(j, p). prepared s j (the p)) (filter (\<lambda>(j, p). Validate p = None) (enumerate i ps)) \<and>
     Errors res' = Errors res @ map (\<lambda>(j, p). (j, the (Validate p))) (filter (\<lambda>(j, p). Validate p \<noteq> None) (enumerate i ps)) \<and>
     Rejected res' = Rejected res + length (filter (\<lambda>p. Validate p \<noteq> None) ps) \<and>
     Accepted res' = Accepted res \<and> IDs res' = IDs res"
proof (induction s i ps res valid rule: prepare_loop.induct)
  case (2 s i p ps res valid)
  show ?case
  proof (cases "Validate p")
    case None
    with 2 show ?thesis by (simp add: prepared_def)
  next
    case (Some err)
    with 2 show ?thesis by simp
  qed
qed simp

lemma prepare_loop_counts:
  "prepare_loop s i ps res valid = (res', valid') \<Longrightarrow>
     Rejected res' + length valid' = Rejected res + length valid + length ps"
  by (induction s i ps res valid rule: prepare_loop.induct) (auto split: option.splits)

section \<open>Re-anchoring\<close>

lemma reanchor_meta_input_ok:
  assumes "valid_utf8 reason" "clock_ok s"
  shows "input_ok (applyDefaults s i (reanchor_meta first reason b u))"
proof -
  have t: "IsZero (Timestamp (reanchor_meta first reason b u))" by (simp add: reanchor_meta_def IsZero_def)
  have "historyStart \<le> Truncate (svcNow s) Microsecond" "Truncate (svcNow s) Microsecond \<le> farFuture"
    using assms(2) Truncate_mono [of Microsecond historyStart "svcNow s"] Truncate_le [of Microsecond "svcNow s"]
    unfolding history_mult by (simp_all add: clock_ok_def Microsecond_def)
  moreover have "0 \<le> historyStart" by (simp add: historyStart_def unix_epoch_def Second_def)
  moreover have "wf_json (JObj (case Metadata (reanchor_meta first reason b u) of None \<Rightarrow> [] | Some m \<Rightarrow> m))"
    using assms(1) by (simp add: reanchor_meta_def ascii_utf8 byte_def)
  ultimately show ?thesis
    using t unfolding input_ok_def applyDefaults_fields by (simp add: farFuture_def)
qed

context verify_repository
begin

lemma ReanchorChain_ok:
  assumes "inv d" "ReanchorChain s repo t first reason d = (Inr out, d')"
    and "clock_ok s" "valid_utf8 reason"
  shows "\<exists>xs e ys rs. chain d t = xs @ e # ys \<and> ID e = first \<and> inv d' \<and>
    chain d' t = xs @ relink H (chain_tip GenesisHash xs) (e # ys) @ rs \<and>
    (chain_ok H GenesisHash xs \<longrightarrow> chain_ok H GenesisHash (chain d' t)) \<and>
    (\<forall>t'. t' \<noteq> t \<longrightarrow> chain d' t' = chain d t')"
proof -
  obtain e prev u d1 where g: "rGet repo d t first = Inr e" and p: "rPrevious repo d t first = Inr prev"
    and r: "rReanchorFrom repo d t (SequenceNumber e) (expected_prev prev) = (Inr u, d1)"
    and a: "rAppendChained repo d1 t (applyDefaults s 0 (reanchor_meta first reason (SequenceNumber e) u)) = (Inr out, d')"
    using assms(2) by (auto simp: ReanchorChain_def split: if_splits sum.splits prod.splits)
  obtain xs e' ys where c: "chain d t = xs @ e' # ys" "ID e' = first" "prev = (if xs = [] then None else Some (last xs))"
    using previous_ok [OF assms(1) p] by blast
  have "e \<in> set (chain d t)" "ID e = first" using get_ok [OF assms(1) g] by blast+
  then obtain us vs where "chain d t = us @ e # vs" by (meson split_list)
  then have e: "e' = e" using chain_split_unique [OF assms(1) c(1)] c(2) \<open>ID e = first\<close> by simp
  have tip: "expected_prev prev = chain_tip GenesisHash xs"
    using c(3) by (simp add: expected_prev_def chain_tip_def)
  have so: "sorted_wrt (<) (map SequenceNumber (xs @ e # ys))" using chain_order [OF assms(1), of t] c(1) e by simp
  then have f: "filter (\<lambda>x. SequenceNumber x < SequenceNumber e) (chain d t) = xs"
      "filter (\<lambda>x. SequenceNumber e \<le> SequenceNumber x) (chain d t) = e # ys"
    unfolding c(1) e by (rule strict_sorted_filter_less)+
  have "chain_tip GenesisHash xs = GenesisHash \<or> chain_tip GenesisHash xs \<in> Hash ` set (chain d t)"
    using c(1) by (cases xs rule: rev_cases) (auto simp: chain_tip_def)
  note ro = reanchor_ok [OF assms(1) this r [unfolded tip], unfolded f]
  then have d1: "inv d1" "chain d1 t = xs @ relink H (chain_tip GenesisHash xs) (e # ys)"
      "\<forall>t'. t' \<noteq> t \<longrightarrow> chain d1 t' = chain d t'"
    by blast+
  obtain ev where ev: "input_ok ev" and b: "rAppendBatchChained repo d1 t [ev] = (Inr [out], d')"
    using append_is_batch [OF a] reanchor_meta_input_ok [OF assms(4,3)] by blast
  obtain rs where rs: "inv d'" "chain d' t = chain d1 t @ rs" "chain_ok H (chain_tip GenesisHash (chain d1 t)) rs"
      "\<forall>t'. t' \<noteq> t \<longrightarrow> chain d' t' = chain d1 t'"
    using append_batch_ok [OF d1(1) _ b] ev by auto
  have "chain_ok H GenesisHash xs \<longrightarrow> chain_ok H GenesisHash (chain d1 t)"
    unfolding d1(2) chain_ok_append using chain_ok_relink by blast
  then have "chain_ok H GenesisHash xs \<longrightarrow> chain_ok H GenesisHash (chain d' t)"
    using rs(3) unfolding rs(2) chain_ok_append by blast
  moreover have "chain d' t = xs @ relink H (chain_tip GenesisHash xs) (e # ys) @ rs" using rs(2) d1(2) by simp
  moreover have "chain d t = xs @ e # ys" using c(1) e by simp
  moreover have "\<forall>t'. t' \<noteq> t \<longrightarrow> chain d' t' = chain d t'" using rs(4) d1(3) by simp
  ultimately show ?thesis using rs(1) \<open>ID e = first\<close>
    by (intro exI [of _ xs] exI [of _ e] exI [of _ ys] exI [of _ rs] conjI)
qed

end

section \<open>Subscriptions\<close>

lemma fanout_bounded:
  "\<forall>(c, buf) \<in> set (subs ss). length buf \<le> channelCapacity \<Longrightarrow>
     \<forall>(c, buf) \<in> set (subs (fanout e ss)). length buf \<le> channelCapacity"
  by (auto simp: fanout_def split: if_splits)

text \<open>What one channel receives of a run of events: those that fit, in order.\<close>

lemma FanoutEvents_channel:
  "subs (FanoutEvents es ss) = map (\<lambda>(c, buf). (c, buf @ take (channelCapacity - length buf) es)) (subs ss)"
proof (induction es arbitrary: ss)
  case (Cons e es)
  have "subs (FanoutEvents (e # es) ss) = subs (FanoutEvents es (fanout e ss))" by (simp add: FanoutEvents_def)
  also have "\<dots> = map (\<lambda>(c, buf). (c, buf @ take (channelCapacity - length buf) (e # es))) (subs ss)"
    unfolding Cons.IH by (auto simp: fanout_def take_Cons' split: if_splits)
  finally show ?case .
qed (simp add: FanoutEvents_def case_prod_beta)

end
