(* ===== verification/Samples.thy ===== *)
theory Samples
  imports Audit_Chain
begin

text \<open>
  A small installation on which the properties are tried: an environment with a toy hash function and
  a \<open>jsonb\<close> that takes plain decimals, a database with one tenant, and events for it.
\<close>

section \<open>A sample installation\<close>

definition sample_env :: env where
  "sample_env = \<lparr>sha256 = (\<lambda>b. take 2 (rev b)), jsonb = (\<lambda>m. if plain_numbers (JObj m) then Some m else None),
     now = unix_epoch, fault = (\<lambda>site i. False)\<rparr>"

definition sample_tenant :: tenant_row where
  "sample_tenant = \<lparr>TID = ''t'', TName = ''T'', TCreatedAt = unix_epoch, TDeletedAt = None, TPlanID = ''free'',
     TPeriodEnd = None, TSubStatus = None, TAlertWebhookURL = [], TAlertEmail = [], TQuotaAlertMonth = [], TQuotaAlertLevel = 0\<rparr>"

definition sample_db :: pgdb where
  "sample_db = \<lparr>audit_rows = [], audit_seq = 0, tenant_rows = [sample_tenant], identity_rows = [],
     key_rows = [], webhook_rows = [], plan_rows = [], append_only = False\<rparr>"

definition sample_input :: audit_event where
  "sample_input =
     \<lparr>ID = ''e1'', TenantID = [], Timestamp = unix_epoch, Actor = \<lparr>ActorID = ''u'', ActorTyp = ''human'', ActorEmail = []\<rparr>,
      Action = ''a'', Resource = \<lparr>ResourceID = ''r'', ResourceType = ''d'', ResourceName = []\<rparr>,
      Outcome = ''success'', Metadata = Some [(''k'', JNum ''10'')], PrevHash = [], Hash = [], SequenceNumber = 0\<rparr>"

lemma sample_jsonb: "jsonb_ok (jsonb sample_env)"
  by (auto simp: jsonb_ok_def sample_env_def split: if_splits)

lemma sample_wf: "wf_db sample_db"
  by (simp add: wf_db_def wf_rows_def sample_db_def)

lemma sample_input_ok: "input_ok sample_input"
  unfolding input_ok_def by (intro conjI; code_simp)

text \<open>The same event at the start of the calendar, which the kernel formats quickly.\<close>

definition small_input :: audit_event where
  "small_input = sample_input\<lparr>Timestamp := 1000\<rparr>"

lemma small_input_ok: "input_ok small_input"
  unfolding input_ok_def by (intro conjI; code_simp)

definition small_row :: audit_event where
  "small_row = small_input\<lparr>TenantID := ''t'', PrevHash := GenesisHash, Hash := ''sha256:v2:7d22'', SequenceNumber := 1\<rparr>"

definition small_db :: pgdb where
  "small_db = sample_db\<lparr>audit_rows := [small_row], audit_seq := 1\<rparr>"

lemma sample_append:
  "AppendBatchChained sample_env sample_db ''t'' [small_input] = (Inr [small_row], small_db)"
  by code_simp

lemma sample_append_again:
  "AppendBatchChained sample_env small_db ''t'' [small_input] = (Inr [small_row], small_db)"
  by code_simp

text \<open>A database that answers every statement.\<close>

definition healthy :: "env \<Rightarrow> bool" where
  "healthy v = (\<forall>site i. \<not> fault v site i)"

lemma sample_healthy: "healthy sample_env"
  by (simp add: healthy_def sample_env_def)

end
