(* ===== verification/Audit_Properties.thy ===== *)
theory Audit_Properties
  imports Audit_Repo_Pg Audit_Verify Samples
begin

text \<open>
  The audit log as a whole: the service of Audit_Service running on the PostgreSQL store of
  Audit_Store.  The contract of the repository is discharged by the interpretations \<open>pg\<close> and
  \<open>pgv\<close>; the properties are their facts, written out over the definitions of the model.
\<close>

interpretation pgv: verify_repository "pg_repository v" "sha256 v" chain_rows "pg_inv v" for v
  by unfold_locales

section \<open>Completion\<close>

lemma pg_selectors [simp]:
  "rWalk (pg_repository v) = Walk v" "rPrevious (pg_repository v) = Previous v" "rGet (pg_repository v) = Get v"
  "rAppendBatchChained (pg_repository v) = AppendBatchChained v" "rAppendChained (pg_repository v) = AppendChained v"
  "rReanchorFrom (pg_repository v) = ReanchorFrom v"
  by (simp_all add: pg_repository_def)

lemma run_events_total:
  "\<forall>e \<in> set es. \<forall>st. \<exists>st'. fn e st = Inr st' \<Longrightarrow> \<exists>st'. run_events fn es st = Inr st'"
proof (induction es arbitrary: st)
  case (Cons e es)
  then obtain st1 where "fn e st = Inr st1" by (meson list.set_intros(1))
  with Cons show ?case by simp
qed simp

lemma walk_pages_total:
  assumes "healthy v" "\<forall>e \<in> set rs. \<forall>st. \<exists>st'. fn e st = Inr st'"
  shows "\<exists>st' n. walk_pages v rs fn page s count st = Inr (st', n)"
  using assms
proof (induction v rs fn page s count st rule: walk_pages.induct)
  case (1 v rs fn page s count st)
  let ?chunk = "take walkPageSize (filter (\<lambda>r. s < SequenceNumber r) rs)"
  have "\<forall>e \<in> set ?chunk. \<forall>st. \<exists>st'. fn e st = Inr st'" 
  proof
    fix e
    assume "e \<in> set ?chunk"
    then have "e \<in> set rs" by (blast dest: in_set_takeD filter_is_subset [THEN subsetD])
    then show "\<forall>st. \<exists>st'. fn e st = Inr st'" by (rule bspec [OF 1(3)])
  qed
  from run_events_total [OF this, of st] obtain st1 where st1: "run_events fn ?chunk st = Inr st1" by (elim exE)
  have nf: "\<not> fault v ''walking audit events chunk'' page" using 1(2) by (simp add: healthy_def)
  show ?case
  proof (cases "length ?chunk < walkPageSize")
    case True
    then have "walk_pages v rs fn page s count st = Inr (st1, count + length ?chunk)"
      by (subst walk_pages.simps) (simp only: Let_def nf st1 sum.case if_True if_False)
    then show ?thesis by (intro exI)
  next
    case False
    obtain st' n where
        "walk_pages v rs fn (Suc page) (SequenceNumber (last ?chunk)) (count + length ?chunk) st1 = Inr (st', n)"
      using 1(1) [OF refl refl nf st1 False 1(2,3)] by (elim exE)
    then have "walk_pages v rs fn page s count st = Inr (st', n)"
      by (subst walk_pages.simps) (simp only: Let_def nf st1 sum.case False if_False)
    then show ?thesis by (intro exI)
  qed
qed

lemma Previous_total:
  assumes "healthy v" "e \<in> set (chain_rows db tid)"
  shows "\<exists>p. Previous v db tid (ID e) = Inr p"
proof -
  have "e \<in> set (filter (\<lambda>r. TenantID r = tid \<and> ID r = ID e) (audit_rows db))"
    using assms(2) by (simp add: chain_rows_set)
  then obtain x xs where "filter (\<lambda>r. TenantID r = tid \<and> ID r = ID e) (audit_rows db) = x # xs"
    by (cases "filter (\<lambda>r. TenantID r = tid \<and> ID r = ID e) (audit_rows db)") auto
  then show ?thesis using assms(1) by (simp add: Previous_def healthy_def split: list.splits)
qed

lemma Walk_total:
  assumes "healthy v" "\<forall>e \<in> set (chain_rows db tid). \<forall>st. \<exists>st'. fn e st = Inr st'"
  shows "\<exists>st' n. Walk v db tid lo hi fn st = Inr (st', n)"
  unfolding Walk_def using assms by (intro walk_pages_total) (auto simp: window_rows_def)

lemma verify_total:
  assumes "healthy v"
  shows "(\<exists>r. Verify H (pg_repository v) db tid lo hi = Inr r) \<and> (\<exists>r. VerifyDeep H (pg_repository v) db tid lo hi = Inr r)"
proof -
  let ?R = "pg_repository v :: (pgdb, verify_result) repository"
  have step: "\<exists>st'. verify_step H ?R db tid e st = Inr st'"
      "\<exists>st'. deep_step H ?R db tid e st = Inr st'"
    if e: "e \<in> set (chain_rows db tid)" for e and st :: verify_result
    using Previous_total [OF assms e] by (auto simp: verify_step_def deep_step_def Let_def)
  let ?st = "new_result tid (default_from lo) (default_to hi)"
  obtain a m b n where
      "Walk v db tid (default_from lo) (default_to hi) (verify_step H ?R db tid) ?st = Inr (a, m)"
      "Walk v db tid (default_from lo) (default_to hi) (deep_step H ?R db tid) ?st = Inr (b, n)"
    using Walk_total [OF assms, of db tid] step by meson
  then show ?thesis by (simp add: Verify_def VerifyDeep_def Let_def split: list.split)
qed

lemmas verify_returns = verify_total [THEN conjunct1]
lemmas verify_deep_returns = verify_total [THEN conjunct2]

text \<open>
  C7.  Verification terminates with a verdict: whatever the stored rows and the window, when the
  database answers every statement \<open>Verify\<close> and \<open>VerifyDeep\<close> return a result, never an error.
\<close>

theorem Verify_completes:
  assumes "healthy v"
  shows "(\<exists>r. Verify H (pg_repository v) db tid lo hi = Inr r) \<and> (\<exists>r. VerifyDeep H (pg_repository v) db tid lo hi = Inr r)"
  by (rule verify_total [OF assms])

theorem Verify_completes_witness:
  "\<exists>r. Verify (sha256 sample_env) (pg_repository sample_env) small_db ''t'' 0 0 = Inr r"
  using Verify_completes [OF sample_healthy] by blast

section \<open>The chain under appends\<close>

text \<open>
  C2.  Every outcome of \<open>AppendBatchChained\<close> - committed, rejected or failed at any statement -
  keeps the table constraints and keeps every tenant's hash chain intact: a chain that satisfied the
  recipe before the call satisfies it afterwards.
\<close>

theorem append_preserves_chains:
  assumes "AppendBatchChained v db tid es = (r, db')"
    and "wf_db db" "jsonb_ok (jsonb v)" "\<forall>e \<in> set es. input_ok e"
  shows "wf_db db' \<and> (\<forall>t. chain_ok (sha256 v) GenesisHash (chain_rows db t) \<longrightarrow>
                            chain_ok (sha256 v) GenesisHash (chain_rows db' t))"
  using append_keeps [OF assms] by (simp add: chained_def)

theorem append_preserves_chains_witness:
  "chain_ok (sha256 sample_env) GenesisHash
     (chain_rows (snd (AppendBatchChained sample_env sample_db ''t'' [sample_input])) ''t'')"
proof -
  have "chain_ok (sha256 sample_env) GenesisHash (chain_rows sample_db ''t'')"
    by (simp add: chain_rows_def sample_db_def)
  moreover have "\<forall>e \<in> set [sample_input]. input_ok e" using sample_input_ok by simp
  ultimately show ?thesis
    using append_preserves_chains [OF prod.collapse [symmetric] sample_wf sample_jsonb] by blast
qed

text \<open>
  C3.  A committed batch is exactly the new end of the tenant's chain: the stored rows are the old
  rows followed by new ones, one for every identifier of the batch that the tenant did not have; the
  new rows continue the chain from the old head; the other tenants' chains are unchanged.
\<close>

theorem append_extends_chain:
  assumes "AppendBatchChained v db tid es = (Inr out, db')"
    and "wf_db db" "jsonb_ok (jsonb v)" "\<forall>e \<in> set es. input_ok e"
  shows "\<exists>rs. audit_rows db' = audit_rows db @ rs \<and> chain_rows db' tid = chain_rows db tid @ rs \<and>
    chain_ok (sha256 v) (chain_tip GenesisHash (chain_rows db tid)) rs \<and>
    ID ` set rs = ID ` set es - ID ` set (chain_rows db tid) \<and>
    (\<forall>t. t \<noteq> tid \<longrightarrow> chain_rows db' t = chain_rows db t)"
proof -
  obtain rs where a: "appended v tid es db db' rs" using append_ok [OF assms] by blast
  show ?thesis
    using a [unfolded appended_def] appended_ids(1) [OF a] by blast
qed

theorem append_extends_chain_witness:
  "ID ` set (chain_rows (snd (AppendBatchChained sample_env sample_db ''t'' [small_input])) ''t'') = {''e1''}"
proof -
  have "\<forall>e \<in> set [small_input]. input_ok e" using small_input_ok by simp
  from append_extends_chain [OF sample_append sample_wf sample_jsonb this] obtain rs where
      "chain_rows small_db ''t'' = chain_rows sample_db ''t'' @ rs"
      "ID ` set rs = ID ` set [small_input] - ID ` set (chain_rows sample_db ''t'')" by blast
  moreover have "chain_rows sample_db ''t'' = []" by (simp add: chain_rows_def sample_db_def)
  moreover have "ID small_input = ''e1''" by (simp add: small_input_def sample_input_def)
  ultimately show ?thesis by (simp add: sample_append)
qed

text \<open>
  C4.  Retrying a batch is idempotent: when the same events are appended again after a committed
  append, no row is added or changed.
\<close>

theorem append_retry_idempotent:
  assumes "AppendBatchChained v db tid es = (Inr out, db')" "AppendBatchChained v' db' tid es = (Inr out', db'')"
    and "wf_db db" "jsonb_ok (jsonb v)" "jsonb_ok (jsonb v')" "\<forall>e \<in> set es. input_ok e"
  shows "audit_rows db'' = audit_rows db'"
proof -
  obtain rs where a: "appended v tid es db db' rs" using append_ok [OF assms(1,3,4,6)] by blast
  have "wf_db db'" using a unfolding appended_def by - (elim conjE, assumption)
  then obtain rs' where b: "appended v' tid es db' db'' rs'" using append_ok [OF assms(2) _ assms(5,6)] by blast
  have "ID ` set rs' = {}" unfolding appended_ids(1) [OF b] Diff_eq_empty_iff by (rule appended_ids(2) [OF a])
  then have "rs' = []" by simp
  moreover have "audit_rows db'' = audit_rows db' @ rs'" by (rule b [unfolded appended_def, THEN conjunct1])
  ultimately show ?thesis by simp
qed

theorem append_retry_idempotent_witness:
  "let db = snd (AppendBatchChained sample_env sample_db ''t'' [small_input]);
       db' = snd (AppendBatchChained sample_env db ''t'' [small_input])
   in audit_rows db' = audit_rows db \<and> length (audit_rows db) = 1"
proof -
  have "\<forall>e \<in> set [small_input]. input_ok e" using small_input_ok by simp
  from append_retry_idempotent [OF sample_append sample_append_again sample_wf sample_jsonb sample_jsonb this]
  show ?thesis by (simp add: Let_def sample_append sample_append_again) (simp add: small_db_def)
qed

section \<open>Verification\<close>

text \<open>A stored row whose hash was overwritten.\<close>

definition forged_row :: audit_event where
  "forged_row = sample_input\<lparr>TenantID := ''t'', PrevHash := ''x'', Hash := ''y'', SequenceNumber := 1\<rparr>"

definition forged_db :: pgdb where
  "forged_db = sample_db\<lparr>audit_rows := [forged_row], audit_seq := 1\<rparr>"

lemma forged_wf: "wf_db forged_db"
proof -
  have "row_inv forged_row" unfolding row_inv_def input_ok_def by (intro conjI; code_simp)
  then show ?thesis
    by (simp add: wf_db_def wf_rows_def forged_db_def sample_db_def sample_tenant_def forged_row_def)
qed

text \<open>An intact chain of one event, sealed under two spellings of the same metadata.\<close>

definition sealed :: "metadata \<Rightarrow> pgdb" where
  "sealed m =
     (let e = sample_input\<lparr>TenantID := ''t'', PrevHash := GenesisHash, SequenceNumber := 1, Metadata := Some m\<rparr>
      in sample_db\<lparr>audit_rows := [e\<lparr>Hash := compute_hash (sha256 sample_env) e\<rparr>], audit_seq := 1\<rparr>)"

abbreviation sealed_row :: "metadata \<Rightarrow> audit_event" where
  "sealed_row m \<equiv> hd (audit_rows (sealed m))"

lemma sealed_rows:
  "audit_rows (sealed m) = [sealed_row m]" "chain_rows (sealed m) ''t'' = [sealed_row m]"
  "Hash (sealed_row m) = compute_hash (sha256 sample_env) (sealed_row m)" "PrevHash (sealed_row m) = GenesisHash"
  "ID (sealed_row m) = ''e1''" "Timestamp (sealed_row m) = unix_epoch" "Metadata (sealed_row m) = Some m"
  "SequenceNumber (sealed_row m) = 1" "TenantID (sealed_row m) = ''t''"
  by (simp_all add: sealed_def chain_rows_def sample_input_def ComputeHash_def hash_preimage_def Let_def)

lemma sealed_wf:
  assumes "wf_json (JObj m)" "plain_numbers (JObj m)"
  shows "wf_db (sealed m)"
proof -
  have "list_all storable (event_texts (sealed_row m))"
    using storable_compute_hash [of "sha256 sample_env"]
    by (simp add: sealed_def event_texts_def sample_input_def Let_def storable_genesis) code_simp
  moreover have "input_ok (sealed_row m)"
    using assms(1) unfolding input_ok_def sealed_rows(6,7)
    by (simp add: unix_epoch_def year_9999_end_def Second_def Day_def)
  moreover have "Truncate unix_epoch Microsecond = unix_epoch" by code_simp
  ultimately have r: "row_inv (sealed_row m)" using assms(2) by (simp add: row_inv_def sealed_rows(6,7))
  have "audit_seq (sealed m) = 1" "tenant_rows (sealed m) = [sample_tenant]"
    by (simp_all add: sealed_def sample_db_def Let_def)
  moreover obtain e where e: "audit_rows (sealed m) = [e]" "sealed_row m = e" using sealed_rows(1) [of m] by blast
  moreover have "TenantID e = ''t''" "SequenceNumber e = 1" using sealed_rows(8,9) [of m] e(2) by simp_all
  ultimately show ?thesis using r by (simp add: wf_db_def wf_rows_def sample_tenant_def)
qed

lemma history_epoch: "historyStart \<le> unix_epoch" "unix_epoch \<le> farFuture"
  by (simp_all add: historyStart_def farFuture_def unix_epoch_def year_9999_end_def Second_def Day_def)

lemma sealed_verifies:
  assumes "wf_json (JObj m)" "plain_numbers (JObj m)"
    and "Verify (sha256 sample_env) (pg_repository sample_env) (sealed m) ''t'' 0 0 = Inr r"
  shows "Valid r \<and> RootHash r = Hash (sealed_row m)"
proof -
  have i: "pg_inv sample_env (sealed m)" using sealed_wf [OF assms(1,2)] sample_jsonb by (simp add: pg_inv_def)
  have w: "\<forall>e \<in> set (chain_rows (sealed m) ''t''). in_window (default_from 0) (default_to 0) e"
    using sealed_rows(6) [of m] history_epoch unfolding sealed_rows(2)
    by (simp add: in_window_def default_from_def default_to_def IsZero_def)
  have "chain_ok (sha256 sample_env) GenesisHash (chain_rows (sealed m) ''t'')"
    using sealed_rows(3,4) [of m] unfolding sealed_rows(2) by simp
  then show ?thesis
    using pgv.Verify_full [OF i assms(3) w] unfolding sealed_rows(2) by (simp add: chain_tip_def)
qed

lemma sealed_same_hash:
  assumes "wf_json (JObj m)" "plain_numbers (JObj m)" "wf_json (JObj n)" "plain_numbers (JObj n)"
    and "denote (JObj m) = denote (JObj n)"
  shows "Hash (sealed_row m) = Hash (sealed_row n)"
proof -
  have ri: "row_inv (sealed_row l)" if "wf_json (JObj l)" "plain_numbers (JObj l)" for l
    using sealed_wf [OF that] sealed_rows(1) [of l] by (metis wf_db_def list.set_intros(1))
  note r = ri [OF assms(1,2)] ri [OF assms(3,4)]
  have ne: "compute_hash (sha256 sample_env) (sealed_row l) \<noteq> ''''" if "row_inv (sealed_row l)" for l
    using that row_inv_event_ok by (intro plain_hash) (auto simp: row_inv_def)
  have "event_content (sealed_row m) = event_content (sealed_row n)"
    using assms(5) by (simp add: event_content_def sealed_def meta_value_def Let_def)
  then show ?thesis unfolding sealed_rows(3)
    using r ne by (intro compute_hash_congr row_inv_event_ok) simp_all
qed

text \<open>
  C5.  \<open>Verify\<close> with open bounds decides the chain recipe: if every stored event of the tenant lies
  within the supported history, a completed verification reports \<open>Valid\<close> exactly when the whole chain
  from the genesis hash is intact, having checked every event; and then the root hash it reports is
  the hash of the last event.
\<close>

theorem Verify_decides_chain:
  assumes "wf_db db" "jsonb_ok (jsonb v)"
    and "Verify (sha256 v) (pg_repository v) db tid 0 0 = Inr r"
    and "\<forall>e \<in> set (chain_rows db tid). historyStart \<le> Timestamp e \<and> Timestamp e \<le> farFuture"
  shows "(Valid r \<longleftrightarrow> chain_ok (sha256 v) GenesisHash (chain_rows db tid)) \<and>
    EventsChecked r = length (chain_rows db tid) \<and>
    (Valid r \<longrightarrow> RootHash r = chain_tip '''' (chain_rows db tid))"
proof -
  have i: "pg_inv v db" using assms(1,2) by (simp add: pg_inv_def)
  have w: "\<forall>e \<in> set (chain_rows db tid). in_window (default_from 0) (default_to 0) e"
    using assms(4) by (simp add: in_window_def default_from_def default_to_def IsZero_def)
  then have "filter (in_window (default_from 0) (default_to 0)) (chain_rows db tid) = chain_rows db tid"
    by (rule filter_all)
  then have "EventsChecked r = length (chain_rows db tid)"
    using pgv.Verify_scan [OF i assms(3)] by simp
  then show ?thesis using pgv.Verify_full [OF i assms(3) w] by blast
qed

theorem Verify_decides_chain_witness:
  "\<exists>r. Verify (sha256 sample_env) (pg_repository sample_env) (sealed []) ''t'' 0 0 = Inr r \<and> Valid r \<and>
       EventsChecked r = 1 \<and> RootHash r = Hash (sealed_row [])"
proof -
  obtain r where r: "Verify (sha256 sample_env) (pg_repository sample_env) (sealed []) ''t'' 0 0 = Inr r"
    using verify_returns [OF sample_healthy] by blast
  have "wf_db (sealed [])" by (rule sealed_wf) (simp_all add: plain_numbers_def)
  from Verify_decides_chain [OF this sample_jsonb r]
  have "Valid r \<and> EventsChecked r = 1 \<and> RootHash r = Hash (sealed_row [])"
    using sealed_rows(3,4,6) [of "[]"] history_epoch unfolding sealed_rows(2) by (simp add: chain_tip_def)
  with r show ?thesis by blast
qed

text \<open>
  C6.  For any window, a completed \<open>Verify\<close> that reports a break names the first broken event of the
  window in chain order, compared with its true predecessor in the chain (which may lie outside the
  window), with the reason; every earlier event of the window is intact.
\<close>

theorem Verify_first_break:
  assumes "wf_db db" "jsonb_ok (jsonb v)"
    and "Verify (sha256 v) (pg_repository v) db tid lo hi = Inr r" "\<not> Valid r"
  shows "\<exists>as qe bs. filter (\<lambda>qe. in_window (default_from lo) (default_to hi) (snd qe))
        (with_prev GenesisHash (chain_rows db tid)) = as @ qe # bs \<and>
      (\<forall>x \<in> set as. link_fault (sha256 v) x = None) \<and>
      link_fault (sha256 v) qe = Some (Reason r) \<and> FirstBrokenEventID r = ID (snd qe)"
  using pgv.Verify_spec(4) [OF _ assms(3,4)] assms(1,2) by (simp add: pg_inv_def)

theorem Verify_first_break_witness:
  "\<exists>r. Verify (sha256 sample_env) (pg_repository sample_env) forged_db ''t'' 0 0 = Inr r \<and> \<not> Valid r \<and>
       FirstBrokenEventID r = ''e1'' \<and> Reason r = ''prev_hash mismatch''"
proof -
  have c: "chain_rows forged_db ''t'' = [forged_row]"
    by (simp add: chain_rows_def forged_db_def forged_row_def)
  have f: "ID forged_row = ''e1''" "PrevHash forged_row \<noteq> GenesisHash" "Timestamp forged_row = unix_epoch"
    by (simp_all add: forged_row_def sample_input_def GenesisHash_def)
  obtain r where r: "Verify (sha256 sample_env) (pg_repository sample_env) forged_db ''t'' 0 0 = Inr r"
    using verify_returns [OF sample_healthy] by blast
  have i: "pg_inv sample_env forged_db" using forged_wf sample_jsonb by (simp add: pg_inv_def)
  have w: "\<forall>e \<in> set (chain_rows forged_db ''t''). in_window (default_from 0) (default_to 0) e"
    using f(3) history_epoch by (simp add: c in_window_def default_from_def default_to_def IsZero_def)
  then have nv: "\<not> Valid r" using pgv.Verify_full(1) [OF i r w] f(2) by (simp add: c)
  have "filter (\<lambda>qe. in_window (default_from 0) (default_to 0) (snd qe)) (with_prev GenesisHash [forged_row]) =
      [(GenesisHash, forged_row)]"
    using w by (simp add: c)
  with Verify_first_break [OF forged_wf sample_jsonb r nv] c
  have "link_fault (sha256 sample_env) (GenesisHash, forged_row) = Some (Reason r) \<and> FirstBrokenEventID r = ID forged_row"
    by (auto simp: append_eq_Cons_conv Cons_eq_append_conv)
  then have "FirstBrokenEventID r = ''e1''" "Reason r = ''prev_hash mismatch''"
    using f by (simp_all add: link_fault_def)
  with r nv show ?thesis by blast
qed

text \<open>
  \<open>VerifyDeep\<close> is complete: the list it returns has one entry for every broken event of the
  window and no other, in chain order; the verdict and the counts are those of that list.
\<close>

theorem VerifyDeep_lists_breaks:
  assumes "wf_db db" "jsonb_ok (jsonb v)"
    and "VerifyDeep (sha256 v) (pg_repository v) db tid lo hi = Inr r"
  defines "w \<equiv> filter (\<lambda>qe. in_window (default_from lo) (default_to hi) (snd qe))
      (with_prev GenesisHash (chain_rows db tid))"
  shows "map BEventID (AllBrokenEvents r) =
      map (\<lambda>qe. ID (snd qe)) (filter (\<lambda>qe. link_fault (sha256 v) qe \<noteq> None) w) \<and>
    BrokenCount r = length (AllBrokenEvents r) \<and> EventsChecked r = length w \<and>
    (Valid r \<longleftrightarrow> AllBrokenEvents r = [])"
proof -
  have i: "pg_inv v db" using assms(1,2) by (simp add: pg_inv_def)
  note d = pgv.VerifyDeep_spec [OF i assms(3), folded w_def]
  have "filter (\<lambda>qe. link_fault (sha256 v) qe \<noteq> None) w = [] \<longleftrightarrow> (\<forall>qe \<in> set w. link_fault (sha256 v) qe = None)"
    by (simp add: filter_empty_conv)
  then show ?thesis unfolding d(2) d(1) d(4) using d(1,3)
    by (simp add: deep_entry_def Let_def comp_def del: not_None_eq)
qed

theorem VerifyDeep_lists_breaks_witness:
  "\<exists>r. VerifyDeep (sha256 sample_env) (pg_repository sample_env) forged_db ''t'' 0 0 = Inr r \<and>
       map BEventID (AllBrokenEvents r) = [''e1''] \<and> BrokenCount r = 1"
proof -
  have c: "chain_rows forged_db ''t'' = [forged_row]"
    by (simp add: chain_rows_def forged_db_def forged_row_def)
  have f: "ID forged_row = ''e1''" "PrevHash forged_row \<noteq> GenesisHash" "Timestamp forged_row = unix_epoch"
    by (simp_all add: forged_row_def sample_input_def GenesisHash_def)
  obtain r where r: "VerifyDeep (sha256 sample_env) (pg_repository sample_env) forged_db ''t'' 0 0 = Inr r"
    using verify_deep_returns [OF sample_healthy] by blast
  have "in_window (default_from 0) (default_to 0) forged_row"
    using f(3) history_epoch by (simp add: in_window_def default_from_def default_to_def IsZero_def)
  then have m: "map BEventID (AllBrokenEvents r) = [''e1'']" "BrokenCount r = length (AllBrokenEvents r)"
    using VerifyDeep_lists_breaks [OF forged_wf sample_jsonb r] f by (simp_all add: c link_fault_def)
  have "length (AllBrokenEvents r) = 1" using arg_cong [OF m(1), of length] by simp
  with m r show ?thesis by (intro exI [of _ r]) simp
qed

text \<open>
  \<open>VerifyOne\<close> checks one stored event against its true predecessor: it succeeds only for an
  event of the tenant's chain, and its verdict and reason are those of that event's link and hash.
\<close>

theorem VerifyOne_checks_link:
  assumes "wf_db db" "jsonb_ok (jsonb v)"
    and "VerifyOne (sha256 v) (pg_repository v :: (pgdb, verify_result) repository) db tid i = Inr r"
  shows "\<exists>q e. (q, e) \<in> set (with_prev GenesisHash (chain_rows db tid)) \<and> ID e = i \<and> RootHash r = Hash e \<and>
    (Valid r \<longleftrightarrow> PrevHash e = q \<and> Hash e = ComputeHash (sha256 v) (Some e)) \<and>
    (\<not> Valid r \<longrightarrow> Reason r = (if PrevHash e = q then ''hash mismatch'' else ''prev_hash mismatch''))"
proof -
  have i: "pg_inv v db" using assms(1,2) by (simp add: pg_inv_def)
  obtain q e where e: "(q, e) \<in> set (with_prev GenesisHash (chain_rows db tid)) \<and> ID e = i \<and> RootHash r = Hash e \<and>
      (Valid r \<longleftrightarrow> link_fault (sha256 v) (q, e) = None) \<and> (\<not> Valid r \<longrightarrow> link_fault (sha256 v) (q, e) = Some (Reason r))"
    using pgv.VerifyOne_spec [OF i assms(3)] by (elim exE)
  then show ?thesis by (intro exI [of _ q] exI [of _ e]) (auto simp: link_fault_def split: if_splits)
qed

theorem VerifyOne_checks_link_witness:
  "\<exists>r. VerifyOne (sha256 sample_env) (pg_repository sample_env :: (pgdb, verify_result) repository) forged_db ''t'' ''e1'' = Inr r \<and>
       \<not> Valid r \<and> Reason r = ''prev_hash mismatch''"
proof -
  have c: "chain_rows forged_db ''t'' = [forged_row]" "filter (\<lambda>r. TenantID r = ''t'' \<and> ID r = ''e1'') (audit_rows forged_db) = [forged_row]"
    by (simp_all add: chain_rows_def forged_db_def forged_row_def sample_input_def)
  have f: "PrevHash forged_row \<noteq> GenesisHash" by (simp add: forged_row_def GenesisHash_def)
  obtain r where r: "VerifyOne (sha256 sample_env) (pg_repository sample_env :: (pgdb, verify_result) repository) forged_db ''t'' ''e1'' = Inr r"
    using sample_healthy f
    by (simp add: VerifyOne_def Get_def Previous_def c Let_def healthy_def expected_prev_def)
  from VerifyOne_checks_link [OF forged_wf sample_jsonb r] f have "\<not> Valid r \<and> Reason r = ''prev_hash mismatch''"
    unfolding c by (auto split: if_splits)
  with r show ?thesis by blast
qed

section \<open>Tamper evidence\<close>

lemma chain_ok_hash: "chain_ok H p es \<Longrightarrow> e \<in> set es \<Longrightarrow> Hash e = compute_hash H e"
  by (induction es arbitrary: p) auto

lemma intact_hash_nonempty:
  assumes "wf_db db" "chain_ok H GenesisHash (chain_rows db tid)" "e \<in> set (chain_rows db tid)"
  shows "Hash e \<noteq> ''''"
proof -
  have "row_inv e" using assms(1,3) by (auto simp: wf_db_def chain_rows_set)
  then have "compute_hash H e \<noteq> ''''"
    using row_inv_event_ok by (intro plain_hash) (auto simp: row_inv_def)
  moreover have "Hash e = compute_hash H e"
    by (rule chain_ok_hash [OF assms(2,3)])
  ultimately show ?thesis by simp
qed

text \<open>
  C1.  Tamper evidence.  Take two states of the tables, for instance before and after someone with
  write access changed rows, removed or reordered them.  If \<open>Verify\<close> accepts the tenant's log in both
  and reports the same root hash, then the two logs hold the same events - every public field of every
  event, in the same order - unless two canonical encodings that differ have the same SHA-256.
\<close>

theorem Verify_tamper_evident:
  assumes "wf_db db" "wf_db db'" "jsonb_ok (jsonb v)"
    and "Verify (sha256 v) (pg_repository v) db tid 0 0 = Inr r" "Valid r"
    and "Verify (sha256 v) (pg_repository v) db' tid 0 0 = Inr r'" "Valid r'" "RootHash r = RootHash r'"
    and "\<forall>e \<in> set (chain_rows db tid) \<union> set (chain_rows db' tid). historyStart \<le> Timestamp e \<and> Timestamp e \<le> farFuture"
  shows "map event_content (chain_rows db tid) = map event_content (chain_rows db' tid) \<or>
    (\<exists>e \<in> set (chain_rows db tid). \<exists>f \<in> set (chain_rows db' tid). hash_collision (sha256 v) e f)"
proof -
  let ?c = "chain_rows db tid" and ?c' = "chain_rows db' tid"
  have i: "pg_inv v db" "pg_inv v db'" using assms(1-3) by (simp_all add: pg_inv_def)
  have w: "\<forall>e \<in> set ?c. in_window (default_from 0) (default_to 0) e"
      "\<forall>e \<in> set ?c'. in_window (default_from 0) (default_to 0) e"
    using assms(9) by (auto simp: in_window_def default_from_def default_to_def IsZero_def)
  have ok: "chain_ok (sha256 v) GenesisHash ?c" "chain_ok (sha256 v) GenesisHash ?c'"
    and root: "chain_tip '''' ?c = chain_tip '''' ?c'"
    using pgv.Verify_full [OF i(1) assms(4) w(1)] pgv.Verify_full [OF i(2) assms(6) w(2)] assms(5,7,8) by simp_all
  have ne: "\<forall>e \<in> set ?c \<union> set ?c'. event_ok e \<and> Hash e \<noteq> ''''"
    using intact_hash_nonempty [OF assms(1) ok(1)] intact_hash_nonempty [OF assms(2) ok(2)]
      wf_db_chain_event_ok assms(1,2) by blast
  then have "?c = [] \<longleftrightarrow> ?c' = []"
    using root last_in_set [of ?c] last_in_set [of ?c'] unfolding chain_tip_def by (metis UnI1 UnI2)
  then have "chain_tip GenesisHash ?c = chain_tip GenesisHash ?c'" using root by (auto simp: chain_tip_def)
  then show ?thesis by (rule chains_agree [OF ok _ ne])
qed

theorem Verify_tamper_evident_witness:
  "\<exists>r r'. Verify (sha256 sample_env) (pg_repository sample_env) (sealed [(''k'', JNum ''10'')]) ''t'' 0 0 = Inr r \<and>
     Verify (sha256 sample_env) (pg_repository sample_env) (sealed [(''k'', JNum ''10.0'')]) ''t'' 0 0 = Inr r' \<and>
     RootHash r = RootHash r' \<and>
     (event_content (sealed_row [(''k'', JNum ''10'')]) = event_content (sealed_row [(''k'', JNum ''10.0'')]) \<or>
      hash_collision (sha256 sample_env) (sealed_row [(''k'', JNum ''10'')]) (sealed_row [(''k'', JNum ''10.0'')]))"
proof -
  let ?m = "[(''k'', JNum ''10'')]" and ?n = "[(''k'', JNum ''10.0'')]"
  have j: "wf_json (JObj ?m)" "plain_numbers (JObj ?m)" "wf_json (JObj ?n)" "plain_numbers (JObj ?n)" by code_simp+
  have "num_value ''10'' = num_value ''10.0''" by code_simp
  then have eq: "Hash (sealed_row ?m) = Hash (sealed_row ?n)" using j by (intro sealed_same_hash) simp_all
  note wf = sealed_wf [OF j(1,2)] sealed_wf [OF j(3,4)]
  obtain r r' where r: "Verify (sha256 sample_env) (pg_repository sample_env) (sealed ?m) ''t'' 0 0 = Inr r"
      "Verify (sha256 sample_env) (pg_repository sample_env) (sealed ?n) ''t'' 0 0 = Inr r'"
    using verify_returns [OF sample_healthy] by meson
  have v: "Valid r" "Valid r'" "RootHash r = RootHash r'"
    using sealed_verifies [OF j(1,2) r(1)] sealed_verifies [OF j(3,4) r(2)] eq by simp_all
  have "\<forall>e \<in> set (chain_rows (sealed ?m) ''t'') \<union> set (chain_rows (sealed ?n) ''t''). historyStart \<le> Timestamp e \<and> Timestamp e \<le> farFuture"
    using sealed_rows(6) [of ?m] sealed_rows(6) [of ?n] history_epoch unfolding sealed_rows(2) by simp
  from Verify_tamper_evident [OF wf sample_jsonb r(1) v(1) r(2) v(2,3) this]
  have "event_content (sealed_row ?m) = event_content (sealed_row ?n) \<or> hash_collision (sha256 sample_env) (sealed_row ?m) (sealed_row ?n)"
    unfolding sealed_rows(2) by simp
  with r v(3) show ?thesis by blast
qed

end
