(* ===== verification/Ingest_Properties.thy ===== *)
theory Ingest_Properties
  imports Audit_Properties
begin

text \<open>
  Ingestion through the service on the PostgreSQL store: the accounting of \<open>LogBatch\<close>, the chain
  under every outcome, re-anchoring, the paged walk, the action filter and the live subscriptions.
\<close>

section \<open>Batches\<close>

text \<open>What the transport hands to the service.\<close>

abbreviation all_decoded :: "audit_event option list \<Rightarrow> bool" where
  "all_decoded inp \<equiv> \<forall>p \<in> set inp. \<forall>e. p = Some e \<longrightarrow> decoded e"

lemma prepareBatch_Inr:
  assumes "prepareBatch s tid inp = Inr (res, valid)"
  shows "length inp \<le> MaxBatchSize"
    and "valid = map (\<lambda>(j, p). prepared s j (the p)) (filter (\<lambda>(j, p). Validate p = None) (enumerate 0 inp))"
    and "Errors res = map (\<lambda>(j, p). (j, the (Validate p))) (filter (\<lambda>(j, p). Validate p \<noteq> None) (enumerate 0 inp))"
    and "Rejected res = length (filter (\<lambda>p. Validate p \<noteq> None) inp)" "Accepted res = 0" "IDs res = []"
    and "Rejected res + length valid = length inp"
proof -
  have l: "length inp \<le> MaxBatchSize" and run: "prepare_loop s 0 inp empty_batch [] = (res, valid)"
    using assms by (auto simp: prepareBatch_def MaxBatchSize_def split: if_splits)
  show "length inp \<le> MaxBatchSize" by (rule l)
  show "valid = map (\<lambda>(j, p). prepared s j (the p)) (filter (\<lambda>(j, p). Validate p = None) (enumerate 0 inp))"
    "Errors res = map (\<lambda>(j, p). (j, the (Validate p))) (filter (\<lambda>(j, p). Validate p \<noteq> None) (enumerate 0 inp))"
    "Rejected res = length (filter (\<lambda>p. Validate p \<noteq> None) inp)" "Accepted res = 0" "IDs res = []"
    using prepare_loop_spec [OF run] by (simp_all add: empty_batch_def)
  show "Rejected res + length valid = length inp"
    using prepare_loop_counts [OF run] by (simp add: empty_batch_def)
qed

lemma Validate_Some: "Validate p = None \<Longrightarrow> p \<noteq> None"
  by (cases p) (simp_all add: Validate_def)

lemma prepareBatch_input_ok:
  assumes "prepareBatch s tid inp = Inr (res, valid)" "clock_ok s" "all_decoded inp"
  shows "\<forall>e \<in> set valid. input_ok e"
proof
  fix e
  assume "e \<in> set valid"
  then obtain j p where p: "(j, p) \<in> set (enumerate 0 inp)" "Validate p = None" "e = prepared s j (the p)"
    unfolding prepareBatch_Inr(2) [OF assms(1)] by auto
  then obtain x where x: "p = Some x" using Validate_Some by blast
  have "p \<in> set inp" using p(1) by (auto simp: in_set_enumerate_eq)
  then have "decoded x" using assms(3) x by blast
  then show "input_ok e" using prepared_input_ok [OF _ assms(2)] p x by simp
qed

definition sample_svc :: svc where
  "sample_svc = \<lparr>svcHash = sha256 sample_env, svcNow = unix_epoch, svcRedactOn = True,
     svcNewEventID = (\<lambda>i. ''n''), svcNewReceiptID = ''rc''\<rparr>"

definition no_subs :: subscriptions where
  "no_subs = \<lparr>subs = [], next_chan = 0\<rparr>"

lemma sample_clock: "clock_ok sample_svc"
  using history_epoch by (simp add: clock_ok_def sample_svc_def)

lemma sample_decoded: "decoded sample_input"
  unfolding decoded_def by code_simp

lemma sample_batch:
  "\<not> isl (fst (LogBatch sample_svc (pg_repository sample_env :: (pgdb, verify_result) repository) ''t''
     [None, Some sample_input] (sample_db, no_subs)))"
  by code_simp

lemma not_isl_Inr: "\<not> isl r \<Longrightarrow> \<exists>x. r = Inr x"
  by (cases r) simp_all

text \<open>
  \<open>LogBatch\<close> accounts for every event of the batch: what it accepted and what it rejected add up
  to the batch, the rejected ones are exactly those \<open>Validate\<close> refuses, listed by position with the
  error; every accepted event is in the tenant's chain afterwards under the identifier reported for it.
\<close>

theorem LogBatch_accounts:
  assumes "LogBatch s (pg_repository v) tid inp (db, ss) = (Inr res, db', ss')"
    and "wf_db db" "jsonb_ok (jsonb v)" "clock_ok s" "all_decoded inp"
  shows "Accepted res + Rejected res = length inp \<and>
    Rejected res = length (filter (\<lambda>p. Validate p \<noteq> None) inp) \<and>
    Errors res = map (\<lambda>(j, p). (j, the (Validate p))) (filter (\<lambda>(j, p). Validate p \<noteq> None) (enumerate 0 inp)) \<and>
    length (IDs res) = Accepted res \<and> set (IDs res) \<subseteq> ID ` set (chain_rows db' tid)"
proof -
  obtain res0 valid where p: "prepareBatch s tid inp = Inr (res0, valid)"
    using assms(1) by (auto simp: LogBatch_def split: sum.splits)
  note P = prepareBatch_Inr [OF p]
  show ?thesis
  proof (cases "valid = []")
    case True
    with assms(1) p have "res = res0" by (simp add: LogBatch_def)
    with True P show ?thesis by simp
  next
    case False
    with assms(1) p obtain out where out: "AppendBatchChained v db tid valid = (Inr out, db')"
      and res: "res = res0\<lparr>IDs := IDs res0 @ map ID out, Accepted := length out\<rparr>"
      by (auto simp: LogBatch_def CommitBatch_def split: sum.splits prod.splits)
    obtain rs where "appended v tid valid db db' rs"
      using append_ok [OF out assms(2,3) prepareBatch_input_ok [OF p assms(4,5)]] by (elim exE)
    from appended_ids(2) [OF this] have "ID ` set valid \<subseteq> ID ` set (chain_rows db' tid)" .
    moreover have ids: "map ID out = map ID valid" by (rule append_out_ids [OF out assms(2)])
    moreover have "set (map ID valid) = ID ` set valid" by simp
    moreover have "length out = length valid" using ids by (rule map_eq_imp_length_eq)
    ultimately show ?thesis using P unfolding res by simp
  qed
qed

theorem LogBatch_accounts_witness:
  "\<exists>res db' ss'. LogBatch sample_svc (pg_repository sample_env :: (pgdb, verify_result) repository) ''t''
       [None, Some sample_input] (sample_db, no_subs) = (Inr res, db', ss') \<and> Accepted res + Rejected res = 2"
proof -
  obtain res db' ss' where r: "LogBatch sample_svc (pg_repository sample_env :: (pgdb, verify_result) repository) ''t''
      [None, Some sample_input] (sample_db, no_subs) = (Inr res, db', ss')"
    using sample_batch by (metis not_isl_Inr prod.collapse)
  have "all_decoded [None, Some sample_input]" using sample_decoded by simp
  from LogBatch_accounts [OF r sample_wf sample_jsonb sample_clock this] r show ?thesis by auto
qed

text \<open>
  C10.  No outcome of \<open>LogBatch\<close> or \<open>Log\<close> - accepted, rejected, or a database error at any point -
  breaks a hash chain of any tenant or the table constraints.
\<close>

theorem ingest_keeps_chains:
  assumes "wf_db db" "jsonb_ok (jsonb v)" "clock_ok s" "all_decoded inp" "chain_ok (sha256 v) GenesisHash (chain_rows db t)"
    and "LogBatch s (pg_repository v) tid inp (db, ss) = (r, db', ss')"
  shows "wf_db db' \<and> chain_ok (sha256 v) GenesisHash (chain_rows db' t)"
proof -
  have keep: "wf_db db1 \<and> chain_ok (sha256 v) GenesisHash (chain_rows db1 t)"
    if "AppendBatchChained v db tid es = (x, db1)" "\<forall>e \<in> set es. input_ok e" for es x db1
    using append_keeps [OF that(1) assms(1,2) that(2)] assms(5) by (simp add: chained_def)
  show ?thesis
  proof (cases "prepareBatch s tid inp")
    case (Inl err)
    with assms show ?thesis by (simp add: LogBatch_def)
  next
    case (Inr q)
    obtain res valid where q: "q = (res, valid)" by (cases q)
    have "db' = db \<or> (\<exists>x. AppendBatchChained v db tid valid = (x, db'))"
      using assms(6) Inr q by (auto simp: LogBatch_def CommitBatch_def split: if_splits sum.splits prod.splits)
    then show ?thesis
      using keep prepareBatch_input_ok [OF Inr [unfolded q] assms(3,4)] assms(1,5) by blast
  qed
qed

theorem ingest_keeps_chains_witness:
  "chain_ok (sha256 sample_env) GenesisHash
     (chain_rows (fst (snd (LogBatch sample_svc (pg_repository sample_env :: (pgdb, verify_result) repository) ''t''
        [None, Some sample_input] (sample_db, no_subs)))) ''t'')"
proof -
  have c: "chain_ok (sha256 sample_env) GenesisHash (chain_rows sample_db ''t'')"
    by (simp add: chain_rows_def sample_db_def)
  have d: "all_decoded [None, Some sample_input]" using sample_decoded by simp
  obtain r db' ss' where r: "LogBatch sample_svc (pg_repository sample_env :: (pgdb, verify_result) repository) ''t''
      [None, Some sample_input] (sample_db, no_subs) = (r, db', ss')"
    by (metis prod.collapse)
  from ingest_keeps_chains [OF sample_wf sample_jsonb sample_clock d c r] r show ?thesis by simp
qed

section \<open>Re-anchoring\<close>

text \<open>
  A successful \<open>ReanchorChain\<close> keeps the events before the break as they are, links the broken
  event and all later ones anew from the true head of that prefix, and appends to the chain; so if the
  prefix was intact the whole chain is, and no other tenant's chain changes.
\<close>

theorem ReanchorChain_repairs:
  assumes "wf_db db" "jsonb_ok (jsonb v)" "clock_ok s" "valid_utf8 reason"
    and "ReanchorChain s (pg_repository v :: (pgdb, verify_result) repository) tid first reason db = (Inr out, db')"
  shows "\<exists>xs e ys rs. chain_rows db tid = xs @ e # ys \<and> ID e = first \<and> wf_db db' \<and>
    chain_rows db' tid = xs @ relink (sha256 v) (chain_tip GenesisHash xs) (e # ys) @ rs \<and>
    (chain_ok (sha256 v) GenesisHash xs \<longrightarrow> chain_ok (sha256 v) GenesisHash (chain_rows db' tid)) \<and>
    (\<forall>t. t \<noteq> tid \<longrightarrow> chain_rows db' t = chain_rows db t)"
proof -
  have i: "pg_inv v db" using assms(1,2) by (simp add: pg_inv_def)
  from pgv.ReanchorChain_ok [OF i assms(5,3,4)] show ?thesis unfolding pg_inv_def by blast
qed

lemma sample_reanchor:
  "\<not> isl (fst (ReanchorChain sample_svc (pg_repository sample_env :: (pgdb, verify_result) repository) ''t''
     ''e1'' ''why'' forged_db))"
  by code_simp

theorem ReanchorChain_repairs_witness:
  "chain_ok (sha256 sample_env) GenesisHash
     (chain_rows (snd (ReanchorChain sample_svc (pg_repository sample_env :: (pgdb, verify_result) repository) ''t''
        ''e1'' ''why'' forged_db)) ''t'')"
proof -
  obtain out db' where r: "ReanchorChain sample_svc (pg_repository sample_env :: (pgdb, verify_result) repository) ''t''
      ''e1'' ''why'' forged_db = (Inr out, db')"
    using sample_reanchor by (metis not_isl_Inr prod.collapse)
  have "valid_utf8 ''why''" by code_simp
  moreover have "chain_rows forged_db ''t'' = [forged_row]"
    by (simp add: chain_rows_def forged_db_def forged_row_def)
  ultimately show ?thesis
    using ReanchorChain_repairs [OF forged_wf sample_jsonb sample_clock _ r] r by (auto simp: Cons_eq_append_conv)
qed

text \<open>
  On a database whose trigger keeps \<open>audit_events\<close> append-only, \<open>ReanchorFrom\<close> fails and
  changes nothing as soon as there is one row to re-anchor.
\<close>

theorem ReanchorFrom_append_only:
  assumes "append_only db" "e \<in> set (chain_rows db tid)" "s \<le> SequenceNumber e"
  shows "\<exists>err. ReanchorFrom v db tid s p = (Inl err, db)"
proof -
  obtain x xs where x: "filter (\<lambda>r. s \<le> SequenceNumber r) (chain_rows db tid) = x # xs"
    using assms(2,3) by (metis filter_empty_conv neq_Nil_conv)
  then have "x \<in> set (chain_rows db tid)" by (metis filter_Cons_mem)
  then have "0 < length (filter (\<lambda>r. TenantID r = tid \<and> SequenceNumber r = SequenceNumber x) (audit_rows db))"
    by (auto simp: chain_rows_set filter_empty_conv)
  then have "\<exists>err. apply_patches v tid 0 (reanchor_patches (sha256 v) p (x # xs)) db 0 = Inl err"
    using assms(1) by (simp add: Let_def)
  then show ?thesis unfolding ReanchorFrom_def x by auto
qed

theorem ReanchorFrom_append_only_witness:
  "\<exists>err. ReanchorFrom sample_env (forged_db\<lparr>append_only := True\<rparr>) ''t'' 1 GenesisHash = (Inl err, forged_db\<lparr>append_only := True\<rparr>)"
  by (rule ReanchorFrom_append_only [of _ forged_row])
    (simp_all add: chain_rows_def forged_db_def forged_row_def)

section \<open>Reading\<close>

lemma walk_pages_run:
  assumes "healthy v" "sorted_wrt (<) (map SequenceNumber rs)"
  shows "walk_pages v rs fn page s count st =
    (case run_events fn (filter (\<lambda>r. s < SequenceNumber r) rs) st of
       Inl err \<Rightarrow> Inl err | Inr st' \<Rightarrow> Inr (st', count + length (filter (\<lambda>r. s < SequenceNumber r) rs)))"
  using assms
proof (induction v rs fn page s count st rule: walk_pages.induct)
  case (1 v rs fn page s count st)
  let ?rest = "filter (\<lambda>r. s < SequenceNumber r) rs"
  let ?chunk = "take walkPageSize ?rest"
  have nf: "\<not> fault v ''walking audit events chunk'' page" using 1(2) by (simp add: healthy_def)
  have run: "run_events fn ?rest st = bind_result (run_events fn ?chunk st) (run_events fn (drop walkPageSize ?rest))"
    using run_events_append [of fn ?chunk "drop walkPageSize ?rest" st] by simp
  note step = walk_pages.simps [of v rs fn page s count st, unfolded Let_def, unfolded if_not_P [OF nf]]
  show ?case
  proof (cases "run_events fn ?chunk st")
    case (Inl err)
    then show ?thesis unfolding step run by simp
  next
    case (Inr st1)
    show ?thesis
    proof (cases "length ?chunk < walkPageSize")
      case True
      then have "?chunk = ?rest" by (simp add: min_def split: if_splits)
      then show ?thesis unfolding step using Inr True by simp
    next
      case False
      then have n: "0 < walkPageSize" "walkPageSize \<le> length ?rest" by (auto simp: walkPageSize_def)
      have nx: "filter (\<lambda>r. SequenceNumber (last ?chunk) < SequenceNumber r) rs = drop walkPageSize ?rest"
        by (rule next_page [OF 1(3) refl n])
      have l: "count + length ?chunk + length (drop walkPageSize ?rest) = count + length ?rest" using n(2) by simp
      note ih = 1(1) [OF refl refl nf Inr False 1(2,3), unfolded nx l]
      show ?thesis unfolding step run Inr bind_result_def sum.case if_not_P [OF False] ih ..
    qed
  qed
qed

text \<open>
  C11.  Walking page by page is walking: on a database that answers, \<open>Walk\<close> runs the callback over
  every event of the window in chain order exactly once, stops at its first error, and counts the
  events, whatever the number of pages.
\<close>

theorem Walk_is_run:
  assumes "healthy v" "wf_db db"
  shows "Walk v db tid lo hi fn st =
    (case run_events fn (filter (in_window lo hi) (chain_rows db tid)) st of
       Inl err \<Rightarrow> Inl err | Inr st' \<Rightarrow> Inr (st', length (filter (in_window lo hi) (chain_rows db tid))))"
proof -
  have w: "window_rows db tid lo hi = filter (in_window lo hi) (chain_rows db tid)"
    by (simp add: window_rows_def in_window_def [abs_def])
  have so: "sorted_wrt (<) (map SequenceNumber (window_rows db tid lo hi))"
    unfolding window_rows_def using chain_rows_strict [of db tid] assms(2)
    by (auto simp: wf_db_def sorted_wrt_map intro: sorted_wrt_filter)
  have "\<forall>r \<in> set (window_rows db tid lo hi). - 1 < SequenceNumber r"
    using assms(2) by (force simp: window_rows_def chain_rows_set wf_db_def wf_rows_def)
  then have all: "filter (\<lambda>r. - 1 < SequenceNumber r) (window_rows db tid lo hi) = window_rows db tid lo hi"
    by (rule filter_all)
  have "Walk v db tid lo hi fn st = (case run_events fn (window_rows db tid lo hi) st of
      Inl err \<Rightarrow> Inl err | Inr st' \<Rightarrow> Inr (st', length (window_rows db tid lo hi)))"
    unfolding Walk_def walk_pages_run [OF assms(1) so, of fn 0 "- 1" 0 st] all add_0 ..
  then show ?thesis unfolding w .
qed

theorem Walk_is_run_witness:
  "Walk sample_env forged_db ''t'' 0 farFuture (\<lambda>e n. Inr (Suc n)) 0 = Inr (1, 1)"
proof -
  have "filter (in_window 0 farFuture) (chain_rows forged_db ''t'') = [forged_row]"
    using history_epoch by (simp add: chain_rows_def forged_db_def in_window_def forged_row_def sample_input_def unix_epoch_def Second_def)
  then show ?thesis using Walk_is_run [OF sample_healthy forged_wf, of "''t''" 0 farFuture "\<lambda>e n. Inr (Suc n)" 0] by simp
qed

lemma like_percent: "like ''%'' s"
  by (auto simp: list_ex_iff intro!: bexI [of _ "length s"])

lemma like_prefix: "like (like_escape p @ ''%'') s \<longleftrightarrow> HasPrefix s p"
proof (induction p arbitrary: s)
  case Nil
  then show ?case using like_percent by (simp add: HasPrefix_def del: like.simps)
next
  case (Cons c p)
  show ?case
  proof (cases s)
    case Nil
    then show ?thesis by (simp add: HasPrefix_def)
  next
    case (Cons d ds)
    with Cons.IH [of ds] show ?thesis by (auto simp: HasPrefix_def)
  qed
qed

text \<open>
  An action filter ending in \<open>*\<close> selects exactly the rows whose action starts with the rest of
  the filter, also when that rest contains the \<open>LIKE\<close> metacharacters.
\<close>

theorem action_wildcard_is_prefix:
  assumes "FAction f = p @ ''*''"
  shows "buildAuditFilter tid f r \<longleftrightarrow> buildAuditFilter tid (f\<lparr>FAction := ''''\<rparr>) r \<and> HasPrefix (Action r) p"
proof -
  have "HasSuffix (p @ ''*'') ''*''" "TrimSuffixStar (p @ ''*'') = p"
    by (simp_all add: HasSuffix_def TrimSuffixStar_def)
  then show ?thesis by (auto simp: buildAuditFilter_def assms like_prefix)
qed

definition prefix_filter :: filter_spec where
  "prefix_filter = \<lparr>FSessionID = [], FActorID = [], FActorType = [], FAction = ''a_%*'', FResourceID = [], FOutcome = [],
     FFrom = 0, FTo = 0, FPage = 0, FPageSize = 0\<rparr>"

theorem action_wildcard_is_prefix_witness:
  "\<not> buildAuditFilter ''t'' prefix_filter forged_row \<and> buildAuditFilter ''t'' prefix_filter (forged_row\<lparr>Action := ''a_%b''\<rparr>)"
proof -
  have f: "FAction prefix_filter = ''a_%'' @ ''*''" by (simp add: prefix_filter_def)
  have "buildAuditFilter ''t'' (prefix_filter\<lparr>FAction := ''''\<rparr>) (forged_row\<lparr>Action := a\<rparr>)" for a
    by (simp add: buildAuditFilter_def prefix_filter_def forged_row_def IsZero_def)
  then show ?thesis
    unfolding action_wildcard_is_prefix [OF f] by (simp add: HasPrefix_def forged_row_def sample_input_def)
qed

section \<open>Live subscriptions\<close>

text \<open>
  Publishing a run of events gives every subscriber, in order, the events that fit its buffer;
  a full buffer drops the rest, and no buffer ever holds more than 64 events.
\<close>

theorem FanoutEvents_delivers:
  assumes "\<forall>(c, buf) \<in> set (subs ss). length buf \<le> channelCapacity"
  shows "subs (FanoutEvents es ss) = map (\<lambda>(c, buf). (c, buf @ take (channelCapacity - length buf) es)) (subs ss) \<and>
    (\<forall>(c, buf) \<in> set (subs (FanoutEvents es ss)). length buf \<le> channelCapacity)"
  using assms unfolding FanoutEvents_channel by auto

theorem FanoutEvents_delivers_witness:
  "subs (FanoutEvents [sample_input] \<lparr>subs = [(0, []), (1, replicate 64 small_input)], next_chan = 2\<rparr>) =
     [(0, [sample_input]), (1, replicate 64 small_input)]"
  using FanoutEvents_delivers [of "\<lparr>subs = [(0, []), (1, replicate 64 small_input)], next_chan = 2\<rparr>" "[sample_input]"]
  by (simp add: channelCapacity_def)

end
