(* ===== verification/Tenant_Store.thy ===== *)
theory Tenant_Store
  imports Pg_Db
begin

text \<open>
  The tenant, key, plan and webhook half of api/internal/storage/postgres/audit_store.go.
  Operations that write return the new database; a failed statement rolls its transaction back.
  Where a query orders by a column that need not be unique, rows that tie keep insertion order.
\<close>

section \<open>Rows\<close>

record tenant =
  TenantIDOf :: string
  TenantName :: string
  TenantCreatedAt :: time

definition view_tenant :: "tenant_row \<Rightarrow> tenant" where
  "view_tenant r = \<lparr>TenantIDOf = TID r, TenantName = TName r, TenantCreatedAt = TCreatedAt r\<rparr>"

text \<open>\<open>NOW()\<close>, as \<open>timestamptz\<close> keeps it.\<close>

definition pg_now :: "env \<Rightarrow> time" where
  "pg_now v = Truncate (now v) Microsecond"

definition active_tenant :: "tenant_row \<Rightarrow> bool" where
  "active_tenant r = (TDeletedAt r = None)"

definition active_key :: "api_key \<Rightarrow> bool" where
  "active_key k = (KRevokedAt k = None)"

text \<open>The column default of \<open>plan_id\<close> in the installed schema.\<close>

definition default_plan :: string where "default_plan = ''oss''"

definition new_tenant_row :: "env \<Rightarrow> string \<Rightarrow> string \<Rightarrow> tenant_row" where
  "new_tenant_row v i name =
     \<lparr>TID = i, TName = name, TCreatedAt = pg_now v, TDeletedAt = None, TPlanID = default_plan, TPeriodEnd = None,
      TSubStatus = None, TAlertWebhookURL = [], TAlertEmail = '''', TQuotaAlertMonth = '''', TQuotaAlertLevel = 0\<rparr>"

text \<open>\<open>INSERT INTO tenants (id, name)\<close> and \<open>INSERT INTO api_keys\<close> under the constraints of the schema.\<close>

definition insert_tenant :: "env \<Rightarrow> string \<Rightarrow> string \<Rightarrow> pgdb \<Rightarrow> pgdb option" where
  "insert_tenant v i name db =
     (if storable i \<and> storable name \<and> \<not> list_ex (\<lambda>t. TID t = i) (tenant_rows db) \<and>
         list_ex (\<lambda>p. PlanID p = default_plan) (plan_rows db)
      then Some (db\<lparr>tenant_rows := tenant_rows db @ [new_tenant_row v i name]\<rparr>) else None)"

definition stored_key :: "env \<Rightarrow> api_key \<Rightarrow> api_key" where
  "stored_key v k = k\<lparr>KCreatedAt := pg_now v, KRevokedAt := None\<rparr>"

definition insert_key :: "env \<Rightarrow> api_key \<Rightarrow> pgdb \<Rightarrow> pgdb option" where
  "insert_key v k db =
     (if list_all storable [KID k, KTenantID k, KHash k, KScope k, KLabel k] \<and> Scope_IsValid (KScope k) \<and>
         list_ex (\<lambda>t. TID t = KTenantID k) (tenant_rows db) \<and>
         \<not> list_ex (\<lambda>x. KID x = KID k \<or> KHash x = KHash k) (key_rows db)
      then Some (db\<lparr>key_rows := key_rows db @ [stored_key v k]\<rparr>) else None)"

section \<open>Tenants\<close>

definition CreateTenant :: "env \<Rightarrow> tenant \<Rightarrow> pgdb \<Rightarrow> unit result \<times> pgdb" where
  "CreateTenant v t db =
     (if fault v ''inserting tenant'' 0 then (Inl (Internal ''inserting tenant''), db)
      else case insert_tenant v (TenantIDOf t) (TenantName t) db of
             None \<Rightarrow> (Inl (Internal ''inserting tenant''), db)
           | Some db' \<Rightarrow> (Inr (), db'))"

definition GetTenant :: "env \<Rightarrow> pgdb \<Rightarrow> string \<Rightarrow> tenant result" where
  "GetTenant v db i =
     (if fault v ''getting tenant'' 0 then Inl (Internal ''getting tenant'')
      else case filter (\<lambda>t. TID t = i \<and> active_tenant t) (tenant_rows db) of
             [] \<Rightarrow> Inl (NotFound ''tenant'' i)
           | r # _ \<Rightarrow> Inr (view_tenant r))"

text \<open>The join of \<open>tenants\<close> with \<open>tenant_external_identities\<close> for one identity.\<close>

definition identity_join :: "pgdb \<Rightarrow> string \<Rightarrow> string \<Rightarrow> tenant_row list" where
  "identity_join db provider ext =
     filter (\<lambda>t. list_ex (\<lambda>m. fst m = (provider, ext) \<and> snd m = TID t) (identity_rows db)) (tenant_rows db)"

definition GetTenantByExternalID :: "env \<Rightarrow> pgdb \<Rightarrow> string \<Rightarrow> string \<Rightarrow> tenant result" where
  "GetTenantByExternalID v db provider ext =
     (if fault v ''getting tenant by external id'' 0 then Inl (Internal ''getting tenant by external id'')
      else case filter active_tenant (identity_join db provider ext) of
             [] \<Rightarrow> Inl (NotFound ''tenant'' (provider @ '':'' @ ext))
           | r # _ \<Rightarrow> Inr (view_tenant r))"

definition SoftDeleteTenant :: "env \<Rightarrow> string \<Rightarrow> pgdb \<Rightarrow> unit result \<times> pgdb" where
  "SoftDeleteTenant v i db =
     (if fault v ''soft-deleting tenant'' 0 then (Inl (Internal ''soft-deleting tenant''), db)
      else (Inr (), db\<lparr>tenant_rows := map (\<lambda>t. if TID t = i \<and> active_tenant t
              then t\<lparr>TDeletedAt := Some (pg_now v)\<rparr> else t) (tenant_rows db)\<rparr>))"

definition UpdateTenantName :: "env \<Rightarrow> string \<Rightarrow> string \<Rightarrow> pgdb \<Rightarrow> unit result \<times> pgdb" where
  "UpdateTenantName v i name db =
     (if fault v ''updating tenant name'' 0 \<or> \<not> storable name then (Inl (Internal ''updating tenant name''), db)
      else (Inr (), db\<lparr>tenant_rows := map (\<lambda>t. if TID t = i \<and> active_tenant t then t\<lparr>TName := name\<rparr> else t)
              (tenant_rows db)\<rparr>))"

section \<open>Bootstrap\<close>

record bootstrap_input =
  BProvider :: string
  BExternalID :: string
  BTenantID :: string
  BTenantName :: string
  BKeyCandidate :: "api_key option"

definition lookupTenantByExternalTx :: "env \<Rightarrow> pgdb \<Rightarrow> string \<Rightarrow> string \<Rightarrow> tenant option result" where
  "lookupTenantByExternalTx v db provider ext =
     (if fault v ''looking up tenant by external id in bootstrap'' 0
      then Inl (Internal ''looking up tenant by external id in bootstrap'')
      else case identity_join db provider ext of
             [] \<Rightarrow> Inr None
           | r # _ \<Rightarrow> Inr (Some (view_tenant r)))"

definition active_keys :: "pgdb \<Rightarrow> string \<Rightarrow> api_key list" where
  "active_keys db tid = sort_key KCreatedAt (filter (\<lambda>k. KTenantID k = tid \<and> active_key k) (key_rows db))"

definition firstActiveKeyTx :: "env \<Rightarrow> pgdb \<Rightarrow> string \<Rightarrow> api_key option result" where
  "firstActiveKeyTx v db tid =
     (if fault v ''looking up active key in bootstrap'' 0
      then Inl (Internal ''looking up active key in bootstrap'')
      else case active_keys db tid of [] \<Rightarrow> Inr None | k # _ \<Rightarrow> Inr (Some k))"

text \<open>The branch that provisions the tenant and the mapping.\<close>

definition provision :: "env \<Rightarrow> bootstrap_input \<Rightarrow> pgdb \<Rightarrow> (tenant \<times> pgdb) result" where
  "provision v b db =
     (if BTenantID b = '''' then Inl (InvalidInput ''tenant id candidate is required for new tenants'')
      else if fault v ''inserting tenant'' 0 then Inl (Internal ''inserting tenant'')
      else case insert_tenant v (BTenantID b) (BTenantName b) db of
             None \<Rightarrow> Inl (Internal ''inserting tenant'')
           | Some db1 \<Rightarrow>
               if fault v ''inserting external identity mapping'' 0 \<or>
                  \<not> storable (BProvider b) \<or> \<not> storable (BExternalID b) \<or>
                  list_ex (\<lambda>m. fst m = (BProvider b, BExternalID b)) (identity_rows db1)
               then Inl (Internal ''inserting external identity mapping'')
               else Inr (view_tenant (new_tenant_row v (BTenantID b) (BTenantName b)),
                         db1\<lparr>identity_rows := identity_rows db1 @ [((BProvider b, BExternalID b), BTenantID b)]\<rparr>))"

definition BootstrapTenant :: "env \<Rightarrow> bootstrap_input \<Rightarrow> pgdb \<Rightarrow> (tenant \<times> api_key \<times> bool) result \<times> pgdb" where
  "BootstrapTenant v b db =
     (if BProvider b = '''' \<or> BExternalID b = '''' then (Inl (InvalidInput ''provider and external_id are required''), db)
      else case BKeyCandidate b of
             None \<Rightarrow> (Inl (InvalidInput ''key candidate is required''), db)
           | Some cand \<Rightarrow>
      if fault v ''beginning bootstrap tx'' 0 then (Inl (Internal ''beginning bootstrap tx''), db)
      else if fault v ''acquiring bootstrap lock'' 0 then (Inl (Internal ''acquiring bootstrap lock''), db)
      else case lookupTenantByExternalTx v db (BProvider b) (BExternalID b) of
             Inl err \<Rightarrow> (Inl err, db)
           | Inr found \<Rightarrow>
      (case (case found of Some t \<Rightarrow> Inr (t, db) | None \<Rightarrow> provision v b db) of
         Inl err \<Rightarrow> (Inl err, db)
       | Inr (t, db1) \<Rightarrow>
      (case firstActiveKeyTx v db1 (TenantIDOf t) of
         Inl err \<Rightarrow> (Inl err, db)
       | Inr (Some active) \<Rightarrow>
           if fault v ''committing bootstrap tx'' 0 then (Inl (Internal ''committing bootstrap tx''), db)
           else (Inr (t, active, False), db1)
       | Inr None \<Rightarrow>
           (let c = cand\<lparr>KTenantID := TenantIDOf t\<rparr>
            in if fault v ''inserting bootstrap api key'' 0
               then (Inl (Internal ''inserting bootstrap api key''), db)
               else case insert_key v c db1 of
                      None \<Rightarrow> (Inl (Internal ''inserting bootstrap api key''), db)
                    | Some db2 \<Rightarrow>
                        if fault v ''committing bootstrap tx'' 0 then (Inl (Internal ''committing bootstrap tx''), db)
                        else (Inr (t, c\<lparr>KCreatedAt := pg_now v\<rparr>, True), db2)))))"

section \<open>API keys\<close>

definition CreateKey :: "env \<Rightarrow> api_key \<Rightarrow> pgdb \<Rightarrow> unit result \<times> pgdb" where
  "CreateKey v k db =
     (if fault v ''inserting api key'' 0 then (Inl (Internal ''inserting api key''), db)
      else case insert_key v k db of
             None \<Rightarrow> (Inl (Internal ''inserting api key''), db)
           | Some db' \<Rightarrow> (Inr (), db'))"

definition GetKeyByID :: "env \<Rightarrow> pgdb \<Rightarrow> string \<Rightarrow> api_key result" where
  "GetKeyByID v db i =
     (if fault v ''looking up api key'' 0 then Inl (Internal ''looking up api key'')
      else case filter (\<lambda>k. KID k = i) (key_rows db) of
             [] \<Rightarrow> Inl (NotFound ''api_key'' '''')
           | k # _ \<Rightarrow> Inr k)"

definition ListKeys :: "env \<Rightarrow> pgdb \<Rightarrow> string \<Rightarrow> api_key list result" where
  "ListKeys v db tid =
     (if fault v ''listing api keys'' 0 then Inl (Internal ''listing api keys'')
      else Inr (sort_key (\<lambda>k. - KCreatedAt k) (filter (\<lambda>k. KTenantID k = tid) (key_rows db))))"

definition revoke :: "env \<Rightarrow> (api_key \<Rightarrow> bool) \<Rightarrow> pgdb \<Rightarrow> pgdb" where
  "revoke v P db = db\<lparr>key_rows := map (\<lambda>k. if P k \<and> active_key k then k\<lparr>KRevokedAt := Some (pg_now v)\<rparr> else k) (key_rows db)\<rparr>"

definition RevokeKey :: "env \<Rightarrow> string \<Rightarrow> string \<Rightarrow> pgdb \<Rightarrow> unit result \<times> pgdb" where
  "RevokeKey v tid i db =
     (if fault v ''revoking api key'' 0 then (Inl (Internal ''revoking api key''), db)
      else let hits = filter (\<lambda>k. KID k = i \<and> KTenantID k = tid \<and> active_key k) (key_rows db)
           in if hits = [] then (Inl (NotFound ''api_key'' i), db)
              else (Inr (), revoke v (\<lambda>k. KID k = i \<and> KTenantID k = tid) db))"

definition RevokeAllKeys :: "env \<Rightarrow> string \<Rightarrow> pgdb \<Rightarrow> unit result \<times> pgdb" where
  "RevokeAllKeys v tid db =
     (if fault v ''revoking all api keys'' 0 then (Inl (Internal ''revoking all api keys''), db)
      else (Inr (), revoke v (\<lambda>k. KTenantID k = tid) db))"

section \<open>Webhooks and plans\<close>

definition MarkProcessed :: "env \<Rightarrow> string \<Rightarrow> string \<Rightarrow> string \<Rightarrow> pgdb \<Rightarrow> bool result \<times> pgdb" where
  "MarkProcessed v i source eventType db =
     (if fault v ''marking webhook processed'' 0 \<or> \<not> list_all storable [i, source, eventType]
      then (Inl (Internal ''marking webhook processed''), db)
      else if list_ex (\<lambda>w. fst w = i) (webhook_rows db) then (Inr False, db)
      else (Inr True, db\<lparr>webhook_rows := webhook_rows db @ [(i, source, eventType)]\<rparr>))"

definition oss_plan :: plan where
  "oss_plan = \<lparr>PlanID = ''oss'', PlanName = ''Self-hosted'', RetentionDays = None, MonthlyEventLimit = None,
     MonthlyCopilotLimit = None, CopilotTranscriptRetentionDays = None,
     PlanDescription = ''All core features; operator-managed storage and retention.''\<rparr>"

text \<open>
  \<open>GetTenantPlan\<close> reads a plan and downgrades an expired one: the \<open>UPDATE\<close> is best effort
  (its error is dropped) and needs the plan \<open>free\<close> to exist.
\<close>

definition downgrade :: "env \<Rightarrow> string \<Rightarrow> pgdb \<Rightarrow> pgdb" where
  "downgrade v tid db =
     (if fault v ''downgrade'' 0 \<or> \<not> list_ex (\<lambda>p. PlanID p = ''free'') (plan_rows db) then db
      else db\<lparr>tenant_rows := map (\<lambda>t. if TID t = tid \<and> active_tenant t
             then t\<lparr>TPlanID := ''free'', TSubStatus := Some ''expired''\<rparr> else t) (tenant_rows db)\<rparr>)"

definition plan_join :: "pgdb \<Rightarrow> string \<Rightarrow> (tenant_row \<times> plan) list" where
  "plan_join db tid =
     [(t, p). t \<leftarrow> filter (\<lambda>t. TID t = tid \<and> active_tenant t) (tenant_rows db),
              p \<leftarrow> filter (\<lambda>p. PlanID p = TPlanID t) (plan_rows db)]"

definition GetTenantPlan :: "env \<Rightarrow> bool \<Rightarrow> string \<Rightarrow> pgdb \<Rightarrow> plan result \<times> pgdb" where
  "GetTenantPlan v ossMode tid db =
     (if ossMode
      then (case GetTenant v db tid of Inl err \<Rightarrow> (Inl err, db) | Inr _ \<Rightarrow> (Inr oss_plan, db))
      else if fault v ''getting tenant plan'' 0 then (Inl (Internal ''getting tenant plan''), db)
      else case plan_join db tid of
             [] \<Rightarrow> (Inl (NotFound ''tenant'' tid), db)
           | (t, p) # _ \<Rightarrow>
               if (case TPeriodEnd t of None \<Rightarrow> False | Some e \<Rightarrow> e < now v) \<and> PlanID p = ''pro''
               then let db' = downgrade v tid db
                    in if fault v ''getting tenant plan fallback'' 0
                       then (Inl (Internal ''getting tenant plan fallback''), db')
                       else case filter (\<lambda>q. PlanID q = ''free'') (plan_rows db') of
                              [] \<Rightarrow> (Inl (Internal ''getting tenant plan fallback''), db')
                            | q # _ \<Rightarrow> (Inr q, db')
               else (Inr p, db))"

end
