(* ===== verification/Outbox.thy ===== *)
theory Outbox
  imports Audit_Service Audit_Repo_Pg Tenant_Store
begin

text \<open>
  api/internal/ingest/outbox: asynchronous ingest through a table.  \<open>Enqueue\<close> writes a receipt and
  a pending row in one transaction; a worker claims pending rows, commits their events to the chain
  and marks them; \<open>ResetStaleProcessing\<close> gives rows of lost workers back.

  \<open>world\<close> holds the tables of the audit store, the two outbox tables, the live subscriptions and the
  alerts sent.  The payload column is JSON: \<open>payload_of\<close> is what \<open>json.Marshal\<close> and \<open>jsonb\<close> make of
  the events, \<open>decode_events\<close> what \<open>json.Unmarshal\<close> reads back.  That decoder has no \<open>UseNumber\<close>, so
  every number passes through \<open>float64\<close>: the parameter \<open>fl\<close> maps a number literal to the literal of
  the nearest float, or to \<open>None\<close> where the decoder rejects it as out of range.
\<close>

section \<open>Tables\<close>

record receipt =
  RID :: string
  RTenantID :: string
  RStatus :: string
  RAccepted :: nat
  RRejected :: nat
  REventIDs :: "string list"
  RErrors :: "(nat \<times> app_error) list"
  RErrorMessage :: "app_error option"
  RCreatedAt :: time
  RCommittedAt :: "time option"

record outbox_row =
  OID :: string
  OReceiptID :: string
  OTenantID :: string
  OPayload :: "audit_event list"
  OStatus :: string
  OAttempts :: nat
  OAvailableAt :: time
  OCreatedAt :: time
  OProcessedAt :: "time option"
  OErrorMessage :: "app_error option"

text \<open>\<open>Row\<close>: a claimed message, a copy held by a worker.\<close>

record row =
  RowID :: string
  RowReceiptID :: string
  RowTenantID :: string
  RowPayload :: "audit_event list"
  RowAttempts :: nat

record world =
  store :: pgdb
  receipts :: "receipt list"
  outbox :: "outbox_row list"
  live :: subscriptions
  alerts :: "(string \<times> string) list"

section \<open>The payload column\<close>

definition no_nul :: "string \<Rightarrow> bool" where
  "no_nul s = (CHR 0x00 \<notin> set s)"

definition coerce_actor :: "actor \<Rightarrow> actor" where
  "coerce_actor a = \<lparr>ActorID = utf8_coerce (ActorID a), ActorTyp = utf8_coerce (ActorTyp a), ActorEmail = utf8_coerce (ActorEmail a)\<rparr>"

definition coerce_resource :: "resource \<Rightarrow> resource" where
  "coerce_resource r = \<lparr>ResourceID = utf8_coerce (ResourceID r), ResourceType = utf8_coerce (ResourceType r),
     ResourceName = utf8_coerce (ResourceName r)\<rparr>"

definition payload_event :: "env \<Rightarrow> audit_event \<Rightarrow> audit_event option" where
  "payload_event v e =
     (if \<not> list_all no_nul (event_texts e) then None
      else case store_metadata v (Metadata e) of
             None \<Rightarrow> None
           | Some md \<Rightarrow>
               Some (e\<lparr>ID := utf8_coerce (ID e), TenantID := utf8_coerce (TenantID e), Actor := coerce_actor (Actor e),
                       Action := utf8_coerce (Action e), Resource := coerce_resource (Resource e),
                       Outcome := utf8_coerce (Outcome e), PrevHash := utf8_coerce (PrevHash e),
                       Hash := utf8_coerce (Hash e), Metadata := md\<rparr>))"

fun map_result :: "('a \<Rightarrow> 'b option) \<Rightarrow> 'a list \<Rightarrow> 'b list option" where
  "map_result f [] = Some []"
| "map_result f (x # xs) = (case f x of None \<Rightarrow> None | Some y \<Rightarrow> map_option ((#) y) (map_result f xs))"

definition payload_of :: "env \<Rightarrow> audit_event list \<Rightarrow> audit_event list option" where
  "payload_of v es = map_result (payload_event v) es"

fun float_json :: "(string \<Rightarrow> string option) \<Rightarrow> json \<Rightarrow> json option"
  and float_items :: "(string \<Rightarrow> string option) \<Rightarrow> json list \<Rightarrow> json list option"
  and float_fields :: "(string \<Rightarrow> string option) \<Rightarrow> (string \<times> json) list \<Rightarrow> (string \<times> json) list option" where
  "float_json fl (JNum s) = map_option JNum (fl s)"
| "float_json fl (JStr s) = Some (JStr s)"
| "float_json fl JNull = Some JNull"
| "float_json fl (JBool b) = Some (JBool b)"
| "float_json fl (JArr xs) = map_option JArr (float_items fl xs)"
| "float_json fl (JObj kvs) = map_option JObj (float_fields fl kvs)"
| "float_items fl [] = Some []"
| "float_items fl (x # xs) =
     (case float_json fl x of None \<Rightarrow> None | Some y \<Rightarrow> map_option ((#) y) (float_items fl xs))"
| "float_fields fl [] = Some []"
| "float_fields fl ((k, x) # kvs) =
     (case float_json fl x of None \<Rightarrow> None | Some y \<Rightarrow> map_option ((#) (k, y)) (float_fields fl kvs))"

definition decode_event :: "(string \<Rightarrow> string option) \<Rightarrow> audit_event \<Rightarrow> audit_event option" where
  "decode_event fl e =
     (case Metadata e of
        None \<Rightarrow> Some e
      | Some m \<Rightarrow> map_option (\<lambda>n. e\<lparr>Metadata := Some n\<rparr>) (float_fields fl m))"

definition DecodePayload :: "(string \<Rightarrow> string option) \<Rightarrow> audit_event list \<Rightarrow> audit_event list option" where
  "DecodePayload fl es = map_result (decode_event fl) es"

section \<open>The store\<close>

definition new_receipt :: "env \<Rightarrow> string \<Rightarrow> string \<Rightarrow> batch_result \<Rightarrow> receipt" where
  "new_receipt v tid rid res =
     \<lparr>RID = rid, RTenantID = tid, RStatus = ''queued'', RAccepted = Accepted res, RRejected = Rejected res,
      REventIDs = [], RErrors = Errors res, RErrorMessage = None, RCreatedAt = pg_now v, RCommittedAt = None\<rparr>"

definition new_outbox_row :: "env \<Rightarrow> string \<Rightarrow> string \<Rightarrow> audit_event list \<Rightarrow> outbox_row" where
  "new_outbox_row v tid rid pl =
     \<lparr>OID = ''obx_'' @ rid, OReceiptID = rid, OTenantID = tid, OPayload = pl, OStatus = ''pending'', OAttempts = 0,
      OAvailableAt = pg_now v, OCreatedAt = pg_now v, OProcessedAt = None, OErrorMessage = None\<rparr>"

definition Enqueue :: "env \<Rightarrow> world \<Rightarrow> string \<Rightarrow> string \<Rightarrow> audit_event list \<Rightarrow> batch_result \<Rightarrow> app_error option \<times> world" where
  "Enqueue v w tid rid events res =
     (if list_ex (\<lambda>e. case Metadata e of None \<Rightarrow> False | Some m \<Rightarrow> redecode (JObj m) = None) events
      then (Some (Internal ''marshaling outbox payload''), w)
      else if fault v ''begin outbox tx'' 0 then (Some (Internal ''begin outbox tx''), w)
      else if fault v ''inserting ingest receipt'' 0 \<or> \<not> storable rid \<or> \<not> storable tid \<or>
              list_ex (\<lambda>r. RID r = rid) (receipts w) \<or> \<not> list_ex (\<lambda>t. TID t = tid) (tenant_rows (store w))
      then (Some (Internal ''inserting ingest receipt''), w)
      else case payload_of v events of
             None \<Rightarrow> (Some (Internal ''inserting outbox row''), w)
           | Some pl \<Rightarrow>
               if fault v ''inserting outbox row'' 0 \<or> list_ex (\<lambda>ob. OID ob = ''obx_'' @ rid) (outbox w)
               then (Some (Internal ''inserting outbox row''), w)
               else if fault v ''commit outbox tx'' 0 then (Some (Internal ''commit outbox tx''), w)
               else (None, w\<lparr>receipts := receipts w @ [new_receipt v tid rid res],
                             outbox := outbox w @ [new_outbox_row v tid rid pl]\<rparr>))"

definition GetReceipt :: "env \<Rightarrow> world \<Rightarrow> string \<Rightarrow> string \<Rightarrow> receipt result" where
  "GetReceipt v w tid rid =
     (if fault v ''getting ingest receipt'' 0 then Inl (Internal ''getting ingest receipt'')
      else case filter (\<lambda>r. RID r = rid \<and> RTenantID r = tid) (receipts w) of
             [] \<Rightarrow> Inl (NotFound ''ingest_receipt'' rid)
           | r # _ \<Rightarrow> Inr r)"

text \<open>The adapter's view for the service.\<close>

definition GetReceipt_async :: "env \<Rightarrow> world \<Rightarrow> string \<Rightarrow> string \<Rightarrow> async_receipt result" where
  "GetReceipt_async v w tid rid =
     (case GetReceipt v w tid rid of
        Inl err \<Rightarrow> Inl err
      | Inr r \<Rightarrow> Inr \<lparr>ReceiptID = RID r, Status = RStatus r,
          Batch = \<lparr>Accepted = RAccepted r, Rejected = RRejected r, IDs = REventIDs r, Errors = RErrors r\<rparr>\<rparr>)"

definition claim_row :: "outbox_row \<Rightarrow> row" where
  "claim_row ob = \<lparr>RowID = OID ob, RowReceiptID = OReceiptID ob, RowTenantID = OTenantID ob, RowPayload = OPayload ob,
     RowAttempts = OAttempts ob\<rparr>"

definition ClaimPending :: "env \<Rightarrow> nat \<Rightarrow> world \<Rightarrow> row list result \<times> world" where
  "ClaimPending v limit w =
     (if fault v ''begin claim tx'' 0 then (Inl (Internal ''begin claim tx''), w)
      else if fault v ''claiming outbox rows'' 0 then (Inl (Internal ''claiming outbox rows''), w)
      else let hits = take limit (sort_key OCreatedAt
                 (filter (\<lambda>ob. OStatus ob = ''pending'' \<and> OAvailableAt ob \<le> pg_now v) (outbox w)))
           in if hits = []
              then if fault v ''commit empty claim tx'' 0 then (Inl (Internal ''commit empty claim tx''), w) else (Inr [], w)
              else if fault v ''marking outbox processing'' 0 then (Inl (Internal ''marking outbox processing''), w)
              else if fault v ''commit claim tx'' 0 then (Inl (Internal ''commit claim tx''), w)
              else (Inr (map claim_row hits),
                    w\<lparr>outbox := map (\<lambda>ob. if OID ob \<in> OID ` set hits then ob\<lparr>OStatus := ''processing''\<rparr> else ob) (outbox w)\<rparr>))"

definition update_outbox :: "string \<Rightarrow> (outbox_row \<Rightarrow> outbox_row) \<Rightarrow> world \<Rightarrow> world" where
  "update_outbox i f w = w\<lparr>outbox := map (\<lambda>ob. if OID ob = i then f ob else ob) (outbox w)\<rparr>"

definition update_receipt :: "string \<Rightarrow> (receipt \<Rightarrow> receipt) \<Rightarrow> world \<Rightarrow> world" where
  "update_receipt i f w = w\<lparr>receipts := map (\<lambda>r. if RID r = i then f r else r) (receipts w)\<rparr>"

definition MarkCommitted :: "env \<Rightarrow> string \<Rightarrow> string \<Rightarrow> string list \<Rightarrow> world \<Rightarrow> app_error option \<times> world" where
  "MarkCommitted v oid rid ids w =
     (if fault v ''begin commit tx'' 0 then (Some (Internal ''begin commit tx''), w)
      else if fault v ''marking outbox done'' 0 then (Some (Internal ''marking outbox done''), w)
      else if fault v ''marking receipt committed'' 0 then (Some (Internal ''marking receipt committed''), w)
      else if fault v ''commit outbox success tx'' 0 then (Some (Internal ''commit outbox success tx''), w)
      else (None, update_receipt rid (\<lambda>r. r\<lparr>RStatus := ''committed'', REventIDs := ids, RCommittedAt := Some (pg_now v)\<rparr>)
              (update_outbox oid (\<lambda>ob. ob\<lparr>OStatus := ''done'', OProcessedAt := Some (pg_now v)\<rparr>) w)))"

definition MarkRetry :: "env \<Rightarrow> string \<Rightarrow> string \<Rightarrow> nat \<Rightarrow> nat \<Rightarrow> app_error \<Rightarrow> int \<Rightarrow> world \<Rightarrow> app_error option \<times> world" where
  "MarkRetry v oid rid attempts maxAttempts err backoff w =
     (if fault v ''begin retry tx'' 0 then (Some (Internal ''begin retry tx''), w)
      else if maxAttempts \<le> attempts
      then if fault v ''marking outbox failed'' 0 then (Some (Internal ''marking outbox failed''), w)
           else if fault v ''marking receipt failed'' 0 then (Some (Internal ''marking receipt failed''), w)
           else if fault v ''commit outbox fail tx'' 0 then (Some (Internal ''commit outbox fail tx''), w)
           else (None, update_receipt rid (\<lambda>r. r\<lparr>RStatus := ''failed'', RErrorMessage := Some err\<rparr>)
                   (update_outbox oid (\<lambda>ob. ob\<lparr>OStatus := ''failed'', OProcessedAt := Some (pg_now v),
                      OErrorMessage := Some err, OAttempts := attempts\<rparr>) w))
      else if fault v ''scheduling outbox retry'' 0 then (Some (Internal ''scheduling outbox retry''), w)
      else if fault v ''commit outbox retry tx'' 0 then (Some (Internal ''commit outbox retry tx''), w)
      else (None, update_outbox oid (\<lambda>ob. ob\<lparr>OStatus := ''pending'', OAttempts := attempts,
              OAvailableAt := Truncate (now v + backoff) Microsecond, OErrorMessage := Some err\<rparr>) w))"

definition OldestPendingLag :: "env \<Rightarrow> world \<Rightarrow> int result" where
  "OldestPendingLag v w =
     (if fault v ''outbox lag query'' 0 then Inl (Internal ''outbox lag query'')
      else case sort_key OCreatedAt (filter (\<lambda>ob. OStatus ob = ''pending'') (outbox w)) of
             [] \<Rightarrow> Inr 0
           | ob # _ \<Rightarrow> Inr (now v - OCreatedAt ob))"

definition stale :: "env \<Rightarrow> int \<Rightarrow> outbox_row \<Rightarrow> bool" where
  "stale v olderThan ob = (OStatus ob = ''processing'' \<and> OAvailableAt ob < pg_now v - olderThan)"

definition ResetStaleProcessing :: "env \<Rightarrow> int \<Rightarrow> world \<Rightarrow> nat result \<times> world" where
  "ResetStaleProcessing v olderThan w =
     (if fault v ''resetting stale processing outbox rows'' 0
      then (Inl (Internal ''resetting stale processing outbox rows''), w)
      else (Inr (length (filter (stale v olderThan) (outbox w))),
            w\<lparr>outbox := map (\<lambda>ob. if stale v olderThan ob
                 then ob\<lparr>OStatus := ''pending'', OAvailableAt := pg_now v, OErrorMessage := Some (Internal ''worker timeout / crash'')\<rparr>
                 else ob) (outbox w)\<rparr>))"

section \<open>The worker\<close>

record worker_config =
  BatchSize :: nat
  MaxAttempts :: nat
  Alerting :: bool
  FloatLit :: "string \<Rightarrow> string option"

text \<open>\<open>NewWorker\<close>: non-positive settings take their defaults.\<close>

definition NewWorker :: "int \<Rightarrow> int \<Rightarrow> bool \<Rightarrow> (string \<Rightarrow> string option) \<Rightarrow> worker_config" where
  "NewWorker batch attempts al fl =
     \<lparr>BatchSize = nat (if batch \<le> 0 then 32 else batch), MaxAttempts = nat (if attempts \<le> 0 then 10 else attempts),
      Alerting = al, FloatLit = fl\<rparr>"

definition backoff_for :: "nat \<Rightarrow> int" where
  "backoff_for attempts = min (int (Suc attempts) * Second) (30 * Second)"

text \<open>\<open>processRow\<close> with the service committer: the errors of \<open>MarkRetry\<close> are dropped.\<close>

definition processRow :: "env \<Rightarrow> worker_config \<Rightarrow> row \<Rightarrow> world \<Rightarrow> world" where
  "processRow v cfg rw w =
     (case DecodePayload (FloatLit cfg) (RowPayload rw) of
        None \<Rightarrow> snd (MarkRetry v (RowID rw) (RowReceiptID rw) (Suc (RowAttempts rw)) (MaxAttempts cfg)
                      (Internal ''decoding payload'') Second w)
      | Some events \<Rightarrow>
          (case CommitBatch (pg_repository v :: (pgdb, verify_result) repository) (RowTenantID rw) events (store w) of
             (Inl err, db') \<Rightarrow>
               (let w1 = w\<lparr>store := db'\<rparr>;
                    nextAttempts = Suc (RowAttempts rw);
                    w2 = (if MaxAttempts cfg \<le> nextAttempts \<and> Alerting cfg
                          then w1\<lparr>alerts := alerts w1 @ [(RowTenantID rw, RowReceiptID rw)]\<rparr> else w1)
                in snd (MarkRetry v (RowID rw) (RowReceiptID rw) nextAttempts (MaxAttempts cfg) err
                          (backoff_for (RowAttempts rw)) w2))
           | (Inr written, db') \<Rightarrow>
               (case MarkCommitted v (RowID rw) (RowReceiptID rw) (map ID written) (w\<lparr>store := db'\<rparr>) of
                  (Some _, w') \<Rightarrow> w'
                | (None, w') \<Rightarrow> w'\<lparr>live := FanoutEvents written (live w')\<rparr>)))"

text \<open>One poll; the environment of each call is its own.\<close>

definition processOnce :: "(nat \<Rightarrow> env) \<Rightarrow> worker_config \<Rightarrow> world \<Rightarrow> world" where
  "processOnce vs cfg w =
     (case ClaimPending (vs 0) (BatchSize cfg) w of
        (Inl _, w') \<Rightarrow> w'
      | (Inr rows, w') \<Rightarrow> foldl (\<lambda>w (i, rw). processRow (vs i) cfg rw w) w' (enumerate 1 rows))"

end
