(* ===== verification/Tenant_Accounts.thy ===== *)
theory Tenant_Accounts
  imports Tenant_Store Samples
begin

text \<open>
  The account tables under their operations.  \<open>store_step\<close> is one operation of the store, with
  any outcome; \<open>wf_accounts\<close> holds in every reachable state, the audit log only ever grows and a
  revoked key stays revoked.
\<close>

section \<open>The invariant of the account tables\<close>

definition key_ok :: "pgdb \<Rightarrow> api_key \<Rightarrow> bool" where
  "key_ok db k = (Scope_IsValid (KScope k) \<and> list_ex (\<lambda>t. TID t = KTenantID k) (tenant_rows db))"

definition wf_accounts :: "pgdb \<Rightarrow> bool" where
  "wf_accounts db =
     (distinct (map TID (tenant_rows db)) \<and> distinct (map KID (key_rows db)) \<and> distinct (map KHash (key_rows db)) \<and>
      distinct (map fst (identity_rows db)) \<and> distinct (map fst (webhook_rows db)) \<and>
      list_all (key_ok db) (key_rows db))"

text \<open>The fields of a key that no operation changes, and what remains of its revocation.\<close>

definition key_kept :: "api_key \<Rightarrow> api_key \<Rightarrow> bool" where
  "key_kept k k' =
     (k' = k\<lparr>KRevokedAt := KRevokedAt k'\<rparr> \<and> (KRevokedAt k \<noteq> None \<longrightarrow> KRevokedAt k' = KRevokedAt k))"

definition keys_kept :: "pgdb \<Rightarrow> pgdb \<Rightarrow> bool" where
  "keys_kept db db' = (\<exists>new. list_all2 key_kept (key_rows db) (take (length (key_rows db)) (key_rows db')) \<and>
     key_rows db' = take (length (key_rows db)) (key_rows db') @ new)"

definition tenants_kept :: "pgdb \<Rightarrow> pgdb \<Rightarrow> bool" where
  "tenants_kept db db' = (set (map TID (tenant_rows db)) \<subseteq> set (map TID (tenant_rows db')))"

lemma key_kept_refl [simp]: "key_kept k k"
  by (simp add: key_kept_def)

lemma key_kept_trans: "key_kept a b \<Longrightarrow> key_kept b c \<Longrightarrow> key_kept a c"
  unfolding key_kept_def by (metis api_key.surjective api_key.update_convs(7))

lemma keys_kept_prefix:
  assumes "key_rows db' = ks @ new" "list_all2 key_kept (key_rows db) ks"
  shows "keys_kept db db'"
proof -
  have "length ks = length (key_rows db)" using assms(2) by (simp add: list_all2_lengthD)
  then have "take (length (key_rows db)) (key_rows db') = ks" using assms(1) by simp
  then show ?thesis using assms by (auto simp: keys_kept_def)
qed

lemma keys_kept_same: "key_rows db' = key_rows db @ new \<Longrightarrow> keys_kept db db'"
  by (rule keys_kept_prefix) (auto simp: list.rel_refl)

lemma keys_kept_obtain:
  assumes "keys_kept db db'"
  obtains ks new where "key_rows db' = ks @ new" "list_all2 key_kept (key_rows db) ks"
  using assms unfolding keys_kept_def by blast

lemma keys_kept_trans: "keys_kept a b \<Longrightarrow> keys_kept b c \<Longrightarrow> keys_kept a c"
proof -
  assume "keys_kept a b" "keys_kept b c"
  then obtain ks n ls m where b: "key_rows b = ks @ n" "list_all2 key_kept (key_rows a) ks"
    and c: "key_rows c = ls @ m" "list_all2 key_kept (ks @ n) ls"
    by (metis keys_kept_obtain)
  obtain us vs where l: "ls = us @ vs" "list_all2 key_kept ks us" using c(2) by (auto simp: list_all2_append1)
  have "list_all2 key_kept (key_rows a) us" using list_all2_trans [OF key_kept_trans b(2) l(2)] .
  then show ?thesis using c(1) l(1) by (intro keys_kept_prefix [of c us "vs @ m"]) simp_all
qed

lemma distinct_filter_single:
  assumes "distinct xs" "x \<in> set xs" "P x" "\<forall>y \<in> set xs. P y \<longrightarrow> y = x"
  shows "filter P xs = [x]"
proof -
  obtain us vs where s: "xs = us @ x # vs" using assms(2) by (meson split_list)
  then have "x \<notin> set us" "x \<notin> set vs" using assms(1) by auto
  then have "filter P us = []" "filter P vs = []" using assms(4) s by (intro filter_none; fastforce)+
  with s assms(3) show ?thesis by simp
qed

section \<open>Operations\<close>

definition accounts_step :: "pgdb \<Rightarrow> pgdb \<Rightarrow> bool" where
  "accounts_step db db' =
     (audit_rows db' = audit_rows db \<and> audit_seq db' = audit_seq db \<and> keys_kept db db' \<and> tenants_kept db db' \<and>
      (wf_accounts db \<longrightarrow> wf_accounts db'))"

lemma accounts_step_refl [simp, intro]: "accounts_step db db"
  by (simp add: accounts_step_def tenants_kept_def keys_kept_same [of db db "[]"])

lemma accounts_step_trans: "accounts_step a b \<Longrightarrow> accounts_step b c \<Longrightarrow> accounts_step a c"
  unfolding accounts_step_def tenants_kept_def using keys_kept_trans by fastforce

lemma key_ok_tenants: "key_ok db k \<Longrightarrow> tenants_kept db db' \<Longrightarrow> key_ok db' k"
  by (auto simp: key_ok_def tenants_kept_def list_ex_iff) (metis image_iff subset_iff)

text \<open>Updates of tenant rows that keep the identifiers.\<close>

lemma step_tenants:
  assumes "map TID ts = map TID (tenant_rows db)"
  shows "accounts_step db (db\<lparr>tenant_rows := ts\<rparr>)"
proof -
  have t: "tenants_kept db (db\<lparr>tenant_rows := ts\<rparr>)" unfolding tenants_kept_def using assms by simp
  have "wf_accounts db \<Longrightarrow> wf_accounts (db\<lparr>tenant_rows := ts\<rparr>)"
    using key_ok_tenants [OF _ t] assms by (auto simp: wf_accounts_def list_all_iff)
  with t show ?thesis by (simp add: accounts_step_def keys_kept_same [of _ db "[]"])
qed

lemma step_insert_tenant: "insert_tenant v i name db = Some db' \<Longrightarrow> accounts_step db db'"
proof -
  assume a: "insert_tenant v i name db = Some db'"
  then have db': "db' = db\<lparr>tenant_rows := tenant_rows db @ [new_tenant_row v i name]\<rparr>"
    and n: "i \<notin> TID ` set (tenant_rows db)"
    by (auto simp: insert_tenant_def list_ex_iff split: if_splits)
  have t: "tenants_kept db db'" by (auto simp: tenants_kept_def db')
  have "wf_accounts db \<Longrightarrow> wf_accounts db'"
    using n key_ok_tenants [OF _ t] by (auto simp: wf_accounts_def list_all_iff db' new_tenant_row_def)
  with t show ?thesis by (simp add: accounts_step_def db' keys_kept_same [of _ db "[]"])
qed

lemma step_insert_key: "insert_key v k db = Some db' \<Longrightarrow> accounts_step db db'"
proof -
  assume a: "insert_key v k db = Some db'"
  then have db': "db' = db\<lparr>key_rows := key_rows db @ [stored_key v k]\<rparr>"
    and n: "KID k \<notin> KID ` set (key_rows db)" "KHash k \<notin> KHash ` set (key_rows db)" "key_ok db k"
    by (auto simp: insert_key_def list_ex_iff key_ok_def split: if_splits)
  have "key_ok db' = key_ok db" by (simp add: key_ok_def fun_eq_iff db')
  then have "wf_accounts db \<Longrightarrow> wf_accounts db'"
    using n by (auto simp: wf_accounts_def list_all_iff db' stored_key_def key_ok_def)
  then show ?thesis by (simp add: accounts_step_def tenants_kept_def db' keys_kept_same [of _ db "[stored_key v k]"])
qed

lemma step_identity:
  "k \<notin> fst ` set (identity_rows db) \<Longrightarrow> accounts_step db (db\<lparr>identity_rows := identity_rows db @ [(k, t)]\<rparr>)"
  by (simp add: accounts_step_def tenants_kept_def keys_kept_same [of _ db "[]"] wf_accounts_def key_ok_def [abs_def])

lemma step_webhook:
  "i \<notin> fst ` set (webhook_rows db) \<Longrightarrow> accounts_step db (db\<lparr>webhook_rows := webhook_rows db @ [(i, s)]\<rparr>)"
  by (simp add: accounts_step_def tenants_kept_def keys_kept_same [of _ db "[]"] wf_accounts_def key_ok_def [abs_def])

lemma step_revoke: "accounts_step db (revoke v P db)"
proof -
  let ?f = "\<lambda>k. if P k \<and> active_key k then k\<lparr>KRevokedAt := Some (pg_now v)\<rparr> else k"
  have "map KID (map ?f ks) = map KID ks" "map KHash (map ?f ks) = map KHash ks" for ks by (induction ks) auto
  moreover have "list_all (key_ok (revoke v P db)) (map ?f ks) = list_all (key_ok db) ks" for ks
    by (induction ks) (simp_all add: key_ok_def revoke_def)
  ultimately have "wf_accounts db \<Longrightarrow> wf_accounts (revoke v P db)"
    unfolding wf_accounts_def by (simp add: revoke_def del: map_map)
  moreover have "list_all2 key_kept (key_rows db) (map ?f (key_rows db))"
    by (simp add: list_all2_conv_all_nth key_kept_def active_key_def)
  then have "keys_kept db (revoke v P db)" by (rule keys_kept_prefix [of _ _ "[]", rotated]) (simp add: revoke_def)
  ultimately show ?thesis by (simp add: accounts_step_def tenants_kept_def revoke_def)
qed

lemma map_TID_update: "\<forall>t. TID (f t) = TID t \<Longrightarrow> map TID (map f ts) = map TID ts"
  by simp

lemmas tenant_ops = CreateTenant_def SoftDeleteTenant_def UpdateTenantName_def

lemma step_tenant_ops:
  "CreateTenant v t db = (r, db') \<Longrightarrow> accounts_step db db'"
  "SoftDeleteTenant v i db = (r, db') \<Longrightarrow> accounts_step db db'"
  "UpdateTenantName v i name db = (r, db') \<Longrightarrow> accounts_step db db'"
  by (auto simp: tenant_ops comp_def intro: step_insert_tenant step_tenants split: if_splits option.splits
      intro!: step_tenants)

lemma step_key_ops:
  "CreateKey v k db = (r1, db') \<Longrightarrow> accounts_step db db'"
  "RevokeKey v tid i db = (r2, db') \<Longrightarrow> accounts_step db db'"
  "RevokeAllKeys v tid db = (r3, db') \<Longrightarrow> accounts_step db db'"
  by (auto simp: CreateKey_def RevokeKey_def RevokeAllKeys_def Let_def intro: step_insert_key step_revoke
      split: if_splits option.splits)

lemma step_MarkProcessed: "MarkProcessed v i s e db = (r, db') \<Longrightarrow> accounts_step db db'"
  by (auto simp: MarkProcessed_def list_ex_iff split: if_splits intro!: step_webhook)

lemma step_GetTenantPlan: "GetTenantPlan v oss tid db = (r, db') \<Longrightarrow> accounts_step db db'"
proof -
  have "accounts_step db (downgrade v tid db)" by (auto simp: downgrade_def comp_def intro!: step_tenants)
  moreover assume "GetTenantPlan v oss tid db = (r, db')"
  ultimately show ?thesis
    by (auto simp: GetTenantPlan_def Let_def split: if_splits sum.splits list.splits prod.splits)
qed

lemma step_provision: "provision v b db = Inr (t, db') \<Longrightarrow> accounts_step db db'"
  by (auto simp: provision_def list_ex_iff split: if_splits option.splits
      intro!: accounts_step_trans [OF step_insert_tenant step_identity])

text \<open>The stages of a successful bootstrap.\<close>

lemma bootstrap_stages:
  assumes "BootstrapTenant v b db = (Inr (t, k, prov), db')"
  obtains cand db1 where "BKeyCandidate b = Some cand"
    "identity_join db (BProvider b) (BExternalID b) = [] \<and> provision v b db = Inr (t, db1) \<or>
     (\<exists>r rs. identity_join db (BProvider b) (BExternalID b) = r # rs \<and> t = view_tenant r \<and> db1 = db)"
    "(\<exists>ks. active_keys db1 (TenantIDOf t) = k # ks) \<and> db' = db1 \<and> \<not> prov \<or>
     active_keys db1 (TenantIDOf t) = [] \<and> prov \<and> insert_key v (cand\<lparr>KTenantID := TenantIDOf t\<rparr>) db1 = Some db' \<and>
       k = cand\<lparr>KTenantID := TenantIDOf t, KCreatedAt := pg_now v\<rparr>"
proof -
  obtain cand where c: "BKeyCandidate b = Some cand"
    using assms by (auto simp: BootstrapTenant_def split: if_splits option.splits)
  obtain found where f: "lookupTenantByExternalTx v db (BProvider b) (BExternalID b) = Inr found"
    using assms c by (auto simp: BootstrapTenant_def split: if_splits sum.splits)
  obtain t1 db1 where p: "(case found of Some t \<Rightarrow> Inr (t, db) | None \<Rightarrow> provision v b db) = Inr (t1, db1)"
    using assms c f by (auto simp: BootstrapTenant_def split: if_splits sum.splits)
  have t1: "t1 = t" using assms c f p
    by (auto simp: BootstrapTenant_def Let_def split: if_splits sum.splits option.splits)
  have j: "identity_join db (BProvider b) (BExternalID b) = [] \<and> provision v b db = Inr (t, db1) \<or>
     (\<exists>r rs. identity_join db (BProvider b) (BExternalID b) = r # rs \<and> t = view_tenant r \<and> db1 = db)"
    using f p t1 by (auto simp: lookupTenantByExternalTx_def split: if_splits list.splits)
  have k: "(\<exists>ks. active_keys db1 (TenantIDOf t) = k # ks) \<and> db' = db1 \<and> \<not> prov \<or>
     active_keys db1 (TenantIDOf t) = [] \<and> prov \<and> insert_key v (cand\<lparr>KTenantID := TenantIDOf t\<rparr>) db1 = Some db' \<and>
       k = cand\<lparr>KTenantID := TenantIDOf t, KCreatedAt := pg_now v\<rparr>"
    using assms c f p t1
    by (auto simp: BootstrapTenant_def firstActiveKeyTx_def Let_def split: if_splits sum.splits option.splits list.splits)
  show ?thesis by (rule that [OF c j k])
qed

lemma step_BootstrapTenant: "BootstrapTenant v b db = (r, db') \<Longrightarrow> accounts_step db db'"
proof (cases r)
  case (Inl err)
  moreover assume "BootstrapTenant v b db = (r, db')"
  ultimately have "db' = db"
    by (auto simp: BootstrapTenant_def Let_def split: if_splits sum.splits option.splits prod.splits)
  then show ?thesis by simp
next
  case (Inr x)
  moreover assume "BootstrapTenant v b db = (r, db')"
  ultimately obtain t k prov where "BootstrapTenant v b db = (Inr (t, k, prov), db')" by (cases x) auto
  then show ?thesis
  proof (rule bootstrap_stages)
    fix cand db1
    assume j: "identity_join db (BProvider b) (BExternalID b) = [] \<and> provision v b db = Inr (t, db1) \<or>
        (\<exists>r rs. identity_join db (BProvider b) (BExternalID b) = r # rs \<and> t = view_tenant r \<and> db1 = db)"
      and k: "(\<exists>ks. active_keys db1 (TenantIDOf t) = k # ks) \<and> db' = db1 \<and> \<not> prov \<or>
        active_keys db1 (TenantIDOf t) = [] \<and> prov \<and> insert_key v (cand\<lparr>KTenantID := TenantIDOf t\<rparr>) db1 = Some db' \<and>
          k = cand\<lparr>KTenantID := TenantIDOf t, KCreatedAt := pg_now v\<rparr>"
    have "accounts_step db db1" using j step_provision by auto
    moreover have "accounts_step db1 db'" using k step_insert_key by auto
    ultimately show ?thesis by (rule accounts_step_trans)
  qed
qed

section \<open>Runs of the store\<close>

text \<open>
  One call of the store, whatever its outcome.  Calls may run under different environments (clock,
  faults); the hash function is the same for all.  Re-anchoring, which rewrites the chain, is not
  among them.
\<close>

inductive store_step :: "hash_function \<Rightarrow> pgdb \<Rightarrow> pgdb \<Rightarrow> bool" for H where
  append: "AppendBatchChained v db tid es = (r, db') \<Longrightarrow> sha256 v = H \<Longrightarrow> jsonb_ok (jsonb v) \<Longrightarrow>
     \<forall>e \<in> set es. input_ok e \<Longrightarrow> store_step H db db'"
| create_tenant: "CreateTenant v t db = (r1, db') \<Longrightarrow> store_step H db db'"
| soft_delete: "SoftDeleteTenant v i db = (r2, db') \<Longrightarrow> store_step H db db'"
| rename: "UpdateTenantName v i name db = (r3, db') \<Longrightarrow> store_step H db db'"
| bootstrap: "BootstrapTenant v b db = (r4, db') \<Longrightarrow> store_step H db db'"
| create_key: "CreateKey v k db = (r5, db') \<Longrightarrow> store_step H db db'"
| revoke_key: "RevokeKey v tid i db = (r6, db') \<Longrightarrow> store_step H db db'"
| revoke_all: "RevokeAllKeys v tid db = (r7, db') \<Longrightarrow> store_step H db db'"
| webhook: "MarkProcessed v i src e db = (r8, db') \<Longrightarrow> store_step H db db'"
| plan: "GetTenantPlan v oss tid db = (r9, db') \<Longrightarrow> store_step H db db'"

inductive_cases store_stepE: "store_step H db db'"

definition store_inv :: "hash_function \<Rightarrow> pgdb \<Rightarrow> bool" where
  "store_inv H db = (wf_db db \<and> wf_accounts db \<and> (\<forall>t. chain_ok H GenesisHash (chain_rows db t)))"

lemma accounts_store_inv:
  assumes "accounts_step db db'" "store_inv H db"
  shows "store_inv H db'"
proof -
  have e: "audit_rows db' = audit_rows db" "audit_seq db' = audit_seq db" "tenants_kept db db'" "wf_accounts db'"
    using assms by (auto simp: accounts_step_def store_inv_def)
  have "list_ex (\<lambda>t. TID t = i) (tenant_rows db) \<Longrightarrow> list_ex (\<lambda>t. TID t = i) (tenant_rows db')" for i
    using e(3) by (auto simp: tenants_kept_def list_ex_iff) (metis image_iff subset_iff)
  with e assms(2) show ?thesis by (auto simp: store_inv_def wf_db_def wf_rows_def chain_rows_def)
qed

lemma append_tables:
  assumes "AppendBatchChained v db tid es = (r, db')" "wf_db db" "jsonb_ok (jsonb v)" "\<forall>e \<in> set es. input_ok e"
  shows "(\<exists>rs. audit_rows db' = audit_rows db @ rs) \<and> db' = db\<lparr>audit_rows := audit_rows db', audit_seq := audit_seq db'\<rparr>"
proof (cases r)
  case (Inl err)
  then obtain s where "db' = db\<lparr>audit_seq := s\<rparr>" using append_err assms(1,2) by blast
  then show ?thesis by simp
next
  case (Inr out)
  then obtain rs where "appended v tid es db db' rs" using append_ok assms by blast
  then show ?thesis unfolding appended_def by - (elim conjE, intro conjI exI, assumption+)
qed

lemma step_keeps:
  assumes "store_step H db db'" "store_inv H db"
  shows "store_inv H db' \<and> (\<exists>rs. audit_rows db' = audit_rows db @ rs) \<and> keys_kept db db'"
proof -
  have acc: ?thesis if "accounts_step db db'"
    using that accounts_store_inv [OF that assms(2)] by (simp add: accounts_step_def)
  show ?thesis
    using assms(1)
  proof cases
    case (append v tid es r)
    have wf: "wf_db db" using assms(2) by (simp add: store_inv_def)
    note t = append_tables [OF append(1) wf append(3,4)]
    have keep: "key_rows db' = key_rows db" "tenant_rows db' = tenant_rows db" "identity_rows db' = identity_rows db"
        "webhook_rows db' = webhook_rows db"
      by (subst t [THEN conjunct2], simp)+
    have "key_ok db' = key_ok db" by (simp add: fun_eq_iff key_ok_def keep)
    then have "wf_accounts db'" using assms(2) by (simp add: store_inv_def wf_accounts_def keep)
    moreover have "wf_db db' \<and> (\<forall>t. chain_ok H GenesisHash (chain_rows db' t))"
      using append_keeps [OF append(1) wf append(3,4)] assms(2) append(2) by (simp add: store_inv_def chained_def)
    ultimately show ?thesis
      using t keys_kept_same [of db' db "[]"] keep(1) by (simp add: store_inv_def)
  qed (rule acc, (erule step_tenant_ops step_key_ops step_MarkProcessed step_GetTenantPlan step_BootstrapTenant))+
qed

text \<open>
  C32.  Along every run of the store - appends, tenant, key, webhook, plan and bootstrap calls in any
  order and with any failures - the constraints and all hash chains stay intact, the audit log only
  grows at its end, and no key changes except that an active one may become revoked: a revoked key
  stays revoked for ever.
\<close>

theorem store_run_safe:
  assumes "(store_step H)\<^sup>*\<^sup>* db db'" "store_inv H db"
  shows "store_inv H db' \<and> (\<exists>rs. audit_rows db' = audit_rows db @ rs) \<and> keys_kept db db'"
  using assms(1)
proof (induction rule: rtranclp_induct)
  case base
  then show ?case using assms(2) keys_kept_same [of db db "[]"] by simp
next
  case (step b c)
  then obtain rs where rs: "store_inv H b" "audit_rows b = audit_rows db @ rs" "keys_kept db b" by blast
  from step_keeps [OF step(2) rs(1)] obtain rs' where
      "store_inv H c" "audit_rows c = audit_rows b @ rs'" "keys_kept b c" by blast
  then show ?case using rs keys_kept_trans by (metis append_assoc)
qed

text \<open>The sample installation with a plan and a candidate key.\<close>

definition account_db :: pgdb where
  "account_db = sample_db\<lparr>plan_rows := [oss_plan]\<rparr>"

definition sample_key :: api_key where
  "sample_key = \<lparr>KID = ''k1'', KTenantID = ''t'', KHash = ''h1'', KScope = ''write'', KLabel = [], KCreatedAt = 0, KRevokedAt = None\<rparr>"

lemma account_inv: "store_inv H account_db" "wf_accounts account_db"
  using sample_wf by (auto simp: store_inv_def account_db_def sample_db_def wf_db_def wf_rows_def wf_accounts_def chain_rows_def)

theorem store_run_safe_witness:
  "keys_kept (snd (CreateKey sample_env sample_key account_db))
     (snd (RevokeKey sample_env ''t'' ''k1'' (snd (CreateKey sample_env sample_key account_db))))"
proof -
  let ?a = "snd (CreateKey sample_env sample_key account_db)"
  have "store_step (sha256 sample_env) account_db ?a" by (rule create_key [OF prod.collapse [symmetric]])
  then have i: "store_inv (sha256 sample_env) ?a" using step_keeps account_inv(1) by blast
  have "store_step (sha256 sample_env) ?a (snd (RevokeKey sample_env ''t'' ''k1'' ?a))"
    by (rule revoke_key [OF prod.collapse [symmetric]])
  then show ?thesis using store_run_safe [OF r_into_rtranclp i] by blast
qed

section \<open>Bootstrap\<close>

lemma sort_key_Nil: "sort_key f xs = [] \<longleftrightarrow> xs = []"
  by (metis length_0_conv length_sort)

lemma identity_join_provisioned:
  assumes "provision v b db = Inr (t, db1)" "wf_accounts db" "identity_join db (BProvider b) (BExternalID b) = []"
  shows "\<exists>r. identity_join db1 (BProvider b) (BExternalID b) = [r] \<and> t = view_tenant r \<and> key_rows db1 = key_rows db"
proof -
  let ?r = "new_tenant_row v (BTenantID b) (BTenantName b)" and ?k = "(BProvider b, BExternalID b)"
  have db1: "db1 = db\<lparr>tenant_rows := tenant_rows db @ [?r], identity_rows := identity_rows db @ [(?k, BTenantID b)]\<rparr>"
    and t: "t = view_tenant ?r" and n: "\<not> list_ex (\<lambda>t. TID t = BTenantID b) (tenant_rows db)"
      "\<not> list_ex (\<lambda>m. fst m = ?k) (identity_rows db)"
    using assms(1) by (auto simp: provision_def insert_tenant_def split: if_splits option.splits)
  have old: "\<not> list_ex (\<lambda>m. fst m = ?k \<and> snd m = TID x) (identity_rows db)" for x
    using n(2) by (auto simp: list_ex_iff)
  have "filter (\<lambda>x. list_ex (\<lambda>m. fst m = ?k \<and> snd m = TID x) (identity_rows db) \<or> BTenantID b = TID x)
      (tenant_rows db) = []"
    using n(1) old by (intro filter_none) (auto simp: list_ex_iff)
  then have "identity_join db1 (BProvider b) (BExternalID b) = [?r]"
    by (simp add: identity_join_def db1 new_tenant_row_def)
  then show ?thesis using t db1 by auto
qed

lemma active_keys_insert:
  assumes "insert_key v c db = Some db'" "active_keys db (KTenantID c) = []"
  shows "active_keys db' (KTenantID c) = [stored_key v c]"
proof -
  have "filter (\<lambda>k. KTenantID k = KTenantID c \<and> active_key k) (key_rows db) = []"
    using assms(2) by (simp only: active_keys_def sort_key_Nil)
  moreover have "key_rows db' = key_rows db @ [stored_key v c]"
    using assms(1) by (auto simp: insert_key_def split: if_splits)
  ultimately show ?thesis by (simp add: active_keys_def stored_key_def active_key_def)
qed

text \<open>
  Bootstrap is idempotent: once it has succeeded for an external identity, calling it again -
  with any candidates - returns the same tenant and the same stored key without provisioning, and
  writes nothing, if the database answers.  So an identity never gets two tenants or two default keys.
\<close>

theorem bootstrap_idempotent:
  assumes "BootstrapTenant v b db = (Inr (t, k, prov), db')" "wf_accounts db"
    and "BProvider b' = BProvider b" "BExternalID b' = BExternalID b" "BKeyCandidate b' \<noteq> None"
    and "\<forall>site i. \<not> fault v' site i"
  shows "BootstrapTenant v' b' db' = (Inr (t, hd (active_keys db' (TenantIDOf t)), False), db') \<and>
    KID (hd (active_keys db' (TenantIDOf t))) = KID k"
proof -
  have req: "BProvider b \<noteq> ''''" "BExternalID b \<noteq> ''''"
    using assms(1) by (auto simp: BootstrapTenant_def split: if_splits)
  obtain c' where c': "BKeyCandidate b' = Some c'" using assms(5) by blast
  obtain cand db1 where st: "identity_join db (BProvider b) (BExternalID b) = [] \<and> provision v b db = Inr (t, db1) \<or>
      (\<exists>r rs. identity_join db (BProvider b) (BExternalID b) = r # rs \<and> t = view_tenant r \<and> db1 = db)"
      "(\<exists>ks. active_keys db1 (TenantIDOf t) = k # ks) \<and> db' = db1 \<and> \<not> prov \<or>
       active_keys db1 (TenantIDOf t) = [] \<and> prov \<and> insert_key v (cand\<lparr>KTenantID := TenantIDOf t\<rparr>) db1 = Some db' \<and>
         k = cand\<lparr>KTenantID := TenantIDOf t, KCreatedAt := pg_now v\<rparr>"
    by (rule bootstrap_stages [OF assms(1)])
  obtain r rs where r: "identity_join db1 (BProvider b) (BExternalID b) = r # rs" "t = view_tenant r"
    using st(1) identity_join_provisioned [OF _ assms(2)] by blast
  have ij: "identity_join db' p e = identity_join db1 p e" for p e
    using st(2) by (auto simp: identity_join_def insert_key_def split: if_splits)
  obtain k1 ks where k1: "active_keys db' (TenantIDOf t) = k1 # ks" "KID k1 = KID k"
  proof (cases prov)
    case False
    with st(2) that show ?thesis by auto
  next
    case True
    with st(2) have "active_keys db' (TenantIDOf t) = [stored_key v (cand\<lparr>KTenantID := TenantIDOf t\<rparr>)]"
      using active_keys_insert [of v "cand\<lparr>KTenantID := TenantIDOf t\<rparr>" db1 db'] by simp
    with st(2) True that show ?thesis by (simp add: stored_key_def)
  qed
  show ?thesis
    using req c' r k1 assms(3,4,6)
    by (simp add: BootstrapTenant_def lookupTenantByExternalTx_def firstActiveKeyTx_def ij)
qed

lemma revoke_none:
  assumes "\<And>k. P k \<Longrightarrow> Q k \<and> active_key k"
  shows "filter P (key_rows (revoke v Q db)) = []"
proof -
  let ?f = "\<lambda>k. if Q k \<and> active_key k then k\<lparr>KRevokedAt := Some (pg_now v)\<rparr> else k"
  have "\<not> P (?f k)" for k using assms [of "?f k"] by (cases "Q k \<and> active_key k") (auto simp: active_key_def)
  then have "filter P (map ?f ks) = []" for ks by (induction ks) simp_all
  then show ?thesis by (simp add: revoke_def)
qed

definition sample_bootstrap :: bootstrap_input where
  "sample_bootstrap = \<lparr>BProvider = ''clerk_org'', BExternalID = ''o'', BTenantID = ''t2'', BTenantName = ''N'', BKeyCandidate = Some sample_key\<rparr>"

theorem bootstrap_idempotent_witness:
  "let db' = snd (BootstrapTenant sample_env sample_bootstrap account_db)
   in snd (BootstrapTenant sample_env sample_bootstrap db') = db' \<and> length (tenant_rows db') = 2 \<and> length (key_rows db') = 1"
proof -
  let ?r = "BootstrapTenant sample_env sample_bootstrap account_db"
  have "\<not> isl (fst ?r)" "length (tenant_rows (snd ?r)) = 2" "length (key_rows (snd ?r)) = 1" by code_simp+
  then obtain t k prov where r: "?r = (Inr (t, k, prov), snd ?r)"
    by (metis isl_def sum.exhaust_sel prod.collapse)
  have "BKeyCandidate sample_bootstrap \<noteq> None" by (simp add: sample_bootstrap_def)
  moreover have "\<forall>site i. \<not> fault sample_env site i" using sample_healthy by (simp add: healthy_def)
  ultimately have "snd (BootstrapTenant sample_env sample_bootstrap (snd ?r)) = snd ?r"
    using bootstrap_idempotent [OF r account_inv(2) refl refl] by simp
  then show ?thesis
    using \<open>length (tenant_rows (snd ?r)) = 2\<close> \<open>length (key_rows (snd ?r)) = 1\<close> by (simp add: Let_def)
qed

lemma revoked_key_found:
  assumes "wf_accounts db" "\<forall>site i. \<not> fault v site i" "RevokeKey v tid i db = (Inr (), db')"
  shows "\<exists>k. GetKeyByID v db' i = Inr k \<and> KTenantID k = tid \<and> KRevokedAt k \<noteq> None"
proof -
  have db': "db' = revoke v (\<lambda>k. KID k = i \<and> KTenantID k = tid) db"
    and "filter (\<lambda>k. KID k = i \<and> KTenantID k = tid \<and> active_key k) (key_rows db) \<noteq> []"
    using assms(3) by (auto simp: RevokeKey_def Let_def split: if_splits)
  then obtain k where k: "k \<in> set (key_rows db)" "KID k = i" "KTenantID k = tid" "active_key k"
    by (auto simp: filter_empty_conv)
  let ?f = "\<lambda>x. if (KID x = i \<and> KTenantID x = tid) \<and> active_key x then x\<lparr>KRevokedAt := Some (pg_now v)\<rparr> else x"
  have "inj_on KID (set (key_rows db))" "distinct (key_rows db)"
    using assms(1) by (simp_all add: wf_accounts_def distinct_map)
  then have "filter (\<lambda>x. KID x = i) (key_rows db) = [k]"
    using k by (intro distinct_filter_single) (auto simp: inj_on_def)
  moreover have "filter (\<lambda>x. KID x = i) (map ?f ks) = map ?f (filter (\<lambda>x. KID x = i) ks)" for ks
    by (induction ks) auto
  ultimately have "filter (\<lambda>x. KID x = i) (key_rows db') = [k\<lparr>KRevokedAt := Some (pg_now v)\<rparr>]"
    using k by (simp add: db' revoke_def)
  then show ?thesis using assms(2) k by (simp add: GetKeyByID_def)
qed

text \<open>
  Revoking a key is effective and final: after \<open>RevokeKey\<close> succeeds the key is found revoked and
  revoking it again reports that there is no such active key; after \<open>RevokeAllKeys\<close> the tenant has no
  active key.
\<close>

theorem revocation_effective:
  assumes "wf_accounts db" "\<forall>site i. \<not> fault v site i"
  shows "(RevokeKey v tid i db = (Inr (), db') \<longrightarrow>
      (\<exists>k. GetKeyByID v db' i = Inr k \<and> KTenantID k = tid \<and> KRevokedAt k \<noteq> None) \<and>
      RevokeKey v tid i db' = (Inl (NotFound ''api_key'' i), db')) \<and>
    (RevokeAllKeys v tid db = (Inr (), db'') \<longrightarrow> active_keys db'' tid = [])"
proof (intro conjI impI)
  assume r: "RevokeKey v tid i db = (Inr (), db')"
  then show "\<exists>k. GetKeyByID v db' i = Inr k \<and> KTenantID k = tid \<and> KRevokedAt k \<noteq> None"
    by (rule revoked_key_found [OF assms])
  have "db' = revoke v (\<lambda>k. KID k = i \<and> KTenantID k = tid) db"
    using r by (auto simp: RevokeKey_def Let_def split: if_splits)
  then have "filter (\<lambda>k. KID k = i \<and> KTenantID k = tid \<and> active_key k) (key_rows db') = []"
    by (simp add: revoke_none)
  then show "RevokeKey v tid i db' = (Inl (NotFound ''api_key'' i), db')"
    using assms(2) by (simp add: RevokeKey_def)
next
  assume "RevokeAllKeys v tid db = (Inr (), db'')"
  then have "db'' = revoke v (\<lambda>k. KTenantID k = tid) db" by (auto simp: RevokeAllKeys_def split: if_splits)
  then have "filter (\<lambda>k. KTenantID k = tid \<and> active_key k) (key_rows db'') = []"
    using revoke_none [of "\<lambda>k. KTenantID k = tid \<and> active_key k"] by simp
  then show "active_keys db'' tid = []" by (simp add: active_keys_def)
qed

theorem revocation_effective_witness:
  "\<exists>k. GetKeyByID sample_env (snd (RevokeKey sample_env ''t'' ''k1'' (account_db\<lparr>key_rows := [sample_key]\<rparr>))) ''k1'' = Inr k \<and>
       KRevokedAt k \<noteq> None"
proof -
  let ?db = "account_db\<lparr>key_rows := [sample_key]\<rparr>"
  have w: "wf_accounts ?db"
    by (auto simp: wf_accounts_def key_ok_def account_db_def sample_db_def sample_key_def sample_tenant_def Scope_IsValid_def ScopeWrite_def)
  have "fst (RevokeKey sample_env ''t'' ''k1'' ?db) = Inr ()" by code_simp
  then have "RevokeKey sample_env ''t'' ''k1'' ?db = (Inr (), snd (RevokeKey sample_env ''t'' ''k1'' ?db))"
    by (metis prod.collapse)
  moreover have "\<forall>site i. \<not> fault sample_env site i" using sample_healthy by (simp add: healthy_def)
  ultimately show ?thesis using revocation_effective [OF w] by blast
qed

end
