(* ===== verification/Outbox_Safety.thy ===== *)
theory Outbox_Safety
  imports Outbox Tenant_Accounts
begin

text \<open>
  The outbox as a state machine.  A state is the world together with the rows workers hold; steps
  are enqueuing, claiming, processing a held row, losing one (a crash), resetting stale rows and
  appends by other callers, in any order, each with its own environment.  \<open>outbox_inv\<close> holds in
  every reachable state: receipts that say \<open>committed\<close> tell the truth, rows that are still to be
  processed have attempts left.
\<close>

section \<open>Decoding keeps identifiers and well-formedness\<close>

definition float_ok :: "(string \<Rightarrow> string option) \<Rightarrow> bool" where
  "float_ok fl = (\<forall>s t. fl s = Some t \<longrightarrow> valid_number s \<longrightarrow> valid_number t)"

lemma float_json_wf:
  assumes "float_ok fl"
  shows "float_json fl j = Some j' \<Longrightarrow> wf_json j \<Longrightarrow> wf_json j'"
    and "float_items fl js = Some js' \<Longrightarrow> list_all wf_json js \<Longrightarrow> list_all wf_json js'"
    and "float_fields fl kvs = Some kvs' \<Longrightarrow> list_all (\<lambda>(k, v). valid_utf8 k \<and> wf_json v) kvs \<Longrightarrow>
      list_all (\<lambda>(k, v). valid_utf8 k \<and> wf_json v) kvs' \<and> map fst kvs' = map fst kvs"
  using assms
  by (induction fl j and fl js and fl kvs arbitrary: j' and js' and kvs'
      rule: float_json_float_items_float_fields.induct)
    (auto simp: float_ok_def split: option.splits)

lemma decode_event_keeps:
  assumes "decode_event fl e = Some d"
  shows "ID d = ID e" "Timestamp d = Timestamp e"
  using assms by (auto simp: decode_event_def split: option.splits)

lemma decode_event_input_ok:
  assumes "decode_event fl e = Some d" "float_ok fl" "input_ok e"
  shows "input_ok d"
proof (cases "Metadata e")
  case None
  with assms show ?thesis by (simp add: decode_event_def)
next
  case (Some m)
  with assms(1) obtain n where n: "float_fields fl m = Some n" "d = e\<lparr>Metadata := Some n\<rparr>"
    by (auto simp: decode_event_def)
  then show ?thesis
    using float_json_wf(3) [OF assms(2) n(1)] assms(3) Some by (simp add: input_ok_def)
qed

lemma map_result_list_all2: "map_result f xs = Some ys \<Longrightarrow> list_all2 (\<lambda>x y. f x = Some y) xs ys"
  by (induction xs arbitrary: ys) (auto split: option.splits)

lemma DecodePayload_ids:
  assumes "DecodePayload fl es = Some ds"
  shows "map ID ds = map ID es"
  using map_result_list_all2 [OF assms [unfolded DecodePayload_def]]
  by (induction rule: list_all2_induct) (simp_all add: decode_event_keeps)

lemma DecodePayload_input_ok:
  assumes "DecodePayload fl es = Some ds" "float_ok fl" "\<forall>e \<in> set es. input_ok e"
  shows "\<forall>d \<in> set ds. input_ok d"
  using map_result_list_all2 [OF assms(1) [unfolded DecodePayload_def]] assms(3)
  by (induction rule: list_all2_induct) (auto intro: decode_event_input_ok [OF _ assms(2)])

lemma payload_event_input_ok:
  assumes "payload_event v e = Some d" "jsonb_ok (jsonb v)" "input_ok e"
  shows "input_ok d"
proof -
  obtain md where md: "store_metadata v (Metadata e) = Some md" "Metadata d = md" "Timestamp d = Timestamp e"
    using assms(1) by (auto simp: payload_event_def split: if_splits option.splits)
  have "wf_json (JObj (case md of None \<Rightarrow> [] | Some m \<Rightarrow> m))"
  proof (cases "Metadata e")
    case None
    with md(1) show ?thesis by (auto simp: store_metadata_def)
  next
    case (Some m)
    then have wf: "wf_json (JObj m)" using assms(3) by (simp add: input_ok_def)
    obtain m' n where m': "redecode (JObj m) = Some (JObj m')" "jsonb v m' = Some n" "md = Some n"
      using md(1) Some by (auto simp: store_metadata_def split: option.splits json.splits)
    have "wf_json (JObj m')" using redecode_sound [OF wf] m'(1) by auto
    then show ?thesis using assms(2) m' unfolding jsonb_ok_def by fastforce
  qed
  then show ?thesis using md assms(3) by (simp add: input_ok_def)
qed

lemma payload_of_input_ok:
  assumes "payload_of v es = Some pl" "jsonb_ok (jsonb v)" "\<forall>e \<in> set es. input_ok e"
  shows "\<forall>e \<in> set pl. input_ok e"
  using map_result_list_all2 [OF assms(1) [unfolded payload_of_def]] assms(3)
  by (induction rule: list_all2_induct) (auto intro: payload_event_input_ok [OF _ assms(2)])

section \<open>Committing\<close>

abbreviation chain_ids :: "pgdb \<Rightarrow> string \<Rightarrow> string set" where
  "chain_ids db t \<equiv> ID ` set (chain_rows db t)"

definition log_ok :: "hash_function \<Rightarrow> pgdb \<Rightarrow> bool" where
  "log_ok H db = (wf_db db \<and> (\<forall>t. chain_ok H GenesisHash (chain_rows db t)))"

lemma append_log:
  assumes "AppendBatchChained v db tid es = (r, db')" "log_ok (sha256 v) db" "jsonb_ok (jsonb v)" "\<forall>e \<in> set es. input_ok e"
  shows "log_ok (sha256 v) db' \<and> (\<forall>t. chain_ids db t \<subseteq> chain_ids db' t) \<and>
    (\<forall>out. r = Inr out \<longrightarrow> map ID out = map ID es \<and> ID ` set es \<subseteq> chain_ids db' tid)"
proof -
  have wf: "wf_db db" using assms(2) by (simp add: log_ok_def)
  have l: "log_ok (sha256 v) db'"
    using append_keeps [OF assms(1) wf assms(3,4)] assms(2) by (simp add: log_ok_def chained_def)
  obtain rs where "audit_rows db' = audit_rows db @ rs"
    using append_tables [OF assms(1) wf assms(3,4)] by (elim conjE exE)
  then have m: "\<forall>t. chain_ids db t \<subseteq> chain_ids db' t" by (auto simp: chain_rows_set)
  have "map ID out = map ID es \<and> ID ` set es \<subseteq> chain_ids db' tid" if r: "r = Inr out" for out
  proof -
    have run: "AppendBatchChained v db tid es = (Inr out, db')" using assms(1) r by simp
    obtain rs where "appended v tid es db db' rs" using append_ok [OF run wf assms(3,4)] by (elim exE)
    from appended_ids(2) [OF this] show ?thesis using append_out_ids [OF run wf] by (intro conjI)
  qed
  with l m show ?thesis by blast
qed

lemma commit_log:
  assumes "CommitBatch (pg_repository v :: (pgdb, verify_result) repository) tid es db = (r, db')"
    and "log_ok (sha256 v) db" "jsonb_ok (jsonb v)" "\<forall>e \<in> set es. input_ok e"
  shows "log_ok (sha256 v) db' \<and> (\<forall>t. chain_ids db t \<subseteq> chain_ids db' t) \<and>
    (\<forall>out. r = Inr out \<longrightarrow> map ID out = map ID es \<and> ID ` set es \<subseteq> chain_ids db' tid)"
proof (cases "es = []")
  case True
  with assms(1,2) show ?thesis by (auto simp: CommitBatch_def)
next
  case False
  with assms(1) have "AppendBatchChained v db tid es = (r, db')" by (simp add: CommitBatch_def pg_repository_def)
  from append_log [OF this assms(2-4)] show ?thesis .
qed

section \<open>The state machine\<close>

inductive outbox_step :: "hash_function \<Rightarrow> worker_config \<Rightarrow> world \<times> row list \<Rightarrow> world \<times> row list \<Rightarrow> bool" for H cfg where
  enqueue: "Enqueue v w tid rid es res = (r, w') \<Longrightarrow> jsonb_ok (jsonb v) \<Longrightarrow> \<forall>e \<in> set es. input_ok e \<Longrightarrow>
     outbox_step H cfg (w, held) (w', held)"
| claim: "ClaimPending v n w = (Inr rows, w') \<Longrightarrow> outbox_step H cfg (w, held) (w', held @ rows)"
| claim_failed: "ClaimPending v n w = (Inl err, w') \<Longrightarrow> outbox_step H cfg (w, held) (w', held)"
| handle: "rw \<in> set held \<Longrightarrow> sha256 v = H \<Longrightarrow> jsonb_ok (jsonb v) \<Longrightarrow>
     outbox_step H cfg (w, held) (processRow v cfg rw w, remove1 rw held)"
| crash: "outbox_step H cfg (w, held) (w, remove1 rw held)"
| reset: "ResetStaleProcessing v d w = (n, w') \<Longrightarrow> outbox_step H cfg (w, held) (w', held)"
| other_append: "AppendBatchChained v (store w) tid es = (r2, db') \<Longrightarrow> sha256 v = H \<Longrightarrow> jsonb_ok (jsonb v) \<Longrightarrow>
     \<forall>e \<in> set es. input_ok e \<Longrightarrow> outbox_step H cfg (w, held) (w\<lparr>store := db'\<rparr>, held)"

text \<open>The columns of a row that never change.\<close>

definition static :: "outbox_row \<Rightarrow> string \<times> string \<times> string \<times> audit_event list" where
  "static ob = (OID ob, OReceiptID ob, OTenantID ob, OPayload ob)"

definition held_static :: "row \<Rightarrow> string \<times> string \<times> string \<times> audit_event list" where
  "held_static rw = (RowID rw, RowReceiptID rw, RowTenantID rw, RowPayload rw)"

definition receipt_key :: "receipt \<Rightarrow> string \<times> string" where
  "receipt_key r = (RID r, RTenantID r)"

definition shape_ok :: "(string \<times> string \<times> string \<times> audit_event list) list \<Rightarrow> (string \<times> string) list \<Rightarrow> bool" where
  "shape_ok S K =
     (distinct (map fst S) \<and> distinct (map fst K) \<and>
      (\<forall>(i, rid, tid, pl) \<in> set S. i = ''obx_'' @ rid \<and> (rid, tid) \<in> set K \<and> (\<forall>e \<in> set pl. input_ok e)))"

definition held_ok :: "worker_config \<Rightarrow> (string \<times> string \<times> string \<times> audit_event list) list \<Rightarrow> row list \<Rightarrow> bool" where
  "held_ok cfg S held = (\<forall>rw \<in> set held. held_static rw \<in> set S \<and> RowAttempts rw < MaxAttempts cfg)"

definition receipt_true :: "pgdb \<Rightarrow> receipt \<Rightarrow> bool" where
  "receipt_true db r = (RStatus r = ''committed'' \<longrightarrow> set (REventIDs r) \<subseteq> chain_ids db (RTenantID r))"

definition row_true :: "worker_config \<Rightarrow> pgdb \<Rightarrow> outbox_row \<Rightarrow> bool" where
  "row_true cfg db ob =
     ((OStatus ob = ''done'' \<longrightarrow> ID ` set (OPayload ob) \<subseteq> chain_ids db (OTenantID ob)) \<and>
      (OStatus ob = ''pending'' \<or> OStatus ob = ''processing'' \<longrightarrow> OAttempts ob < MaxAttempts cfg))"

definition outbox_inv :: "hash_function \<Rightarrow> worker_config \<Rightarrow> world \<times> row list \<Rightarrow> bool" where
  "outbox_inv H cfg s = (case s of (w, held) \<Rightarrow>
     log_ok H (store w) \<and> shape_ok (map static (outbox w)) (map receipt_key (receipts w)) \<and>
     held_ok cfg (map static (outbox w)) held \<and>
     list_all (receipt_true (store w)) (receipts w) \<and> list_all (row_true cfg (store w)) (outbox w))"

lemma truth_mono:
  assumes "\<forall>t. chain_ids db t \<subseteq> chain_ids db' t"
  shows "receipt_true db r \<Longrightarrow> receipt_true db' r" "row_true cfg db ob \<Longrightarrow> row_true cfg db' ob"
  using assms unfolding receipt_true_def row_true_def by blast+

lemma static_update:
  "\<forall>ob. static (f ob) = static ob \<Longrightarrow> map static (outbox (update_outbox i f w)) = map static (outbox w)"
  by (simp add: update_outbox_def)

lemma key_update:
  "\<forall>r. receipt_key (f r) = receipt_key r \<Longrightarrow> map receipt_key (receipts (update_receipt i f w)) = map receipt_key (receipts w)"
  by (simp add: update_receipt_def)

lemma update_sel [simp]:
  "store (update_outbox i f w) = store w" "receipts (update_outbox i f w) = receipts w"
  "store (update_receipt i g w) = store w" "outbox (update_receipt i g w) = outbox w"
  by (simp_all add: update_outbox_def update_receipt_def)

text \<open>One update of the tables by the worker, and what it needs to keep the invariant.\<close>

lemma inv_update:
  assumes inv: "outbox_inv H cfg (w, held)" and l: "log_ok H (store w')"
    and m: "\<forall>t. chain_ids (store w) t \<subseteq> chain_ids (store w') t"
    and S: "map static (outbox w') = map static (outbox w)" and K: "map receipt_key (receipts w') = map receipt_key (receipts w)"
    and R: "\<And>r. r \<in> set (receipts w') \<Longrightarrow> r \<in> set (receipts w) \<or> receipt_true (store w') r"
    and O: "\<And>ob. ob \<in> set (outbox w') \<Longrightarrow> ob \<in> set (outbox w) \<or> row_true cfg (store w') ob"
    and h: "set held' \<subseteq> set held"
  shows "outbox_inv H cfg (w', held')"
proof -
  have old: "list_all (receipt_true (store w)) (receipts w)" "list_all (row_true cfg (store w)) (outbox w)"
    using inv by (simp_all add: outbox_inv_def)
  have "list_all (receipt_true (store w')) (receipts w')"
    using R old(1) truth_mono(1) [OF m] unfolding list_all_iff by blast
  moreover have "list_all (row_true cfg (store w')) (outbox w')"
    using O old(2) truth_mono(2) [OF m] unfolding list_all_iff by blast
  moreover have "held_ok cfg (map static (outbox w)) held'"
    using inv h by (auto simp: outbox_inv_def held_ok_def)
  ultimately show ?thesis using inv l by (simp add: outbox_inv_def S K)
qed

lemma mem_update_outbox: "ob \<in> set (outbox (update_outbox i f w)) \<Longrightarrow> ob \<in> set (outbox w) \<or> (\<exists>x. OID x = i \<and> x \<in> set (outbox w) \<and> ob = f x)"
  by (auto simp: update_outbox_def split: if_splits)

lemma mem_update_receipt: "r \<in> set (receipts (update_receipt i f w)) \<Longrightarrow> r \<in> set (receipts w) \<or> (\<exists>x. RID x = i \<and> x \<in> set (receipts w) \<and> r = f x)"
  by (auto simp: update_receipt_def split: if_splits)

lemma MarkRetry_inv:
  assumes inv: "outbox_inv H cfg (w0, held)" and l: "log_ok H (store w)"
    and m: "\<forall>t. chain_ids (store w0) t \<subseteq> chain_ids (store w) t"
    and same: "outbox w = outbox w0" "receipts w = receipts w0"
    and h: "set held' \<subseteq> set held"
  shows "outbox_inv H cfg (snd (MarkRetry v i rid a (MaxAttempts cfg) err d w), held')"
proof -
  have unchanged: "outbox_inv H cfg (w, held')"
    by (rule inv_update [OF inv l m _ _ _ _ h]) (simp_all add: same)
  let ?failed = "update_receipt rid (\<lambda>r. r\<lparr>RStatus := ''failed'', RErrorMessage := Some err\<rparr>)
      (update_outbox i (\<lambda>ob. ob\<lparr>OStatus := ''failed'', OProcessedAt := Some (pg_now v), OErrorMessage := Some err, OAttempts := a\<rparr>) w)"
  let ?retry = "update_outbox i (\<lambda>ob. ob\<lparr>OStatus := ''pending'', OAttempts := a,
      OAvailableAt := Truncate (now v + d) Microsecond, OErrorMessage := Some err\<rparr>) w"
  have failed: "outbox_inv H cfg (?failed, held')"
  proof (rule inv_update [OF inv _ _ _ _ _ _ h])
    show "map static (outbox ?failed) = map static (outbox w0)"
      by (simp add: update_sel(4) static_update static_def same)
    show "map receipt_key (receipts ?failed) = map receipt_key (receipts w0)"
      by (subst key_update) (simp_all add: receipt_key_def same)
    show "r \<in> set (receipts w0) \<or> receipt_true (store ?failed) r" if "r \<in> set (receipts ?failed)" for r
      using mem_update_receipt [OF that] by (auto simp: same receipt_true_def)
    show "ob \<in> set (outbox w0) \<or> row_true cfg (store ?failed) ob" if "ob \<in> set (outbox ?failed)" for ob
      using mem_update_outbox [OF that [unfolded update_sel(4)]] by (auto simp: same row_true_def)
  qed (use l m in simp_all)
  have retry: "outbox_inv H cfg (?retry, held')" if a: "\<not> MaxAttempts cfg \<le> a"
  proof (rule inv_update [OF inv _ _ _ _ _ _ h])
    show "map static (outbox ?retry) = map static (outbox w0)" by (simp add: static_update static_def same)
    show "ob \<in> set (outbox w0) \<or> row_true cfg (store ?retry) ob" if "ob \<in> set (outbox ?retry)" for ob
      using mem_update_outbox [OF that] a by (auto simp: same row_true_def)
  qed (use l m in \<open>simp_all add: same\<close>)
  show ?thesis using unchanged failed retry by (simp add: MarkRetry_def)
qed

lemma MarkCommitted_inv:
  assumes inv: "outbox_inv H cfg (w0, held)" and l: "log_ok H (store w)"
    and m: "\<forall>t. chain_ids (store w0) t \<subseteq> chain_ids (store w) t"
    and same: "outbox w = outbox w0" "receipts w = receipts w0"
    and s: "(i, rid, tid, pl) \<in> set (map static (outbox w0))" and ids: "ID ` set pl \<subseteq> chain_ids (store w) tid" "set is = ID ` set pl"
    and h: "set held' \<subseteq> set held"
  shows "outbox_inv H cfg (snd (MarkCommitted v i rid is w), held')"
proof -
  have unchanged: "outbox_inv H cfg (w, held')"
    by (rule inv_update [OF inv l m _ _ _ _ h]) (simp_all add: same)
  let ?w1 = "update_outbox i (\<lambda>ob. ob\<lparr>OStatus := ''done'', OProcessedAt := Some (pg_now v)\<rparr>) w"
  let ?w2 = "update_receipt rid (\<lambda>r. r\<lparr>RStatus := ''committed'', REventIDs := is, RCommittedAt := Some (pg_now v)\<rparr>) ?w1"
  have sh: "distinct (map fst (map static (outbox w0)))" "distinct (map fst (map receipt_key (receipts w0)))"
      "(rid, tid) \<in> set (map receipt_key (receipts w0))"
    using inv s by (auto simp: outbox_inv_def shape_ok_def)
  have tid: "RTenantID r = tid" if "r \<in> set (receipts w0)" "RID r = rid" for r
    using eq_key_imp_eq_value [OF sh(2) _ sh(3), of "RTenantID r"] that by (auto simp: receipt_key_def)
  have own: "OTenantID ob = tid \<and> OPayload ob = pl" if "ob \<in> set (outbox w0)" "OID ob = i" for ob
    using eq_key_imp_eq_value [OF sh(1) _ s, of "snd (static ob)"] that by (auto simp: static_def)
  have "outbox_inv H cfg (?w2, held')"
  proof (rule inv_update [OF inv _ _ _ _ _ _ h])
    show "map static (outbox ?w2) = map static (outbox w0)" by (simp add: static_update static_def same)
    show "map receipt_key (receipts ?w2) = map receipt_key (receipts w0)"
      by (subst key_update) (simp_all add: receipt_key_def same)
    show "r \<in> set (receipts w0) \<or> receipt_true (store ?w2) r" if "r \<in> set (receipts ?w2)" for r
      using mem_update_receipt [OF that]
    proof (elim disjE exE conjE)
      fix x
      assume x: "RID x = rid" "x \<in> set (receipts ?w1)" "r = x\<lparr>RStatus := ''committed'', REventIDs := is, RCommittedAt := Some (pg_now v)\<rparr>"
      then have "RTenantID x = tid" using tid by (simp add: same)
      then show ?thesis using ids x(3) by (simp add: receipt_true_def)
    qed (simp add: same)
    show "ob \<in> set (outbox w0) \<or> row_true cfg (store ?w2) ob" if "ob \<in> set (outbox ?w2)" for ob
      using mem_update_outbox [OF that [unfolded update_sel(4)]]
    proof (elim disjE exE conjE)
      fix x
      assume x: "OID x = i" "x \<in> set (outbox w)" "ob = x\<lparr>OStatus := ''done'', OProcessedAt := Some (pg_now v)\<rparr>"
      then have "OTenantID x = tid" "OPayload x = pl" using own [of x] by (simp_all add: same)
      then show ?thesis using ids(1) x(3) by (simp add: row_true_def)
    qed (simp add: same)
  qed (use l m in simp_all)
  with unchanged show ?thesis by (simp add: MarkCommitted_def)
qed

lemma processRow_inv:
  assumes inv: "outbox_inv H cfg (w, held)" and rw: "rw \<in> set held" and v: "sha256 v = H" "jsonb_ok (jsonb v)"
    and fl: "float_ok (FloatLit cfg)"
  shows "outbox_inv H cfg (processRow v cfg rw w, remove1 rw held)"
proof -
  have h: "set (remove1 rw held) \<subseteq> set held" by (rule set_remove1_subset)
  have l: "log_ok H (store w)" using inv by (simp add: outbox_inv_def)
  have st: "held_static rw \<in> set (map static (outbox w))"
    using inv rw unfolding outbox_inv_def held_ok_def by blast
  have inp: "\<forall>e \<in> set (RowPayload rw). input_ok e"
    using inv st unfolding outbox_inv_def shape_ok_def held_static_def by auto
  show ?thesis
  proof (cases "DecodePayload (FloatLit cfg) (RowPayload rw)")
    case None
    then show ?thesis unfolding processRow_def using MarkRetry_inv [OF inv l _ refl refl h] by simp
  next
    case (Some es)
    obtain r db' where c: "CommitBatch (pg_repository v :: (pgdb, verify_result) repository) (RowTenantID rw) es (store w) = (r, db')"
      by (metis surj_pair)
    note cl = commit_log [OF c, unfolded v(1), OF l v(2) DecodePayload_input_ok [OF Some fl inp]]
    show ?thesis
    proof (cases r)
      case (Inl err)
      have "outbox_inv H cfg (snd (MarkRetry v (RowID rw) (RowReceiptID rw) (Suc (RowAttempts rw)) (MaxAttempts cfg) err
          (backoff_for (RowAttempts rw)) (w\<lparr>store := db', alerts := al\<rparr>)), remove1 rw held)" for al
        by (rule MarkRetry_inv [OF inv _ _ _ _ h]) (use cl in simp_all)
      from this [of "alerts w"] this [of "alerts w @ [(RowTenantID rw, RowReceiptID rw)]"]
      show ?thesis using Some c Inl by (simp add: processRow_def Let_def)
    next
      case (Inr out)
      have ids: "set (map ID out) = ID ` set (RowPayload rw)" "ID ` set (RowPayload rw) \<subseteq> chain_ids db' (RowTenantID rw)"
        using cl Inr DecodePayload_ids [OF Some] by (metis list.set_map)+
      have mc: "outbox_inv H cfg (snd (MarkCommitted v (RowID rw) (RowReceiptID rw) (map ID out) (w\<lparr>store := db'\<rparr>)), remove1 rw held)"
        by (rule MarkCommitted_inv [OF inv _ _ _ _ st [unfolded held_static_def] _ _ h]) (use cl ids in simp_all)
      have "outbox_inv H cfg (x\<lparr>live := s\<rparr>, y) = outbox_inv H cfg (x, y)" for x y s by (simp add: outbox_inv_def)
      moreover obtain e w' where "MarkCommitted v (RowID rw) (RowReceiptID rw) (map ID out) (w\<lparr>store := db'\<rparr>) = (e, w')"
        by (metis surj_pair)
      ultimately show ?thesis using mc Some c Inr by (cases e) (simp_all add: processRow_def)
    qed
  qed
qed

lemma Enqueue_inv:
  assumes inv: "outbox_inv H cfg (w, held)" and run: "Enqueue v w tid rid es res = (r, w')"
    and J: "jsonb_ok (jsonb v)" "\<forall>e \<in> set es. input_ok e" and pos: "0 < MaxAttempts cfg"
  shows "outbox_inv H cfg (w', held)"
proof (cases r)
  case (Some err)
  with run have "w' = w" by (auto simp: Enqueue_def split: if_splits option.splits)
  with inv show ?thesis by simp
next
  case None
  with run obtain pl where pl: "payload_of v es = Some pl"
    and w': "w' = w\<lparr>receipts := receipts w @ [new_receipt v tid rid res], outbox := outbox w @ [new_outbox_row v tid rid pl]\<rparr>"
    and new: "\<not> list_ex (\<lambda>r. RID r = rid) (receipts w)" "\<not> list_ex (\<lambda>ob. OID ob = ''obx_'' @ rid) (outbox w)"
    by (auto simp: Enqueue_def split: if_splits option.splits)
  have "shape_ok (map static (outbox w')) (map receipt_key (receipts w'))"
    using inv new payload_of_input_ok [OF pl J]
    by (auto simp: w' list_ex_iff outbox_inv_def shape_ok_def static_def receipt_key_def new_outbox_row_def new_receipt_def image_image)
  moreover have "held_ok cfg (map static (outbox w')) held"
    using inv by (auto simp: w' outbox_inv_def held_ok_def)
  moreover have "receipt_true (store w) (new_receipt v tid rid res)" "row_true cfg (store w) (new_outbox_row v tid rid pl)"
    using pos by (simp_all add: receipt_true_def row_true_def new_receipt_def new_outbox_row_def)
  ultimately show ?thesis using inv by (simp add: outbox_inv_def w')
qed

lemma Claim_inv:
  assumes inv: "outbox_inv H cfg (w, held)" and run: "ClaimPending v n w = (r, w')"
  shows "outbox_inv H cfg (w', held @ (case r of Inl _ \<Rightarrow> [] | Inr rows \<Rightarrow> rows))"
proof -
  let ?hits = "take n (sort_key OCreatedAt (filter (\<lambda>ob. OStatus ob = ''pending'' \<and> OAvailableAt ob \<le> pg_now v) (outbox w)))"
  let ?f = "\<lambda>ob. if OID ob \<in> OID ` set ?hits then ob\<lparr>OStatus := ''processing''\<rparr> else ob"
  have hits: "ob \<in> set (outbox w) \<and> OStatus ob = ''pending''" if "ob \<in> set ?hits" for ob
    using in_set_takeD [OF that] by auto
  have old: "list_all (row_true cfg (store w)) (outbox w)" "distinct (map OID (outbox w))"
    using inv by (auto simp: outbox_inv_def shape_ok_def static_def comp_def)
  consider "w' = w" "(case r of Inl _ \<Rightarrow> [] | Inr rows \<Rightarrow> rows) = []"
    | "w' = w\<lparr>outbox := map ?f (outbox w)\<rparr>" "r = Inr (map claim_row ?hits)"
    using run by (auto simp: ClaimPending_def Let_def split: if_splits)
  then show ?thesis
  proof cases
    case 1
    with inv show ?thesis by simp
  next
    case 2
    have "row_true cfg (store w) (?f ob)" if ob: "ob \<in> set (outbox w)" for ob
    proof (cases "OID ob \<in> OID ` set ?hits")
      case True
      then obtain x where x: "x \<in> set ?hits" "OID x = OID ob" by auto
      then have "x = ob" using hits [OF x(1)] old(2) ob unfolding distinct_map by (meson inj_onD)
      then have "OAttempts ob < MaxAttempts cfg" using old(1) hits [OF x(1)] by (auto simp: list_all_iff row_true_def)
      with True show ?thesis by (simp add: row_true_def)
    next
      case False
      with old(1) ob show ?thesis by (simp add: list_all_iff)
    qed
    then have rows: "list_all (row_true cfg (store w)) (map ?f (outbox w))"
      unfolding list_all_iff set_map by (intro ballI) (elim imageE, simp only:)
    have S: "map static (map ?f (outbox w)) = map static (outbox w)" by (simp add: static_def)
    have "held_ok cfg (map static (outbox w)) (map claim_row ?hits)"
      unfolding held_ok_def
    proof
      fix rw
      assume "rw \<in> set (map claim_row ?hits)"
      then obtain x where x: "x \<in> set ?hits" "rw = claim_row x" by auto
      then have "OAttempts x < MaxAttempts cfg" "x \<in> set (outbox w)"
        using old(1) hits [OF x(1)] by (auto simp: list_all_iff row_true_def)
      then show "held_static rw \<in> set (map static (outbox w)) \<and> RowAttempts rw < MaxAttempts cfg"
        using x(2) by (auto simp: held_static_def claim_row_def static_def)
    qed
    then have "held_ok cfg (map static (outbox w)) (held @ map claim_row ?hits)"
      using inv by (auto simp: outbox_inv_def held_ok_def)
    with rows S inv 2 show ?thesis by (simp add: outbox_inv_def del: map_map)
  qed
qed

lemma Reset_inv:
  assumes inv: "outbox_inv H cfg (w, held)" and run: "ResetStaleProcessing v d w = (n, w')"
  shows "outbox_inv H cfg (w', held)"
proof -
  let ?f = "\<lambda>ob. if stale v d ob then ob\<lparr>OStatus := ''pending'', OAvailableAt := pg_now v,
      OErrorMessage := Some (Internal ''worker timeout / crash'')\<rparr> else ob"
  have "w' = w \<or> w' = w\<lparr>outbox := map ?f (outbox w)\<rparr>"
    using run by (auto simp: ResetStaleProcessing_def split: if_splits)
  moreover have "list_all (row_true cfg (store w)) (map ?f obs)" if "list_all (row_true cfg (store w)) obs" for obs
    using that by (induction obs) (simp_all add: row_true_def stale_def)
  moreover have "map static (map ?f obs) = map static obs" for obs by (induction obs) (simp_all add: static_def)
  ultimately show ?thesis using inv by (auto simp: outbox_inv_def simp del: map_map)
qed

lemma outbox_step_inv:
  assumes "outbox_step H cfg s s'" "outbox_inv H cfg s" "0 < MaxAttempts cfg" "float_ok (FloatLit cfg)"
  shows "outbox_inv H cfg s'"
  using assms(1,2)
proof (induction rule: outbox_step.induct)
  case (enqueue v w tid rid es res r w' held)
  then show ?case using Enqueue_inv assms(3) by blast
next
  case (claim v n w rows w' held)
  then show ?case using Claim_inv [of H cfg w held v n "Inr rows" w'] by simp
next
  case (claim_failed v n w err w' held)
  then show ?case using Claim_inv [of H cfg w held v n "Inl err" w'] by simp
next
  case (handle rw held v w)
  then show ?case using processRow_inv assms(4) by blast
next
  case (crash w held rw)
  then show ?case using set_remove1_subset [of rw held] by (auto simp: outbox_inv_def held_ok_def)
next
  case (reset v d w n w' held)
  then show ?case using Reset_inv by blast
next
  case (other_append v w tid es r2 db' held)
  then have l: "log_ok (sha256 v) (store w)" by (simp add: outbox_inv_def)
  note al = append_log [OF other_append(1) l other_append(3,4)]
  show ?case by (rule inv_update [OF other_append(5)]) (use al other_append(2) in simp_all)
qed


definition sample_world :: world where
  "sample_world = \<lparr>store = sample_db, receipts = [], outbox = [], live = \<lparr>subs = [], next_chan = 0\<rparr>, alerts = []\<rparr>"

definition sample_cfg :: worker_config where
  "sample_cfg = NewWorker 0 0 True (\<lambda>s. Some s)"

lemma sample_cfg_ok: "0 < MaxAttempts sample_cfg" "float_ok (FloatLit sample_cfg)"
  by (simp_all add: sample_cfg_def NewWorker_def float_ok_def)

lemma sample_world_inv: "outbox_inv H sample_cfg (sample_world, [])"
  using sample_wf by (simp add: outbox_inv_def sample_world_def log_ok_def shape_ok_def held_ok_def chain_rows_def sample_db_def)

definition one_accepted :: batch_result where
  "one_accepted = \<lparr>Accepted = 1, Rejected = 0, IDs = [], Errors = []\<rparr>"

definition queued_world :: world where
  "queued_world = snd (Enqueue sample_env sample_world ''t'' ''r1'' [small_input] one_accepted)"

definition sample_row :: row where
  "sample_row = \<lparr>RowID = ''obx_r1'', RowReceiptID = ''r1'', RowTenantID = ''t'', RowPayload = [small_input], RowAttempts = 0\<rparr>"

lemma sample_claims: "fst (ClaimPending sample_env 32 queued_world) = Inr [sample_row]"
  by code_simp

definition busy_world :: "pgdb \<Rightarrow> world" where
  "busy_world db = sample_world\<lparr>store := db, receipts := [new_receipt sample_env ''t'' ''r1'' one_accepted],
     outbox := [(new_outbox_row sample_env ''t'' ''r1'' [small_input])\<lparr>OStatus := ''processing''\<rparr>]\<rparr>"

lemma busy_inv:
  assumes "log_ok H db"
  shows "outbox_inv H sample_cfg (busy_world db, [sample_row])"
  using assms small_input_ok sample_cfg_ok(1)
  by (simp add: outbox_inv_def busy_world_def sample_world_def shape_ok_def held_ok_def static_def receipt_key_def
      new_receipt_def new_outbox_row_def held_static_def sample_row_def receipt_true_def row_true_def)

lemma sample_queue_step: "outbox_step (sha256 sample_env) sample_cfg (sample_world, []) (queued_world, [])"
  unfolding queued_world_def
  by (rule enqueue [OF prod.collapse [symmetric] sample_jsonb]) (simp add: small_input_ok)


text \<open>
  Exactly-once effect of at-least-once processing: a row whose events are already in the chain,
  because an earlier attempt committed them and then crashed before marking the row, adds no event
  when it is processed again, whatever happens.
\<close>

theorem reprocess_adds_nothing:
  assumes "outbox_inv H cfg (w, held)" "rw \<in> set held" "sha256 v = H" "jsonb_ok (jsonb v)" "float_ok (FloatLit cfg)"
    and "ID ` set (RowPayload rw) \<subseteq> ID ` set (chain_rows (store w) (RowTenantID rw))"
  shows "audit_rows (store (processRow v cfg rw w)) = audit_rows (store w)"
proof -
  have l: "log_ok H (store w)" using assms(1) by (simp add: outbox_inv_def)
  have wf: "wf_db (store w)" using l by (simp add: log_ok_def)
  have st: "held_static rw \<in> set (map static (outbox w))"
    using assms(1,2) unfolding outbox_inv_def held_ok_def by blast
  have inp: "\<forall>e \<in> set (RowPayload rw). input_ok e"
    using assms(1) st unfolding outbox_inv_def shape_ok_def held_static_def by auto
  have ms: "store (snd (MarkRetry v i rid a n err d x)) = store x" "store (snd (MarkCommitted v i rid ids x)) = store x"
    for i rid a n err d ids and x :: world by (simp_all add: MarkRetry_def MarkCommitted_def)
  have "audit_rows db' = audit_rows (store w)"
    if d: "DecodePayload (FloatLit cfg) (RowPayload rw) = Some es" and c: "CommitBatch (pg_repository v :: (pgdb, verify_result) repository) (RowTenantID rw) es (store w) = (r, db')"
    for es r db'
  proof (cases "es = []")
    case True
    with c show ?thesis by (simp add: CommitBatch_def)
  next
    case False
    have run: "AppendBatchChained v (store w) (RowTenantID rw) es = (r, db')"
      using c False by (simp add: CommitBatch_def pg_repository_def)
    have es: "ID ` set es \<subseteq> ID ` set (chain_rows (store w) (RowTenantID rw))"
      using assms(6) DecodePayload_ids [OF d] by (metis list.set_map)
    show ?thesis
    proof (cases r)
      case (Inl err)
      then obtain s where "db' = (store w)\<lparr>audit_seq := s\<rparr>" using append_err [OF _ wf] run by blast
      then show ?thesis by simp
    next
      case (Inr out)
      have run': "AppendBatchChained v (store w) (RowTenantID rw) es = (Inr out, db')" using run Inr by simp
      obtain rs where a: "appended v (RowTenantID rw) es (store w) db' rs"
        using append_ok [OF run' wf assms(4) DecodePayload_input_ok [OF d assms(5) inp]] by (elim exE)
      have "ID ` set rs = {}" unfolding appended_ids(1) [OF a] Diff_eq_empty_iff by (rule es)
      then have "rs = []" by simp
      moreover have "audit_rows db' = audit_rows (store w) @ rs" by (rule a [unfolded appended_def, THEN conjunct1])
      ultimately show ?thesis by simp
    qed
  qed
  note keep = this
  show ?thesis
  proof (cases "DecodePayload (FloatLit cfg) (RowPayload rw)")
    case None
    then show ?thesis by (simp add: processRow_def ms)
  next
    case (Some es)
    obtain r db' where c: "CommitBatch (pg_repository v :: (pgdb, verify_result) repository) (RowTenantID rw) es (store w) = (r, db')"
      by (metis surj_pair)
    have "store (processRow v cfg rw w) = db'"
    proof (cases r)
      case (Inl err)
      then show ?thesis using Some c by (simp add: processRow_def Let_def ms)
    next
      case (Inr out)
      obtain e w' where m: "MarkCommitted v (RowID rw) (RowReceiptID rw) (map ID out) (w\<lparr>store := db'\<rparr>) = (e, w')"
        by (metis surj_pair)
      then have "store w' = db'" using ms(2) [of "RowID rw" "RowReceiptID rw" "map ID out" "w\<lparr>store := db'\<rparr>"] by simp
      then show ?thesis using Some c Inr m by (cases e) (simp_all add: processRow_def)
    qed
    with keep [OF Some c] show ?thesis by simp
  qed
qed

theorem reprocess_adds_nothing_witness:
  "audit_rows (store (processRow sample_env sample_cfg sample_row (busy_world small_db))) = [small_row]"
proof -
  have l: "log_ok (sha256 sample_env) sample_db"
    using sample_wf by (simp add: log_ok_def chain_rows_def sample_db_def)
  have "log_ok (sha256 sample_env) small_db"
    using append_log [OF sample_append l sample_jsonb] small_input_ok by simp
  then have i: "outbox_inv (sha256 sample_env) sample_cfg (busy_world small_db, [sample_row])" by (rule busy_inv)
  have "ID ` set (RowPayload sample_row) \<subseteq> ID ` set (chain_rows (store (busy_world small_db)) (RowTenantID sample_row))"
    by (simp add: sample_row_def busy_world_def chain_rows_def small_db_def small_row_def)
  from reprocess_adds_nothing [OF i _ refl sample_jsonb sample_cfg_ok(2) this] show ?thesis
    by (simp add: busy_world_def small_db_def)
qed

lemma append_nothing: "AppendBatchChained v db tid [] = (Inr [], db)"
  by (simp add: AppendBatchChained_def)

lemma processRow_done:
  assumes "DecodePayload (FloatLit cfg) (RowPayload rw) = Some es"
    and "AppendBatchChained v (store w) (RowTenantID rw) es = (Inr out, db')" "\<forall>site i. \<not> fault v site i"
  shows "receipts (processRow v cfg rw w) = map (\<lambda>r. if RID r = RowReceiptID rw
      then r\<lparr>RStatus := ''committed'', REventIDs := map ID out, RCommittedAt := Some (pg_now v)\<rparr> else r) (receipts w)"
    and "outbox (processRow v cfg rw w) = map (\<lambda>ob. if OID ob = RowID rw
      then ob\<lparr>OStatus := ''done'', OProcessedAt := Some (pg_now v)\<rparr> else ob) (outbox w)"
proof -
  have "CommitBatch (pg_repository v :: (pgdb, verify_result) repository) (RowTenantID rw) es (store w) = (Inr out, db')"
    using assms(2) append_nothing by (cases "es = []") (simp_all add: CommitBatch_def pg_repository_def)
  then show "receipts (processRow v cfg rw w) = map (\<lambda>r. if RID r = RowReceiptID rw
      then r\<lparr>RStatus := ''committed'', REventIDs := map ID out, RCommittedAt := Some (pg_now v)\<rparr> else r) (receipts w)"
    "outbox (processRow v cfg rw w) = map (\<lambda>ob. if OID ob = RowID rw
      then ob\<lparr>OStatus := ''done'', OProcessedAt := Some (pg_now v)\<rparr> else ob) (outbox w)"
    using assms(1,3) by (simp_all add: processRow_def MarkCommitted_def update_receipt_def update_outbox_def)
qed



text \<open>
  A receipt handed out by \<open>EnqueueBatch\<close> can be polled: right after it was queued, \<open>GetReceipt\<close>
  for the tenant returns it as \<open>queued\<close> with the counts and errors of the batch; for any other tenant
  it is not found.
\<close>

theorem receipt_round_trip:
  assumes "EnqueueBatch s (Some (Enqueue v)) tid inp w = (Inr rc, w')" "Status rc = ''queued''"
    and "\<forall>site i. \<not> fault v' site i"
  shows "GetReceipt_async v' w' tid (ReceiptID rc) = Inr (rc\<lparr>Batch := (Batch rc)\<lparr>IDs := []\<rparr>\<rparr>) \<and>
    (\<forall>t. t \<noteq> tid \<longrightarrow> GetReceipt_async v' w' t (ReceiptID rc) = Inl (NotFound ''ingest_receipt'' (ReceiptID rc)))"
proof -
  obtain res0 valid where p: "prepareBatch s tid inp = Inr (res0, valid)"
    using assms(1) by (auto simp: EnqueueBatch_def split: sum.splits)
  let ?res = "res0\<lparr>Accepted := length valid\<rparr>" and ?rid = "svcNewReceiptID s"
  have "valid \<noteq> []" using assms(1,2) p by (auto simp: EnqueueBatch_def Let_def)
  then have e: "Enqueue v w tid ?rid valid ?res = (None, w')" and rc: "rc = \<lparr>ReceiptID = ?rid, Status = ''queued'', Batch = ?res\<rparr>"
    using assms(1) p by (auto simp: EnqueueBatch_def Let_def split: option.splits prod.splits)
  have r: "receipts w' = receipts w @ [new_receipt v tid ?rid ?res]" and n: "\<not> list_ex (\<lambda>r. RID r = ?rid) (receipts w)"
    using e by (auto simp: Enqueue_def split: if_splits option.splits)
  have f: "filter (\<lambda>r. RID r = ?rid \<and> RTenantID r = t) (receipts w') = (if t = tid then [new_receipt v tid ?rid ?res] else [])" for t
    using filter_none [of "receipts w" "\<lambda>r. RID r = ?rid \<and> RTenantID r = t"] n
    by (auto simp: r list_ex_iff new_receipt_def)
  show ?thesis using assms(3) by (simp add: GetReceipt_async_def GetReceipt_def f rc new_receipt_def)
qed

definition queue_svc :: svc where
  "queue_svc = \<lparr>svcHash = sha256 sample_env, svcNow = unix_epoch, svcRedactOn = False,
     svcNewEventID = (\<lambda>i. ''n''), svcNewReceiptID = ''r1''\<rparr>"

theorem receipt_round_trip_witness:
  "\<exists>rc w'. EnqueueBatch queue_svc (Some (Enqueue sample_env)) ''t'' [None, Some sample_input] sample_world = (Inr rc, w') \<and>
     GetReceipt_async sample_env w' ''t'' (ReceiptID rc) = Inr (rc\<lparr>Batch := (Batch rc)\<lparr>IDs := []\<rparr>\<rparr>)"
proof -
  let ?e = "EnqueueBatch queue_svc (Some (Enqueue sample_env)) ''t'' [None, Some sample_input] sample_world"
  have "case fst ?e of Inl _ \<Rightarrow> False | Inr rc \<Rightarrow> Status rc = ''queued''" by code_simp
  then obtain rc where rc: "?e = (Inr rc, snd ?e)" "Status rc = ''queued''"
    by (cases "fst ?e") (auto simp: prod_eq_iff)
  have nf: "\<forall>site i. \<not> fault sample_env site i" using sample_healthy by (simp add: healthy_def)
  from receipt_round_trip [OF rc nf] rc(1) show ?thesis by blast
qed

end
