(* ===== verification/Share_Store.thy ===== *)
theory Share_Store
  imports Tenant_Store
begin

text \<open>
  api/internal/share: the store of read-only share links and of the tenant settings.  A link row
  carries its secret only as a SHA-256 digest; the settings are a JSON column of \<open>tenants\<close>, kept
  here as its four fields.
\<close>

section \<open>Share links\<close>

record link =
  LID :: string
  LTenantID :: string
  LCreatedBy :: string
  LLabel :: string
  LScope :: string
  LFilterFrom :: "time option"
  LFilterTo :: "time option"
  LExpiresAt :: time
  LRevokedAt :: "time option"
  LLastAccessed :: "time option"
  LAccessCount :: nat
  LCreatedAt :: time
  LSecretHash :: "string option"

type_synonym link_table = "link list"

record create_input =
  CLabel :: string
  CFilterFrom :: "time option"
  CFilterTo :: "time option"
  CExpiresAt :: time

definition sha256_hex :: "env \<Rightarrow> string \<Rightarrow> string" where
  "sha256_hex v s = hex_encode (sha256 v s)"

definition pg_time :: "time \<Rightarrow> time" where
  "pg_time t = Truncate t Microsecond"

definition new_link :: "env \<Rightarrow> string \<Rightarrow> string \<Rightarrow> string \<Rightarrow> string \<Rightarrow> create_input \<Rightarrow> link" where
  "new_link v i tid by secret inp =
     \<lparr>LID = i, LTenantID = tid, LCreatedBy = by, LLabel = CLabel inp, LScope = ''read'',
      LFilterFrom = map_option pg_time (CFilterFrom inp), LFilterTo = map_option pg_time (CFilterTo inp),
      LExpiresAt = pg_time (CExpiresAt inp), LRevokedAt = None, LLastAccessed = None, LAccessCount = 0,
      LCreatedAt = pg_now v, LSecretHash = Some (sha256_hex v secret)\<rparr>"

definition Get_link :: "env \<Rightarrow> link_table \<Rightarrow> string \<Rightarrow> string \<Rightarrow> link result" where
  "Get_link v ls tid i =
     (if fault v ''scanning share link'' 0 then Inl (Internal ''scanning share link'')
      else case filter (\<lambda>l. LID l = i \<and> LTenantID l = tid) ls of
             [] \<Rightarrow> Inl (NotFound ''share_link'' '''')
           | l # _ \<Rightarrow> Inr l)"

text \<open>
  \<open>Create\<close>: the identifier and the secret come from the caller's entropy (\<open>None\<close> where reading it
  fails).  The token is returned beside the row.
\<close>

definition Create_link :: "env \<Rightarrow> string \<Rightarrow> string option \<Rightarrow> string \<Rightarrow> string \<Rightarrow> create_input \<Rightarrow> pgdb \<Rightarrow> link_table \<Rightarrow>
    (link \<times> string) result \<times> link_table" where
  "Create_link v i entropy tid by inp db ls =
     (case entropy of
        None \<Rightarrow> (Inl (Internal ''generating share link secret''), ls)
      | Some secret \<Rightarrow>
          if fault v ''creating share link'' 0 \<or> \<not> list_all storable [i, tid, by, CLabel inp] \<or>
             list_ex (\<lambda>l. LID l = i) ls \<or> \<not> list_ex (\<lambda>t. TID t = tid) (tenant_rows db)
          then (Inl (Internal ''creating share link''), ls)
          else (let ls' = ls @ [new_link v i tid by secret inp]
                in case Get_link v ls' tid i of
                     Inl err \<Rightarrow> (Inl err, ls')
                   | Inr l \<Rightarrow> (Inr (l, i @ ''_'' @ secret), ls')))"

definition List_links :: "env \<Rightarrow> link_table \<Rightarrow> string \<Rightarrow> link list result" where
  "List_links v ls tid =
     (if fault v ''listing share links'' 0 then Inl (Internal ''listing share links'')
      else Inr (sort_key (\<lambda>l. - LCreatedAt l) (filter (\<lambda>l. LTenantID l = tid) ls)))"

definition GetByIDWithSecret :: "env \<Rightarrow> link_table \<Rightarrow> string \<Rightarrow> (link \<times> string) result" where
  "GetByIDWithSecret v ls i =
     (if fault v ''scanning share link'' 0 then Inl (Internal ''scanning share link'')
      else case filter (\<lambda>l. LID l = i) ls of
             [] \<Rightarrow> Inl (NotFound ''share_link'' '''')
           | l # _ \<Rightarrow> Inr (l, (case LSecretHash l of None \<Rightarrow> '''' | Some h \<Rightarrow> h)))"

definition Revoke_link :: "env \<Rightarrow> string \<Rightarrow> string \<Rightarrow> link_table \<Rightarrow> unit result \<times> link_table" where
  "Revoke_link v tid i ls =
     (if fault v ''revoking share link'' 0 then (Inl (Internal ''revoking share link''), ls)
      else if \<not> list_ex (\<lambda>l. LID l = i \<and> LTenantID l = tid \<and> LRevokedAt l = None) ls
      then (Inl (NotFound ''share_link'' i), ls)
      else (Inr (), map (\<lambda>l. if LID l = i \<and> LTenantID l = tid \<and> LRevokedAt l = None
               then l\<lparr>LRevokedAt := Some (pg_now v)\<rparr> else l) ls))"

definition accessible :: "env \<Rightarrow> string \<Rightarrow> link \<Rightarrow> bool" where
  "accessible v i l = (LID l = i \<and> LRevokedAt l = None \<and> pg_now v < LExpiresAt l)"

definition RecordAccess :: "env \<Rightarrow> string \<Rightarrow> link_table \<Rightarrow> unit result \<times> link_table" where
  "RecordAccess v i ls =
     (if fault v ''recording share access'' 0 then (Inl (Internal ''recording share access''), ls)
      else if \<not> list_ex (accessible v i) ls then (Inl (NotFound ''share_link'' i), ls)
      else (Inr (), map (\<lambda>l. if accessible v i l
               then l\<lparr>LAccessCount := Suc (LAccessCount l), LLastAccessed := Some (pg_now v)\<rparr> else l) ls))"

definition Valid_link :: "link \<Rightarrow> time \<Rightarrow> bool" where
  "Valid_link l t = (LRevokedAt l = None \<and> t < LExpiresAt l)"

section \<open>Tenant settings\<close>

record tenant_settings =
  AlertWebhookURL :: string
  AlertEmail :: string
  QuotaAlertMonth :: string
  QuotaAlertLevel :: int

definition settings_of :: "tenant_row \<Rightarrow> tenant_settings" where
  "settings_of t = \<lparr>AlertWebhookURL = TAlertWebhookURL t, AlertEmail = TAlertEmail t, QuotaAlertMonth = TQuotaAlertMonth t,
     QuotaAlertLevel = TQuotaAlertLevel t\<rparr>"

definition GetSettings :: "env \<Rightarrow> pgdb \<Rightarrow> string \<Rightarrow> tenant_settings result" where
  "GetSettings v db tid =
     (if fault v ''loading tenant settings'' 0 then Inl (Internal ''loading tenant settings'')
      else case filter (\<lambda>t. TID t = tid) (tenant_rows db) of
             [] \<Rightarrow> Inl (Internal ''loading tenant settings'')
           | t # _ \<Rightarrow> Inr (settings_of t))"

text \<open>\<open>json.Marshal\<close> replaces invalid UTF-8; \<open>jsonb\<close> refuses the NUL character.\<close>

definition UpdateSettings :: "env \<Rightarrow> string \<Rightarrow> tenant_settings \<Rightarrow> pgdb \<Rightarrow> unit result \<times> pgdb" where
  "UpdateSettings v tid st db =
     (if fault v ''updating tenant settings'' 0 \<or>
         list_ex (\<lambda>s. CHR 0x00 \<in> set s) [AlertWebhookURL st, AlertEmail st, QuotaAlertMonth st]
      then (Inl (Internal ''updating tenant settings''), db)
      else if \<not> list_ex (\<lambda>t. TID t = tid) (tenant_rows db) then (Inl (NotFound ''tenant'' tid), db)
      else (Inr (), db\<lparr>tenant_rows := map (\<lambda>t. if TID t = tid
              then t\<lparr>TAlertWebhookURL := utf8_coerce (AlertWebhookURL st), TAlertEmail := utf8_coerce (AlertEmail st),
                     TQuotaAlertMonth := utf8_coerce (QuotaAlertMonth st), TQuotaAlertLevel := QuotaAlertLevel st\<rparr>
              else t) (tenant_rows db)\<rparr>))"

section \<open>Quota settings\<close>

record quota_settings =
  QAlertEmail :: string
  QAlertMonth :: string
  QAlertLevel :: int

definition GetQuotaAlertSettings :: "env \<Rightarrow> pgdb \<Rightarrow> string \<Rightarrow> quota_settings result" where
  "GetQuotaAlertSettings v db tid =
     (case GetSettings v db tid of
        Inl err \<Rightarrow> Inl err
      | Inr s \<Rightarrow> Inr \<lparr>QAlertEmail = AlertEmail s, QAlertMonth = QuotaAlertMonth s, QAlertLevel = QuotaAlertLevel s\<rparr>)"

definition UpdateQuotaAlertSettings :: "env \<Rightarrow> string \<Rightarrow> quota_settings \<Rightarrow> pgdb \<Rightarrow> unit result \<times> pgdb" where
  "UpdateQuotaAlertSettings v tid q db =
     (case GetSettings v db tid of
        Inl err \<Rightarrow> (Inl err, db)
      | Inr s \<Rightarrow> UpdateSettings v tid (s\<lparr>AlertEmail := QAlertEmail q, QuotaAlertMonth := QAlertMonth q,
                   QuotaAlertLevel := QAlertLevel q\<rparr>) db)"

end
