(* ===== verification/Quota.thy ===== *)
theory Quota
  imports Audit_Store Share_Store
begin

text \<open>
  api/internal/audit/limit.go: the monthly cap on audit events, on the PostgreSQL stores.  Counters
  are \<open>int64\<close>: \<open>used * 100\<close> in the percentage is the only product and is kept exact here because
  it wraps only above \<open>9 * 10 ^ 16\<close> events; \<open>used + incoming\<close> likewise.  A database and the list of
  alert mails sent are the state.  \<open>LimNotify\<close> says that the settings store and the notifier are both
  configured; the plan, statistics and tenant stores always are.
\<close>

section \<open>The limiter\<close>

record limiter =
  LimOss :: bool
  LimNotify :: bool
  LimOverrideFree :: int

text \<open>An alert: tenant, workspace name, used, limit, percentage.\<close>

type_synonym quota_alert = "string \<times> string \<times> int \<times> int \<times> int"

definition workspaceName :: "env \<Rightarrow> pgdb \<Rightarrow> string \<Rightarrow> string" where
  "workspaceName v db tid =
     (case GetTenant v db tid of
        Inl _ \<Rightarrow> tid
      | Inr t \<Rightarrow> if TenantName t \<noteq> '''' then TenantName t else tid)"

definition quota_level :: "int \<Rightarrow> int \<Rightarrow> int option" where
  "quota_level used limit =
     (let pct = used * 100 div limit
      in if limit \<le> used then Some 100
         else if (limit = 30000 \<and> 25000 \<le> used) \<or> (limit \<noteq> 30000 \<and> 83 \<le> pct) then Some 83
         else if (limit = 30000 \<and> 20000 \<le> used) \<or> (limit \<noteq> 30000 \<and> 66 \<le> pct) then Some 66
         else None)"

text \<open>The mail and the bookkeeping that keeps it from being sent twice.\<close>

definition notify_level :: "env \<Rightarrow> string \<Rightarrow> int \<Rightarrow> int \<Rightarrow> int \<Rightarrow> int \<Rightarrow> pgdb \<times> quota_alert list \<Rightarrow> pgdb \<times> quota_alert list" where
  "notify_level v tid level pct used limit st =
     (case GetQuotaAlertSettings v (fst st) tid of
        Inl _ \<Rightarrow> st
      | Inr s \<Rightarrow>
          if QAlertEmail s = '''' then st
          else let month = Format_month (now v)
               in if QAlertMonth s = month \<and> level \<le> QAlertLevel s then st
                  else (snd (UpdateQuotaAlertSettings v tid (s\<lparr>QAlertMonth := month, QAlertLevel := level\<rparr>) (fst st)),
                        snd st @ [(tid, workspaceName v (fst st) tid, used, limit, pct)]))"

definition maybeNotifyQuota :: "env \<Rightarrow> limiter \<Rightarrow> string \<Rightarrow> int \<Rightarrow> int \<Rightarrow> pgdb \<times> quota_alert list \<Rightarrow> pgdb \<times> quota_alert list" where
  "maybeNotifyQuota v l tid used limit st =
     (if \<not> LimNotify l \<or> limit \<le> 0 then st
      else case quota_level used limit of
             None \<Rightarrow> st
           | Some level \<Rightarrow> notify_level v tid level (used * 100 div limit) used limit st)"

definition maybeNotifyQuotaExceeded :: "env \<Rightarrow> limiter \<Rightarrow> string \<Rightarrow> int \<Rightarrow> int \<Rightarrow> pgdb \<times> quota_alert list \<Rightarrow> pgdb \<times> quota_alert list" where
  "maybeNotifyQuotaExceeded v l tid used limit st =
     (if \<not> LimNotify l then st else notify_level v tid 100 100 used limit st)"

definition effective_limit :: "limiter \<Rightarrow> plan \<Rightarrow> int option" where
  "effective_limit l p =
     (if PlanID p = ''free'' \<and> 0 < LimOverrideFree l then Some (LimOverrideFree l) else MonthlyEventLimit p)"

definition Check :: "env \<Rightarrow> limiter \<Rightarrow> string \<Rightarrow> int \<Rightarrow> pgdb \<times> quota_alert list \<Rightarrow> app_error option \<times> pgdb \<times> quota_alert list" where
  "Check v l tid incoming st =
     (if tid = '''' \<or> incoming \<le> 0 then (None, st)
      else case GetTenantPlan v (LimOss l) tid (fst st) of
             (Inl err, db1) \<Rightarrow> (Some err, db1, snd st)
           | (Inr p, db1) \<Rightarrow>
      (case effective_limit l p of
         None \<Rightarrow> (None, db1, snd st)
       | Some limit \<Rightarrow>
           if limit \<le> 0 then (None, db1, snd st)
           else case CountEventsThisMonth v db1 tid of
                  Inl err \<Rightarrow> (Some err, db1, snd st)
                | Inr n \<Rightarrow>
                    (let used = int n; st1 = maybeNotifyQuota v l tid used limit (db1, snd st)
                     in if limit < used + incoming
                        then (Some (MonthlyLimitExceeded limit used),
                              maybeNotifyQuotaExceeded v l tid (used + incoming) limit st1)
                        else (None, st1))))"

end
