(* ===== verification/Quota_Properties.thy ===== *)
theory Quota_Properties
  imports Quota Tenant_Accounts
begin

text \<open>
  The monthly cap: \<open>Check_decides\<close> says when a batch is admitted, \<open>alert_once\<close> that a threshold is
  mailed once a month.
\<close>

section \<open>Admission\<close>

lemma CountEventsThisMonth_healthy:
  "healthy v \<Longrightarrow> CountEventsThisMonth v db tid =
     Inr (length (filter (\<lambda>r. TenantID r = tid \<and> month_start (now v) \<le> Timestamp r) (audit_rows db)))"
  by (simp add: CountEventsThisMonth_def healthy_def)

text \<open>
  C33.  The monthly limiter decides by the count: for a tenant whose effective limit is positive, on a
  database that answers, \<open>Check\<close> admits a batch exactly when the events of the tenant stored this
  month together with the batch stay within the limit, and otherwise reports the limit and the count;
  it never changes the audit log.
\<close>

theorem Check_decides:
  assumes "healthy v" "tid \<noteq> ''''" "0 < incoming" "GetTenantPlan v (LimOss l) tid db = (Inr p, db1)"
    and "effective_limit l p = Some limit" "0 < limit"
  defines "used \<equiv> int (length (filter (\<lambda>r. TenantID r = tid \<and> month_start (now v) \<le> Timestamp r) (audit_rows db)))"
  shows "fst (Check v l tid incoming (db, al)) = (if used + incoming \<le> limit then None else Some (MonthlyLimitExceeded limit used)) \<and>
    audit_rows (fst (snd (Check v l tid incoming (db, al)))) = audit_rows db"
proof -
  have rows: "audit_rows db1 = audit_rows db" using step_GetTenantPlan [OF assms(4)] by (simp add: accounts_step_def)
  have n: "audit_rows (fst (notify_level v tid a b c d st)) = audit_rows (fst st)" for a b c d st
    by (auto simp: notify_level_def UpdateQuotaAlertSettings_def UpdateSettings_def Let_def split: sum.splits)
  then have m: "audit_rows (fst (maybeNotifyQuota v l tid a b st)) = audit_rows (fst st)"
    "audit_rows (fst (maybeNotifyQuotaExceeded v l tid a b st)) = audit_rows (fst st)" for a b st
    by (simp_all add: maybeNotifyQuota_def maybeNotifyQuotaExceeded_def split: option.splits)
  have "CountEventsThisMonth v db1 tid = Inr (nat used)"
    using CountEventsThisMonth_healthy [OF assms(1)] rows by (simp add: used_def)
  moreover have "0 \<le> used" by (simp add: used_def)
  ultimately show ?thesis
    using assms(2-6) rows m by (simp add: Check_def Let_def)
qed

definition quota_plan :: plan where
  "quota_plan = oss_plan\<lparr>PlanID := ''free'', MonthlyEventLimit := Some 1\<rparr>"

definition quota_db :: pgdb where
  "quota_db = small_db\<lparr>plan_rows := [quota_plan]\<rparr>"

definition quota_limiter :: limiter where
  "quota_limiter = \<lparr>LimOss = False, LimNotify = True, LimOverrideFree = 0\<rparr>"

theorem Check_decides_witness:
  "fst (Check sample_env quota_limiter ''t'' 2 (quota_db, [])) = Some (MonthlyLimitExceeded 1 0)"
proof -
  have p: "GetTenantPlan sample_env (LimOss quota_limiter) ''t'' quota_db = (Inr quota_plan, quota_db)"
    by code_simp
  have "effective_limit quota_limiter quota_plan = Some 1" by code_simp
  moreover have "filter (\<lambda>r. TenantID r = ''t'' \<and> month_start (now sample_env) \<le> Timestamp r) (audit_rows quota_db) = []"
    by code_simp
  ultimately show ?thesis using Check_decides [OF sample_healthy _ _ p, of 2 1 "[]"] by simp
qed

section \<open>Alerts\<close>

text \<open>The strings of the row come from the database, so they are storable.\<close>

definition settings_storable :: "pgdb \<Rightarrow> bool" where
  "settings_storable db = list_all (\<lambda>t. storable (TAlertWebhookURL t) \<and> storable (TAlertEmail t)) (tenant_rows db)"

lemma utf8_coerce_storable: "storable s \<Longrightarrow> utf8_coerce s = s"
  by (simp add: storable_def valid_utf8_def)

abbreviation plain_text :: "string \<Rightarrow> bool" where
  "plain_text s \<equiv> ascii s \<and> CHR 0x00 \<notin> set s"

lemma dec_nat_plain_text: "plain_text (dec_nat n)"
proof -
  have "\<not> is_digit (CHR 0x00)" by (simp add: is_digit_def)
  then show ?thesis using dec_nat_digits [of n] by (auto simp: list_all_iff)
qed

lemma append_int_plain: "CHR 0x00 \<notin> set (append_int w x)"
  using dec_nat_plain_text by (simp add: append_int_def zpad_def)

lemma Format_month_plain: "storable (Format_month t)"
proof -
  obtain y m d where c: "civil (t div Day) = (y, m, d)" by (metis prod_cases3)
  have "plain_text (Format_month t)"
    using append_int_plain by (simp add: Format_month_def c byte_def)
  then show ?thesis by (simp add: storable_def ascii_utf8)
qed

lemma settings_of_row:
  assumes "healthy v"
  shows "GetSettings v db tid = (case filter (\<lambda>t. TID t = tid) (tenant_rows db) of
    [] \<Rightarrow> Inl (Internal ''loading tenant settings'') | t # _ \<Rightarrow> Inr (settings_of t))"
  using assms by (simp add: GetSettings_def healthy_def)

lemma update_settings_row:
  assumes "healthy v" "filter (\<lambda>t. TID t = tid) (tenant_rows db) = t # ts" "storable (AlertWebhookURL s)" "storable (AlertEmail s)"
    and "storable (QuotaAlertMonth s)" "healthy v'"
  shows "GetSettings v' (snd (UpdateSettings v tid s db)) tid = Inr s"
proof -
  let ?f = "\<lambda>t :: tenant_row. if TID t = tid then t\<lparr>TAlertWebhookURL := utf8_coerce (AlertWebhookURL s), TAlertEmail := utf8_coerce (AlertEmail s),
      TQuotaAlertMonth := utf8_coerce (QuotaAlertMonth s), TQuotaAlertLevel := QuotaAlertLevel s\<rparr> else t"
  have t: "t \<in> set (tenant_rows db)" "TID t = tid" using filter_Cons_mem [OF assms(2)] by simp_all
  then have "list_ex (\<lambda>t. TID t = tid) (tenant_rows db)" by (auto simp: list_ex_iff)
  moreover have "\<not> list_ex (\<lambda>x. CHR 0x00 \<in> set x) [AlertWebhookURL s, AlertEmail s, QuotaAlertMonth s]"
    using assms(3-5) by (simp add: storable_def)
  ultimately have u: "snd (UpdateSettings v tid s db) = db\<lparr>tenant_rows := map ?f (tenant_rows db)\<rparr>"
    using assms(1) by (simp add: UpdateSettings_def healthy_def)
  have "filter (\<lambda>t. TID t = tid) (map ?f xs) = map ?f (filter (\<lambda>t. TID t = tid) xs)" for xs by (induction xs) auto
  moreover have "tenant_rows (snd (UpdateSettings v tid s db)) = map ?f (tenant_rows db)" unfolding u by simp
  ultimately have "filter (\<lambda>t. TID t = tid) (tenant_rows (snd (UpdateSettings v tid s db))) = ?f t # map ?f ts"
    by (simp only: assms(2) list.map)
  then show ?thesis
    using t(2) assms(3-5) by (simp add: settings_of_row [OF assms(6)] settings_of_def utf8_coerce_storable)
qed

text \<open>
  A quota threshold is mailed once: after an alert of some level was sent for a tenant, every
  alert of that or a lower level in the same month is suppressed.
\<close>

theorem alert_once:
  assumes "healthy v" "healthy v'" "settings_storable db" "Format_month (now v') = Format_month (now v)" "level' \<le> level"
  shows "snd (notify_level v' tid level' pct' used' limit' (notify_level v tid level pct used limit (db, al))) =
    snd (notify_level v tid level pct used limit (db, al))"
proof (cases "filter (\<lambda>t. TID t = tid) (tenant_rows db)")
  case Nil
  then show ?thesis
    by (simp add: notify_level_def GetQuotaAlertSettings_def settings_of_row assms(1,2))
next
  case (Cons t ts)
  let ?month = "Format_month (now v)"
  let ?q = "\<lparr>QAlertEmail = TAlertEmail t, QAlertMonth = TQuotaAlertMonth t, QAlertLevel = TQuotaAlertLevel t\<rparr>"
  let ?sent = "\<not> (TAlertEmail t = '''' \<or> TQuotaAlertMonth t = ?month \<and> level \<le> TQuotaAlertLevel t)"
  let ?db = "snd (UpdateQuotaAlertSettings v tid (?q\<lparr>QAlertMonth := ?month, QAlertLevel := level\<rparr>) db)"
  have g: "GetSettings u db tid = Inr (settings_of t)" "GetQuotaAlertSettings u db tid = Inr ?q" if "healthy u" for u
    using that Cons by (simp_all add: GetQuotaAlertSettings_def settings_of_row settings_of_def)
  show ?thesis
  proof (cases ?sent)
    case False
    then show ?thesis
      using assms(4,5) by (auto simp: notify_level_def g assms(1,2) Let_def)
  next
    case True
    have "t \<in> set (tenant_rows db)" using filter_Cons_mem [OF Cons] by simp
    then have st: "storable (TAlertWebhookURL t)" "storable (TAlertEmail t)"
      using assms(3) by (simp_all add: settings_storable_def list_all_iff)
    let ?s = "(settings_of t)\<lparr>QuotaAlertMonth := ?month, QuotaAlertLevel := level\<rparr>"
    have "?db = snd (UpdateSettings v tid ?s db)"
      by (simp add: UpdateQuotaAlertSettings_def g assms(1) settings_of_def)
    then have "GetSettings v' ?db tid = Inr ?s"
      using update_settings_row [OF assms(1) Cons _ _ _ assms(2), of ?s] st Format_month_plain by (simp add: settings_of_def)
    then have g': "GetQuotaAlertSettings v' ?db tid = Inr (?q\<lparr>QAlertMonth := ?month, QAlertLevel := level\<rparr>)"
      by (simp add: GetQuotaAlertSettings_def settings_of_def)
    have n: "notify_level v tid level pct used limit (db, al) = (?db, al @ [(tid, workspaceName v db tid, used, limit, pct)])"
      using True by (simp add: notify_level_def g assms(1) Let_def)
    from g' n obtain db2 al2 where
      "notify_level v tid level pct used limit (db, al) = (db2, al2)"
      "GetQuotaAlertSettings v' db2 tid = Inr (?q\<lparr>QAlertMonth := ?month, QAlertLevel := level\<rparr>)" by fast
    then show ?thesis using True assms(4,5) by (simp add: notify_level_def [of v'] Let_def)
  qed
qed

theorem alert_once_witness:
  "length (snd (notify_level sample_env ''t'' 66 70 7 10 (notify_level sample_env ''t'' 83 90 9 10
     (quota_db\<lparr>tenant_rows := [sample_tenant\<lparr>TAlertEmail := ''a@b''\<rparr>]\<rparr>, [])))) = 1"
proof -
  let ?db = "quota_db\<lparr>tenant_rows := [sample_tenant\<lparr>TAlertEmail := ''a@b''\<rparr>]\<rparr>"
  have "settings_storable ?db" by code_simp
  then have "snd (notify_level sample_env ''t'' 66 70 7 10 (notify_level sample_env ''t'' 83 90 9 10 (?db, []))) =
      snd (notify_level sample_env ''t'' 83 90 9 10 (?db, []))"
    using alert_once [OF sample_healthy sample_healthy _ refl, of ?db 66 83] by simp
  moreover have "length (snd (notify_level sample_env ''t'' 83 90 9 10 (?db, []))) = 1" by code_simp
  ultimately show ?thesis by simp
qed

end
