(* ===== verification/Auth.thy ===== *)
theory Auth
  imports Share_Store
begin

text \<open>
  api/internal/auth: API keys, the key cache, JWT principals, the two-way middleware of the read
  routes and share-link access.  A middleware is a function from the request and the state it reads
  to either a rejection (status and message) or the request context it hands to the next handler.

  bcrypt, the JWT library and the source of entropy are not part of the program and are arguments:
  \<open>compare hash secret\<close> is \<open>bcrypt.CompareHashAndPassword\<close>, \<open>parse token\<close> the claims of a token whose
  signature and times are valid.  The SSE tickets (sse_ticket.go, and \<open>SSEAuth\<close>) are not modelled.
\<close>

section \<open>Strings\<close>

text \<open>\<open>strings.SplitN\<close> with a one-byte separator.\<close>

fun SplitN :: "char \<Rightarrow> string \<Rightarrow> nat \<Rightarrow> string list" where
  "SplitN c s 0 = []"
| "SplitN c s (Suc 0) = [s]"
| "SplitN c s (Suc (Suc n)) =
     (case index_of (\<lambda>x. x = c) s of
        None \<Rightarrow> [s]
      | Some i \<Rightarrow> take i s # SplitN c (drop (Suc i) s) (Suc n))"

section \<open>API keys\<close>

definition KeyPrefixLive :: string where "KeyPrefixLive = ''f0_live_''"
definition KeyPrefixLegacy :: string where "KeyPrefixLegacy = ''alk_live_''"

definition keyPrefixes :: "string list" where
  "keyPrefixes = [KeyPrefixLive, KeyPrefixLegacy]"

definition GenerateKey :: "(string \<Rightarrow> string option) \<Rightarrow> string option \<Rightarrow> string \<Rightarrow> (string \<times> string) option" where
  "GenerateKey generate entropy i =
     (case entropy of
        None \<Rightarrow> None
      | Some secret \<Rightarrow> map_option (\<lambda>h. (KeyPrefixLive @ i @ ''.'' @ secret, h)) (generate secret))"

definition Hash_key :: "env \<Rightarrow> string \<Rightarrow> string" where
  "Hash_key v raw = sha256_hex v raw"

definition VerifyAPIKey :: "(string \<Rightarrow> string \<Rightarrow> bool) \<Rightarrow> string \<Rightarrow> string \<Rightarrow> string \<times> bool" where
  "VerifyAPIKey compare token storedHash =
     (if \<not> HasPrefix token KeyPrefixLive then ('''', False)
      else case SplitN (CHR ''.'') (TrimPrefix token KeyPrefixLive) 2 of
             [i, secret] \<Rightarrow> (i, compare storedHash secret)
           | _ \<Rightarrow> ('''', False))"

definition LooksLikeKey :: "string \<Rightarrow> bool" where
  "LooksLikeKey s = list_ex (\<lambda>p. HasPrefix s p \<and> length p + 10 \<le> length s) keyPrefixes"

section \<open>Requests and contexts\<close>

record request =
  AuthorizationHeader :: string
  ShareTokenHeader :: string
  ShareQuery :: string

record principal =
  UserID :: string
  OrgID :: string
  Role :: string
  PlatformRole :: string

record share_context =
  ScLinkID :: string
  ScTenantID :: string
  ScFrom :: "time option"
  ScTo :: "time option"

record context_values =
  ctxTenant :: string
  ctxScope :: string
  ctxKeyID :: string
  ctxPrincipal :: "principal option"
  ctxShare :: "share_context option"

definition background :: context_values where
  "background = \<lparr>ctxTenant = '''', ctxScope = '''', ctxKeyID = '''', ctxPrincipal = None, ctxShare = None\<rparr>"

definition WithTenant :: "context_values \<Rightarrow> string \<Rightarrow> string \<Rightarrow> string \<Rightarrow> context_values" where
  "WithTenant c tid scope key = c\<lparr>ctxTenant := tid, ctxScope := scope, ctxKeyID := key\<rparr>"

definition WithPrincipal :: "context_values \<Rightarrow> principal \<Rightarrow> context_values" where
  "WithPrincipal c p = c\<lparr>ctxPrincipal := Some p\<rparr>"

definition WithShare :: "context_values \<Rightarrow> share_context \<Rightarrow> context_values" where
  "WithShare c sc = (WithTenant c (ScTenantID sc) ScopeRead (''share:'' @ ScLinkID sc))\<lparr>ctxShare := Some sc\<rparr>"

datatype outcome = Reject nat string | Serve context_values

definition bearerToken :: "request \<Rightarrow> string" where
  "bearerToken r =
     (let h = AuthorizationHeader r
      in if h = '''' then '''' else if \<not> HasPrefix h ''Bearer '' then '''' else TrimSpace (TrimPrefix h ''Bearer ''))"

section \<open>The key cache\<close>

record key_cache =
  cacheTTL :: int
  cacheItems :: "string \<rightharpoonup> api_key \<times> time"

definition NewCachedKeyStore :: "int \<Rightarrow> key_cache" where
  "NewCachedKeyStore ttl = \<lparr>cacheTTL = (if ttl \<le> 0 then 60 * Second else ttl), cacheItems = Map.empty\<rparr>"

definition Cached_GetKeyByID :: "env \<Rightarrow> pgdb \<Rightarrow> string \<Rightarrow> key_cache \<Rightarrow> api_key result \<times> key_cache" where
  "Cached_GetKeyByID v db i c =
     (case cacheItems c i of
        Some (k, expiry) \<Rightarrow>
          if now v < expiry then (Inr k, c)
          else (case GetKeyByID v db i of
                  Inl err \<Rightarrow> (Inl err, c)
                | Inr k' \<Rightarrow> (Inr k', c\<lparr>cacheItems := (cacheItems c)(i \<mapsto> (k', now v + cacheTTL c))\<rparr>))
      | None \<Rightarrow>
          (case GetKeyByID v db i of
             Inl err \<Rightarrow> (Inl err, c)
           | Inr k' \<Rightarrow> (Inr k', c\<lparr>cacheItems := (cacheItems c)(i \<mapsto> (k', now v + cacheTTL c))\<rparr>)))"

definition invalidateTenant :: "env \<Rightarrow> pgdb \<Rightarrow> string \<Rightarrow> key_cache \<Rightarrow> key_cache" where
  "invalidateTenant v db tid c =
     (case ListKeys v db tid of
        Inl _ \<Rightarrow> c
      | Inr ks \<Rightarrow> c\<lparr>cacheItems := foldl (\<lambda>m k. m(KID k := None)) (cacheItems c) ks\<rparr>)"

definition Cached_RevokeKey :: "env \<Rightarrow> string \<Rightarrow> string \<Rightarrow> pgdb \<times> key_cache \<Rightarrow> unit result \<times> pgdb \<times> key_cache" where
  "Cached_RevokeKey v tid i st =
     (case RevokeKey v tid i (fst st) of
        (Inl err, db') \<Rightarrow> (Inl err, db', snd st)
      | (Inr _, db') \<Rightarrow> (Inr (), db', invalidateTenant v db' tid (snd st)))"

definition Cached_RevokeAllKeys :: "env \<Rightarrow> string \<Rightarrow> pgdb \<times> key_cache \<Rightarrow> unit result \<times> pgdb \<times> key_cache" where
  "Cached_RevokeAllKeys v tid st =
     (case RevokeAllKeys v tid (fst st) of
        (Inl err, db') \<Rightarrow> (Inl err, db', snd st)
      | (Inr _, db') \<Rightarrow> (Inr (), db', invalidateTenant v db' tid (snd st)))"

section \<open>Middleware\<close>

text \<open>The key store is any lookup with a state, the cached one among them.\<close>

type_synonym 'c key_lookup = "string \<Rightarrow> 'c \<Rightarrow> api_key result \<times> 'c"

definition APIKey :: "(string \<Rightarrow> string \<Rightarrow> bool) \<Rightarrow> 'c key_lookup \<Rightarrow> request \<Rightarrow> context_values \<Rightarrow> 'c \<Rightarrow> outcome \<times> 'c" where
  "APIKey compare get r ctx c =
     (let raw = bearerToken r
      in if \<not> LooksLikeKey raw then (Reject 401 ''missing or malformed api key'', c)
         else case SplitN (CHR ''.'') (TrimPrefix raw KeyPrefixLive) 2 of
                [i, _] \<Rightarrow>
                  (case get i c of
                     (Inl _, c') \<Rightarrow> (Reject 401 ''invalid api key'', c')
                   | (Inr k, c') \<Rightarrow>
                       if \<not> snd (VerifyAPIKey compare raw (KHash k)) then (Reject 401 ''invalid api key'', c')
                       else if KRevokedAt k \<noteq> None then (Reject 401 ''api key revoked'', c')
                       else (Serve (WithTenant ctx (KTenantID k) (KScope k) (KID k)), c'))
              | _ \<Rightarrow> (Reject 401 ''invalid api key format'', c))"

definition RequireWrite :: "context_values \<Rightarrow> outcome" where
  "RequireWrite c = (if CanWrite (ctxScope c) then Serve c else Reject 403 ''write scope required'')"

definition RoleOwner :: string where "RoleOwner = ''owner''"
definition RoleAdmin :: string where "RoleAdmin = ''admin''"

definition RequireWriteOrAdmin :: "context_values \<Rightarrow> outcome" where
  "RequireWriteOrAdmin c =
     (case ctxPrincipal c of
        Some p \<Rightarrow>
          if Role p \<noteq> RoleOwner \<and> Role p \<noteq> RoleAdmin then Reject 403 ''admin role required to perform this action''
          else Serve c
      | None \<Rightarrow>
          if \<not> CanWrite (ctxScope c) then Reject 403 ''write scope required to perform this action'' else Serve c)"

section \<open>JWT principals\<close>

record claims =
  ClIssuer :: string
  ClSubject :: string
  ClOrg :: string
  ClRole :: string
  ClPlatformRole :: string
  ClAzp :: string

record verifier =
  vParse :: "string \<Rightarrow> claims option"
  vIssuer :: string
  vAzpAllow :: "string list"

definition Verify_token :: "verifier \<Rightarrow> string \<Rightarrow> principal option" where
  "Verify_token vf token =
     (case vParse vf token of
        None \<Rightarrow> None
      | Some c \<Rightarrow>
          if vIssuer vf \<noteq> '''' \<and> ClIssuer c \<noteq> vIssuer vf then None
          else if vAzpAllow vf \<noteq> [] \<and> ClAzp c \<noteq> '''' \<and> ClAzp c \<notin> set (vAzpAllow vf) then None
          else if TrimSpace (ClSubject c) = '''' then None
          else Some \<lparr>UserID = ClSubject c, OrgID = ClOrg c, Role = ClRole c, PlatformRole = ClPlatformRole c\<rparr>)"

text \<open>A nil verifier answers 404 to every request.\<close>

definition RequireJWT :: "verifier option \<Rightarrow> request \<Rightarrow> context_values \<Rightarrow> outcome" where
  "RequireJWT vf r ctx =
     (case vf of
        None \<Rightarrow> Reject 404 ''404 page not found''
      | Some x \<Rightarrow>
          (let raw = bearerToken r
           in if raw = '''' then Reject 401 ''missing bearer token''
              else case Verify_token x raw of
                     None \<Rightarrow> Reject 401 ''invalid or expired token''
                   | Some p \<Rightarrow> Serve (WithPrincipal ctx p)))"

definition RequireOrg :: "context_values \<Rightarrow> outcome" where
  "RequireOrg c =
     (case ctxPrincipal c of
        None \<Rightarrow> Reject 401 ''not authenticated''
      | Some p \<Rightarrow>
          if TrimSpace (OrgID p) = '''' then Reject 412 ''no active organization - create or select one in the dashboard''
          else Serve c)"

definition RequireRole :: "string list \<Rightarrow> context_values \<Rightarrow> outcome" where
  "RequireRole allowed c =
     (case ctxPrincipal c of
        None \<Rightarrow> Reject 401 ''not authenticated''
      | Some p \<Rightarrow> if Role p \<notin> set allowed then Reject 403 ''insufficient organization role'' else Serve c)"

definition RequirePlatformRole :: "string list \<Rightarrow> context_values \<Rightarrow> outcome" where
  "RequirePlatformRole allowed c =
     (case ctxPrincipal c of
        None \<Rightarrow> Reject 401 ''not authenticated''
      | Some p \<Rightarrow> if PlatformRole p \<notin> set allowed then Reject 403 ''insufficient platform role'' else Serve c)"

section \<open>Read routes: key or dashboard\<close>

definition DualAuth :: "env \<Rightarrow> pgdb \<Rightarrow> (string \<Rightarrow> string \<Rightarrow> bool) \<Rightarrow> 'c key_lookup \<Rightarrow> verifier option \<Rightarrow> request \<Rightarrow>
    context_values \<Rightarrow> 'c \<Rightarrow> outcome \<times> 'c" where
  "DualAuth v db compare get vf r ctx c =
     (if LooksLikeKey (bearerToken r) then APIKey compare get r ctx c
      else case RequireJWT vf r ctx of
             Reject status msg \<Rightarrow> (Reject status msg, c)
           | Serve ctx1 \<Rightarrow>
               (case ctxPrincipal ctx1 of
                  None \<Rightarrow> (Reject 412 ''no active organization'', c)
                | Some p \<Rightarrow>
                    if OrgID p = '''' then (Reject 412 ''no active organization'', c)
                    else case GetTenantByExternalID v db ''better_auth_org'' (OrgID p) of
                           Inl _ \<Rightarrow> (Reject 404 ''tenant not provisioned - POST /v1/me/bootstrap first'', c)
                         | Inr t \<Rightarrow> (Serve (WithTenant ctx1 (TenantIDOf t) ScopeRead (''user:'' @ UserID p)), c)))"

section \<open>Share links\<close>

definition share_token :: "request \<Rightarrow> string" where
  "share_token r =
     (if ShareTokenHeader r \<noteq> '''' then ShareTokenHeader r
      else if bearerToken r \<noteq> '''' then bearerToken r else ShareQuery r)"

definition ShareAuth :: "env \<Rightarrow> request \<Rightarrow> context_values \<Rightarrow> link_table \<Rightarrow> outcome \<times> link_table" where
  "ShareAuth v r ctx ls =
     (let tok = share_token r
      in if tok = '''' then (Reject 401 ''missing share token'', ls)
         else case SplitN (CHR ''_'') tok 3 of
                [a, b, secret] \<Rightarrow>
                  (case GetByIDWithSecret v ls (a @ ''_'' @ b) of
                     Inl _ \<Rightarrow> (Reject 401 ''invalid share link'', ls)
                   | Inr (l, h) \<Rightarrow>
                       if Hash_key v secret \<noteq> h then (Reject 401 ''invalid share secret'', ls)
                       else if \<not> Valid_link l (now v) then (Reject 410 ''share link expired or revoked'', ls)
                       else (Serve (WithShare ctx \<lparr>ScLinkID = LID l, ScTenantID = LTenantID l, ScFrom = LFilterFrom l,
                                      ScTo = LFilterTo l\<rparr>),
                             snd (RecordAccess v (LID l) ls)))
              | _ \<Rightarrow> (Reject 401 ''invalid share token format'', ls))"

definition MergeShareRange :: "context_values \<Rightarrow> time \<Rightarrow> time \<Rightarrow> time \<times> time" where
  "MergeShareRange c from to =
     (case ctxShare c of
        None \<Rightarrow> (from, to)
      | Some sc \<Rightarrow>
          ((case ScFrom sc of Some f \<Rightarrow> if IsZero from \<or> from < f then f else from | None \<Rightarrow> from),
           (case ScTo sc of Some t \<Rightarrow> if IsZero to \<or> t < to then t else to | None \<Rightarrow> to)))"

end
