(* ===== verification/Auth_Properties.thy ===== *)
theory Auth_Properties
  imports Auth Tenant_Accounts
begin

text \<open>
  Who gets in.  \<open>APIKey_sound\<close>: a served request carried the secret of an active key.
  \<open>DualAuth_write\<close>: dashboards never get write access.  \<open>cache_bounded\<close>: the key cache forgets a
  revocation for at most its time to live.  \<open>share_access\<close>: share links open exactly their range.
\<close>

section \<open>Splitting tokens\<close>

lemma index_of_first: "\<forall>x \<in> set a. \<not> P x \<Longrightarrow> P c \<Longrightarrow> index_of P (a @ c # b) = Some (length a)"
  by (simp add: index_of_append)

lemma index_of_char: "index_of (\<lambda>x. x = c) s = Some i \<Longrightarrow> s = take i s @ c # drop (Suc i) s \<and> c \<notin> set (take i s)"
  using index_of_split [of "\<lambda>x. x = c" s i] by auto

lemma SplitN_2: "SplitN c s 2 = [a, b] \<longleftrightarrow> s = a @ c # b \<and> c \<notin> set a"
proof
  assume "SplitN c s 2 = [a, b]"
  then obtain i where "index_of (\<lambda>x. x = c) s = Some i" "take i s = a" "drop (Suc i) s = b"
    by (auto simp: numeral_2_eq_2 split: option.splits)
  then show "s = a @ c # b \<and> c \<notin> set a" using index_of_char by metis
next
  assume a: "s = a @ c # b \<and> c \<notin> set a"
  then have "index_of (\<lambda>x. x = c) s = Some (length a)" using index_of_first [of a "\<lambda>x. x = c" c b] by auto
  with a show "SplitN c s 2 = [a, b]" by (simp add: numeral_2_eq_2)
qed

lemma SplitN_2_length: "SplitN c s 2 = [] \<Longrightarrow> False" "SplitN c s 2 = x # y # z # zs \<Longrightarrow> False"
  by (auto simp: numeral_2_eq_2 split: option.splits)

lemma SplitN_3:
  assumes "c \<notin> set a" "c \<notin> set b"
  shows "SplitN c (a @ c # b @ c # d) 3 = [a, b, d]"
proof -
  have "index_of (\<lambda>x. x = c) (a @ c # b @ c # d) = Some (length a)" "index_of (\<lambda>x. x = c) (b @ c # d) = Some (length b)"
    using assms by (auto intro!: index_of_first)
  then show ?thesis by (simp add: numeral_3_eq_3)
qed

lemma SplitN_3_first:
  assumes "SplitN c s 3 = [a, b, d]"
  shows "\<exists>t. s = a @ c # t \<and> SplitN c t 2 = [b, d]"
proof -
  have "SplitN c s 3 = (case index_of (\<lambda>x. x = c) s of None \<Rightarrow> [s] | Some i \<Rightarrow> take i s # SplitN c (drop (Suc i) s) 2)"
    by (simp only: numeral_3_eq_3 numeral_2_eq_2 SplitN.simps(3))
  with assms obtain i where i: "index_of (\<lambda>x. x = c) s = Some i" "take i s = a" "SplitN c (drop (Suc i) s) 2 = [b, d]"
    by (auto split: option.splits)
  then show ?thesis using index_of_char [OF i(1)] by auto
qed

section \<open>API keys\<close>

lemma HasPrefix_append_iff: "HasPrefix s p \<longleftrightarrow> (\<exists>t. s = p @ t)"
  by (auto simp: HasPrefix_def) (metis append_take_drop_id)

lemma VerifyAPIKey_True:
  "snd (VerifyAPIKey compare tok h) \<longleftrightarrow> (\<exists>i s. tok = KeyPrefixLive @ i @ ''.'' @ s \<and> CHR ''.'' \<notin> set i \<and> compare h s)"
proof (cases "HasPrefix tok KeyPrefixLive")
  case False
  then show ?thesis by (auto simp: VerifyAPIKey_def HasPrefix_append_iff)
next
  case True
  then obtain t where t: "tok = KeyPrefixLive @ t" unfolding HasPrefix_append_iff by blast
  have "snd (case ps of [i, s] \<Rightarrow> (i, compare h s) | _ \<Rightarrow> ('''', False)) \<longleftrightarrow> (\<exists>i s. ps = [i, s] \<and> compare h s)"
    for ps :: "string list" by (auto split: list.splits)
  then have "snd (VerifyAPIKey compare tok h) \<longleftrightarrow> (\<exists>i s. SplitN (CHR ''.'') t 2 = [i, s] \<and> compare h s)"
    using True by (simp add: VerifyAPIKey_def t)
  then show ?thesis unfolding SplitN_2 t by auto
qed

lemma APIKey_served:
  assumes "APIKey compare get r ctx c = (Serve ctx', c')"
  shows "\<exists>i secret k. bearerToken r = KeyPrefixLive @ i @ ''.'' @ secret \<and> CHR ''.'' \<notin> set i \<and>
    get i c = (Inr k, c') \<and> compare (KHash k) secret \<and> KRevokedAt k = None \<and>
    ctx' = WithTenant ctx (KTenantID k) (KScope k) (KID k)"
proof -
  obtain j s where sp: "SplitN (CHR ''.'') (TrimPrefix (bearerToken r) KeyPrefixLive) 2 = [j, s]"
    using assms by (auto simp: APIKey_def Let_def split: if_splits list.splits)
  obtain k where k: "get j c = (Inr k, c')" "snd (VerifyAPIKey compare (bearerToken r) (KHash k))" "KRevokedAt k = None"
      "ctx' = WithTenant ctx (KTenantID k) (KScope k) (KID k)"
    using assms sp by (auto simp: APIKey_def Let_def split: if_splits sum.splits prod.splits)
  from k(2) obtain i secret where t: "bearerToken r = KeyPrefixLive @ i @ ''.'' @ secret" "CHR ''.'' \<notin> set i" "compare (KHash k) secret"
    unfolding VerifyAPIKey_True by blast
  have "SplitN (CHR ''.'') (i @ ''.'' @ secret) 2 = [i, secret]" unfolding SplitN_2 using t(2) by simp
  then have "i = j" using sp t(1) by simp
  with t k show ?thesis by blast
qed


definition key_request :: request where
  "key_request = \<lparr>AuthorizationHeader = ''Bearer f0_live_k1.s3cret99'', ShareTokenHeader = [], ShareQuery = []\<rparr>"


text \<open>
  Issued keys work: the token \<open>GenerateKey\<close> returns for an id without a dot verifies against the
  hash it returns, and yields that id, whenever bcrypt accepts the password it hashed.
\<close>

theorem key_round_trip:
  assumes "GenerateKey generate entropy i = Some (token, h)" "CHR ''.'' \<notin> set i"
    and "\<And>s h. generate s = Some h \<Longrightarrow> compare h s"
  shows "VerifyAPIKey compare token h = (i, True)"
proof -
  obtain s where s: "generate s = Some h" "token = KeyPrefixLive @ i @ ''.'' @ s"
    using assms(1) by (auto simp: GenerateKey_def split: option.splits)
  have "HasPrefix token KeyPrefixLive" using s(2) HasPrefix_append_iff by blast
  moreover have "SplitN (CHR ''.'') (TrimPrefix token KeyPrefixLive) 2 = [i, s]"
    unfolding SplitN_2 using s(2) assms(2) by simp
  ultimately show ?thesis using assms(3) [OF s(1)] by (simp add: VerifyAPIKey_def)
qed

theorem key_round_trip_witness:
  "VerifyAPIKey (\<lambda>h s. h = rev s) ''f0_live_akid_1.secret'' ''terces'' = (''akid_1'', True)"
  by (rule key_round_trip [where generate = "\<lambda>s. Some (rev s)" and entropy = "Some ''secret''"])
    (simp_all add: GenerateKey_def KeyPrefixLive_def)

lemma APIKey_status: "case fst (APIKey compare get r ctx c) of Reject n _ \<Rightarrow> n = 401 | Serve _ \<Rightarrow> True"
proof -
  have "case fst (case p of (Inl _, c') \<Rightarrow> (Reject 401 m, c')
      | (Inr k, c') \<Rightarrow> if P k then (Reject 401 m, c') else if Q k then (Reject 401 m', c') else (Serve (g k), c')) of
      Reject n _ \<Rightarrow> n = 401 | Serve _ \<Rightarrow> True" for p :: "api_key result \<times> 'a" and P Q g m m'
    by (cases p; cases "fst p") auto
  then show ?thesis by (simp add: APIKey_def Let_def split: list.split)
qed

text \<open>
  Keys with the legacy prefix are always refused, although \<open>LooksLikeKey\<close> accepts their shape: a
  request with such a token gets status 401 whatever is stored.
\<close>

theorem legacy_key_refused:
  assumes "HasPrefix (bearerToken r) KeyPrefixLegacy"
  shows "\<exists>msg. fst (APIKey compare get r ctx c) = Reject 401 msg"
proof (cases "fst (APIKey compare get r ctx c)")
  case (Reject n msg)
  then show ?thesis using APIKey_status [of compare get r ctx c] by auto
next
  case (Serve ctx')
  then have "APIKey compare get r ctx c = (Serve ctx', snd (APIKey compare get r ctx c))" by (metis prod.collapse)
  from APIKey_served [OF this] obtain i s where "bearerToken r = KeyPrefixLive @ i @ ''.'' @ s" by blast
  with assms show ?thesis by (simp add: HasPrefix_append_iff KeyPrefixLive_def KeyPrefixLegacy_def)
qed

theorem legacy_key_refused_witness:
  "\<exists>msg. fst (APIKey (\<lambda>h s. True) (\<lambda>i c. (Inr sample_key, c)) (key_request\<lparr>AuthorizationHeader := ''Bearer alk_live_k1.0123456789''\<rparr>) background ()) = Reject 401 msg"
proof (rule legacy_key_refused)
  show "HasPrefix (bearerToken (key_request\<lparr>AuthorizationHeader := ''Bearer alk_live_k1.0123456789''\<rparr>)) KeyPrefixLegacy"
    by code_simp
qed

text \<open>
  C34.  The dashboard path is read-only: when \<open>DualAuth\<close> serves a request with a scope that can write,
  the request carried the secret of an active API key with write scope; a dashboard token only ever
  yields the read scope, on the tenant mapped to the token's organisation.
\<close>

theorem DualAuth_scopes:
  assumes "DualAuth v db compare get vf r ctx c = (Serve ctx', c')"
  shows "(\<exists>i secret k. bearerToken r = KeyPrefixLive @ i @ ''.'' @ secret \<and> get i c = (Inr k, c') \<and>
      compare (KHash k) secret \<and> KRevokedAt k = None \<and> ctxTenant ctx' = KTenantID k \<and> ctxScope ctx' = KScope k) \<or>
    (\<exists>x p t. vf = Some x \<and> Verify_token x (bearerToken r) = Some p \<and> OrgID p \<noteq> '''' \<and>
      GetTenantByExternalID v db ''better_auth_org'' (OrgID p) = Inr t \<and>
      ctxTenant ctx' = TenantIDOf t \<and> \<not> CanWrite (ctxScope ctx'))"
proof (cases "LooksLikeKey (bearerToken r)")
  case True
  with assms have "APIKey compare get r ctx c = (Serve ctx', c')" by (simp add: DualAuth_def)
  from APIKey_served [OF this] obtain i secret k where
      "bearerToken r = KeyPrefixLive @ i @ ''.'' @ secret" "get i c = (Inr k, c')" "compare (KHash k) secret"
      "KRevokedAt k = None" "ctx' = WithTenant ctx (KTenantID k) (KScope k) (KID k)" by blast
  then show ?thesis
    by (intro disjI1 exI [of _ i] exI [of _ secret] exI [of _ k]) (simp add: WithTenant_def)
next
  case False
  with assms obtain ctx1 where j: "RequireJWT vf r ctx = Serve ctx1"
    by (auto simp: DualAuth_def split: outcome.splits)
  then obtain x p where x: "vf = Some x" "Verify_token x (bearerToken r) = Some p" "ctx1 = WithPrincipal ctx p"
    by (auto simp: RequireJWT_def Let_def split: option.splits if_splits)
  with assms False j obtain t where "OrgID p \<noteq> ''''" "GetTenantByExternalID v db ''better_auth_org'' (OrgID p) = Inr t"
      "ctx' = WithTenant ctx1 (TenantIDOf t) ScopeRead (''user:'' @ UserID p)"
    by (auto simp: DualAuth_def WithPrincipal_def split: if_splits sum.splits)
  with x show ?thesis by (auto simp: WithTenant_def CanWrite_def ScopeRead_def ScopeWrite_def)
qed

definition org_db :: pgdb where
  "org_db = account_db\<lparr>identity_rows := [((''better_auth_org'', ''o''), ''t'')]\<rparr>"

definition sample_verifier :: verifier where
  "sample_verifier = \<lparr>vParse = (\<lambda>t. Some \<lparr>ClIssuer = [], ClSubject = ''u'', ClOrg = ''o'', ClRole = ''member'', ClPlatformRole = [], ClAzp = []\<rparr>),
     vIssuer = [], vAzpAllow = []\<rparr>"

theorem DualAuth_scopes_witness:
  "\<exists>ctx'. fst (DualAuth sample_env org_db (\<lambda>h s. False) (\<lambda>i c. (Inr sample_key, c)) (Some sample_verifier)
      (key_request\<lparr>AuthorizationHeader := ''Bearer x.y''\<rparr>) background ()) = Serve ctx' \<and> \<not> CanWrite (ctxScope ctx')"
proof -
  let ?d = "DualAuth sample_env org_db (\<lambda>h s. False) (\<lambda>i c. (Inr sample_key, c)) (Some sample_verifier)
      (key_request\<lparr>AuthorizationHeader := ''Bearer x.y''\<rparr>) background ()"
  have "case fst ?d of Reject _ _ \<Rightarrow> False | Serve _ \<Rightarrow> True" by code_simp
  then obtain ctx' where r: "?d = (Serve ctx', ())" by (cases "fst ?d") (auto simp: prod_eq_iff)
  from DualAuth_scopes [OF r] have "\<not> CanWrite (ctxScope ctx')" by auto
  with r show ?thesis by auto
qed

section \<open>The key cache\<close>

text \<open>An entry is either old enough to expire by the deadline or already carries the revocation.\<close>

definition cache_aged :: "string \<Rightarrow> time \<Rightarrow> key_cache \<Rightarrow> bool" where
  "cache_aged i deadline c =
     (\<forall>k expiry. cacheItems c i = Some (k, expiry) \<longrightarrow> expiry \<le> deadline \<or> KRevokedAt k \<noteq> None)"

definition key_revoked :: "pgdb \<Rightarrow> string \<Rightarrow> bool" where
  "key_revoked db i = (\<forall>k \<in> set (key_rows db). KID k = i \<longrightarrow> KRevokedAt k \<noteq> None)"

lemma GetKeyByID_revoked: "key_revoked db i \<Longrightarrow> GetKeyByID v db i = Inr k \<Longrightarrow> KRevokedAt k \<noteq> None"
  by (auto simp: GetKeyByID_def key_revoked_def split: if_splits list.splits dest!: filter_Cons_mem)

text \<open>Lookups through the cache, one after another, on the databases of the moment.\<close>

fun cache_run :: "(env \<times> pgdb \<times> string) list \<Rightarrow> key_cache \<Rightarrow> key_cache" where
  "cache_run [] c = c"
| "cache_run ((v, db, i) # es) c = cache_run es (snd (Cached_GetKeyByID v db i c))"

lemma lookup_aged:
  assumes "cache_aged i deadline c" "key_revoked db i"
  shows "cache_aged i deadline (snd (Cached_GetKeyByID v db j c))"
proof (cases "j = i")
  case True
  then show ?thesis
    using assms GetKeyByID_revoked [OF assms(2)]
    by (auto simp: Cached_GetKeyByID_def cache_aged_def split: option.splits sum.splits)
next
  case False
  then show ?thesis using assms(1) by (auto simp: Cached_GetKeyByID_def cache_aged_def split: option.splits sum.splits)
qed

lemma run_aged:
  "cache_aged i deadline c \<Longrightarrow> \<forall>(v, db, j) \<in> set es. key_revoked db i \<Longrightarrow> cache_aged i deadline (cache_run es c)"
  by (induction es c rule: cache_run.induct) (auto intro: lookup_aged)

text \<open>
  A revocation the cache does not see - made by another process, or with the invalidation
  failing - is forgotten for at most the time to live: if the cached entry expires by the deadline and
  the key is revoked in the database from some point on, then after any number of further lookups a
  lookup at or after the deadline never returns the key as active.
\<close>

theorem cache_staleness_bounded:
  assumes "cache_aged i deadline c" "\<forall>(v, db, j) \<in> set es. key_revoked db i" "key_revoked db i" "deadline \<le> now v"
    and "fst (Cached_GetKeyByID v db i (cache_run es c)) = Inr k"
  shows "KRevokedAt k \<noteq> None"
proof -
  have a: "cache_aged i deadline (cache_run es c)" by (rule run_aged [OF assms(1,2)])
  show ?thesis
    using assms(4,5) a GetKeyByID_revoked [OF assms(3)]
    by (fastforce simp: Cached_GetKeyByID_def cache_aged_def split: option.splits if_splits sum.splits)
qed

theorem cache_staleness_bounded_witness:
  "\<exists>k. fst (Cached_GetKeyByID (sample_env\<lparr>now := 100\<rparr>) (account_db\<lparr>key_rows := [sample_key\<lparr>KRevokedAt := Some 7\<rparr>]\<rparr>) ''k1''
     \<lparr>cacheTTL = 60, cacheItems = [''k1'' \<mapsto> (sample_key, 50)]\<rparr>) = Inr k \<and> KRevokedAt k \<noteq> None"
proof -
  let ?v = "sample_env\<lparr>now := 100\<rparr>" and ?db = "account_db\<lparr>key_rows := [sample_key\<lparr>KRevokedAt := Some 7\<rparr>]\<rparr>"
  let ?c = "\<lparr>cacheTTL = 60, cacheItems = [''k1'' \<mapsto> (sample_key, 50)]\<rparr>"
  obtain k where k: "fst (Cached_GetKeyByID ?v ?db ''k1'' (cache_run [] ?c)) = Inr k"
    by (simp add: Cached_GetKeyByID_def GetKeyByID_def sample_env_def sample_key_def)
  have "cache_aged ''k1'' 50 ?c" by (simp add: cache_aged_def)
  moreover have "key_revoked ?db ''k1''" by (simp add: key_revoked_def)
  ultimately have "KRevokedAt k \<noteq> None" using cache_staleness_bounded [OF _ _ _ _ k, of 50] by simp
  with k show ?thesis by auto
qed

lemma foldl_delete: "foldl (\<lambda>m k. m(KID k := None)) m ks = (\<lambda>j. if j \<in> KID ` set ks then None else m j)"
  by (induction ks arbitrary: m) (auto simp: fun_eq_iff)

text \<open>
  A revocation through the cache takes effect at once: after \<open>RevokeKey\<close> succeeds and the
  database answers, the next lookup of the key returns it revoked, so its next request is refused.
\<close>

theorem cache_revocation_immediate:
  assumes "Cached_RevokeKey v tid i (db, c) = (Inr (), db', c')" "wf_accounts db"
    and "\<forall>site n. \<not> fault v site n" "\<forall>site n. \<not> fault v' site n"
  shows "\<exists>k. fst (Cached_GetKeyByID v' db' i c') = Inr k \<and> KTenantID k = tid \<and> KRevokedAt k \<noteq> None"
proof -
  have r: "RevokeKey v tid i db = (Inr (), db')" and c': "c' = invalidateTenant v db' tid c"
    using assms(1) by (auto simp: Cached_RevokeKey_def split: sum.splits prod.splits)
  obtain k where k: "GetKeyByID v db' i = Inr k" "KTenantID k = tid" "KRevokedAt k \<noteq> None"
    using revoked_key_found [OF assms(2,3) r] by blast
  have f: "filter (\<lambda>k. KID k = i) (key_rows db') \<noteq> []" and "GetKeyByID v' db' i = Inr k"
    using k(1) assms(3,4) by (auto simp: GetKeyByID_def split: list.splits)
  have "k \<in> set (key_rows db')" "KID k = i"
    using k(1) by (auto simp: GetKeyByID_def split: if_splits list.splits dest!: filter_Cons_mem)
  then have "i \<in> KID ` set (filter (\<lambda>k. KTenantID k = tid) (key_rows db'))" using k(2) by force
  then have "cacheItems c' i = None"
    using assms(3) by (simp add: c' invalidateTenant_def ListKeys_def foldl_delete)
  with \<open>GetKeyByID v' db' i = Inr k\<close> k show ?thesis by (simp add: Cached_GetKeyByID_def)
qed

theorem cache_revocation_immediate_witness:
  "let st = snd (Cached_RevokeKey sample_env ''t'' ''k1'' (account_db\<lparr>key_rows := [sample_key]\<rparr>,
       \<lparr>cacheTTL = 60 * Second, cacheItems = [''k1'' \<mapsto> (sample_key, unix_epoch + 30)]\<rparr>))
   in \<exists>k. fst (Cached_GetKeyByID sample_env (fst st) ''k1'' (snd st)) = Inr k \<and> KRevokedAt k \<noteq> None"
proof -
  let ?db = "account_db\<lparr>key_rows := [sample_key]\<rparr>" and ?c = "\<lparr>cacheTTL = 60 * Second, cacheItems = [''k1'' \<mapsto> (sample_key, unix_epoch + 30)]\<rparr>"
  let ?r = "Cached_RevokeKey sample_env ''t'' ''k1'' (?db, ?c)"
  have w: "wf_accounts ?db"
    by (auto simp: wf_accounts_def key_ok_def account_db_def sample_db_def sample_key_def sample_tenant_def Scope_IsValid_def ScopeWrite_def)
  have nf: "\<forall>site n. \<not> fault sample_env site n" using sample_healthy by (simp add: healthy_def)
  have "fst ?r = Inr ()"
    using nf by (simp add: Cached_RevokeKey_def RevokeKey_def sample_key_def active_key_def)
  then have "?r = (Inr (), fst (snd ?r), snd (snd ?r))" by (metis prod.collapse)
  from cache_revocation_immediate [OF this w nf nf] show ?thesis by (auto simp: Let_def)
qed

section \<open>Share links\<close>

lemma wf_link_found:
  "GetByIDWithSecret v ls i = Inr (l, h) \<Longrightarrow> l \<in> set ls \<and> LID l = i \<and> h = (case LSecretHash l of None \<Rightarrow> '''' | Some x \<Rightarrow> x)"
  by (auto simp: GetByIDWithSecret_def split: if_splits list.splits dest!: filter_Cons_mem)

text \<open>
  Share links open only what they say: a request \<open>ShareAuth\<close> serves named a stored link and
  carried a secret with its digest; the link was neither revoked nor expired; the request is bound to
  its tenant with read scope, and the time range any handler then computes lies within the range of the
  link.
\<close>

theorem share_access_confined:
  assumes "ShareAuth v r ctx ls = (Serve ctx', ls')"
  shows "\<exists>l \<in> set ls. \<exists>secret. share_token r = LID l @ ''_'' @ secret \<and>
    Hash_key v secret = (case LSecretHash l of None \<Rightarrow> '''' | Some h \<Rightarrow> h) \<and>
    LRevokedAt l = None \<and> now v < LExpiresAt l \<and> ctxTenant ctx' = LTenantID l \<and> \<not> CanWrite (ctxScope ctx') \<and>
    (\<forall>from to t. fst (MergeShareRange ctx' from to) \<le> t \<and> t \<le> snd (MergeShareRange ctx' from to) \<longrightarrow>
       (\<forall>f. LFilterFrom l = Some f \<longrightarrow> f \<le> t) \<and> (\<forall>u. LFilterTo l = Some u \<longrightarrow> t \<le> u))"
proof -
  obtain a b secret where sp: "SplitN (CHR ''_'') (share_token r) 3 = [a, b, secret]"
    using assms by (auto simp: ShareAuth_def Let_def split: if_splits list.splits)
  obtain l h where g: "GetByIDWithSecret v ls (a @ ''_'' @ b) = Inr (l, h)" and k: "Hash_key v secret = h" "Valid_link l (now v)"
    and ctx': "ctx' = WithShare ctx \<lparr>ScLinkID = LID l, ScTenantID = LTenantID l, ScFrom = LFilterFrom l, ScTo = LFilterTo l\<rparr>"
    using assms sp by (auto simp: ShareAuth_def Let_def split: if_splits sum.splits prod.splits)
  have l: "l \<in> set ls" "LID l = a @ ''_'' @ b" "h = (case LSecretHash l of None \<Rightarrow> '''' | Some x \<Rightarrow> x)"
    using wf_link_found [OF g] by blast+
  obtain t where t: "share_token r = a @ CHR ''_'' # t" "SplitN (CHR ''_'') t 2 = [b, secret]"
    using SplitN_3_first [OF sp] by blast
  then have tok: "share_token r = LID l @ ''_'' @ secret" using l(2) unfolding SplitN_2 by simp
  have "ctxShare ctx' = Some \<lparr>ScLinkID = LID l, ScTenantID = LTenantID l, ScFrom = LFilterFrom l, ScTo = LFilterTo l\<rparr>"
    by (simp add: ctx' WithShare_def)
  then have "\<forall>from to t. fst (MergeShareRange ctx' from to) \<le> t \<and> t \<le> snd (MergeShareRange ctx' from to) \<longrightarrow>
       (\<forall>f. LFilterFrom l = Some f \<longrightarrow> f \<le> t) \<and> (\<forall>u. LFilterTo l = Some u \<longrightarrow> t \<le> u)"
    by (auto simp: MergeShareRange_def split: if_splits)
  moreover have "LRevokedAt l = None" "now v < LExpiresAt l" using k(2) by (simp_all add: Valid_link_def)
  moreover have "ctxTenant ctx' = LTenantID l" "\<not> CanWrite (ctxScope ctx')"
    by (simp_all add: ctx' WithShare_def WithTenant_def CanWrite_def ScopeRead_def ScopeWrite_def)
  moreover have "Hash_key v secret = (case LSecretHash l of None \<Rightarrow> '''' | Some h \<Rightarrow> h)" using k(1) l(3) by simp
  ultimately show ?thesis using tok by (intro bexI [OF _ l(1)] exI [of _ secret] conjI)
qed

definition share_input :: create_input where
  "share_input = \<lparr>CLabel = [], CFilterFrom = Some 5000, CFilterTo = None, CExpiresAt = unix_epoch + Second\<rparr>"

definition share_request :: "string \<Rightarrow> request" where
  "share_request tok = \<lparr>AuthorizationHeader = [], ShareTokenHeader = tok, ShareQuery = []\<rparr>"

text \<open>
  A created link works: the token \<open>Create\<close> returns is accepted by \<open>ShareAuth\<close> until the link
  expires, for the tenant it was created for, and the access is counted.
\<close>

theorem share_round_trip:
  assumes "Create_link v (p @ ''_'' @ u) (Some secret) tid by inp db ls = (Inr (l, token), ls')"
    and "CHR ''_'' \<notin> set p" "CHR ''_'' \<notin> set u" "\<forall>site n. \<not> fault v' site n"
    and "sha256 v' = sha256 v" "now v' < pg_time (CExpiresAt inp)"
  shows "\<exists>ctx' ls''. ShareAuth v' (share_request token) ctx ls' = (Serve ctx', ls'') \<and> ctxTenant ctx' = tid \<and>
    (\<exists>m \<in> set ls''. LID m = p @ ''_'' @ u \<and> LAccessCount m = 1)"
proof -
  let ?i = "p @ ''_'' @ u" and ?l = "new_link v (p @ ''_'' @ u) tid by secret inp"
  have ls': "ls' = ls @ [?l]" and tok: "token = ?i @ ''_'' @ secret" and new: "\<not> list_ex (\<lambda>l. LID l = ?i) ls"
    using assms(1) by (auto simp: Create_link_def Let_def split: if_splits sum.splits)
  have "filter (\<lambda>l. LID l = ?i) ls = []" using new by (auto simp: list_ex_iff filter_empty_conv)
  then have f: "filter (\<lambda>l. LID l = ?i) ls' = [?l]" by (simp add: ls' new_link_def)
  have "now v' < LExpiresAt ?l" using assms(6) by (simp add: new_link_def)
  moreover have "pg_now v' \<le> now v'" using Truncate_le [of Microsecond "now v'"] by (simp add: pg_now_def Microsecond_def)
  ultimately have acc: "accessible v' ?i ?l" by (simp add: accessible_def new_link_def)
  have sp: "SplitN (CHR ''_'') token 3 = [p, u, secret]"
    using SplitN_3 [OF assms(2,3), of secret] by (simp add: tok)
  let ?up = "\<lambda>m. if accessible v' ?i m then m\<lparr>LAccessCount := Suc (LAccessCount m), LLastAccessed := Some (pg_now v')\<rparr> else m"
  have "list_ex (accessible v' ?i) ls'" using acc by (simp add: ls')
  then have "ShareAuth v' (share_request token) ctx ls' =
      (Serve (WithShare ctx \<lparr>ScLinkID = LID ?l, ScTenantID = LTenantID ?l, ScFrom = LFilterFrom ?l, ScTo = LFilterTo ?l\<rparr>),
       map ?up ls')"
    using sp assms(4,5,6) f
    by (simp add: ShareAuth_def Let_def share_token_def share_request_def tok GetByIDWithSecret_def Hash_key_def
        sha256_hex_def new_link_def Valid_link_def RecordAccess_def)
  moreover have "\<exists>m \<in> set (map ?up ls'). LID m = ?i \<and> LAccessCount m = 1"
  proof
    show "?up ?l \<in> set (map ?up ls')" unfolding ls' set_map by (rule imageI) simp
    show "LID (?up ?l) = ?i \<and> LAccessCount (?up ?l) = 1" using acc by (simp add: new_link_def)
  qed
  moreover have "ctxTenant (WithShare ctx \<lparr>ScLinkID = LID ?l, ScTenantID = LTenantID ?l, ScFrom = LFilterFrom ?l, ScTo = LFilterTo ?l\<rparr>) = tid"
    by (simp add: WithShare_def WithTenant_def new_link_def)
  ultimately show ?thesis by (intro exI conjI)
qed

lemma sample_link:
  "Create_link sample_env (''shr'' @ ''_'' @ ''1'') (Some ''s'') ''t'' ''me'' share_input account_db [] =
     (Inr (new_link sample_env ''shr_1'' ''t'' ''me'' ''s'' share_input, ''shr_1_s''), [new_link sample_env ''shr_1'' ''t'' ''me'' ''s'' share_input])"
  by code_simp

lemma sample_not_expired: "now sample_env < pg_time (CExpiresAt share_input)"
  by code_simp

theorem share_round_trip_witness:
  "\<exists>ctx' ls''. ShareAuth sample_env (share_request ''shr_1_s'') background [new_link sample_env ''shr_1'' ''t'' ''me'' ''s'' share_input] =
     (Serve ctx', ls'') \<and> ctxTenant ctx' = ''t''"
proof -
  have "\<forall>site n. \<not> fault sample_env site n" using sample_healthy by (simp add: healthy_def)
  from share_round_trip [OF sample_link _ _ this refl sample_not_expired, of background] show ?thesis by auto
qed

theorem share_access_confined_witness:
  "\<exists>ctx'. fst (ShareAuth sample_env (share_request ''shr_1_s'') background [new_link sample_env ''shr_1'' ''t'' ''me'' ''s'' share_input]) = Serve ctx' \<and>
     ctxTenant ctx' = ''t''"
proof -
  let ?l = "new_link sample_env ''shr_1'' ''t'' ''me'' ''s'' share_input"
  let ?a = "ShareAuth sample_env (share_request ''shr_1_s'') background [?l]"
  have "case fst ?a of Reject _ _ \<Rightarrow> False | Serve _ \<Rightarrow> True" by code_simp
  then obtain ctx' where "fst ?a = Serve ctx'" by (cases "fst ?a") auto
  then have r: "?a = (Serve ctx', snd ?a)" by (metis prod.collapse)
  have "LTenantID ?l = ''t''" by (simp add: new_link_def)
  with share_access_confined [OF r] have "ctxTenant ctx' = ''t''" by auto
  with \<open>fst ?a = Serve ctx'\<close> show ?thesis by blast
qed

end
