(* ===== verification/Execution_Model.thy ===== *)
theory Execution_Model
  imports Audit_Model "HOL-Library.Word"
begin

text \<open>
  api/internal/execution: the records of the telemetry (model.go), their JSON encodings, the
  validators (validation.go) and the deterministic identifiers (id.go).

  A nil pointer or slice is \<open>None\<close> (a list where the code never tells nil and empty apart); a nil \<open>any\<close> is \<open>JNull\<close>; a \<open>map[string]string\<close> is an association list.
  A \<open>float64\<close> field is kept as the decimal text \<open>encoding/json\<close> prints for it, which reads back as the
  same number; token counts are \<open>int32\<close>.  Instants are in UTC.
\<close>

section \<open>Records\<close>

definition StatusRunning :: string where "StatusRunning = ''RUNNING''"
definition StatusCompleted :: string where "StatusCompleted = ''COMPLETED''"
definition StatusFailed :: string where "StatusFailed = ''FAILED''"
definition StatusCancelled :: string where "StatusCancelled = ''CANCELLED''"

definition SpanKindToolCall :: string where "SpanKindToolCall = ''TOOL_CALL''"
definition SpanKindModelInvocation :: string where "SpanKindModelInvocation = ''MODEL_INVOCATION''"
definition SpanKindStateMutation :: string where "SpanKindStateMutation = ''STATE_MUTATION''"
definition SpanKindHumanApproval :: string where "SpanKindHumanApproval = ''HUMAN_APPROVAL''"
definition SpanKindPolicyEvaluation :: string where "SpanKindPolicyEvaluation = ''POLICY_EVALUATION''"
definition SpanKindCustom :: string where "SpanKindCustom = ''CUSTOM''"

lemmas status_defs = StatusRunning_def StatusCompleted_def StatusFailed_def StatusCancelled_def
lemmas kind_defs = SpanKindToolCall_def SpanKindModelInvocation_def SpanKindStateMutation_def
  SpanKindHumanApproval_def SpanKindPolicyEvaluation_def SpanKindCustom_def

type_synonym strmap = "(string \<times> string) list"
type_synonym float64 = string

text \<open>The elements of a slice that may be nil.\<close>

definition slice :: "'a list option \<Rightarrow> 'a list" where
  "slice xs = (case xs of None \<Rightarrow> [] | Some ys \<Rightarrow> ys)"

record execution =
  ExecID :: string
  ExecAgentID :: string
  ExecAgentName :: string
  ExecStatus :: string
  ExecRootSpanID :: string
  ExecTrigger :: string
  ExecStartedAt :: time
  ExecEndedAt :: "time option"
  ExecMetadata :: "strmap option"
  ExecCreatedAt :: time

record span_error =
  ErrCode :: string
  ErrMessage :: string
  ErrStackTrace :: string

record payload_ref =
  Inline :: json
  SizeBytes :: int
  ContentType :: string

record tool_call =
  ToolName :: string
  ToolVersion :: string
  ToolInput :: "payload_ref option"
  ToolOutput :: "payload_ref option"
  ToolDurationMs :: int

record model_invocation =
  ModelName :: string
  ModelProvider :: string
  ModelPrompt :: "payload_ref option"
  ModelCompletion :: "payload_ref option"
  PromptTokens :: "32 word"
  CompletionTokens :: "32 word"
  TotalTokens :: "32 word"
  LatencyMs :: int
  Temperature :: float64
  SessionID :: string
  TurnSequence :: int
  PromptName :: string
  PromptVersion :: int
  CostUSD :: float64

record state_mutation =
  MutKey :: string
  BeforeValue :: "payload_ref option"
  AfterValue :: "payload_ref option"
  MutationType :: string

record human_approval =
  ApproverID :: string
  ApproverName :: string
  Decision :: string
  Reasoning :: string
  DecidedAt :: time

record policy_evaluation =
  PolicyID :: string
  PolicyName :: string
  PolicyResult :: string
  Violations :: "string list"
  PolicyContext :: strmap

record span =
  SpanID :: string
  SpanExecutionID :: string
  SpanParent :: "string option"
  SpanCausedBy :: "string list option"
  SpanType :: string
  SpanName :: string
  SpanStatus :: string
  SpanStartedAt :: time
  SpanEndedAt :: "time option"
  SpanMetadata :: "strmap option"
  SpanToolCall :: "tool_call option"
  SpanModel :: "model_invocation option"
  SpanState :: "state_mutation option"
  SpanApproval :: "human_approval option"
  SpanPolicy :: "policy_evaluation option"
  SpanErr :: "span_error option"

record execution_event =
  EvID :: string
  EvExecutionID :: string
  EvSpanID :: string
  EvType :: string
  EvTimestamp :: time
  EvSeq :: int
  EvPayload :: "payload_ref option"
  EvMetadata :: "strmap option"

record dag_node =
  NodeID :: string
  NodeName :: string
  NodeType :: string
  NodeStatus :: string
  NodeStartedAt :: time
  NodeEndedAt :: "time option"
  NodeDuration :: int
  NodeMetadata :: "strmap option"

record dag_edge =
  EdgeSource :: string
  EdgeTarget :: string
  EdgeType :: string

record replay_frame =
  FrameSeq :: int
  FrameEventType :: string
  FrameSpanID :: string
  FrameSpanName :: string
  FrameSpanType :: string
  FrameEvent :: execution_event
  DeltaMs :: int
  ElapsedMs :: int

text \<open>\<open>time.Time.Sub\<close> saturates at the bounds of a 64-bit duration; \<open>Milliseconds\<close> rounds to zero.\<close>

definition Sub_time :: "time \<Rightarrow> time \<Rightarrow> int" where
  "Sub_time a b = max (- (2 ^ 63)) (min (2 ^ 63 - 1) (a - b))"

definition Milliseconds :: "int \<Rightarrow> int" where
  "Milliseconds d = sgn d * (\<bar>d\<bar> div 1000000)"

definition DurationMs :: "span \<Rightarrow> int" where
  "DurationMs s = (case SpanEndedAt s of None \<Rightarrow> 0 | Some e \<Rightarrow> Milliseconds (Sub_time e (SpanStartedAt s)))"

section \<open>JSON\<close>

text \<open>\<open>time.RFC3339Nano\<close>, the layout of \<open>Time.MarshalJSON\<close>.\<close>

definition Format_nano :: "time \<Rightarrow> string" where
  "Format_nano t =
     (let (y, m, d) = civil (t div Day); s = t mod Day div Second; n = t mod Second
      in append_int 4 y @ ''-'' @ append_int 2 m @ ''-'' @ append_int 2 d @ ''T'' @
         append_int 2 (s div 3600) @ '':'' @ append_int 2 (s div 60 mod 60) @ '':'' @ append_int 2 (s mod 60) @
         (if n = 0 then '''' else ''.'' @ TrimRightChar (CHR ''0'') (append_int 9 n)) @ ''Z'')"

text \<open>\<open>omitempty\<close> on the kinds of fields the records have.\<close>

definition opt_field :: "string \<Rightarrow> ('a \<Rightarrow> json) \<Rightarrow> 'a option \<Rightarrow> (string \<times> json) list" where
  "opt_field k f x = (case x of None \<Rightarrow> [] | Some y \<Rightarrow> [(k, f y)])"

definition omit_int :: "string \<Rightarrow> int \<Rightarrow> (string \<times> json) list" where
  "omit_int k n = (if n = 0 then [] else [(k, JNum (FormatInt n))])"

definition zero_float :: "float64 \<Rightarrow> bool" where
  "zero_float f = (f = ''0'' \<or> f = ''-0'')"

definition omit_float :: "string \<Rightarrow> float64 \<Rightarrow> (string \<times> json) list" where
  "omit_float k f = (if zero_float f then [] else [(k, JNum f)])"

definition omit_list :: "string \<Rightarrow> string list \<Rightarrow> (string \<times> json) list" where
  "omit_list k xs = (if xs = [] then [] else [(k, JArr (map JStr xs))])"

definition int_json :: "int \<Rightarrow> json" where "int_json n = JNum (FormatInt n)"
definition int32_json :: "32 word \<Rightarrow> json" where "int32_json n = JNum (FormatInt (sint n))"
definition time_json :: "time \<Rightarrow> json" where "time_json t = JStr (Format_nano t)"

definition strmap_json :: "strmap \<Rightarrow> json" where
  "strmap_json m = JObj (map (\<lambda>(k, s). (k, JStr s)) m)"

definition metadata_json :: "strmap option \<Rightarrow> json" where
  "metadata_json md = (case md of None \<Rightarrow> JNull | Some m \<Rightarrow> strmap_json m)"

definition payload_fields :: "payload_ref \<Rightarrow> (string \<times> json) list" where
  "payload_fields p =
     (if Inline p = JNull then [] else [(''inline'', Inline p)]) @
     [(''size_bytes'', int_json (SizeBytes p))] @ omitempty ''content_type'' (ContentType p)"

definition payload_json :: "payload_ref \<Rightarrow> json" where
  "payload_json p = JObj (payload_fields p)"

definition tool_call_json :: "tool_call \<Rightarrow> json" where
  "tool_call_json t = JObj ([(''tool_name'', JStr (ToolName t))] @ omitempty ''tool_version'' (ToolVersion t) @
     opt_field ''input'' payload_json (ToolInput t) @ opt_field ''output'' payload_json (ToolOutput t) @
     [(''duration_ms'', int_json (ToolDurationMs t))])"

definition model_invocation_json :: "model_invocation \<Rightarrow> json" where
  "model_invocation_json x = JObj (
     [(''model_name'', JStr (ModelName x)), (''model_provider'', JStr (ModelProvider x))] @
     opt_field ''prompt'' payload_json (ModelPrompt x) @ opt_field ''completion'' payload_json (ModelCompletion x) @
     [(''prompt_tokens'', int32_json (PromptTokens x)), (''completion_tokens'', int32_json (CompletionTokens x)),
      (''total_tokens'', int32_json (TotalTokens x)), (''latency_ms'', int_json (LatencyMs x)),
      (''temperature'', JNum (Temperature x))] @
     omitempty ''session_id'' (SessionID x) @ omit_int ''turn_sequence'' (TurnSequence x) @
     omitempty ''prompt_name'' (PromptName x) @ omit_int ''prompt_version'' (PromptVersion x) @
     omit_float ''cost_usd'' (CostUSD x))"

definition state_mutation_json :: "state_mutation \<Rightarrow> json" where
  "state_mutation_json x = JObj ([(''key'', JStr (MutKey x))] @
     opt_field ''before_value'' payload_json (BeforeValue x) @ opt_field ''after_value'' payload_json (AfterValue x) @
     [(''mutation_type'', JStr (MutationType x))])"

definition human_approval_json :: "human_approval \<Rightarrow> json" where
  "human_approval_json x = JObj
     [(''approver_id'', JStr (ApproverID x)), (''approver_name'', JStr (ApproverName x)),
      (''decision'', JStr (Decision x)), (''reasoning'', JStr (Reasoning x)), (''decided_at'', time_json (DecidedAt x))]"

definition policy_evaluation_json :: "policy_evaluation \<Rightarrow> json" where
  "policy_evaluation_json x = JObj (
     [(''policy_id'', JStr (PolicyID x)), (''policy_name'', JStr (PolicyName x)), (''result'', JStr (PolicyResult x))] @
     omit_list ''violations'' (Violations x) @
     (if PolicyContext x = [] then [] else [(''context'', strmap_json (PolicyContext x))]))"

definition span_error_json :: "span_error \<Rightarrow> json" where
  "span_error_json x = JObj ([(''code'', JStr (ErrCode x)), (''message'', JStr (ErrMessage x))] @
     omitempty ''stack_trace'' (ErrStackTrace x))"

definition span_json :: "span \<Rightarrow> json" where
  "span_json s = JObj (
     [(''id'', JStr (SpanID s)), (''execution_id'', JStr (SpanExecutionID s))] @
     opt_field ''parent_span_id'' JStr (SpanParent s) @ omit_list ''caused_by_span_ids'' (slice (SpanCausedBy s)) @
     [(''span_type'', JStr (SpanType s)), (''name'', JStr (SpanName s)), (''status'', JStr (SpanStatus s)),
      (''started_at'', time_json (SpanStartedAt s))] @
     opt_field ''ended_at'' time_json (SpanEndedAt s) @
     [(''metadata'', metadata_json (SpanMetadata s))] @
     opt_field ''tool_call'' tool_call_json (SpanToolCall s) @
     opt_field ''model_invocation'' model_invocation_json (SpanModel s) @
     opt_field ''state_mutation'' state_mutation_json (SpanState s) @
     opt_field ''human_approval'' human_approval_json (SpanApproval s) @
     opt_field ''policy_evaluation'' policy_evaluation_json (SpanPolicy s) @
     opt_field ''error'' span_error_json (SpanErr s))"

definition event_fields :: "execution_event \<Rightarrow> (string \<times> json) list" where
  "event_fields e =
     [(''id'', JStr (EvID e)), (''execution_id'', JStr (EvExecutionID e)), (''span_id'', JStr (EvSpanID e)),
      (''event_type'', JStr (EvType e)), (''timestamp'', time_json (EvTimestamp e)),
      (''sequence_number'', int_json (EvSeq e))] @
     opt_field ''payload'' payload_json (EvPayload e) @ [(''metadata'', metadata_json (EvMetadata e))]"

definition event_json :: "execution_event \<Rightarrow> json" where
  "event_json e = JObj (event_fields e)"

section \<open>Validation\<close>

definition ValidateExecution :: "execution \<Rightarrow> app_error option" where
  "ValidateExecution e =
     (if ExecAgentID e = '''' then Some (Validation ''agent_id'' ''must not be empty'')
      else if IsZero (ExecStartedAt e) then Some (Validation ''started_at'' ''must not be zero'')
      else if (case ExecEndedAt e of None \<Rightarrow> False | Some t \<Rightarrow> t < ExecStartedAt e)
      then Some (Validation ''ended_at'' ''must be after started_at'')
      else None)"

definition isValidSpanKind :: "string \<Rightarrow> bool" where
  "isValidSpanKind k = (k \<in> {SpanKindToolCall, SpanKindModelInvocation, SpanKindStateMutation,
     SpanKindHumanApproval, SpanKindPolicyEvaluation, SpanKindCustom})"

definition ValidateSpan :: "span option \<Rightarrow> app_error option" where
  "ValidateSpan sp =
     (case sp of
        None \<Rightarrow> Some (InvalidInput ''span required'')
      | Some s \<Rightarrow>
          if SpanStatus s \<noteq> StatusRunning \<and> SpanStatus s \<noteq> StatusCompleted \<and> SpanStatus s \<noteq> StatusFailed \<and>
             SpanStatus s \<noteq> StatusCancelled
          then Some (Validation ''status'' ''invalid span status'')
          else if (SpanStatus s = StatusRunning) \<noteq> (SpanEndedAt s = None)
          then Some (Validation ''ended_at'' ''required for terminal spans and absent for RUNNING spans'')
          else if SpanExecutionID s = '''' then Some (Validation ''execution_id'' ''must not be empty'')
          else if SpanName s = '''' then Some (Validation ''name'' ''must not be empty'')
          else if \<not> isValidSpanKind (SpanType s)
          then Some (Validation ''span_type'' (''invalid span type: '' @ SpanType s))
          else if IsZero (SpanStartedAt s) then Some (Validation ''started_at'' ''must not be zero'')
          else if (case SpanEndedAt s of None \<Rightarrow> False | Some t \<Rightarrow> t < SpanStartedAt s)
          then Some (Validation ''ended_at'' ''must be after started_at'')
          else None)"

definition ValidateEvent :: "execution_event \<Rightarrow> app_error option" where
  "ValidateEvent e =
     (if EvExecutionID e = '''' then Some (Validation ''execution_id'' ''must not be empty'')
      else if EvSpanID e = '''' then Some (Validation ''span_id'' ''must not be empty'')
      else if EvType e = '''' then Some (Validation ''event_type'' ''must not be empty'')
      else if IsZero (EvTimestamp e) then Some (Validation ''timestamp'' ''must not be zero'')
      else None)"

section \<open>Identifiers\<close>

definition short_hash :: "hash_function \<Rightarrow> string \<Rightarrow> string" where
  "short_hash H s = hex_encode (take 8 (H s))"

definition GenerateExecutionID :: "hash_function \<Rightarrow> string \<Rightarrow> int \<Rightarrow> string \<Rightarrow> string" where
  "GenerateExecutionID H agentID startTime key =
     ''exec_'' @ short_hash H (''exec:'' @ agentID @ '':'' @ FormatInt startTime @ '':'' @ key)"

definition GenerateSpanID :: "hash_function \<Rightarrow> string \<Rightarrow> string \<Rightarrow> string \<Rightarrow> int \<Rightarrow> string" where
  "GenerateSpanID H executionID parent name s =
     ''span_'' @ short_hash H (''span:'' @ executionID @ '':'' @ parent @ '':'' @ name @ '':'' @ FormatInt s)"

definition GenerateEventID :: "hash_function \<Rightarrow> string \<Rightarrow> string \<Rightarrow> string \<Rightarrow> int \<Rightarrow> string" where
  "GenerateEventID H executionID spanID eventType s =
     ''evt_'' @ short_hash H (''evt:'' @ executionID @ '':'' @ spanID @ '':'' @ eventType @ '':'' @ FormatInt s)"

end
