(* ===== verification/Telemetry_Store.thy ===== *)
theory Telemetry_Store
  imports Execution_Model Tenant_Store Audit_Store
begin

text \<open>
  api/internal/storage/postgres/store.go and telemetry_write.go: executions, spans with their causal
  edges, and the append-only log of execution events.

  The tables are lists in insertion order, which is the order of the serial columns of executions and
  spans; the sequence of the events is kept because it is visible.  A failed transaction leaves the
  tables as they were, but the sequence values it drew are gone.  The texts of a request are
  well-formed UTF-8, as the decoders of the transport guarantee, and text columns compare byte for
  byte.  The typed fields of a span come back from their \<open>jsonb\<close> columns as they were written; a free
  payload comes back normalised.
\<close>

section \<open>Tables\<close>

datatype detail =
    DTool tool_call
  | DModel model_invocation
  | DState state_mutation
  | DApproval human_approval
  | DPolicy policy_evaluation
  | DEmpty

record telemetry =
  exec_rows :: "(string \<times> execution) list"
  span_rows :: "(span \<times> detail) list"
  cause_rows :: "(string \<times> string) list"
  event_rows :: "execution_event list"
  event_seq :: int

definition equalJSON :: "json \<Rightarrow> json \<Rightarrow> bool" where
  "equalJSON a b =
     (case JSON_canonical a of
        None \<Rightarrow> False
      | Some x \<Rightarrow> (case JSON_canonical b of None \<Rightarrow> False | Some y \<Rightarrow> x = y))"

text \<open>A value through \<open>json.Marshal\<close>, and through a \<open>jsonb\<close> column.\<close>

definition marshals :: "json \<Rightarrow> bool" where
  "marshals x = (redecode x \<noteq> None)"

definition jsonb_value :: "env \<Rightarrow> json \<Rightarrow> json option" where
  "jsonb_value v x =
     (case redecode x of
        None \<Rightarrow> None
      | Some y \<Rightarrow> (case jsonb v [(''value'', y)] of Some [(k, z)] \<Rightarrow> Some z | _ \<Rightarrow> None))"

definition store_payload :: "env \<Rightarrow> payload_ref \<Rightarrow> payload_ref option" where
  "store_payload v p =
     (if Inline p = JNull then Some p else map_option (\<lambda>x. p\<lparr>Inline := x\<rparr>) (jsonb_value v (Inline p)))"

fun store_opt :: "env \<Rightarrow> payload_ref option \<Rightarrow> payload_ref option option" where
  "store_opt v None = Some None"
| "store_opt v (Some p) = map_option Some (store_payload v p)"

text \<open>The two payloads of a detail, where it has them.\<close>

definition store_two :: "env \<Rightarrow> payload_ref option \<Rightarrow> payload_ref option \<Rightarrow>
    (payload_ref option \<Rightarrow> payload_ref option \<Rightarrow> detail) \<Rightarrow> detail option" where
  "store_two v p q f =
     (case store_opt v p of None \<Rightarrow> None | Some p' \<Rightarrow> map_option (f p') (store_opt v q))"

fun store_detail :: "env \<Rightarrow> detail \<Rightarrow> detail option" where
  "store_detail v (DTool t) =
     store_two v (ToolInput t) (ToolOutput t) (\<lambda>p q. DTool (t\<lparr>ToolInput := p, ToolOutput := q\<rparr>))"
| "store_detail v (DModel t) =
     store_two v (ModelPrompt t) (ModelCompletion t) (\<lambda>p q. DModel (t\<lparr>ModelPrompt := p, ModelCompletion := q\<rparr>))"
| "store_detail v (DState t) =
     store_two v (BeforeValue t) (AfterValue t) (\<lambda>p q. DState (t\<lparr>BeforeValue := p, AfterValue := q\<rparr>))"
| "store_detail v d = Some d"

fun detail_json :: "detail \<Rightarrow> json" where
  "detail_json (DTool t) = tool_call_json t"
| "detail_json (DModel t) = model_invocation_json t"
| "detail_json (DState t) = state_mutation_json t"
| "detail_json (DApproval t) = human_approval_json t"
| "detail_json (DPolicy t) = policy_evaluation_json t"
| "detail_json DEmpty = JObj []"

definition spanDetail :: "span \<Rightarrow> detail" where
  "spanDetail s =
     (case SpanToolCall s of Some t \<Rightarrow> DTool t | None \<Rightarrow>
     (case SpanModel s of Some t \<Rightarrow> DModel t | None \<Rightarrow>
     (case SpanState s of Some t \<Rightarrow> DState t | None \<Rightarrow>
     (case SpanApproval s of Some t \<Rightarrow> DApproval t | None \<Rightarrow>
     (case SpanPolicy s of Some t \<Rightarrow> DPolicy t | None \<Rightarrow> DEmpty)))))"

text \<open>Decoding a detail of another kind fills no field.\<close>

definition zero_tool :: tool_call where
  "zero_tool = \<lparr>ToolName = [], ToolVersion = [], ToolInput = None, ToolOutput = None, ToolDurationMs = 0\<rparr>"

definition zero_model :: model_invocation where
  "zero_model = \<lparr>ModelName = [], ModelProvider = [], ModelPrompt = None, ModelCompletion = None, PromptTokens = 0,
     CompletionTokens = 0, TotalTokens = 0, LatencyMs = 0, Temperature = ''0'', SessionID = [], TurnSequence = 0,
     PromptName = [], PromptVersion = 0, CostUSD = ''0''\<rparr>"

definition zero_state :: state_mutation where
  "zero_state = \<lparr>MutKey = [], BeforeValue = None, AfterValue = None, MutationType = []\<rparr>"

definition zero_approval :: human_approval where
  "zero_approval = \<lparr>ApproverID = [], ApproverName = [], Decision = [], Reasoning = [], DecidedAt = 0\<rparr>"

definition zero_policy :: policy_evaluation where
  "zero_policy = \<lparr>PolicyID = [], PolicyName = [], PolicyResult = [], Violations = [], PolicyContext = []\<rparr>"

definition scanSpanRow :: "span \<times> detail \<Rightarrow> span" where
  "scanSpanRow r =
     (let s = fst r; d = snd r
      in if d = DEmpty then s
         else if SpanType s = SpanKindToolCall
         then s\<lparr>SpanToolCall := Some (case d of DTool t \<Rightarrow> t | _ \<Rightarrow> zero_tool)\<rparr>
         else if SpanType s = SpanKindModelInvocation
         then s\<lparr>SpanModel := Some (case d of DModel t \<Rightarrow> t | _ \<Rightarrow> zero_model)\<rparr>
         else if SpanType s = SpanKindStateMutation
         then s\<lparr>SpanState := Some (case d of DState t \<Rightarrow> t | _ \<Rightarrow> zero_state)\<rparr>
         else if SpanType s = SpanKindHumanApproval
         then s\<lparr>SpanApproval := Some (case d of DApproval t \<Rightarrow> t | _ \<Rightarrow> zero_approval)\<rparr>
         else if SpanType s = SpanKindPolicyEvaluation
         then s\<lparr>SpanPolicy := Some (case d of DPolicy t \<Rightarrow> t | _ \<Rightarrow> zero_policy)\<rparr>
         else s)"

text \<open>The scalar columns of a span; its details and edges live elsewhere.\<close>

definition span_columns :: "span \<Rightarrow> span" where
  "span_columns s = s\<lparr>SpanCausedBy := None, SpanToolCall := None, SpanModel := None, SpanState := None,
     SpanApproval := None, SpanPolicy := None\<rparr>"

text \<open>The strings of a document, which \<open>jsonb\<close> and the text columns must accept.\<close>

fun json_texts :: "json \<Rightarrow> string list" where
  "json_texts (JStr s) = [s]"
| "json_texts (JArr xs) = concat (map json_texts xs)"
| "json_texts (JObj kvs) = concat (map (\<lambda>(k, x). k # json_texts x) kvs)"
| "json_texts _ = []"

section \<open>Executions\<close>

definition GetExecution :: "env \<Rightarrow> telemetry \<Rightarrow> string \<Rightarrow> string \<Rightarrow> execution result" where
  "GetExecution v tel tid i =
     (if fault v ''getting execution'' 0 then Inl (Internal ''getting execution'')
      else case filter (\<lambda>(t, e). ExecID e = i \<and> t = tid) (exec_rows tel) of
             [] \<Rightarrow> Inl (NotFound ''execution'' i)
           | (t, e) # _ \<Rightarrow> Inr e)"

definition execution_texts :: "string \<Rightarrow> execution \<Rightarrow> string list" where
  "execution_texts tid e =
     [ExecID e, tid, ExecAgentID e, ExecAgentName e, ExecStatus e, ExecRootSpanID e, ExecTrigger e] @
     json_texts (metadata_json (ExecMetadata e))"

text \<open>\<open>InsertExecution\<close> returns the execution it leaves in its argument.\<close>

definition InsertExecution :: "env \<Rightarrow> pgdb \<Rightarrow> string \<Rightarrow> execution \<Rightarrow> telemetry \<Rightarrow> execution result \<times> telemetry" where
  "InsertExecution v db tid e tel =
     (if fault v ''inserting execution'' 0 \<or> \<not> list_all storable (execution_texts tid e) \<or>
         \<not> list_ex (\<lambda>t. TID t = tid) (tenant_rows db)
      then (Inl (Internal ''inserting execution''), tel)
      else if list_ex (\<lambda>(t, x). ExecID x = ExecID e) (exec_rows tel)
      then (case GetExecution v tel tid (ExecID e) of
              Inl _ \<Rightarrow> (Inl (AlreadyExists ''execution'' (ExecID e)), tel)
            | Inr ex \<Rightarrow>
                if ExecAgentID ex \<noteq> ExecAgentID e \<or> ExecAgentName ex \<noteq> ExecAgentName e \<or>
                   ExecTrigger ex \<noteq> ExecTrigger e \<or>
                   \<not> equalJSON (metadata_json (ExecMetadata ex)) (metadata_json (ExecMetadata e))
                then (Inl (AlreadyExists ''execution with different input'' (ExecID e)), tel)
                else (Inr ex, tel))
      else (Inr e, tel\<lparr>exec_rows := exec_rows tel @ [(tid, e\<lparr>ExecCreatedAt := pg_now v,
              ExecStartedAt := Truncate (ExecStartedAt e) Microsecond,
              ExecEndedAt := map_option (\<lambda>t. Truncate t Microsecond) (ExecEndedAt e)\<rparr>)]\<rparr>))"

definition UpdateExecutionStatus :: "env \<Rightarrow> string \<Rightarrow> string \<Rightarrow> string \<Rightarrow> time option \<Rightarrow> telemetry \<Rightarrow>
    app_error option \<times> telemetry" where
  "UpdateExecutionStatus v tid i status endedAt tel =
     (if fault v ''updating execution status'' 0 \<or> \<not> storable status
      then (Some (Internal ''updating execution status''), tel)
      else if list_ex (\<lambda>(t, e). ExecID e = i \<and> t = tid \<and> ExecStatus e = StatusRunning) (exec_rows tel)
      then (None, tel\<lparr>exec_rows := map (\<lambda>(t, e). if ExecID e = i \<and> t = tid \<and> ExecStatus e = StatusRunning
              then (t, e\<lparr>ExecStatus := status, ExecEndedAt := map_option (\<lambda>t. Truncate t Microsecond) endedAt\<rparr>)
              else (t, e)) (exec_rows tel)\<rparr>)
      else case GetExecution v tel tid i of
             Inl err \<Rightarrow> (Some err, tel)
           | Inr ex \<Rightarrow>
               if ExecStatus ex \<noteq> status then (Some (AlreadyExists ''execution terminal status'' i), tel)
               else (None, tel))"

definition execution_matches :: "string \<Rightarrow> string \<Rightarrow> string \<Rightarrow> string \<times> execution \<Rightarrow> bool" where
  "execution_matches tid agentID status r =
     (fst r = tid \<and> (agentID = '''' \<or> ExecAgentID (snd r) = agentID) \<and> (status = '''' \<or> ExecStatus (snd r) = status))"

definition ListExecutions :: "env \<Rightarrow> telemetry \<Rightarrow> string \<Rightarrow> string \<Rightarrow> string \<Rightarrow> int \<Rightarrow> int \<Rightarrow>
    (execution list \<times> nat) result" where
  "ListExecutions v tel tid agentID status limit offset =
     (let hits = map snd (filter (execution_matches tid agentID status) (exec_rows tel))
      in if fault v ''counting executions'' 0 then Inl (Internal ''counting executions'')
         else if fault v ''listing executions'' 0 \<or> limit < 0 \<or> offset < 0 then Inl (Internal ''listing executions'')
         else Inr (take (nat limit) (drop (nat offset) (sort_key (\<lambda>e. - ExecStartedAt e) hits)), length hits))"

section \<open>Reading spans and events\<close>

definition span_exists :: "telemetry \<Rightarrow> string \<Rightarrow> string \<Rightarrow> bool" where
  "span_exists tel i executionID = list_ex (\<lambda>(s, d). SpanID s = i \<and> SpanExecutionID s = executionID) (span_rows tel)"

text \<open>The causes of a span; no row leaves the slice nil.\<close>

definition causes :: "telemetry \<Rightarrow> string \<Rightarrow> string list option" where
  "causes tel i =
     (case map snd (filter (\<lambda>r. fst r = i) (cause_rows tel)) of [] \<Rightarrow> None | c # cs \<Rightarrow> Some (c # cs))"

definition GetSpansByExecution :: "env \<Rightarrow> telemetry \<Rightarrow> string \<Rightarrow> span list result" where
  "GetSpansByExecution v tel executionID =
     (if fault v ''listing spans'' 0 then Inl (Internal ''listing spans'')
      else if fault v ''listing causality edges'' 0 then Inl (Internal ''listing causality edges'')
      else Inr (map (\<lambda>r. (scanSpanRow r)\<lparr>SpanCausedBy := causes tel (SpanID (fst r))\<rparr>)
                 (filter (\<lambda>(s, d). SpanExecutionID s = executionID) (span_rows tel))))"

definition GetSpan :: "env \<Rightarrow> nat \<Rightarrow> telemetry \<Rightarrow> string \<Rightarrow> span result" where
  "GetSpan v k tel i =
     (if fault v ''getting span'' k then Inl (Internal ''getting span'')
      else case filter (\<lambda>(s, d). SpanID s = i) (span_rows tel) of
             [] \<Rightarrow> Inl (NotFound ''span'' i)
           | r # _ \<Rightarrow> Inr (scanSpanRow r))"

definition GetEventsByExecution :: "env \<Rightarrow> telemetry \<Rightarrow> string \<Rightarrow> execution_event list result" where
  "GetEventsByExecution v tel executionID =
     (if fault v ''listing events'' 0 then Inl (Internal ''listing events'')
      else Inr (sort_key EvSeq (filter (\<lambda>e. EvExecutionID e = executionID) (event_rows tel))))"

definition GetEventsBySpan :: "env \<Rightarrow> telemetry \<Rightarrow> string \<Rightarrow> execution_event list result" where
  "GetEventsBySpan v tel i =
     (if fault v ''listing span events'' 0 then Inl (Internal ''listing span events'')
      else Inr (sort_key EvSeq (filter (\<lambda>e. EvSpanID e = i) (event_rows tel))))"

section \<open>Writing events\<close>

definition default_metadata :: "strmap option \<Rightarrow> strmap option" where
  "default_metadata md = Some (slice md)"

definition default_content :: "payload_ref \<Rightarrow> payload_ref" where
  "default_content p = (if ContentType p = '''' then p\<lparr>ContentType := ''application/json''\<rparr> else p)"

definition normalise_event :: "execution_event \<Rightarrow> execution_event" where
  "normalise_event e = e\<lparr>EvTimestamp := Truncate (EvTimestamp e) Microsecond,
     EvPayload := map_option default_content (EvPayload e), EvMetadata := default_metadata (EvMetadata e)\<rparr>"

text \<open>What the columns keep of a payload: nothing without an inline value.\<close>

definition event_payload :: "env \<Rightarrow> payload_ref option \<Rightarrow> payload_ref option option" where
  "event_payload v p =
     (case p of
        None \<Rightarrow> Some None
      | Some x \<Rightarrow> if Inline x = JNull then Some None else map_option Some (store_payload v x))"

definition telemetry_texts :: "execution_event \<Rightarrow> string list" where
  "telemetry_texts e =
     [EvID e, EvExecutionID e, EvSpanID e, EvType e] @ json_texts (metadata_json (EvMetadata e)) @
     (case EvPayload e of None \<Rightarrow> [] | Some p \<Rightarrow> [ContentType p])"

definition null_payload :: "execution_event \<Rightarrow> execution_event" where
  "null_payload e =
     (case EvPayload e of
        Some p \<Rightarrow> if Inline p = JNull \<and> SizeBytes p = 0 then e\<lparr>EvPayload := None\<rparr> else e
      | None \<Rightarrow> e)"

text \<open>The \<open>k\<close>-th event written in a transaction.\<close>

definition insertEventTx :: "env \<Rightarrow> nat \<Rightarrow> execution_event \<Rightarrow> telemetry \<Rightarrow> app_error option \<times> telemetry" where
  "insertEventTx v k event0 tel =
     (let event = normalise_event event0
      in if fault v ''checking event span'' k then (Some (Internal ''checking event span''), tel)
         else if \<not> span_exists tel (EvSpanID event) (EvExecutionID event)
         then (Some (InvalidInput ''event span must belong to its execution''), tel)
         else if (case EvPayload event of None \<Rightarrow> False | Some p \<Rightarrow> \<not> marshals (Inline p))
         then (Some (Internal ''marshaling payload''), tel)
         else if fault v ''inserting event'' k \<or> \<not> list_all storable (telemetry_texts event)
         then (Some (Internal ''inserting event''), tel)
         else case event_payload v (EvPayload event) of
                None \<Rightarrow> (Some (Internal ''inserting event''), tel)
              | Some p \<Rightarrow>
         (case nextval (event_seq tel) of
            None \<Rightarrow> (Some (Internal ''inserting event''), tel)
          | Some n \<Rightarrow>
              (let tel1 = tel\<lparr>event_seq := n\<rparr>
               in case filter (\<lambda>e. EvID e = EvID event) (event_rows tel) of
                    [] \<Rightarrow> (None, tel1\<lparr>event_rows := event_rows tel @ [event\<lparr>EvSeq := n, EvPayload := p\<rparr>]\<rparr>)
                  | old # _ \<Rightarrow>
                      if fault v ''scanning event'' k then (Some (Internal ''scanning event''), tel1)
                      else if equalJSON (event_json (null_payload (old\<lparr>EvSeq := 0\<rparr>))) (event_json (event\<lparr>EvSeq := 0\<rparr>))
                      then (None, tel1)
                      else (Some (AlreadyExists ''event with different content'' (EvID event)), tel1))))"

text \<open>A transaction: its tables are kept on success only, its sequence values always.\<close>

definition transact :: "telemetry \<Rightarrow> app_error option \<times> telemetry \<Rightarrow> app_error option \<times> telemetry" where
  "transact tel r = (case r of (None, tel') \<Rightarrow> (None, tel') | (Some err, tel') \<Rightarrow> (Some err, tel\<lparr>event_seq := event_seq tel'\<rparr>))"

text \<open>Go on after a step that succeeded.\<close>

definition andThen :: "app_error option \<times> telemetry \<Rightarrow> (telemetry \<Rightarrow> app_error option \<times> telemetry) \<Rightarrow> app_error option \<times> telemetry" where
  "andThen r f = (case r of (None, tel) \<Rightarrow> f tel | (Some err, tel) \<Rightarrow> (Some err, tel))"

definition guardTx :: "bool \<Rightarrow> app_error \<Rightarrow> telemetry \<Rightarrow> app_error option \<times> telemetry" where
  "guardTx ok err tel = (if ok then (None, tel) else (Some err, tel))"

definition statement :: "env \<Rightarrow> string \<Rightarrow> telemetry \<Rightarrow> app_error option \<times> telemetry" where
  "statement v site = guardTx (\<not> fault v site 0) (Internal site)"

definition InsertEvent :: "env \<Rightarrow> execution_event \<Rightarrow> telemetry \<Rightarrow> app_error option \<times> telemetry" where
  "InsertEvent v event tel =
     transact tel (andThen (statement v ''begin'' tel) (\<lambda>tel. andThen (insertEventTx v 0 event tel) (statement v ''commit'')))"

section \<open>Writing spans\<close>

definition normalise_span :: "span \<Rightarrow> span" where
  "normalise_span s = s\<lparr>SpanStartedAt := Truncate (SpanStartedAt s) Microsecond,
     SpanEndedAt := map_option (\<lambda>t. Truncate t Microsecond) (SpanEndedAt s),
     SpanMetadata := default_metadata (SpanMetadata s),
     SpanCausedBy := map_option (\<lambda>xs. remdups_adj (sort xs)) (SpanCausedBy s)\<rparr>"

definition lifecycle_event :: "env \<Rightarrow> span \<Rightarrow> string \<Rightarrow> time \<Rightarrow> execution_event" where
  "lifecycle_event v s kind ts =
     \<lparr>EvID = GenerateEventID (sha256 v) (SpanExecutionID s) (SpanID s) kind 0, EvExecutionID = SpanExecutionID s,
      EvSpanID = SpanID s, EvType = kind, EvTimestamp = ts, EvSeq = 0,
      EvPayload = Some \<lparr>Inline = span_json s, SizeBytes = 0, ContentType = ''application/json''\<rparr>,
      EvMetadata = Some [(''span_type'', SpanType s), (''span_name'', SpanName s), (''status'', SpanStatus s)]\<rparr>"

definition insertLifecycle :: "env \<Rightarrow> nat \<Rightarrow> span \<Rightarrow> string \<Rightarrow> time \<Rightarrow> telemetry \<Rightarrow> app_error option \<times> telemetry" where
  "insertLifecycle v k s kind ts = insertEventTx v k (lifecycle_event v s kind ts)"

definition end_kind :: "string \<Rightarrow> string" where
  "end_kind status = (if status = StatusFailed then ''SPAN_FAILED''
     else if status = StatusCancelled then ''SPAN_CANCELLED'' else ''SPAN_ENDED'')"

definition opt_str :: "string option \<Rightarrow> json" where
  "opt_str x = (case x of None \<Rightarrow> JNull | Some s \<Rightarrow> JStr s)"

definition slice_json :: "string list option \<Rightarrow> json" where
  "slice_json x = (case x of None \<Rightarrow> JNull | Some xs \<Rightarrow> JArr (map JStr xs))"

text \<open>The recorded start of a span, if its event can be read.\<close>

definition start_snapshot :: "env \<Rightarrow> telemetry \<Rightarrow> span \<Rightarrow> json option" where
  "start_snapshot v tel s =
     (if fault v ''reading snapshot'' 0 then None
      else case filter (\<lambda>e. EvID e = GenerateEventID (sha256 v) (SpanExecutionID s) (SpanID s) ''SPAN_STARTED'' 0 \<and>
                     EvExecutionID e = SpanExecutionID s) (event_rows tel) of
             [] \<Rightarrow> None
           | e # _ \<Rightarrow> Some (case EvPayload e of None \<Rightarrow> JNull | Some p \<Rightarrow> Inline p))"

text \<open>
  The checks against an existing row: \<open>Inl\<close> ends the call (with an error or, for a harmless retry,
  without), \<open>Inr\<close> goes on to complete the span.
\<close>

definition check_existing :: "env \<Rightarrow> telemetry \<Rightarrow> span \<times> detail \<Rightarrow> span \<Rightarrow> app_error option + unit" where
  "check_existing v tel r s =
     (let old0 = scanSpanRow r
      in if SpanExecutionID old0 \<noteq> SpanExecutionID s \<or> SpanName old0 \<noteq> SpanName s \<or> SpanType old0 \<noteq> SpanType s \<or>
            SpanStartedAt old0 \<noteq> SpanStartedAt s \<or> \<not> equalJSON (opt_str (SpanParent old0)) (opt_str (SpanParent s))
         then Inl (Some (AlreadyExists ''span with different identity'' (SpanID s)))
         else if fault v ''reading causality'' 0 then Inl (Some (Internal ''reading causality''))
         else let old = old0\<lparr>SpanCausedBy := map_option sort (causes tel (SpanID s))\<rparr>
              in if equalJSON (span_json old) (span_json s) then Inl None
                 else if SpanStatus old \<noteq> StatusRunning
                 then (case start_snapshot v tel s of
                         Some snap \<Rightarrow>
                           if SpanStatus s = StatusRunning \<and> equalJSON snap (span_json s) then Inl None
                           else Inl (Some (AlreadyExists ''completed span'' (SpanID s)))
                       | None \<Rightarrow> Inl (Some (AlreadyExists ''completed span'' (SpanID s))))
                 else if SpanStatus s = StatusRunning
                 then Inl (Some (AlreadyExists ''running span with different content'' (SpanID s)))
                 else if \<not> equalJSON (slice_json (SpanCausedBy old)) (slice_json (SpanCausedBy s))
                 then Inl (Some (InvalidInput ''span causality cannot change on completion''))
                 else Inr ())"

definition span_refs :: "span \<Rightarrow> string list" where
  "span_refs s = slice (SpanCausedBy s) @ (case SpanParent s of None \<Rightarrow> [] | Some p \<Rightarrow> [p])"

fun check_refs :: "env \<Rightarrow> nat \<Rightarrow> telemetry \<Rightarrow> span \<Rightarrow> string list \<Rightarrow> app_error option" where
  "check_refs v k tel s [] = None"
| "check_refs v k tel s (i # is) =
     (if i = SpanID s then Some (InvalidInput ''span cannot reference itself'')
      else if fault v ''checking reference'' k then Some (Internal ''checking reference'')
      else if \<not> span_exists tel i (SpanExecutionID s)
      then Some (InvalidInput ''parent and causal spans must exist in the same execution'')
      else check_refs v (Suc k) tel s is)"

definition span_texts :: "span \<Rightarrow> string list" where
  "span_texts s =
     [SpanID s, SpanExecutionID s, SpanType s, SpanName s, SpanStatus s] @
     (case SpanParent s of None \<Rightarrow> [] | Some p \<Rightarrow> [p]) @ json_texts (metadata_json (SpanMetadata s)) @
     json_texts (detail_json (spanDetail s)) @ json_texts (case SpanErr s of None \<Rightarrow> JNull | Some e \<Rightarrow> span_error_json e)"

text \<open>\<open>INSERT INTO spans\<close>, or the \<open>UPDATE\<close> that completes the row.\<close>

definition write_span :: "env \<Rightarrow> bool \<Rightarrow> span \<Rightarrow> telemetry \<Rightarrow> app_error option \<times> telemetry" where
  "write_span v exists s tel =
     (if \<not> marshals (detail_json (spanDetail s)) then (Some (Internal ''marshaling detail''), tel)
      else if fault v ''persisting span'' 0 \<or> \<not> list_all storable (span_texts s)
      then (Some (Internal ''persisting span''), tel)
      else case store_detail v (spanDetail s) of
             None \<Rightarrow> (Some (Internal ''persisting span''), tel)
           | Some d \<Rightarrow>
               if exists
               then (None, tel\<lparr>span_rows := map (\<lambda>(r, e). if SpanID r = SpanID s
                       then (r\<lparr>SpanStatus := SpanStatus s, SpanEndedAt := SpanEndedAt s, SpanMetadata := SpanMetadata s,
                               SpanErr := SpanErr s\<rparr>, d) else (r, e)) (span_rows tel)\<rparr>)
               else if \<not> list_ex (\<lambda>(t, e). ExecID e = SpanExecutionID s) (exec_rows tel)
               then (Some (Internal ''persisting span''), tel)
               else (None, tel\<lparr>span_rows := span_rows tel @ [(span_columns s, d)]\<rparr>))"

definition write_causes :: "env \<Rightarrow> span \<Rightarrow> telemetry \<Rightarrow> app_error option \<times> telemetry" where
  "write_causes v s tel =
     (if slice (SpanCausedBy s) \<noteq> [] \<and> fault v ''inserting causality'' 0 then (Some (Internal ''inserting causality''), tel)
      else (None, tel\<lparr>cause_rows := cause_rows tel @
              filter (\<lambda>r. r \<notin> set (cause_rows tel)) (map (\<lambda>i. (SpanID s, i)) (slice (SpanCausedBy s)))\<rparr>))"

definition persist_span :: "env \<Rightarrow> bool \<Rightarrow> span \<Rightarrow> telemetry \<Rightarrow> app_error option \<times> telemetry" where
  "persist_span v exists s tel =
     andThen (case check_refs v 0 tel s (span_refs s) of Some err \<Rightarrow> (Some err, tel) | None \<Rightarrow> (None, tel)) (\<lambda>tel.
     andThen (write_span v exists s tel) (\<lambda>tel.
     andThen (if exists then (None, tel)
              else andThen (write_causes v s tel)
                     (insertLifecycle v 0 (s\<lparr>SpanStatus := StatusRunning, SpanEndedAt := None\<rparr>) ''SPAN_STARTED'' (SpanStartedAt s))) (\<lambda>tel.
     andThen (case SpanEndedAt s of None \<Rightarrow> (None, tel) | Some t \<Rightarrow> insertLifecycle v 1 s (end_kind (SpanStatus s)) t tel)
       (statement v ''commit''))))"

definition InsertSpan :: "env \<Rightarrow> span \<Rightarrow> telemetry \<Rightarrow> app_error option \<times> telemetry" where
  "InsertSpan v span0 tel =
     (let s = normalise_span span0
      in transact tel
           (andThen (statement v ''begin'' tel) (\<lambda>tel.
            andThen (statement v ''locking span'' tel) (\<lambda>tel.
            andThen (statement v ''reading span'' tel) (\<lambda>tel.
            case filter (\<lambda>(r, d). SpanID r = SpanID s) (span_rows tel) of
              [] \<Rightarrow> persist_span v False s tel
            | r # _ \<Rightarrow>
                (case check_existing v tel r s of
                   Inl (Some err) \<Rightarrow> (Some err, tel)
                 | Inl None \<Rightarrow> statement v ''commit'' tel
                 | Inr _ \<Rightarrow> persist_span v True s tel))))))"

end
