(* ===== verification/Pricing.thy ===== *)
theory Pricing
  imports Execution_Model Complex_Main "HOL-Library.AList"
begin

text \<open>
  api/internal/analytics/cost.go: the price table and the cost estimate of a model call.

  A \<open>float64\<close> is the rational it denotes; \<open>fl\<close> rounds an exact result to the nearest \<open>float64\<close> and
  \<open>print_float\<close> is the text \<open>encoding/json\<close> prints.  The table is a list: a Go map is iterated in an
  unspecified order, and the theorem below holds for every order.  Lower case is taken on ASCII letters,
  the only letters in the names of the built-in table.
\<close>

record float_ops =
  fl :: "rat \<Rightarrow> rat"
  print_float :: "rat \<Rightarrow> float64"

record pricing =
  inputPer1K :: rat
  outputPer1K :: rat

type_synonym price_table = "(string \<times> pricing) list"

definition price :: "float_ops \<Rightarrow> rat \<Rightarrow> rat \<Rightarrow> pricing" where
  "price F i out = \<lparr>inputPer1K = fl F i, outputPer1K = fl F out\<rparr>"

definition pricingTable :: "float_ops \<Rightarrow> price_table" where
  "pricingTable F =
     [(''gpt-4o'', price F (25/10000) (1/100)),
      (''gpt-4o-mini'', price F (15/100000) (6/10000)),
      (''gpt-4-turbo'', price F (1/100) (3/100)),
      (''gpt-4'', price F (3/100) (6/100)),
      (''gpt-3.5-turbo'', price F (5/10000) (15/10000)),
      (''o1'', price F (15/1000) (6/100)),
      (''o1-mini'', price F (3/1000) (12/1000)),
      (''o3'', price F (1/100) (4/100)),
      (''o3-mini'', price F (11/10000) (44/10000)),
      (''o4-mini'', price F (11/10000) (44/10000)),
      (''claude-sonnet-4'', price F (3/1000) (15/1000)),
      (''claude-3.5-sonnet'', price F (3/1000) (15/1000)),
      (''claude-3-sonnet'', price F (3/1000) (15/1000)),
      (''claude-3-opus'', price F (15/1000) (75/1000)),
      (''claude-3-haiku'', price F (25/100000) (125/100000)),
      (''claude-3.5-haiku'', price F (8/10000) (4/1000)),
      (''gemini-2.5-pro'', price F (125/100000) (1/100)),
      (''gemini-2.5-flash'', price F (75/1000000) (3/10000)),
      (''gemini-2.0-flash'', price F (1/10000) (4/10000)),
      (''gemini-1.5-pro'', price F (125/100000) (5/1000)),
      (''gemini-1.5-flash'', price F (75/1000000) (3/10000)),
      (''mistral-large'', price F (2/1000) (6/1000)),
      (''mistral-medium'', price F (27/10000) (81/10000)),
      (''mistral-small'', price F (1/1000) (3/1000)),
      (''codestral'', price F (1/1000) (3/1000)),
      (''command-r-plus'', price F (3/1000) (15/1000)),
      (''command-r'', price F (5/10000) (15/10000)),
      (''llama-3.1-405b'', price F (3/1000) (3/1000)),
      (''llama-3.1-70b'', price F (79/100000) (79/100000)),
      (''llama-3.1-8b'', price F (18/100000) (18/100000)),
      (''llama-3-70b'', price F (79/100000) (79/100000)),
      (''llama-3-8b'', price F (18/100000) (18/100000)),
      (''deepseek-v3'', price F (14/100000) (28/100000)),
      (''deepseek-r1'', price F (55/100000) (219/100000)),
      (''deepseek-chat'', price F (14/100000) (28/100000)),
      (''deepseek-coder'', price F (14/100000) (28/100000)),
      (''grok-3'', price F (3/1000) (15/1000)),
      (''grok-3-mini'', price F (3/10000) (5/10000))]"

text \<open>
  \<open>UpdatePricingFromRemote\<close>: \<open>None\<close> where the request or the decoding fails; otherwise the decoded
  models with their costs per token.
\<close>

definition update_price :: "float_ops \<Rightarrow> string \<times> rat \<times> rat \<Rightarrow> price_table \<Rightarrow> price_table" where
  "update_price F r tbl =
     (case r of (model, i, out) \<Rightarrow>
        if 0 < i \<or> 0 < out then AList.update (ToLower model) (price F (i * 1000) (out * 1000)) tbl else tbl)"

definition UpdatePricingFromRemote :: "float_ops \<Rightarrow> (string \<times> rat \<times> rat) list option \<Rightarrow> price_table \<Rightarrow> bool \<times> price_table" where
  "UpdatePricingFromRemote F remote tbl =
     (case remote of None \<Rightarrow> (False, tbl) | Some rs \<Rightarrow> (True, fold (update_price F) rs tbl))"

text \<open>\<open>lookupPricing\<close>: the loop that keeps the longest prefix so far, and the lookup.\<close>

fun best_prefix :: "string \<Rightarrow> string \<times> pricing \<Rightarrow> price_table \<Rightarrow> string \<times> pricing" where
  "best_prefix lower best [] = best"
| "best_prefix lower best ((k, p) # tbl) =
     best_prefix lower (if HasPrefix lower k \<and> length (fst best) < length k then (k, p) else best) tbl"

definition lookupPricing :: "price_table \<Rightarrow> string \<Rightarrow> pricing option" where
  "lookupPricing tbl model =
     (let lower = ToLower (TrimSpace model)
      in if lower = '''' then None
         else case map_of tbl lower of
                Some p \<Rightarrow> Some p
              | None \<Rightarrow>
                  (case best_prefix lower ('''', \<lparr>inputPer1K = 0, outputPer1K = 0\<rparr>) tbl of
                     (bestKey, bestPrice) \<Rightarrow> if bestKey \<noteq> '''' then Some bestPrice else None))"

text \<open>The argument \<open>provider\<close> is not used.\<close>

definition EstimateCost :: "float_ops \<Rightarrow> price_table \<Rightarrow> string \<Rightarrow> string \<Rightarrow> 32 word \<Rightarrow> 32 word \<Rightarrow> rat" where
  "EstimateCost F tbl model provider promptTokens completionTokens =
     (case lookupPricing tbl model of
        None \<Rightarrow> 0
      | Some p \<Rightarrow>
          fl F (fl F (fl F (of_int (sint promptTokens) / 1000) * inputPer1K p) +
                fl F (fl F (of_int (sint completionTokens) / 1000) * outputPer1K p)))"

definition EstimateCostBatch :: "float_ops \<Rightarrow> price_table \<Rightarrow> (string \<times> string \<times> 32 word \<times> 32 word) list \<Rightarrow> rat" where
  "EstimateCostBatch F tbl calls =
     fold (\<lambda>(model, provider, p, c) sum. fl F (sum + EstimateCost F tbl model provider p c)) calls 0"

definition SupportedModels :: "price_table \<Rightarrow> string list" where
  "SupportedModels tbl = map fst tbl"

section \<open>The longest prefix\<close>

text \<open>\<open>k\<close> is the longest listed prefix of the name.\<close>

definition longest_prefix :: "price_table \<Rightarrow> string \<Rightarrow> string \<Rightarrow> bool" where
  "longest_prefix tbl lower k =
     (k \<noteq> '''' \<and> HasPrefix lower k \<and> (\<forall>q \<in> set tbl. HasPrefix lower (fst q) \<longrightarrow> length (fst q) \<le> length k))"

lemma prefix_same_length: "HasPrefix s a \<Longrightarrow> HasPrefix s b \<Longrightarrow> length a = length b \<Longrightarrow> a = b"
  by (auto simp: HasPrefix_iff)

lemma HasPrefix_length: "HasPrefix s a \<Longrightarrow> length a \<le> length s"
  by (auto simp: HasPrefix_iff)

lemma best_prefix_props:
  "(best_prefix lower b tbl = b \<or> best_prefix lower b tbl \<in> set tbl \<and> HasPrefix lower (fst (best_prefix lower b tbl))) \<and>
   length (fst b) \<le> length (fst (best_prefix lower b tbl)) \<and>
   (\<forall>q \<in> set tbl. HasPrefix lower (fst q) \<longrightarrow> length (fst q) \<le> length (fst (best_prefix lower b tbl)))"
proof (induction tbl arbitrary: b)
  case (Cons q tbl)
  obtain k p where q: "q = (k, p)" by (cases q)
  let ?b = "if HasPrefix lower k \<and> length (fst b) < length k then (k, p) else b"
  from Cons.IH [of ?b] show ?case unfolding q best_prefix.simps by (auto split: if_splits)
qed simp

lemma lookup_exact:
  assumes "map_of tbl lower = Some p" "lower \<noteq> ''''"
  shows "(lower, p) \<in> set tbl \<and> longest_prefix tbl lower lower"
  using assms HasPrefix_append [of lower "[]"] HasPrefix_length
  by (auto simp: longest_prefix_def dest: map_of_SomeD)

text \<open>
  Whatever the order in which the map is iterated, a model is priced by the longest listed
  prefix of its name (the name itself when it is listed), and has no price exactly when no listed
  name is a prefix of it.
\<close>

theorem lookup_longest_prefix:
  assumes "distinct (map fst tbl)"
  shows "lookupPricing tbl model = Some p \<longleftrightarrow> (\<exists>k. (k, p) \<in> set tbl \<and> longest_prefix tbl (ToLower (TrimSpace model)) k)"
proof -
  define lower where "lower = ToLower (TrimSpace model)"
  have uniq: "p = q" if "(k, p) \<in> set tbl" "(l, q) \<in> set tbl" "longest_prefix tbl lower k" "longest_prefix tbl lower l" for k l p q
  proof -
    have "length l \<le> length k" "length k \<le> length l"
      using that bspec [of "set tbl" _ "(l, q)"] bspec [of "set tbl" _ "(k, p)"] unfolding longest_prefix_def by auto
    then have "length k = length l" by simp
    then have "k = l" using that(3,4) prefix_same_length unfolding longest_prefix_def by blast
    with assms that(1,2) show ?thesis by (metis eq_key_imp_eq_value)
  qed
  have found: "\<exists>k. (k, p) \<in> set tbl \<and> longest_prefix tbl lower k" if l: "lookupPricing tbl model = Some p" for p
  proof (cases "map_of tbl lower")
    case None
    let ?b = "best_prefix lower ('''', \<lparr>inputPer1K = 0, outputPer1K = 0\<rparr>) tbl"
    from l None have "fst ?b \<noteq> ''''" "snd ?b = p"
      by (auto simp: lookupPricing_def lower_def Let_def split: if_splits prod.splits)
    with best_prefix_props [of lower "('''', \<lparr>inputPer1K = 0, outputPer1K = 0\<rparr>)" tbl]
    show ?thesis by (intro exI [of _ "fst ?b"]) (auto simp: longest_prefix_def prod_eq_iff)
  next
    case (Some q)
    with l lookup_exact show ?thesis by (auto simp: lookupPricing_def lower_def [symmetric] Let_def split: if_splits)
  qed
  have some: "lookupPricing tbl model \<noteq> None" if k: "(k, p) \<in> set tbl" "longest_prefix tbl lower k" for k
  proof -
    have "length k \<le> length (fst (best_prefix lower ('''', \<lparr>inputPer1K = 0, outputPer1K = 0\<rparr>) tbl))"
      using best_prefix_props [of lower "('''', \<lparr>inputPer1K = 0, outputPer1K = 0\<rparr>)" tbl] k by (force simp: longest_prefix_def)
    moreover have "k \<noteq> ''''" "lower \<noteq> ''''" using k(2) HasPrefix_length [of lower k] by (auto simp: longest_prefix_def)
    ultimately show ?thesis
      by (auto simp: lookupPricing_def lower_def [symmetric] Let_def split: option.splits prod.splits)
  qed
  show ?thesis
    unfolding lower_def [symmetric]
  proof
    show "lookupPricing tbl model = Some p \<Longrightarrow> \<exists>k. (k, p) \<in> set tbl \<and> longest_prefix tbl lower k" by (rule found)
  next
    assume "\<exists>k. (k, p) \<in> set tbl \<and> longest_prefix tbl lower k"
    then obtain k where k: "(k, p) \<in> set tbl" "longest_prefix tbl lower k" by blast
    then obtain q where q: "lookupPricing tbl model = Some q" using some by blast
    with found uniq k show "lookupPricing tbl model = Some p" by blast
  qed
qed

definition sample_floats :: float_ops where
  "sample_floats = \<lparr>fl = (\<lambda>x. x), print_float = (\<lambda>x. ''0'')\<rparr>"

lemma table_distinct: "distinct (map fst (pricingTable F))"
  by (simp add: pricingTable_def)

theorem lookup_longest_prefix_witness:
  "lookupPricing (pricingTable sample_floats) '' GPT-4o-mini-2024-07-18'' = Some (price sample_floats (15/100000) (6/10000)) \<and>
   longest_prefix (pricingTable sample_floats) ''gpt-4o-mini-2024-07-18'' ''gpt-4o-mini''"
proof -
  have "ToLower (TrimSpace '' GPT-4o-mini-2024-07-18'') = ''gpt-4o-mini-2024-07-18''" by code_simp
  moreover have "longest_prefix (pricingTable sample_floats) ''gpt-4o-mini-2024-07-18'' ''gpt-4o-mini''"
    by (simp add: longest_prefix_def pricingTable_def HasPrefix_def)
  moreover have "(''gpt-4o-mini'', price sample_floats (15/100000) (6/10000)) \<in> set (pricingTable sample_floats)"
    by (simp add: pricingTable_def)
  ultimately show ?thesis
    using lookup_longest_prefix [OF table_distinct, of sample_floats "'' GPT-4o-mini-2024-07-18''" "price sample_floats (15/100000) (6/10000)"]
    by auto
qed

text \<open>The table the service uses has distinct names at every moment.\<close>

lemma update_keeps_distinct:
  "distinct (map fst tbl) \<Longrightarrow> distinct (map fst (snd (UpdatePricingFromRemote F remote tbl)))"
proof (cases remote)
  case (Some rs)
  assume "distinct (map fst tbl)"
  then have "distinct (map fst (fold (update_price F) rs tbl))"
  proof (induction rs arbitrary: tbl)
    case (Cons r rs)
    have "distinct (map fst (update_price F r tbl))"
      using Cons.prems by (simp add: update_price_def AList.distinct_update split: prod.split)
    from Cons.IH [OF this] show ?case by simp
  qed simp
  then show ?thesis by (simp add: UpdatePricingFromRemote_def Some)
qed (simp add: UpdatePricingFromRemote_def)

end
