(* ===== verification/Ingestion.thy ===== *)
theory Ingestion
  imports Telemetry_Store Redaction "HOL-Library.AList" Pricing
begin

text \<open>
  api/internal/ingestion: the telemetry service (service.go) and its redaction (redact.go).  The calls
  one operation makes run in environments of their own: \<open>vs k\<close> is the environment of the \<open>k\<close>-th.

  The price table in force, the rounding of \<open>float64\<close> and \<open>json.Unmarshal\<close> of an embedded document are
  arguments of the service.
\<close>

section \<open>Service and requests\<close>

record ingest_svc =
  redactOn :: bool
  Floats :: float_ops
  Prices :: price_table
  UnmarshalAny :: "string \<Rightarrow> json option"

record start_request =
  ReqAgentID :: string
  ReqAgentName :: string
  ReqTrigger :: string
  ReqMetadata :: "strmap option"
  ReqIdempotencyKey :: string
  ReqStartedAt :: "time option"

record ingest_error =
  EntityID :: string
  IngestCode :: string
  IngestMessage :: "app_error option"

text \<open>\<open>stableID\<close> of a marshalled value.\<close>

definition stableID :: "env \<Rightarrow> string \<Rightarrow> string \<Rightarrow> string" where
  "stableID v prefix text = prefix @ ''_'' @ hex_encode (take 16 (sha256 v text))"

text \<open>A struct is printed in the order of its fields.\<close>

definition struct_text :: "(string \<times> string) list \<Rightarrow> string" where
  "struct_text fs = CHR ''{'' # join_with (CHR '','') (map (\<lambda>(k, t). quote_json k @ CHR '':'' # t) fs) @ ''}''"

definition payload_text :: "payload_ref \<Rightarrow> string" where
  "payload_text p = struct_text (map (\<lambda>(k, x). (k, print_json x)) (payload_fields p))"

definition event_text :: "execution_event \<Rightarrow> string" where
  "event_text e =
     (case EvPayload e of
        None \<Rightarrow> struct_text (map (\<lambda>(k, x). (k, print_json x)) (event_fields e))
      | Some p \<Rightarrow>
          if \<not> marshals (Inline p) then ''''
          else struct_text (map (\<lambda>(k, x). (k, if k = ''payload'' then payload_text p else print_json x)) (event_fields e)))"

section \<open>Redaction\<close>

definition mark_redacted :: "bool \<Rightarrow> strmap option \<Rightarrow> strmap option" where
  "mark_redacted touched md =
     (if touched then Some (AList.update ''redacted'' ''true'' (slice md)) else md)"

definition redact_map :: "strmap option \<Rightarrow> strmap option \<times> bool" where
  "redact_map md = (case md of None \<Rightarrow> (None, False) | Some m \<Rightarrow> (case RedactStringMap m of (n, c) \<Rightarrow> (Some n, c)))"

definition redactExecution :: "execution \<Rightarrow> execution" where
  "redactExecution e = (case redact_map (ExecMetadata e) of (m, c) \<Rightarrow> e\<lparr>ExecMetadata := mark_redacted c m\<rparr>)"

definition redactPayload :: "ingest_svc \<Rightarrow> payload_ref option \<Rightarrow> payload_ref option \<times> bool" where
  "redactPayload svc p =
     (case p of
        None \<Rightarrow> (None, False)
      | Some q \<Rightarrow>
          (case RedactInline (UnmarshalAny svc) (Inline q) of
             (x, c) \<Rightarrow> (Some (if c then q\<lparr>Inline := x\<rparr> else q), c)))"

definition redact_tool :: "ingest_svc \<Rightarrow> tool_call \<Rightarrow> tool_call \<times> bool" where
  "redact_tool svc t =
     (let (p, c) = redactPayload svc (ToolInput t); (q, d) = redactPayload svc (ToolOutput t)
      in (t\<lparr>ToolInput := p, ToolOutput := q\<rparr>, c \<or> d))"

definition redact_model :: "ingest_svc \<Rightarrow> model_invocation \<Rightarrow> model_invocation \<times> bool" where
  "redact_model svc t =
     (let (p, c) = redactPayload svc (ModelPrompt t); (q, d) = redactPayload svc (ModelCompletion t)
      in (t\<lparr>ModelPrompt := p, ModelCompletion := q\<rparr>, c \<or> d))"

definition redact_state :: "ingest_svc \<Rightarrow> state_mutation \<Rightarrow> state_mutation \<times> bool" where
  "redact_state svc t =
     (let (p, c) = redactPayload svc (BeforeValue t); (q, d) = redactPayload svc (AfterValue t)
      in (t\<lparr>BeforeValue := p, AfterValue := q\<rparr>, c \<or> d))"

definition redact_text :: "string \<Rightarrow> string \<times> bool" where
  "redact_text s = (case Redact s of (t, c) \<Rightarrow> (if c then t else s, c))"

definition redact_approval :: "human_approval \<Rightarrow> human_approval \<times> bool" where
  "redact_approval t = (case redact_text (Reasoning t) of (r, c) \<Rightarrow> (t\<lparr>Reasoning := r\<rparr>, c))"

definition redact_policy :: "policy_evaluation \<Rightarrow> policy_evaluation \<times> bool" where
  "redact_policy t = (case RedactStringMap (PolicyContext t) of (m, c) \<Rightarrow> (t\<lparr>PolicyContext := m\<rparr>, c))"

definition redact_error :: "span_error \<Rightarrow> span_error \<times> bool" where
  "redact_error t =
     (let (msg, c) = redact_text (ErrMessage t); (st, d) = redact_text (ErrStackTrace t)
      in (t\<lparr>ErrMessage := msg, ErrStackTrace := st\<rparr>, c \<or> d))"

definition redact_opt :: "('a \<Rightarrow> 'a \<times> bool) \<Rightarrow> 'a option \<Rightarrow> 'a option \<times> bool" where
  "redact_opt f x = (case x of None \<Rightarrow> (None, False) | Some y \<Rightarrow> (case f y of (z, c) \<Rightarrow> (Some z, c)))"

definition redactSpan :: "ingest_svc \<Rightarrow> span \<Rightarrow> span" where
  "redactSpan svc s =
     (let (m, c0) = redact_map (SpanMetadata s);
          (t, c1) = redact_opt (redact_tool svc) (SpanToolCall s);
          (i, c2) = redact_opt (redact_model svc) (SpanModel s);
          (u, c3) = redact_opt (redact_state svc) (SpanState s);
          (h, c4) = redact_opt redact_approval (SpanApproval s);
          (p, c5) = redact_opt redact_policy (SpanPolicy s);
          (e, c6) = redact_opt redact_error (SpanErr s)
      in s\<lparr>SpanMetadata := mark_redacted (c0 \<or> c1 \<or> c2 \<or> c3 \<or> c4 \<or> c5 \<or> c6) m, SpanToolCall := t, SpanModel := i,
           SpanState := u, SpanApproval := h, SpanPolicy := p, SpanErr := e\<rparr>)"

definition redactEvent :: "ingest_svc \<Rightarrow> execution_event \<Rightarrow> execution_event" where
  "redactEvent svc e =
     (let (m, c) = redact_map (EvMetadata e); (p, d) = redactPayload svc (EvPayload e)
      in e\<lparr>EvMetadata := mark_redacted (c \<or> d) m, EvPayload := p\<rparr>)"

section \<open>Executions\<close>

definition new_execution :: "env \<Rightarrow> string \<Rightarrow> start_request \<Rightarrow> execution" where
  "new_execution v tid r =
     (let n = now v;
          startedAt = Truncate (case ReqStartedAt r of None \<Rightarrow> n | Some t \<Rightarrow> t) Microsecond;
          key = ReqIdempotencyKey r;
          idTime = (if key = '''' then n - unix_epoch else 0);
          idKey = (if key = '''' then Format_nano n else key)
      in \<lparr>ExecID = stableID v ''exec'' (print_json (JArr [JStr tid, JStr (ReqAgentID r), int_json idTime, JStr idKey])),
          ExecAgentID = ReqAgentID r, ExecAgentName = ReqAgentName r, ExecStatus = StatusRunning, ExecRootSpanID = '''',
          ExecTrigger = ReqTrigger r, ExecStartedAt = startedAt, ExecEndedAt = None,
          ExecMetadata = default_metadata (ReqMetadata r), ExecCreatedAt = 0\<rparr>)"

definition StartExecution :: "env \<Rightarrow> ingest_svc \<Rightarrow> pgdb \<Rightarrow> string \<Rightarrow> start_request \<Rightarrow> telemetry \<Rightarrow>
    execution result \<times> telemetry" where
  "StartExecution v svc db tid r tel =
     (let e0 = new_execution v tid r; e = (if redactOn svc then redactExecution e0 else e0)
      in case ValidateExecution e of
           Some err \<Rightarrow> (Inl err, tel)
         | None \<Rightarrow>
             (case InsertExecution v db tid e tel of
                (Inl err, tel') \<Rightarrow> (Inl err, tel')
              | (Inr ex, tel') \<Rightarrow>
                  if ReqStartedAt r \<noteq> None \<and> ExecStartedAt ex \<noteq> ExecStartedAt e0
                  then (Inl (AlreadyExists ''execution with different started_at'' (ExecID ex)), tel')
                  else (Inr ex, tel')))"

text \<open>\<open>vs 0\<close> to \<open>vs 2\<close> are the environments of the read, the update and the read back.\<close>

definition EndExecutionAt :: "(nat \<Rightarrow> env) \<Rightarrow> string \<Rightarrow> string \<Rightarrow> string \<Rightarrow> time option \<Rightarrow> telemetry \<Rightarrow>
    execution result \<times> telemetry" where
  "EndExecutionAt vs tid i status endedAt tel =
     (if status \<noteq> StatusCompleted \<and> status \<noteq> StatusFailed \<and> status \<noteq> StatusCancelled
      then (Inl (InvalidInput ''end status must be COMPLETED, FAILED, or CANCELLED''), tel)
      else if (case endedAt of None \<Rightarrow> False | Some t \<Rightarrow> IsZero t)
      then (Inl (Validation ''ended_at'' ''must not be zero''), tel)
      else let end' = Truncate (case endedAt of None \<Rightarrow> now (vs 0) | Some t \<Rightarrow> t) Microsecond
           in case GetExecution (vs 0) tel tid i of
                Inl err \<Rightarrow> (Inl err, tel)
              | Inr ex \<Rightarrow>
                  if endedAt = None \<and> ExecStatus ex = status \<and> ExecEndedAt ex \<noteq> None then (Inr ex, tel)
                  else if end' < ExecStartedAt ex
                  then (Inl (Validation ''ended_at'' ''must be at or after started_at''), tel)
                  else case UpdateExecutionStatus (vs 1) tid i status (Some end') tel of
                         (Some err, tel') \<Rightarrow> (Inl err, tel')
                       | (None, tel') \<Rightarrow>
                           (case GetExecution (vs 2) tel' tid i of
                              Inl err \<Rightarrow> (Inl err, tel')
                            | Inr ex' \<Rightarrow>
                                if endedAt \<noteq> None \<and> ExecEndedAt ex' \<noteq> Some end'
                                then (Inl (AlreadyExists ''execution with different ended_at'' i), tel')
                                else (Inr ex', tel')))"

section \<open>Spans and events\<close>

definition enrichModelInvocationCost :: "ingest_svc \<Rightarrow> span \<Rightarrow> span" where
  "enrichModelInvocationCost svc s =
     (case SpanModel s of
        None \<Rightarrow> s
      | Some mi \<Rightarrow>
          if \<not> zero_float (CostUSD mi) \<or> PromptTokens mi + CompletionTokens mi = 0 then s
          else s\<lparr>SpanModel := Some (mi\<lparr>CostUSD := print_float (Floats svc) (EstimateCost (Floats svc) (Prices svc)
                  (ModelName mi) (ModelProvider mi) (PromptTokens mi) (CompletionTokens mi))\<rparr>)\<rparr>)"

definition prepare_span :: "env \<Rightarrow> ingest_svc \<Rightarrow> string \<Rightarrow> span \<Rightarrow> span" where
  "prepare_span v svc executionID s0 =
     (let s1 = s0\<lparr>SpanExecutionID := executionID, SpanStartedAt := Truncate (SpanStartedAt s0) Microsecond,
            SpanEndedAt := map_option (\<lambda>t. Truncate t Microsecond) (SpanEndedAt s0)\<rparr>;
          s2 = (if SpanStatus s1 = ''''
                then s1\<lparr>SpanStatus := (if SpanEndedAt s1 = None then StatusRunning else StatusCompleted)\<rparr> else s1);
          s3 = (if SpanID s2 = ''''
                then s2\<lparr>SpanID := stableID v ''span'' (print_json (JArr [JStr executionID, opt_str (SpanParent s2),
                       JStr (SpanName s2), JStr (SpanType s2), time_json (SpanStartedAt s2)]))\<rparr> else s2);
          s4 = enrichModelInvocationCost svc s3
      in if redactOn svc then redactSpan svc s4 else s4)"

definition prepare_event :: "env \<Rightarrow> ingest_svc \<Rightarrow> string \<Rightarrow> execution_event \<Rightarrow> execution_event" where
  "prepare_event v svc executionID e0 =
     (let e1 = (normalise_event e0)\<lparr>EvExecutionID := executionID, EvSeq := 0\<rparr>;
          e2 = (if EvID e1 = '''' then e1\<lparr>EvID := stableID v ''evt'' (event_text e1)\<rparr> else e1)
      in if redactOn svc then redactEvent svc e2 else e2)"

text \<open>One element of a batch: its error, if any, and the new tables.\<close>

definition ingest_span :: "env \<Rightarrow> ingest_svc \<Rightarrow> string \<Rightarrow> span option \<Rightarrow> telemetry \<Rightarrow> ingest_error option \<times> telemetry" where
  "ingest_span v svc executionID sp tel =
     (case sp of
        None \<Rightarrow> (Some \<lparr>EntityID = '''', IngestCode = ''VALIDATION_ERROR'', IngestMessage = None\<rparr>, tel)
      | Some s0 \<Rightarrow>
          (let s = prepare_span v svc executionID s0
           in case ValidateSpan (Some s) of
                Some err \<Rightarrow> (Some \<lparr>EntityID = SpanID s, IngestCode = ''VALIDATION_ERROR'', IngestMessage = Some err\<rparr>, tel)
              | None \<Rightarrow>
                  (case InsertSpan v s tel of
                     (Some err, tel') \<Rightarrow>
                       (Some \<lparr>EntityID = SpanID s, IngestCode = ''STORAGE_ERROR'', IngestMessage = Some err\<rparr>, tel')
                   | (None, tel') \<Rightarrow> (None, tel'))))"

definition ingest_event :: "env \<Rightarrow> ingest_svc \<Rightarrow> string \<Rightarrow> execution_event option \<Rightarrow> telemetry \<Rightarrow> ingest_error option \<times> telemetry" where
  "ingest_event v svc executionID ev tel =
     (case ev of
        None \<Rightarrow> (Some \<lparr>EntityID = '''', IngestCode = ''VALIDATION_ERROR'', IngestMessage = None\<rparr>, tel)
      | Some e0 \<Rightarrow>
          (let e = prepare_event v svc executionID e0
           in case ValidateEvent e of
                Some err \<Rightarrow> (Some \<lparr>EntityID = EvID e, IngestCode = ''VALIDATION_ERROR'', IngestMessage = Some err\<rparr>, tel)
              | None \<Rightarrow>
                  (case InsertEvent v e tel of
                     (Some err, tel') \<Rightarrow>
                       (Some \<lparr>EntityID = EvID e, IngestCode = ''STORAGE_ERROR'', IngestMessage = Some err\<rparr>, tel')
                   | (None, tel') \<Rightarrow> (None, tel'))))"

text \<open>The loop over a batch, counting what was accepted.\<close>

fun ingest_loop :: "(env \<Rightarrow> 'a \<Rightarrow> telemetry \<Rightarrow> ingest_error option \<times> telemetry) \<Rightarrow> (nat \<Rightarrow> env) \<Rightarrow> nat \<Rightarrow> 'a list \<Rightarrow>
    nat \<times> ingest_error list \<Rightarrow> telemetry \<Rightarrow> (nat \<times> ingest_error list) \<times> telemetry" where
  "ingest_loop f vs k [] acc tel = (acc, tel)"
| "ingest_loop f vs k (x # xs) (accepted, errors) tel =
     (case f (vs k) x tel of
        (None, tel') \<Rightarrow> ingest_loop f vs (Suc k) xs (Suc accepted, errors) tel'
      | (Some e, tel') \<Rightarrow> ingest_loop f vs (Suc k) xs (accepted, errors @ [e]) tel')"

definition IngestSpans :: "(nat \<Rightarrow> env) \<Rightarrow> ingest_svc \<Rightarrow> string \<Rightarrow> string \<Rightarrow> span option list \<Rightarrow> telemetry \<Rightarrow>
    (nat \<times> ingest_error list) \<times> telemetry" where
  "IngestSpans vs svc tid executionID spans tel =
     (case GetExecution (vs 0) tel tid executionID of
        Inl err \<Rightarrow> ((0, [\<lparr>EntityID = executionID, IngestCode = ''NOT_FOUND'', IngestMessage = Some err\<rparr>]), tel)
      | Inr _ \<Rightarrow> ingest_loop (\<lambda>v. ingest_span v svc executionID) vs 1 spans (0, []) tel)"

definition IngestEvents :: "(nat \<Rightarrow> env) \<Rightarrow> ingest_svc \<Rightarrow> string \<Rightarrow> string \<Rightarrow> execution_event option list \<Rightarrow> telemetry \<Rightarrow>
    (nat \<times> ingest_error list) \<times> telemetry" where
  "IngestEvents vs svc tid executionID events tel =
     (case GetExecution (vs 0) tel tid executionID of
        Inl err \<Rightarrow> ((0, [\<lparr>EntityID = executionID, IngestCode = ''NOT_FOUND'', IngestMessage = Some err\<rparr>]), tel)
      | Inr _ \<Rightarrow> ingest_loop (\<lambda>v. ingest_event v svc executionID) vs 1 events (0, []) tel)"

end
