(* ===== verification/Telemetry_Safety.thy ===== *)
theory Telemetry_Safety
  imports Ingestion
begin

text \<open>
  What the telemetry tables keep.  \<open>tel_inv\<close> is the invariant: identifiers are unique, every span
  belongs to a stored execution, a parent or a cause was stored before the span that names it and in
  the same execution, every event belongs to a span of its execution.  \<open>tel_kept\<close> compares two states
  of the tables: nothing is lost, recorded events are never changed, and a row leaves \<open>RUNNING\<close> once.
\<close>

section \<open>The invariant\<close>

definition span_keys :: "telemetry \<Rightarrow> (string \<times> string) list" where
  "span_keys tel = map (\<lambda>(s, d). (SpanID s, SpanExecutionID s)) (span_rows tel)"

text \<open>In the list of spans, \<open>b\<close> stands before \<open>a\<close> and belongs to the same execution.\<close>

definition precedes :: "(string \<times> string) list \<Rightarrow> string \<Rightarrow> string \<Rightarrow> bool" where
  "precedes ks b a = (\<exists>xs e ys. ks = xs @ (a, e) # ys \<and> (b, e) \<in> set xs)"

definition tel_inv :: "telemetry \<Rightarrow> bool" where
  "tel_inv tel =
     (distinct (map (\<lambda>(t, e). ExecID e) (exec_rows tel)) \<and>
      distinct (map fst (span_keys tel)) \<and>
      (\<forall>(i, e) \<in> set (span_keys tel). valid_utf8 i \<and> e \<in> (\<lambda>(t, x). ExecID x) ` set (exec_rows tel)) \<and>
      (\<forall>(s, d) \<in> set (span_rows tel). span_columns s = s \<and>
         (\<forall>p. SpanParent s = Some p \<longrightarrow> precedes (span_keys tel) p (SpanID s))) \<and>
      (\<forall>(a, b) \<in> set (cause_rows tel). precedes (span_keys tel) b a) \<and>
      distinct (map EvID (event_rows tel)) \<and>
      sorted_wrt (<) (map EvSeq (event_rows tel)) \<and>
      (\<forall>e \<in> set (event_rows tel). EvSeq e \<le> event_seq tel \<and> (EvSpanID e, EvExecutionID e) \<in> set (span_keys tel)))"

lemma tel_inv_span:
  "tel_inv tel \<Longrightarrow> (s, d) \<in> set (span_rows tel) \<Longrightarrow>
     span_columns s = s \<and> (\<forall>p. SpanParent s = Some p \<longrightarrow> precedes (span_keys tel) p (SpanID s))"
  unfolding tel_inv_def by (drule conjunct2, drule conjunct2, drule conjunct2, drule conjunct1) (drule bspec, auto)

lemma tel_inv_cause: "tel_inv tel \<Longrightarrow> (a, b) \<in> set (cause_rows tel) \<Longrightarrow> precedes (span_keys tel) b a"
  by (auto simp: tel_inv_def)

section \<open>History\<close>

definition end_exec :: "string \<Rightarrow> time option \<Rightarrow> execution \<Rightarrow> execution" where
  "end_exec st en e = e\<lparr>ExecStatus := st, ExecEndedAt := en\<rparr>"

definition end_span :: "string \<Rightarrow> time option \<Rightarrow> strmap option \<Rightarrow> span_error option \<Rightarrow> span \<Rightarrow> span" where
  "end_span st en md er s = s\<lparr>SpanStatus := st, SpanEndedAt := en, SpanMetadata := md, SpanErr := er\<rparr>"

definition exec_evolves :: "string \<times> execution \<Rightarrow> string \<times> execution \<Rightarrow> bool" where
  "exec_evolves r r' =
     (r' = r \<or> ExecStatus (snd r) = StatusRunning \<and> (\<exists>st en. r' = (fst r, end_exec st en (snd r))))"

definition span_evolves :: "span \<times> detail \<Rightarrow> span \<times> detail \<Rightarrow> bool" where
  "span_evolves r r' =
     (r' = r \<or> SpanStatus (fst r) = StatusRunning \<and>
        (\<exists>st en md er d. st \<noteq> StatusRunning \<and> r' = (end_span st en md er (fst r), d)))"

lemma end_exec_simps [simp]:
  "end_exec a b (end_exec c d e) = end_exec a b e" "ExecStatus (end_exec st en e) = st" "ExecID (end_exec st en e) = ExecID e"
  by (simp_all add: end_exec_def)

lemma end_span_simps [simp]:
  "SpanStatus (end_span st en md er s) = st" "SpanID (end_span st en md er s) = SpanID s"
  "SpanExecutionID (end_span st en md er s) = SpanExecutionID s" "SpanParent (end_span st en md er s) = SpanParent s"
  by (simp_all add: end_span_def)

definition rows_evolve :: "('a \<Rightarrow> 'a \<Rightarrow> bool) \<Rightarrow> 'a list \<Rightarrow> 'a list \<Rightarrow> bool" where
  "rows_evolve R xs ys = (\<exists>zs. list_all2 R xs zs \<and> (\<exists>rest. ys = zs @ rest))"

definition tel_kept :: "telemetry \<Rightarrow> telemetry \<Rightarrow> bool" where
  "tel_kept tel tel' =
     (rows_evolve exec_evolves (exec_rows tel) (exec_rows tel') \<and>
      rows_evolve span_evolves (span_rows tel) (span_rows tel') \<and>
      (\<exists>rest. cause_rows tel' = cause_rows tel @ rest) \<and>
      (\<exists>rest. event_rows tel' = event_rows tel @ rest) \<and>
      event_seq tel \<le> event_seq tel')"

lemma rows_evolve_append: "(\<And>x. R x x) \<Longrightarrow> rows_evolve R xs (xs @ ys)"
  unfolding rows_evolve_def by (intro exI [of _ xs]) (auto simp: list_all2_refl)

lemma rows_evolve_refl: "(\<And>x. R x x) \<Longrightarrow> rows_evolve R xs xs"
  using rows_evolve_append [of R xs "[]"] by simp

lemma rows_evolve_map: "(\<And>x. x \<in> set xs \<Longrightarrow> R x (f x)) \<Longrightarrow> rows_evolve R xs (map f xs)"
  unfolding rows_evolve_def by (intro exI [of _ "map f xs"]) (auto simp: list_all2_conv_all_nth)

lemma rows_evolve_trans:
  assumes "\<And>x y z. R x y \<Longrightarrow> R y z \<Longrightarrow> R x z" "rows_evolve R xs ys" "rows_evolve R ys zs"
  shows "rows_evolve R xs zs"
proof -
  from assms(2) obtain us rest where us: "list_all2 R xs us" "ys = us @ rest" unfolding rows_evolve_def by blast
  from assms(3) obtain vs rest' where vs: "list_all2 R ys vs" "zs = vs @ rest'" unfolding rows_evolve_def by blast
  from us(2) vs(1) obtain v1 v2 where v: "vs = v1 @ v2" "list_all2 R us v1" by (auto simp: list_all2_append1)
  have "list_all2 R xs v1" using list_all2_trans [OF _ us(1) v(2), of R] assms(1) by blast
  with v(1) vs(2) show ?thesis unfolding rows_evolve_def by (intro exI [of _ v1]) auto
qed

lemma exec_evolves_refl [simp]: "exec_evolves r r"
  by (simp add: exec_evolves_def)

lemma span_evolves_refl [simp]: "span_evolves r r"
  by (simp add: span_evolves_def)

lemma exec_evolves_trans: "exec_evolves r s \<Longrightarrow> exec_evolves s t \<Longrightarrow> exec_evolves r t"
  unfolding exec_evolves_def by (metis end_exec_simps(1) fst_conv snd_conv)

lemma span_evolves_trans: "span_evolves r s \<Longrightarrow> span_evolves s t \<Longrightarrow> span_evolves r t"
  unfolding span_evolves_def by (metis end_span_simps(1) fst_conv)

lemma tel_kept_refl [simp]: "tel_kept tel tel"
  by (simp add: tel_kept_def rows_evolve_refl)

lemma tel_kept_trans:
  assumes "tel_kept t1 t2" "tel_kept t2 t3"
  shows "tel_kept t1 t3"
proof -
  have "rows_evolve exec_evolves (exec_rows t1) (exec_rows t3)"
    by (rule rows_evolve_trans [of exec_evolves "exec_rows t1" "exec_rows t2"])
      (use assms in \<open>auto simp: tel_kept_def intro: exec_evolves_trans\<close>)
  moreover have "rows_evolve span_evolves (span_rows t1) (span_rows t3)"
    by (rule rows_evolve_trans [of span_evolves "span_rows t1" "span_rows t2"])
      (use assms in \<open>auto simp: tel_kept_def intro: span_evolves_trans\<close>)
  ultimately show ?thesis using assms unfolding tel_kept_def by auto
qed

text \<open>One step of any operation, from a state with the invariant.\<close>

definition tel_step :: "telemetry \<Rightarrow> telemetry \<Rightarrow> bool" where
  "tel_step tel tel' = (tel_inv tel \<longrightarrow> tel_inv tel' \<and> tel_kept tel tel')"

lemma tel_step_refl [simp]: "tel_step tel tel"
  by (simp add: tel_step_def)

lemma tel_step_trans: "tel_step t1 t2 \<Longrightarrow> tel_step t2 t3 \<Longrightarrow> tel_step t1 t3"
  unfolding tel_step_def by (blast intro: tel_kept_trans)

section \<open>Steps of the tables\<close>

lemma precedes_append: "precedes ks b a \<Longrightarrow> precedes (ks @ zs) b a"
  unfolding precedes_def by (metis append.assoc append_Cons)

lemma precedes_last: "(b, e) \<in> set ks \<Longrightarrow> precedes (ks @ [(a, e)]) b a"
  unfolding precedes_def by auto

lemma step_seq: "event_seq tel \<le> n \<Longrightarrow> tel_step tel (tel\<lparr>event_seq := n\<rparr>)"
  by (auto simp: tel_step_def tel_kept_def tel_inv_def span_keys_def intro: rows_evolve_refl)

lemma exec_evolves_ID: "exec_evolves r r' \<Longrightarrow> ExecID (snd r') = ExecID (snd r) \<and> fst r' = fst r"
  unfolding exec_evolves_def by auto

lemma step_exec_map:
  assumes "\<And>r. exec_evolves r (f r)"
  shows "tel_step tel (tel\<lparr>exec_rows := map f (exec_rows tel)\<rparr>)"
proof -
  have "map (\<lambda>(t, e). ExecID e) (map f (exec_rows tel)) = map (\<lambda>(t, e). ExecID e) (exec_rows tel)"
    using exec_evolves_ID [OF assms] by (auto simp: case_prod_beta)
  moreover from this have "(\<lambda>(t, e). ExecID e) ` set (map f (exec_rows tel)) = (\<lambda>(t, e). ExecID e) ` set (exec_rows tel)"
    by (metis set_map)
  ultimately show ?thesis
    using rows_evolve_map [of "exec_rows tel" exec_evolves f, OF assms]
    by (simp add: tel_step_def tel_kept_def tel_inv_def span_keys_def rows_evolve_refl del: set_map map_map)
qed

lemma step_exec_append:
  assumes "\<not> list_ex (\<lambda>(t, x). ExecID x = ExecID e) (exec_rows tel)"
  shows "tel_step tel (tel\<lparr>exec_rows := exec_rows tel @ [(tid, e)]\<rparr>)"
proof -
  have "ExecID e \<notin> (\<lambda>(t, x). ExecID x) ` set (exec_rows tel)" using assms by (auto simp: list_ex_iff)
  then show ?thesis
    by (auto simp: tel_step_def tel_kept_def tel_inv_def span_keys_def rows_evolve_refl rows_evolve_append)
qed

lemma nextval_Some: "nextval s = Some n \<Longrightarrow> s < n"
  by (auto simp: nextval_def split: if_splits)

lemma span_exists_key: "span_exists tel i e \<longleftrightarrow> (i, e) \<in> set (span_keys tel)"
  by (auto simp: span_exists_def span_keys_def list_ex_iff)

lemma step_event:
  assumes "event_seq tel < n" "\<forall>x \<in> set (event_rows tel). EvID x \<noteq> EvID e" "EvSeq e = n"
    and "(EvSpanID e, EvExecutionID e) \<in> set (span_keys tel)"
  shows "tel_step tel (tel\<lparr>event_seq := n, event_rows := event_rows tel @ [e]\<rparr>)"
proof -
  let ?t = "tel\<lparr>event_seq := n, event_rows := event_rows tel @ [e]\<rparr>"
  have k: "span_keys ?t = span_keys tel" by (simp add: span_keys_def)
  have "tel_inv ?t" if i: "tel_inv tel"
  proof -
    have seq: "\<forall>x \<in> set (event_rows tel). EvSeq x \<le> event_seq tel" using i by (simp add: tel_inv_def)
    have "EvID e \<notin> EvID ` set (event_rows tel)" using assms(2) by auto
    moreover have "\<forall>x \<in> set (event_rows tel). EvSeq x < n" using seq assms(1) by auto
    moreover have "\<forall>x \<in> set (event_rows tel). EvSeq x \<le> n" using seq assms(1) by auto
    ultimately show ?thesis using i assms(3,4) unfolding tel_inv_def k by (simp add: sorted_wrt_append)
  qed
  moreover have "tel_kept tel (tel\<lparr>event_seq := n, event_rows := event_rows tel @ [e]\<rparr>)"
    using assms(1) by (simp add: tel_kept_def rows_evolve_refl)
  ultimately show ?thesis by (simp add: tel_step_def)
qed

section \<open>Events\<close>

lemma insertEventTx_step: "tel_step tel (snd (insertEventTx v k e tel))"
proof (cases "nextval (event_seq tel)")
  case None
  then show ?thesis by (simp add: insertEventTx_def Let_def split: option.splits)
next
  case (Some n)
  let ?e = "normalise_event e"
  note n = nextval_Some [OF Some]
  show ?thesis
  proof (cases "filter (\<lambda>x. EvID x = EvID ?e) (event_rows tel)")
    case Nil
    then have "\<forall>x \<in> set (event_rows tel). EvID x \<noteq> EvID ?e" by (simp add: filter_empty_conv)
    then have "tel_step tel (tel\<lparr>event_seq := n, event_rows := event_rows tel @ [?e\<lparr>EvSeq := n, EvPayload := p\<rparr>]\<rparr>)"
      if "span_exists tel (EvSpanID ?e) (EvExecutionID ?e)" for p
      using that n by (intro step_event) (auto simp: span_exists_key)
    with Nil Some show ?thesis by (auto simp: insertEventTx_def Let_def split: option.splits)
  next
    case (Cons old rest)
    with Some n show ?thesis by (auto simp: insertEventTx_def Let_def step_seq split: option.splits)
  qed
qed

lemma insertEventTx_tables:
  "exec_rows (snd (insertEventTx v k e tel)) = exec_rows tel" "span_rows (snd (insertEventTx v k e tel)) = span_rows tel"
  "cause_rows (snd (insertEventTx v k e tel)) = cause_rows tel"
  by (simp_all add: insertEventTx_def Let_def split: option.splits list.splits)

lemma andThen_step:
  assumes "tel_step tel (snd r)" "\<And>t. r = (None, t) \<Longrightarrow> tel_step tel t \<Longrightarrow> tel_step tel (snd (f t))"
  shows "tel_step tel (snd (andThen r f))"
  using assms by (cases r) (auto simp: andThen_def split: option.splits)

lemma andThen_trans:
  assumes "tel_step tel (snd r)" "\<And>t. tel_step t (snd (f t))"
  shows "tel_step tel (snd (andThen r f))"
  using assms andThen_step tel_step_trans by metis

lemma transact_step:
  assumes "tel_step tel (snd r)"
  shows "tel_step tel (snd (transact tel r))"
proof (cases r)
  case (Pair err t)
  have "tel_step tel (tel\<lparr>event_seq := event_seq t\<rparr>)"
    using assms step_seq [of tel "event_seq t"] unfolding Pair tel_step_def by (auto simp: tel_kept_def)
  with assms Pair show ?thesis by (cases err) (simp_all add: transact_def)
qed

lemma guardTx_snd [simp]: "snd (guardTx ok err tel) = tel"
  by (simp add: guardTx_def)

lemma statement_snd [simp]: "snd (statement v site tel) = tel"
  by (simp add: statement_def)

lemma statement_Pair: "statement v site tel = (r, t) \<Longrightarrow> t = tel"
  using statement_snd [of v site tel] by simp

lemma InsertEvent_step: "tel_step tel (snd (InsertEvent v e tel))"
  unfolding InsertEvent_def
  by (intro transact_step andThen_step) (auto dest!: statement_Pair simp: insertEventTx_step)

section \<open>Spans\<close>

lemma check_refs_None:
  "check_refs v k tel s is = None \<Longrightarrow> \<forall>i \<in> set is. i \<noteq> SpanID s \<and> (i, SpanExecutionID s) \<in> set (span_keys tel)"
  by (induction "is" arbitrary: k) (auto simp: span_exists_key split: if_splits)

lemma step_span_append:
  assumes "\<forall>i \<in> set (span_refs s). (i, SpanExecutionID s) \<in> set (span_keys tel)"
    and "SpanID s \<notin> fst ` set (span_keys tel)" "valid_utf8 (SpanID s)" "list_ex (\<lambda>(t, e). ExecID e = SpanExecutionID s) (exec_rows tel)"
  shows "tel_step tel (tel\<lparr>span_rows := span_rows tel @ [(span_columns s, d)]\<rparr>)"
proof -
  let ?t = "tel\<lparr>span_rows := span_rows tel @ [(span_columns s, d)]\<rparr>"
  have cols: "SpanID (span_columns s) = SpanID s" "SpanExecutionID (span_columns s) = SpanExecutionID s"
      "SpanParent (span_columns s) = SpanParent s" "span_columns (span_columns s) = span_columns s"
    by (simp_all add: span_columns_def)
  have k: "span_keys ?t = span_keys tel @ [(SpanID s, SpanExecutionID s)]" by (simp add: span_keys_def cols)
  have par: "precedes (span_keys ?t) p (SpanID s)" if "SpanParent s = Some p" for p
    using assms(1) that unfolding k by (intro precedes_last) (simp add: span_refs_def)
  have ex: "SpanExecutionID s \<in> (\<lambda>(t, x). ExecID x) ` set (exec_rows tel)"
    using assms(4) by (force simp: list_ex_iff)
  have "tel_inv ?t" if i: "tel_inv tel"
  proof -
    have spans: "\<forall>(x, y) \<in> set (span_rows tel). span_columns x = x \<and>
        (\<forall>p. SpanParent x = Some p \<longrightarrow> precedes (span_keys ?t) p (SpanID x))"
      unfolding k using tel_inv_span [OF i] precedes_append by blast
    have causes: "\<forall>(a, b) \<in> set (cause_rows tel). precedes (span_keys ?t) b a"
      unfolding k using tel_inv_cause [OF i] precedes_append by blast
    show ?thesis
      unfolding tel_inv_def using i spans causes par ex assms(2,3) cols
      by (simp add: tel_inv_def) (simp add: k)
  qed
  then show ?thesis by (simp add: tel_step_def tel_kept_def rows_evolve_refl rows_evolve_append)
qed

lemma span_columns_end: "span_columns (end_span st en md er s) = end_span st en md er (span_columns s)"
  by (simp add: span_columns_def end_span_def)

lemma span_evolves_keys:
  "span_evolves r r' \<Longrightarrow> SpanID (fst r') = SpanID (fst r) \<and> SpanExecutionID (fst r') = SpanExecutionID (fst r) \<and>
     SpanParent (fst r') = SpanParent (fst r) \<and> (span_columns (fst r) = fst r \<longrightarrow> span_columns (fst r') = fst r')"
  unfolding span_evolves_def by (auto simp: span_columns_end)

lemma step_span_map:
  assumes "tel_inv tel \<Longrightarrow> \<forall>r \<in> set (span_rows tel). span_evolves r (f r)"
  shows "tel_step tel (tel\<lparr>span_rows := map f (span_rows tel)\<rparr>)"
proof (cases "tel_inv tel")
  case True
  let ?t = "tel\<lparr>span_rows := map f (span_rows tel)\<rparr>"
  note ev = assms [OF True]
  have "\<forall>r \<in> set (span_rows tel). (\<lambda>(s, d). (SpanID s, SpanExecutionID s)) (f r) = (\<lambda>(s, d). (SpanID s, SpanExecutionID s)) r"
    using ev by (auto simp: case_prod_beta dest!: bspec span_evolves_keys)
  then have k: "span_keys ?t = span_keys tel" by (simp add: span_keys_def)
  have "span_columns x = x \<and> (\<forall>p. SpanParent x = Some p \<longrightarrow> precedes (span_keys tel) p (SpanID x))"
    if xy: "(x, y) \<in> set (span_rows ?t)" for x y
  proof -
    from xy obtain r where r: "r \<in> set (span_rows tel)" "(x, y) = f r" by auto
    then have "span_columns (fst r) = fst r \<and> (\<forall>p. SpanParent (fst r) = Some p \<longrightarrow> precedes (span_keys tel) p (SpanID (fst r)))"
      using tel_inv_span [OF True, of "fst r" "snd r"] by simp
    moreover have "span_evolves r (x, y)" using ev r by simp
    ultimately show ?thesis using span_evolves_keys [of r "(x, y)"] by simp
  qed
  then have "\<forall>(x, y) \<in> set (span_rows ?t). span_columns x = x \<and>
      (\<forall>p. SpanParent x = Some p \<longrightarrow> precedes (span_keys tel) p (SpanID x))" by blast
  then have "tel_inv ?t" using True unfolding tel_inv_def k by simp
  moreover have "tel_kept tel ?t"
    using ev by (simp add: tel_kept_def rows_evolve_refl rows_evolve_map)
  ultimately show ?thesis by (simp add: tel_step_def)
qed (simp add: tel_step_def)

lemma step_causes:
  assumes "\<forall>(a, b) \<in> set cs. precedes (span_keys tel) b a"
  shows "tel_step tel (tel\<lparr>cause_rows := cause_rows tel @ cs\<rparr>)"
  using assms unfolding tel_step_def tel_kept_def tel_inv_def
  by (simp add: span_keys_def rows_evolve_refl ball_Un)

lemma insertLifecycle_step: "tel_step tel (snd (insertLifecycle v k s et ts tel))"
  by (simp add: insertLifecycle_def insertEventTx_step)

text \<open>A span is written once under its key, or completed once.\<close>

definition may_write :: "telemetry \<Rightarrow> bool \<Rightarrow> span \<Rightarrow> bool" where
  "may_write tel exists s =
     (if exists then SpanStatus s \<noteq> StatusRunning \<and>
        (\<forall>r \<in> set (span_rows tel). SpanID (fst r) = SpanID s \<longrightarrow> SpanStatus (fst r) = StatusRunning)
      else SpanID s \<notin> fst ` set (span_keys tel))"

lemma write_span_step:
  assumes "tel_inv tel \<Longrightarrow> may_write tel exists s" "\<forall>i \<in> set (span_refs s). (i, SpanExecutionID s) \<in> set (span_keys tel)"
  shows "tel_step tel (snd (write_span v exists s tel))"
proof (cases exists)
  case True
  let ?f = "\<lambda>d (r, e). if SpanID r = SpanID s
    then (r\<lparr>SpanStatus := SpanStatus s, SpanEndedAt := SpanEndedAt s, SpanMetadata := SpanMetadata s, SpanErr := SpanErr s\<rparr>, d)
    else (r, e)"
  have "\<forall>r \<in> set (span_rows tel). span_evolves r (?f d r)" if "tel_inv tel" for d
    using assms(1) [OF that] True by (fastforce simp: span_evolves_def may_write_def end_span_def)
  then have "tel_step tel (tel\<lparr>span_rows := map (?f d) (span_rows tel)\<rparr>)" for d
    by (rule step_span_map)
  with True show ?thesis by (simp add: write_span_def split: option.splits)
next
  case False
  have "tel_step tel (tel\<lparr>span_rows := span_rows tel @ [(span_columns s, d)]\<rparr>)"
    if "list_ex (\<lambda>(t, e). ExecID e = SpanExecutionID s) (exec_rows tel)" "list_all storable (span_texts s)" for d
  proof (cases "tel_inv tel")
    case True
    then show ?thesis using assms False that by (intro step_span_append) (simp_all add: may_write_def span_texts_def storable_def)
  qed (simp add: tel_step_def)
  with False show ?thesis by (auto simp: write_span_def split: option.splits)
qed

lemma write_span_new_keys:
  assumes "write_span v False s tel = (None, t)"
  shows "span_keys t = span_keys tel @ [(SpanID s, SpanExecutionID s)]"
  using assms by (auto simp: write_span_def span_keys_def span_columns_def split: option.splits if_splits)

lemma write_causes_step:
  assumes "span_keys t = ks @ [(SpanID s, SpanExecutionID s)]" "\<forall>i \<in> set (span_refs s). (i, SpanExecutionID s) \<in> set ks"
  shows "tel_step t (snd (write_causes v s t))"
proof -
  have "precedes (span_keys t) i (SpanID s)" if "i \<in> set (slice (SpanCausedBy s))" for i
    unfolding assms(1) using assms(2) that by (intro precedes_last) (simp add: span_refs_def)
  then show ?thesis by (auto simp: write_causes_def intro!: step_causes)
qed

lemma persist_span_step:
  assumes "tel_inv tel \<Longrightarrow> may_write tel exists s"
  shows "tel_step tel (snd (persist_span v exists s tel))"
proof (cases "check_refs v 0 tel s (span_refs s)")
  case None
  then have refs: "\<forall>i \<in> set (span_refs s). (i, SpanExecutionID s) \<in> set (span_keys tel)"
    using check_refs_None by blast
  have causes: "tel_step tel (snd (write_causes v s t))"
    if "tel_step tel t" "write_span v False s tel = (None, t)" for t
    using that(1) write_causes_step [OF write_span_new_keys [OF that(2)] refs] by (rule tel_step_trans)
  have finish: "tel_step t (snd (andThen (case SpanEndedAt s of None \<Rightarrow> (None, t)
      | Some u \<Rightarrow> insertLifecycle v 1 s (end_kind (SpanStatus s)) u t) (statement v ''commit'')))" for t
    by (rule andThen_trans) (simp_all add: insertLifecycle_step split: option.splits)
  have start: "tel_step tel (snd (if exists then (None, t) else andThen (write_causes v s t) (insertLifecycle v 0 s' k u)))"
    if "tel_step tel t" "write_span v exists s tel = (None, t)" for t s' k u
    using that causes by (cases exists) (auto intro!: andThen_trans insertLifecycle_step)
  show ?thesis
    unfolding persist_span_def None option.case
    by (intro andThen_step [of tel "(None, tel)"] andThen_step [of tel "write_span v exists s _"] andThen_trans [OF start])
      (simp_all add: write_span_step [OF assms refs] finish)
qed (simp add: persist_span_def andThen_def)

lemma check_existing_Inr:
  "check_existing v tel r s = Inr () \<Longrightarrow> SpanStatus (fst r) = StatusRunning \<and> SpanStatus s \<noteq> StatusRunning"
  by (auto simp: check_existing_def scanSpanRow_def Let_def split: if_splits option.splits)

lemma span_row_unique:
  assumes "tel_inv tel" "r \<in> set (span_rows tel)" "q \<in> set (span_rows tel)" "SpanID (fst r) = SpanID (fst q)"
  shows "r = q"
proof -
  have "distinct (map (\<lambda>r. SpanID (fst r)) (span_rows tel))"
    using assms(1) by (simp add: tel_inv_def span_keys_def comp_def case_prod_beta)
  with assms(2-4) show ?thesis by (auto simp: distinct_map dest: inj_onD)
qed

lemma InsertSpan_step: "tel_step tel (snd (InsertSpan v s tel))"
proof -
  let ?s = "normalise_span s"
  have new: "tel_step t (snd (persist_span v False ?s t))"
    if "filter (\<lambda>(r, d). SpanID r = SpanID ?s) (span_rows t) = []" for t
    using that by (intro persist_span_step) (fastforce simp: may_write_def span_keys_def filter_empty_conv)
  have old: "tel_step t (snd (persist_span v True ?s t))"
    if "filter (\<lambda>(r, d). SpanID r = SpanID ?s) (span_rows t) = r # rs" "check_existing v t r ?s = Inr ()" for t r rs
  proof (rule persist_span_step)
    assume i: "tel_inv t"
    have "r \<in> set (span_rows t)" "SpanID (fst r) = SpanID ?s" using filter_Cons_mem [OF that(1)] by auto
    with check_existing_Inr [OF that(2)] span_row_unique [OF i] show "may_write t True ?s"
      unfolding may_write_def by simp metis
  qed
  show ?thesis
    unfolding InsertSpan_def Let_def
    apply (intro transact_step andThen_step)
       apply simp_all
    apply (drule statement_Pair)+
    apply (auto split: list.splits sum.splits option.splits simp: new dest: statement_Pair intro: old)
    done
qed

section \<open>The service\<close>

lemma InsertExecution_step: "tel_step tel (snd (InsertExecution v db tid e tel))"
  using step_exec_append [of "e\<lparr>ExecCreatedAt := pg_now v, ExecStartedAt := Truncate (ExecStartedAt e) Microsecond,
      ExecEndedAt := map_option (\<lambda>t. Truncate t Microsecond) (ExecEndedAt e)\<rparr>" tel tid]
  by (simp add: InsertExecution_def split: sum.splits)

lemma UpdateExecutionStatus_step: "tel_step tel (snd (UpdateExecutionStatus v tid i status en tel))"
proof -
  have "exec_evolves r (case r of (t, e) \<Rightarrow> if ExecID e = i \<and> t = tid \<and> ExecStatus e = StatusRunning
      then (t, e\<lparr>ExecStatus := status, ExecEndedAt := en'\<rparr>) else (t, e))" for r en'
    unfolding exec_evolves_def end_exec_def by (cases r) auto
  then show ?thesis
    by (simp add: UpdateExecutionStatus_def step_exec_map split: sum.splits)
qed

lemma StartExecution_step: "tel_step tel (snd (StartExecution v svc db tid r tel))"
proof -
  define e0 where "e0 = new_execution v tid r"
  define e where "e = (if redactOn svc then redactExecution e0 else e0)"
  obtain x t where x: "InsertExecution v db tid e tel = (x, t)" by (cases "InsertExecution v db tid e tel")
  then have "tel_step tel t" using InsertExecution_step [of tel v db tid e] by simp
  then show ?thesis
    unfolding StartExecution_def Let_def e0_def [symmetric] e_def [symmetric]
    by (simp add: x split: option.split sum.split)
qed

lemma EndExecutionAt_step: "tel_step tel (snd (EndExecutionAt vs tid i status en tel))"
proof -
  define en' where "en' = Truncate (case en of None \<Rightarrow> now (vs 0) | Some t \<Rightarrow> t) Microsecond"
  obtain x t where x: "UpdateExecutionStatus (vs 1) tid i status (Some en') tel = (x, t)"
    by (cases "UpdateExecutionStatus (vs 1) tid i status (Some en') tel")
  then have "tel_step tel t" using UpdateExecutionStatus_step [of tel "vs 1" tid i status "Some en'"] by simp
  then show ?thesis
    unfolding EndExecutionAt_def Let_def en'_def [symmetric] x by (simp split: option.split sum.split)
qed

lemma ingest_span_step: "tel_step tel (snd (ingest_span v svc x sp tel))"
proof -
  have "tel_step tel t" if "InsertSpan v s tel = (r, t)" for s r t
    using InsertSpan_step [of tel v s] that by simp
  then show ?thesis by (auto simp: ingest_span_def Let_def split: option.splits prod.splits)
qed

lemma ingest_event_step: "tel_step tel (snd (ingest_event v svc x ev tel))"
proof -
  have "tel_step tel t" if "InsertEvent v e tel = (r, t)" for e r t
    using InsertEvent_step [of tel v e] that by simp
  then show ?thesis by (auto simp: ingest_event_def Let_def split: option.splits prod.splits)
qed

text \<open>
  The loop keeps every relation its body keeps; \<open>Q\<close> is what is known of the state before each call.
\<close>

lemma ingest_loop_rel:
  assumes "\<And>v x t. Q t \<Longrightarrow> Q (snd (f v x t)) \<and> R t (snd (f v x t))" "\<And>t. R t t" "\<And>a b c. R a b \<Longrightarrow> R b c \<Longrightarrow> R a c" "Q tel"
  shows "R tel (snd (ingest_loop f vs k xs acc tel))"
  using assms(4)
proof (induction xs arbitrary: k acc tel)
  case Nil
  then show ?case using assms(2) by simp
next
  case (Cons x xs)
  obtain e t where e: "f (vs k) x tel = (e, t)" by (cases "f (vs k) x tel")
  with assms(1) [OF Cons.prems, of "vs k" x] have t: "Q t" "R tel t" by simp_all
  have "R t (snd (ingest_loop f vs (Suc k) xs acc' t))" for acc' using Cons.IH t(1) by blast
  with t(2) have "R tel (snd (ingest_loop f vs (Suc k) xs acc' t))" for acc' using assms(3) by blast
  with e show ?case by (cases acc; cases e) simp_all
qed

lemma ingest_loop_counts:
  "fst (ingest_loop f vs k xs (a, es) tel) = (b, es') \<Longrightarrow>
     b + length es' = a + length es + length xs \<and> a \<le> b \<and> (\<exists>rest. es' = es @ rest)"
proof (induction xs arbitrary: k a es tel)
  case (Cons x xs)
  obtain e t where e: "f (vs k) x tel = (e, t)" by (cases "f (vs k) x tel")
  show ?case
  proof (cases e)
    case None
    with e Cons.prems Cons.IH [of "Suc k" "Suc a" es t] show ?thesis by auto
  next
    case (Some r)
    with e Cons.prems Cons.IH [of "Suc k" a "es @ [r]" t] show ?thesis by auto
  qed
qed simp

lemma IngestSpans_step: "tel_step tel (snd (IngestSpans vs svc tid x spans tel))"
  using ingest_loop_rel [of "\<lambda>t. True" "\<lambda>v. ingest_span v svc x" tel_step tel, OF _ tel_step_refl tel_step_trans]
  by (simp add: IngestSpans_def ingest_span_step split: sum.splits)

lemma IngestEvents_step: "tel_step tel (snd (IngestEvents vs svc tid x events tel))"
  using ingest_loop_rel [of "\<lambda>t. True" "\<lambda>v. ingest_event v svc x" tel_step tel, OF _ tel_step_refl tel_step_trans]
  by (simp add: IngestEvents_def ingest_event_step split: sum.splits)

section \<open>Runs\<close>

text \<open>Any tenant may call any operation in any environment.\<close>

inductive telemetry_step :: "telemetry \<Rightarrow> telemetry \<Rightarrow> bool" where
  start: "StartExecution v svc db tid r tel = (x, tel') \<Longrightarrow> telemetry_step tel tel'"
| finish: "EndExecutionAt vs tid i status en tel = (x, tel') \<Longrightarrow> telemetry_step tel tel'"
| spans: "IngestSpans vs svc tid i sps tel = (x, tel') \<Longrightarrow> telemetry_step tel tel'"
| events: "IngestEvents vs svc tid i evs tel = (x, tel') \<Longrightarrow> telemetry_step tel tel'"

lemma telemetry_step_ok: "telemetry_step tel tel' \<Longrightarrow> tel_step tel tel'"
proof (induction rule: telemetry_step.induct)
  case (start v svc db tid r tel x tel')
  then show ?case using StartExecution_step [of tel v svc db tid r] by simp
next
  case (finish vs tid i status en tel x tel')
  then show ?case using EndExecutionAt_step [of tel vs tid i status en] by simp
next
  case (spans vs svc tid i sps tel x tel')
  then show ?case using IngestSpans_step [of tel vs svc tid i sps] by simp
next
  case (events vs svc tid i evs tel x tel')
  then show ?case using IngestEvents_step [of tel vs svc tid i evs] by simp
qed

definition empty_telemetry :: telemetry where
  "empty_telemetry = \<lparr>exec_rows = [], span_rows = [], cause_rows = [], event_rows = [], event_seq = 0\<rparr>"

lemma empty_inv: "tel_inv empty_telemetry"
  by (simp add: tel_inv_def empty_telemetry_def span_keys_def)

end
