(* ===== verification/Telemetry_Query.thy ===== *)
theory Telemetry_Query
  imports Telemetry_Store "HOL-Library.Product_Lexorder"
begin

text \<open>
  Reading the telemetry back: api/internal/lineage (the graph of spans and the chain of parents),
  api/internal/replay (frames in recorded order) and api/internal/query (the tenant checks in front
  of the store).  The loop of \<open>GetCausalityChain\<close> has no bound in the code and is a partial function.
\<close>

section \<open>Lineage\<close>

definition dag_node_of :: "span \<Rightarrow> dag_node" where
  "dag_node_of s = \<lparr>NodeID = SpanID s, NodeName = SpanName s, NodeType = SpanType s, NodeStatus = SpanStatus s,
     NodeStartedAt = SpanStartedAt s, NodeEndedAt = SpanEndedAt s, NodeDuration = DurationMs s, NodeMetadata = SpanMetadata s\<rparr>"

definition dag_edges_of :: "span \<Rightarrow> dag_edge list" where
  "dag_edges_of s =
     (case SpanParent s of
        None \<Rightarrow> []
      | Some p \<Rightarrow> if p = '''' then [] else [\<lparr>EdgeSource = p, EdgeTarget = SpanID s, EdgeType = ''parent_child''\<rparr>]) @
     map (\<lambda>c. \<lparr>EdgeSource = c, EdgeTarget = SpanID s, EdgeType = ''causal''\<rparr>) (slice (SpanCausedBy s))"

definition BuildDAG :: "env \<Rightarrow> telemetry \<Rightarrow> string \<Rightarrow> (dag_node list \<times> dag_edge list) result" where
  "BuildDAG v tel executionID =
     (case GetSpansByExecution v tel executionID of
        Inl err \<Rightarrow> Inl err
      | Inr spans \<Rightarrow> Inr (map dag_node_of spans, concat (map dag_edges_of spans)))"

partial_function (option) parent_walk :: "env \<Rightarrow> telemetry \<Rightarrow> nat \<Rightarrow> span \<Rightarrow> span list \<Rightarrow> span list option" where
  "parent_walk v tel k current chain =
     (case SpanParent current of
        None \<Rightarrow> Some chain
      | Some p \<Rightarrow>
          if p = '''' then Some chain
          else (case GetSpan v k tel p of
                  Inl _ \<Rightarrow> Some chain
                | Inr parent \<Rightarrow> parent_walk v tel (Suc k) parent (parent # chain)))"

text \<open>\<open>None\<close> is a call that never returns.\<close>

definition GetCausalityChain :: "env \<Rightarrow> telemetry \<Rightarrow> string \<Rightarrow> span list result option" where
  "GetCausalityChain v tel i =
     (case GetSpan v 0 tel i of
        Inl err \<Rightarrow> Some (Inl err)
      | Inr s \<Rightarrow> map_option Inr (parent_walk v tel 1 s [s]))"

section \<open>Replay\<close>

record replay_request =
  ReplayExecutionID :: string
  FromSequence :: int
  ToSequence :: int
  ReplaySpanIDs :: "string list"

record replay_response =
  ReplayDurationMs :: int
  ReplayExec :: execution
  Frames :: "replay_frame list"
  TotalFrames :: nat

definition replay_selects :: "replay_request \<Rightarrow> execution_event \<Rightarrow> bool" where
  "replay_selects r e =
     ((ReplaySpanIDs r = [] \<or> EvSpanID e \<in> set (ReplaySpanIDs r)) \<and>
      \<not> (0 < FromSequence r \<and> EvSeq e < FromSequence r) \<and> \<not> (0 < ToSequence r \<and> ToSequence r < EvSeq e))"

text \<open>The last span with an identifier wins in the lookup map.\<close>

definition span_lookup :: "span list \<Rightarrow> string \<Rightarrow> span option" where
  "span_lookup spans = foldl (\<lambda>m s. m(SpanID s \<mapsto> s)) Map.empty spans"

definition frame_of :: "(string \<Rightarrow> span option) \<Rightarrow> time \<Rightarrow> time \<Rightarrow> execution_event \<Rightarrow> replay_frame" where
  "frame_of spanMap startedAt prev e =
     \<lparr>FrameSeq = EvSeq e, FrameEventType = EvType e, FrameSpanID = EvSpanID e,
      FrameSpanName = (case spanMap (EvSpanID e) of None \<Rightarrow> '''' | Some s \<Rightarrow> SpanName s),
      FrameSpanType = (case spanMap (EvSpanID e) of None \<Rightarrow> '''' | Some s \<Rightarrow> SpanType s), FrameEvent = e,
      DeltaMs = max 0 (Milliseconds (Sub_time (EvTimestamp e) prev)),
      ElapsedMs = max 0 (Milliseconds (Sub_time (EvTimestamp e) startedAt))\<rparr>"

fun frames_from :: "(string \<Rightarrow> span option) \<Rightarrow> time \<Rightarrow> time \<Rightarrow> execution_event list \<Rightarrow> replay_frame list" where
  "frames_from spanMap startedAt prev [] = []"
| "frames_from spanMap startedAt prev (e # es) =
     frame_of spanMap startedAt prev e # frames_from spanMap startedAt (EvTimestamp e) es"

definition replay_duration :: "execution \<Rightarrow> replay_frame list \<Rightarrow> int" where
  "replay_duration ex frames =
     (let d0 = (case ExecEndedAt ex of None \<Rightarrow> 0 | Some t \<Rightarrow> Milliseconds (Sub_time t (ExecStartedAt ex)));
          d1 = (if frames \<noteq> [] \<and> d0 < ElapsedMs (last frames) then ElapsedMs (last frames) else d0)
      in max 0 d1)"

definition ReplayExecution :: "env \<Rightarrow> telemetry \<Rightarrow> string \<Rightarrow> replay_request \<Rightarrow> replay_response result" where
  "ReplayExecution v tel tid r =
     (case GetExecution v tel tid (ReplayExecutionID r) of
        Inl err \<Rightarrow> Inl err
      | Inr ex \<Rightarrow>
      (case GetEventsByExecution v tel (ReplayExecutionID r) of
         Inl err \<Rightarrow> Inl err
       | Inr events \<Rightarrow>
      (case GetSpansByExecution v tel (ReplayExecutionID r) of
         Inl err \<Rightarrow> Inl err
       | Inr spans \<Rightarrow>
           (let sorted = sort_key (\<lambda>e. (EvTimestamp e, EvSeq e)) (filter (replay_selects r) events);
                frames = frames_from (span_lookup spans) (ExecStartedAt ex) (ExecStartedAt ex) sorted
            in Inr \<lparr>ReplayDurationMs = replay_duration ex frames, ReplayExec = ex, Frames = frames,
                    TotalFrames = length frames\<rparr>))))"

section \<open>Queries\<close>

definition query_ListExecutions :: "env \<Rightarrow> telemetry \<Rightarrow> string \<Rightarrow> int \<Rightarrow> int \<Rightarrow> string \<Rightarrow> string \<Rightarrow>
    (execution list \<times> nat \<times> int \<times> int) result" where
  "query_ListExecutions v tel tid pageSize offset agentID status =
     (let size = min 100 (if pageSize \<le> 0 then 20 else pageSize)
      in case ListExecutions v tel tid agentID status size offset of
           Inl err \<Rightarrow> Inl err
         | Inr (es, n) \<Rightarrow> Inr (es, n, size, offset))"

definition query_GetSpan :: "env \<Rightarrow> telemetry \<Rightarrow> string \<Rightarrow> string \<Rightarrow> (span \<times> execution_event list) result" where
  "query_GetSpan v tel tid i =
     (case GetSpan v 0 tel i of
        Inl err \<Rightarrow> Inl err
      | Inr s \<Rightarrow>
          (case GetExecution v tel tid (SpanExecutionID s) of
             Inl err \<Rightarrow> Inl err
           | Inr _ \<Rightarrow> (case GetEventsBySpan v tel i of Inl err \<Rightarrow> Inl err | Inr es \<Rightarrow> Inr (s, es))))"

definition query_GetSpansByExecution :: "env \<Rightarrow> telemetry \<Rightarrow> string \<Rightarrow> string \<Rightarrow> span list result" where
  "query_GetSpansByExecution v tel tid executionID =
     (case GetExecution v tel tid executionID of Inl err \<Rightarrow> Inl err | Inr _ \<Rightarrow> GetSpansByExecution v tel executionID)"

definition GetExecutionDAG :: "env \<Rightarrow> telemetry \<Rightarrow> string \<Rightarrow> string \<Rightarrow> (dag_node list \<times> dag_edge list) result" where
  "GetExecutionDAG v tel tid executionID =
     (case GetExecution v tel tid executionID of Inl err \<Rightarrow> Inl err | Inr _ \<Rightarrow> BuildDAG v tel executionID)"

definition GetSpanEvents :: "env \<Rightarrow> telemetry \<Rightarrow> string \<Rightarrow> string \<Rightarrow> execution_event list result" where
  "GetSpanEvents v tel tid i =
     (case GetSpan v 0 tel i of
        Inl err \<Rightarrow> Inl err
      | Inr s \<Rightarrow>
          (case GetExecution v tel tid (SpanExecutionID s) of Inl err \<Rightarrow> Inl err | Inr _ \<Rightarrow> GetEventsBySpan v tel i))"

end
