(* ===== verification/Telemetry_Reading.thy ===== *)
theory Telemetry_Reading
  imports Telemetry_Safety Telemetry_Query Samples "HOL-Library.Multiset"
begin

text \<open>
  What a reader of the telemetry sees: the walk up the parents ends, the replay is in recorded order
  and complete, and only the tenant of an execution reads it.
\<close>

section \<open>Samples\<close>

definition sample_span :: "string \<Rightarrow> string option \<Rightarrow> span" where
  "sample_span i p = \<lparr>SpanID = i, SpanExecutionID = ''x'', SpanParent = p, SpanCausedBy = None, SpanType = SpanKindCustom,
     SpanName = ''n'', SpanStatus = StatusRunning, SpanStartedAt = unix_epoch, SpanEndedAt = None, SpanMetadata = Some [],
     SpanToolCall = None, SpanModel = None, SpanState = None, SpanApproval = None, SpanPolicy = None, SpanErr = None\<rparr>"

definition sample_exec :: execution where
  "sample_exec = \<lparr>ExecID = ''x'', ExecAgentID = ''a'', ExecAgentName = ''A'', ExecStatus = StatusRunning, ExecRootSpanID = '''',
     ExecTrigger = '''', ExecStartedAt = unix_epoch, ExecEndedAt = None, ExecMetadata = Some [], ExecCreatedAt = unix_epoch\<rparr>"

definition sample_tel_event :: "string \<Rightarrow> string \<Rightarrow> int \<Rightarrow> int \<Rightarrow> execution_event" where
  "sample_tel_event i sp t n = \<lparr>EvID = i, EvExecutionID = ''x'', EvSpanID = sp, EvType = ''e'', EvTimestamp = unix_epoch + t * Second,
     EvSeq = n, EvPayload = None, EvMetadata = Some []\<rparr>"

definition sample_tel :: telemetry where
  "sample_tel = \<lparr>exec_rows = [(''t'', sample_exec)],
     span_rows = [(sample_span ''s1'' None, DEmpty), (sample_span ''s2'' (Some ''s1''), DEmpty)], cause_rows = [(''s2'', ''s1'')],
     event_rows = [sample_tel_event ''e1'' ''s1'' 5 1, sample_tel_event ''e2'' ''s2'' 2 2], event_seq = 2\<rparr>"

lemma sample_precedes: "precedes [(''s1'', ''x''), (''s2'', ''x'')] ''s1'' ''s2''"
  using precedes_last [of "''s1''" "''x''" "[(''s1'', ''x'')]" "''s2''"] by simp

lemma sample_tel_inv: "tel_inv sample_tel"
proof -
  have "valid_utf8 ''s1''" "valid_utf8 ''s2''" by code_simp+
  then show ?thesis
    using sample_precedes
    by (simp add: tel_inv_def sample_tel_def sample_exec_def sample_span_def sample_tel_event_def span_keys_def span_columns_def)
qed

section \<open>Lineage\<close>

lemma scan_keeps [simp]:
  "SpanID (scanSpanRow r) = SpanID (fst r)" "SpanExecutionID (scanSpanRow r) = SpanExecutionID (fst r)"
  "SpanParent (scanSpanRow r) = SpanParent (fst r)" "SpanType (scanSpanRow r) = SpanType (fst r)"
  "SpanStatus (scanSpanRow r) = SpanStatus (fst r)" "SpanName (scanSpanRow r) = SpanName (fst r)"
  "SpanStartedAt (scanSpanRow r) = SpanStartedAt (fst r)"
  by (simp_all add: scanSpanRow_def Let_def)

lemma GetSpan_Inr: "GetSpan v k tel i = Inr s \<Longrightarrow> \<exists>r \<in> set (span_rows tel). s = scanSpanRow r \<and> SpanID s = i"
  by (auto simp: GetSpan_def split: if_splits list.splits dest!: filter_Cons_mem)

lemma GetSpan_stored:
  assumes "(i, e) \<in> set (span_keys tel)" "\<not> fault v ''getting span'' k"
  shows "\<exists>s. GetSpan v k tel i = Inr s"
proof -
  from assms(1) have "filter (\<lambda>(s, d). SpanID s = i) (span_rows tel) \<noteq> []"
    by (auto simp: span_keys_def filter_empty_conv)
  with assms(2) show ?thesis by (auto simp: GetSpan_def split: list.splits)
qed

lemma key_unique:
  assumes "distinct (map fst ks)" "ks = xs @ (a, e) # ys" "ks = xs' @ (a, e') # ys'"
  shows "xs = xs' \<and> e = e'"
proof -
  have "map fst xs @ a # map fst ys = map fst xs' @ a # map fst ys'" using assms(2,3) by (metis fst_conv list.map(2) map_append)
  moreover have "a \<notin> set (map fst xs)" "a \<notin> set (map fst ys)" using assms(1) unfolding assms(2) by simp_all
  ultimately have "map fst xs = map fst xs'" by (metis append_Cons_eq_iff)
  then have "length xs = length xs'" by (metis length_map)
  with assms(2,3) show ?thesis by simp
qed

text \<open>A parent and its child in one execution.\<close>

definition parent_of :: "span \<Rightarrow> span \<Rightarrow> bool" where
  "parent_of p c = (SpanParent c = Some (SpanID p) \<and> SpanExecutionID p = SpanExecutionID c)"

definition no_parent :: "span \<Rightarrow> bool" where
  "no_parent s = (SpanParent s = None \<or> SpanParent s = Some '''')"

lemma parent_walk_ends:
  assumes inv: "tel_inv tel"
  shows "r \<in> set (span_rows tel) \<Longrightarrow> s = scanSpanRow r \<Longrightarrow> span_keys tel = xs @ (SpanID s, SpanExecutionID s) # ys \<Longrightarrow>
    \<exists>ps. parent_walk v tel k s chain = Some (ps @ chain) \<and> successively parent_of (ps @ [s]) \<and>
      SpanID ` set ps \<subseteq> fst ` set xs \<and> distinct (map SpanID ps) \<and>
      ((\<forall>k. \<not> fault v ''getting span'' k) \<longrightarrow> no_parent (hd (ps @ [s])))"
proof (induction "length xs" arbitrary: xs ys r s k chain rule: less_induct)
  case less
  have dist: "distinct (map fst (span_keys tel))" using inv by (simp add: tel_inv_def)
  show ?case
  proof (cases "no_parent s")
    case True
    then have "parent_walk v tel k s chain = Some chain"
      by (subst parent_walk.simps) (auto simp: no_parent_def)
    with True show ?thesis by (intro exI [of _ "[]"]) simp
  next
    case False
    then obtain p where p: "SpanParent s = Some p" "p \<noteq> ''''" by (auto simp: no_parent_def)
    have "precedes (span_keys tel) p (SpanID s)"
      using tel_inv_span [OF inv, of "fst r" "snd r"] less.prems p by simp
    then obtain xs' e' ys' where "span_keys tel = xs' @ (SpanID s, e') # ys'" "(p, e') \<in> set xs'"
      unfolding precedes_def by blast
    with key_unique [OF dist less.prems(3)] have pe: "(p, SpanExecutionID s) \<in> set xs" by blast
    show ?thesis
    proof (cases "GetSpan v k tel p")
      case (Inl err)
      then have "parent_walk v tel k s chain = Some chain" using p by (subst parent_walk.simps) simp
      moreover have "fault v ''getting span'' k"
        using Inl pe less.prems(3) GetSpan_stored [of p "SpanExecutionID s" tel v k] by fastforce
      ultimately show ?thesis by (intro exI [of _ "[]"]) auto
    next
      case (Inr q)
      then obtain r' where r': "r' \<in> set (span_rows tel)" "q = scanSpanRow r'" "SpanID q = p" using GetSpan_Inr by blast
      obtain xs1 xs2 where xs: "xs = xs1 @ (p, SpanExecutionID s) # xs2" using pe by (meson split_list)
      have "(p, SpanExecutionID q) \<in> set (span_keys tel)"
        using r' by (auto simp: span_keys_def image_iff case_prod_beta intro!: bexI [of _ r'])
      moreover have "(p, SpanExecutionID s) \<in> set (span_keys tel)" using pe less.prems(3) by simp
      ultimately have e: "SpanExecutionID q = SpanExecutionID s"
        using dist by (metis eq_key_imp_eq_value)
      have "span_keys tel = xs1 @ (SpanID q, SpanExecutionID q) # xs2 @ (SpanID s, SpanExecutionID s) # ys"
        using less.prems(3) xs r'(3) e by simp
      from less.hyps [OF _ r'(1,2) this, of "Suc k" "q # chain"] xs
      obtain ps where ps: "parent_walk v tel (Suc k) q (q # chain) = Some (ps @ q # chain)"
        "successively parent_of (ps @ [q])" "SpanID ` set ps \<subseteq> fst ` set xs1" "distinct (map SpanID ps)"
        "(\<forall>k. \<not> fault v ''getting span'' k) \<longrightarrow> no_parent (hd (ps @ [q]))" by auto
      have "parent_walk v tel k s chain = Some ((ps @ [q]) @ chain)"
        using p Inr ps(1) by (subst parent_walk.simps) simp
      moreover have "parent_of q s" using p r'(3) e by (simp add: parent_of_def)
      then have "successively parent_of ((ps @ [q]) @ [s])"
        using ps(2) by (simp add: successively_append_iff)
      moreover have "p \<notin> fst ` set xs1" using dist less.prems(3) xs by auto
      then have "distinct (map SpanID (ps @ [q]))" using ps(3,4) r'(3) by auto
      moreover have "SpanID ` set (ps @ [q]) \<subseteq> fst ` set xs" using ps(3) xs r'(3) by auto
      moreover have "hd ((ps @ [q]) @ [s]) = hd (ps @ [q])" by (cases ps) simp_all
      ultimately show ?thesis using ps(5) by (intro exI [of _ "ps @ [q]"]) simp
    qed
  qed
qed

text \<open>
  The walk to the root ends: for every stored span \<open>GetCausalityChain\<close> returns, whichever reads
  fail; the chain ends in the span, each element is the parent of the next in the same execution, no
  span occurs twice, and when no read fails it starts at a span without a parent.
\<close>

theorem causality_chain_ends:
  assumes "tel_inv tel" "GetSpan v 0 tel i = Inr s"
  shows "\<exists>ps. GetCausalityChain v tel i = Some (Inr (ps @ [s])) \<and> successively parent_of (ps @ [s]) \<and>
    distinct (map SpanID (ps @ [s])) \<and> ((\<forall>k. \<not> fault v ''getting span'' k) \<longrightarrow> no_parent (hd (ps @ [s])))"
proof -
  obtain r where r: "r \<in> set (span_rows tel)" "s = scanSpanRow r" using GetSpan_Inr [OF assms(2)] by blast
  then have "(SpanID s, SpanExecutionID s) \<in> set (span_keys tel)"
    by (auto simp: span_keys_def image_iff case_prod_beta intro!: bexI [of _ r])
  then obtain xs ys where ks: "span_keys tel = xs @ (SpanID s, SpanExecutionID s) # ys" by (meson split_list)
  have "SpanID s \<notin> fst ` set xs" using assms(1) ks by (simp add: tel_inv_def)
  moreover obtain ps where "parent_walk v tel 1 s [s] = Some (ps @ [s])" "successively parent_of (ps @ [s])"
      "SpanID ` set ps \<subseteq> fst ` set xs" "distinct (map SpanID ps)"
      "(\<forall>k. \<not> fault v ''getting span'' k) \<longrightarrow> no_parent (hd (ps @ [s]))"
    using parent_walk_ends [OF assms(1) r ks, of v 1 "[s]"] by blast
  ultimately show ?thesis by (intro exI [of _ ps]) (auto simp: GetCausalityChain_def assms(2))
qed

theorem causality_chain_ends_witness:
  "\<exists>p. GetCausalityChain sample_env sample_tel ''s2'' = Some (Inr [p, sample_span ''s2'' (Some ''s1'')]) \<and>
     parent_of p (sample_span ''s2'' (Some ''s1'')) \<and> no_parent p"
proof -
  have g: "GetSpan sample_env 0 sample_tel ''s2'' = Inr (sample_span ''s2'' (Some ''s1''))" by code_simp
  obtain ps where ps: "GetCausalityChain sample_env sample_tel ''s2'' = Some (Inr (ps @ [sample_span ''s2'' (Some ''s1'')]))"
    "successively parent_of (ps @ [sample_span ''s2'' (Some ''s1'')])"
    "(\<forall>k. \<not> fault sample_env ''getting span'' k) \<longrightarrow> no_parent (hd (ps @ [sample_span ''s2'' (Some ''s1'')]))"
    using causality_chain_ends [OF sample_tel_inv g] by blast
  have f: "\<forall>k. \<not> fault sample_env ''getting span'' k" using sample_healthy by (simp add: healthy_def)
  have walk: "parent_walk sample_env sample_tel 1 (sample_span ''s2'' (Some ''s1'')) [sample_span ''s2'' (Some ''s1'')] =
      Some [sample_span ''s1'' None, sample_span ''s2'' (Some ''s1'')]"
  proof -
    have "GetSpan sample_env 1 sample_tel ''s1'' = Inr (sample_span ''s1'' None)" by code_simp
    then show ?thesis
      by (subst parent_walk.simps, simp add: sample_span_def) (subst parent_walk.simps, simp)
  qed
  with ps(1) g have "ps = [sample_span ''s1'' None]" by (simp add: GetCausalityChain_def)
  with ps f show ?thesis by auto
qed

section \<open>Replay\<close>

lemma frames_events [simp]: "map FrameEvent (frames_from m st prev es) = es"
  by (induction es arbitrary: prev) (simp_all add: frame_of_def)

lemma frames_nonneg: "f \<in> set (frames_from m st prev es) \<Longrightarrow> 0 \<le> DeltaMs f \<and> 0 \<le> ElapsedMs f"
  by (induction es arbitrary: prev) (auto simp: frame_of_def)

lemma Milliseconds_mono: "a \<le> b \<Longrightarrow> Milliseconds a \<le> Milliseconds b"
proof -
  assume ab: "a \<le> b"
  consider "0 \<le> a" | "b \<le> 0" | "a < 0" "0 < b" by linarith
  then show ?thesis
  proof cases
    case 1
    with ab show ?thesis by (simp add: Milliseconds_def sgn_if zdiv_mono1 pos_imp_zdiv_nonneg_iff)
  next
    case 2
    with ab have "\<bar>b\<bar> div 1000000 \<le> \<bar>a\<bar> div 1000000" by (intro zdiv_mono1) auto
    with 2 ab show ?thesis by (auto simp: Milliseconds_def sgn_if)
  next
    case 3
    then have "0 \<le> \<bar>a\<bar> div 1000000" "0 \<le> \<bar>b\<bar> div 1000000" by (simp_all add: pos_imp_zdiv_nonneg_iff)
    with 3 show ?thesis by (simp add: Milliseconds_def sgn_if)
  qed
qed

lemma elapsed_mono: "s \<le> t \<Longrightarrow> Milliseconds (Sub_time s st) \<le> Milliseconds (Sub_time t st)"
  by (intro Milliseconds_mono) (simp add: Sub_time_def)

lemma frames_elapsed:
  "f \<in> set (frames_from m st prev es) \<Longrightarrow> ElapsedMs f = max 0 (Milliseconds (Sub_time (EvTimestamp (FrameEvent f)) st))"
  by (induction es arbitrary: prev) (auto simp: frame_of_def)

lemma frames_elapsed_last:
  assumes "sorted (map (\<lambda>e. (EvTimestamp e, EvSeq e)) es)" "f \<in> set (frames_from m st prev es)"
  shows "ElapsedMs f \<le> ElapsedMs (last (frames_from m st prev es))"
proof -
  let ?fs = "frames_from m st prev es"
  have ne: "?fs \<noteq> []" using assms(2) by auto
  have mem: "FrameEvent f \<in> set es" by (metis assms(2) frames_events image_eqI set_map)
  then have "es \<noteq> []" by auto
  have "FrameEvent (last ?fs) = last es" using ne by (metis frames_events last_map)
  moreover have "EvTimestamp (FrameEvent f) \<le> EvTimestamp (last es)"
  proof -
    obtain xs y where es: "es = xs @ [y]" using \<open>es \<noteq> []\<close> by (metis append_butlast_last_id)
    then show ?thesis using assms(1) mem by (auto simp: sorted_append less_eq_prod_def)
  qed
  ultimately have "Milliseconds (Sub_time (EvTimestamp (FrameEvent f)) st) \<le> Milliseconds (Sub_time (EvTimestamp (FrameEvent (last ?fs))) st)"
    by (simp add: elapsed_mono)
  then show ?thesis using frames_elapsed [OF assms(2)] frames_elapsed [OF last_in_set [OF ne]] by simp
qed

text \<open>
  The replay shows exactly the selected events of the tenant's execution, each once, ordered by
  recorded time and then by sequence; no delay is negative, and no frame lies after the reported
  duration.
\<close>

theorem replay_ordered:
  assumes "ReplayExecution v tel tid r = Inr resp"
  shows "mset (map FrameEvent (Frames resp)) =
      mset (filter (\<lambda>e. EvExecutionID e = ReplayExecutionID r \<and> replay_selects r e) (event_rows tel)) \<and>
    sorted (map (\<lambda>f. (EvTimestamp (FrameEvent f), EvSeq (FrameEvent f))) (Frames resp)) \<and>
    (\<forall>f \<in> set (Frames resp). 0 \<le> DeltaMs f \<and> 0 \<le> ElapsedMs f \<and> ElapsedMs f \<le> ReplayDurationMs resp) \<and>
    TotalFrames resp = length (Frames resp) \<and> (tid, ReplayExec resp) \<in> set (exec_rows tel)"
proof -
  let ?key = "\<lambda>e. (EvTimestamp e, EvSeq e)"
  obtain ex spans where ex: "GetExecution v tel tid (ReplayExecutionID r) = Inr ex"
    and fr: "Frames resp = frames_from (span_lookup spans) (ExecStartedAt ex) (ExecStartedAt ex)
        (sort_key ?key (filter (replay_selects r) (sort_key EvSeq (filter (\<lambda>e. EvExecutionID e = ReplayExecutionID r) (event_rows tel)))))"
    and rest: "ReplayDurationMs resp = replay_duration ex (Frames resp)" "TotalFrames resp = length (Frames resp)" "ReplayExec resp = ex"
    using assms by (auto simp: ReplayExecution_def GetEventsByExecution_def Let_def split: sum.splits if_splits)
  let ?es = "sort_key ?key (filter (replay_selects r) (sort_key EvSeq (filter (\<lambda>e. EvExecutionID e = ReplayExecutionID r) (event_rows tel))))"
  have ev: "map FrameEvent (Frames resp) = ?es" by (simp add: fr)
  have "mset ?es = mset (filter (\<lambda>e. EvExecutionID e = ReplayExecutionID r \<and> replay_selects r e) (event_rows tel))"
    by (simp add: mset_filter filter_filter_mset conj_commute)
  moreover have "sorted (map ?key (map FrameEvent (Frames resp)))" unfolding ev by (rule sorted_sort_key)
  then have "sorted (map (\<lambda>f. ?key (FrameEvent f)) (Frames resp))" by (simp only: map_map comp_def)
  moreover have "0 \<le> DeltaMs f \<and> 0 \<le> ElapsedMs f \<and> ElapsedMs f \<le> ReplayDurationMs resp" if "f \<in> set (Frames resp)" for f
    using frames_nonneg that frames_elapsed_last [OF sorted_sort_key, of f] unfolding rest(1) fr
    by (fastforce simp: replay_duration_def Let_def)
  moreover have "(tid, ex) \<in> set (exec_rows tel)"
    using ex by (auto simp: GetExecution_def split: if_splits list.splits dest!: filter_Cons_mem)
  ultimately show ?thesis using rest(2,3) ev by simp
qed

definition sample_replay :: replay_request where
  "sample_replay = \<lparr>ReplayExecutionID = ''x'', FromSequence = 0, ToSequence = 0, ReplaySpanIDs = []\<rparr>"

theorem replay_ordered_witness:
  "\<exists>resp. ReplayExecution sample_env sample_tel ''t'' sample_replay = Inr resp \<and> TotalFrames resp = 2 \<and>
     sorted (map (\<lambda>f. (EvTimestamp (FrameEvent f), EvSeq (FrameEvent f))) (Frames resp))"
proof -
  have "\<not> isl (ReplayExecution sample_env sample_tel ''t'' sample_replay)" by code_simp
  then obtain resp where r: "ReplayExecution sample_env sample_tel ''t'' sample_replay = Inr resp"
    by (cases "ReplayExecution sample_env sample_tel ''t'' sample_replay") auto
  have "length (filter (\<lambda>e. EvExecutionID e = ReplayExecutionID sample_replay \<and> replay_selects sample_replay e) (event_rows sample_tel)) = 2"
    by code_simp
  with replay_ordered [OF r] have "TotalFrames resp = 2" by (metis length_map size_mset)
  with replay_ordered [OF r] r show ?thesis by blast
qed

section \<open>Tenants\<close>

lemma GetExecution_Inr: "GetExecution v tel tid i = Inr e \<Longrightarrow> (tid, e) \<in> set (exec_rows tel) \<and> ExecID e = i"
  by (auto simp: GetExecution_def split: if_splits list.splits dest!: filter_Cons_mem)

lemma exec_owner_unique:
  assumes "tel_inv tel" "GetExecution v tel tid i = Inr e" "GetExecution v' tel tid' i = Inr e'"
  shows "tid = tid' \<and> e = e'"
proof -
  have "inj_on (\<lambda>(t, e). ExecID e) (set (exec_rows tel))" using assms(1) by (simp add: tel_inv_def distinct_map)
  from inj_onD [OF this, of "(tid, e)" "(tid', e')"] show ?thesis
    using GetExecution_Inr [OF assms(2)] GetExecution_Inr [OF assms(3)] by auto
qed

text \<open>
  C25.  Only the tenant of an execution reads its telemetry: what \<open>GetSpan\<close> of the query service
  returns to a tenant belongs to an execution of that tenant, events included, and no other tenant
  gets an answer for the same span, for its events, or for its execution.
\<close>

theorem query_isolated:
  assumes "tel_inv tel" "query_GetSpan v tel tid i = Inr (s, es)"
  shows "(\<exists>e. (tid, e) \<in> set (exec_rows tel) \<and> ExecID e = SpanExecutionID s) \<and>
    (\<forall>ev \<in> set es. EvSpanID ev = i \<and> EvExecutionID ev = SpanExecutionID s) \<and>
    (\<forall>tid' v'. tid' \<noteq> tid \<longrightarrow> isl (query_GetSpan v' tel tid' i) \<and> isl (GetSpanEvents v' tel tid' i) \<and>
       isl (query_GetSpansByExecution v' tel tid' (SpanExecutionID s)) \<and>
       isl (GetExecutionDAG v' tel tid' (SpanExecutionID s)) \<and>
       (\<forall>r. ReplayExecutionID r = SpanExecutionID s \<longrightarrow> isl (ReplayExecution v' tel tid' r)))"
proof -
  obtain ex where g: "GetSpan v 0 tel i = Inr s" "GetExecution v tel tid (SpanExecutionID s) = Inr ex"
    and es: "es = sort_key EvSeq (filter (\<lambda>e. EvSpanID e = i) (event_rows tel))"
    using assms(2) by (auto simp: query_GetSpan_def GetEventsBySpan_def split: sum.splits if_splits)
  obtain r where r: "r \<in> set (span_rows tel)" "s = scanSpanRow r" "SpanID s = i" using GetSpan_Inr [OF g(1)] by blast
  have dist: "distinct (map fst (span_keys tel))" using assms(1) by (simp add: tel_inv_def)
  have key: "(i, SpanExecutionID s) \<in> set (span_keys tel)"
    using r by (auto simp: span_keys_def image_iff case_prod_beta intro!: bexI [of _ r])
  have evs: "EvExecutionID ev = SpanExecutionID s" if "ev \<in> set es" for ev
  proof -
    have "(i, EvExecutionID ev) \<in> set (span_keys tel)" using that assms(1) unfolding es tel_inv_def by auto
    with key dist show ?thesis by (metis eq_key_imp_eq_value)
  qed
  have other: "isl (GetExecution v' tel tid' (SpanExecutionID s))" if "tid' \<noteq> tid" for tid' v'
    using exec_owner_unique [OF assms(1) g(2), of v' tid'] that by (cases "GetExecution v' tel tid' (SpanExecutionID s)") auto
  have same: "SpanExecutionID s' = SpanExecutionID s" if "GetSpan v' 0 tel i = Inr s'" for v' s'
  proof -
    from GetSpan_Inr [OF that]
    obtain r' where "r' \<in> set (span_rows tel)" "s' = scanSpanRow r'" "SpanID s' = i" by blast
    then have "r' = r" using span_row_unique [OF assms(1), of r' r] r by simp
    with \<open>s' = scanSpanRow r'\<close> r(2) show ?thesis by simp
  qed
  have q1: "isl (query_GetSpan v' tel tid' i)" "isl (GetSpanEvents v' tel tid' i)" if n: "tid' \<noteq> tid" for tid' v'
    using other [OF n, of v'] same [of v']
    by (auto simp: query_GetSpan_def GetSpanEvents_def isl_def split: sum.split)
  have q2: "isl (query_GetSpansByExecution v' tel tid' (SpanExecutionID s))"
      "isl (GetExecutionDAG v' tel tid' (SpanExecutionID s))"
      "ReplayExecutionID q = SpanExecutionID s \<Longrightarrow> isl (ReplayExecution v' tel tid' q)" if n: "tid' \<noteq> tid" for tid' v' q
    using other [OF n, of v']
    by (auto simp: query_GetSpansByExecution_def GetExecutionDAG_def ReplayExecution_def isl_def)
  have "\<forall>ev \<in> set es. EvSpanID ev = i" unfolding es by simp
  moreover have "\<exists>e. (tid, e) \<in> set (exec_rows tel) \<and> ExecID e = SpanExecutionID s" using GetExecution_Inr [OF g(2)] by blast
  ultimately show ?thesis by (simp add: q1 q2 evs)
qed

theorem query_isolated_witness:
  "isl (query_GetSpan sample_env sample_tel ''u'' ''s1'') \<and> \<not> isl (query_GetSpan sample_env sample_tel ''t'' ''s1'')"
proof -
  have n: "\<not> isl (query_GetSpan sample_env sample_tel ''t'' ''s1'')" by code_simp
  then obtain s es where "query_GetSpan sample_env sample_tel ''t'' ''s1'' = Inr (s, es)"
    by (cases "query_GetSpan sample_env sample_tel ''t'' ''s1''") auto
  from query_isolated [OF sample_tel_inv this] n show ?thesis by auto
qed

end
