(* ===== verification/Telemetry_Writing.thy ===== *)
theory Telemetry_Writing
  imports Telemetry_Reading
begin

text \<open>
  What a writer of the telemetry can do: the tables stay consistent along every run, a call reaches
  only the execution it names, and sending a span again has no effect.
\<close>

section \<open>Runs\<close>

text \<open>
  C15.  Along every run of the telemetry service - executions started and ended, spans and events
  ingested, by any tenants, in any order, whichever statements fail - identifiers stay unique, spans
  and events belong to stored executions, every parent and cause was stored before the span that names
  it; and no row is lost, no event is changed, and a finished execution or span is never altered.
\<close>

theorem telemetry_run_safe:
  assumes "telemetry_step\<^sup>*\<^sup>* tel tel'" "tel_inv tel"
  shows "tel_inv tel' \<and> tel_kept tel tel'"
  using assms
proof (induction rule: rtranclp_induct)
  case (step y z)
  with telemetry_step_ok [OF step.hyps(2)] show ?case unfolding tel_step_def by (blast intro: tel_kept_trans)
qed simp

definition sample_svc :: ingest_svc where
  "sample_svc = \<lparr>redactOn = False, Floats = sample_floats, Prices = [], UnmarshalAny = (\<lambda>s. None)\<rparr>"

definition sample_start :: start_request where
  "sample_start = \<lparr>ReqAgentID = ''a'', ReqAgentName = ''A'', ReqTrigger = '''', ReqMetadata = None, ReqIdempotencyKey = ''k'',
     ReqStartedAt = None\<rparr>"

definition sample_second :: telemetry where
  "sample_second = snd (StartExecution sample_env sample_svc sample_db ''t'' sample_start sample_tel)"

definition sample_third :: telemetry where
  "sample_third = snd (EndExecutionAt (\<lambda>k. sample_env) ''t'' ''x'' StatusFailed None sample_second)"

theorem telemetry_run_safe_witness:
  "tel_inv sample_third \<and> tel_kept sample_tel sample_third \<and> length (exec_rows sample_third) = 2"
proof -
  have "telemetry_step sample_tel sample_second"
    unfolding sample_second_def by (rule telemetry_step.start) (rule prod.collapse [symmetric])
  moreover have "telemetry_step sample_second sample_third"
    unfolding sample_third_def by (rule telemetry_step.finish) (rule prod.collapse [symmetric])
  ultimately have run: "telemetry_step\<^sup>*\<^sup>* sample_tel sample_third" by (meson rtranclp.simps)
  have "length (exec_rows sample_third) = 2" by code_simp
  with telemetry_run_safe [OF run sample_tel_inv] show ?thesis by simp
qed

section \<open>Confinement\<close>

text \<open>Between the two states nothing but rows of execution \<open>x\<close> was written.\<close>

definition confined :: "string \<Rightarrow> telemetry \<Rightarrow> telemetry \<Rightarrow> bool" where
  "confined x tel tel' =
     (exec_rows tel' = exec_rows tel \<and>
      filter (\<lambda>(s, d). SpanExecutionID s \<noteq> x) (span_rows tel') = filter (\<lambda>(s, d). SpanExecutionID s \<noteq> x) (span_rows tel) \<and>
      filter (\<lambda>e. EvExecutionID e \<noteq> x) (event_rows tel') = filter (\<lambda>e. EvExecutionID e \<noteq> x) (event_rows tel) \<and>
      set (span_keys tel) \<subseteq> set (span_keys tel') \<and>
      (\<forall>c \<in> set (cause_rows tel'). c \<in> set (cause_rows tel) \<or> (fst c, x) \<in> set (span_keys tel')))"

lemma confined_refl [simp]: "confined x tel tel"
  by (simp add: confined_def)

lemma confined_trans: "confined x t1 t2 \<Longrightarrow> confined x t2 t3 \<Longrightarrow> confined x t1 t3"
  unfolding confined_def by (elim conjE, intro conjI) (simp | blast)+

lemma confined_seq [simp]: "confined x tel (tel\<lparr>event_seq := n\<rparr>)"
  by (simp add: confined_def span_keys_def)

lemma transact_confined: "confined x tel (snd r) \<Longrightarrow> confined x tel (snd (transact tel r))"
  by (cases r; cases "fst r") (auto simp: transact_def)

lemma andThen_confined:
  assumes "confined x tel (snd r)" "\<And>t. r = (None, t) \<Longrightarrow> confined x tel t \<Longrightarrow> confined x t (snd (f t))"
  shows "confined x tel (snd (andThen r f))"
  using assms confined_trans by (cases r; cases "fst r") (auto simp: andThen_def)

lemma insertEventTx_cases:
  assumes "\<And>n. P (tel\<lparr>event_seq := n\<rparr>)"
    and "\<And>n p. P (tel\<lparr>event_seq := n, event_rows := event_rows tel @ [(normalise_event e)\<lparr>EvSeq := n, EvPayload := p\<rparr>]\<rparr>)"
  shows "P (snd (insertEventTx v k e tel))"
proof -
  have same: "P tel" using assms(1) [of "event_seq tel"] by simp
  show ?thesis
  proof (cases "nextval (event_seq tel)")
    case None
    then show ?thesis using same by (simp add: insertEventTx_def Let_def split: option.split)
  next
    case (Some n)
    then show ?thesis
      by (cases "filter (\<lambda>x. EvID x = EvID (normalise_event e)) (event_rows tel)")
        (simp_all add: insertEventTx_def Let_def same assms split: option.split)
  qed
qed

lemma confined_event:
  "EvExecutionID e = x \<Longrightarrow> confined x tel (tel\<lparr>event_seq := n, event_rows := event_rows tel @ [e]\<rparr>)"
  by (simp add: confined_def span_keys_def)

lemma insertEventTx_confined:
  assumes "EvExecutionID e = x"
  shows "confined x tel (snd (insertEventTx v k e tel))"
proof (rule insertEventTx_cases)
  show "confined x tel (tel\<lparr>event_seq := n, event_rows := event_rows tel @ [(normalise_event e)\<lparr>EvSeq := n, EvPayload := p\<rparr>]\<rparr>)" for n p
    by (rule confined_event) (simp add: normalise_event_def assms)
qed (rule confined_seq)

lemma insertLifecycle_confined: "SpanExecutionID s = x \<Longrightarrow> confined x tel (snd (insertLifecycle v k s et ts tel))"
  by (simp add: insertLifecycle_def insertEventTx_confined lifecycle_event_def)

lemma write_span_confined:
  assumes "SpanExecutionID s = x" "exists \<Longrightarrow> \<forall>r \<in> set (span_rows tel). SpanID (fst r) = SpanID s \<longrightarrow> SpanExecutionID (fst r) = x"
  shows "confined x tel (snd (write_span v exists s tel))"
proof (cases exists)
  case True
  let ?f = "\<lambda>d (r, e). if SpanID r = SpanID s then (end_span (SpanStatus s) (SpanEndedAt s) (SpanMetadata s) (SpanErr s) r, d)
    else (r, e)"
  have flt: "filter (\<lambda>(s, d). SpanExecutionID s \<noteq> x) (map (?f d) rs) = filter (\<lambda>(s, d). SpanExecutionID s \<noteq> x) rs"
    if "\<forall>r \<in> set rs. SpanID (fst r) = SpanID s \<longrightarrow> SpanExecutionID (fst r) = x" for d rs
    using that by (induction rs) (simp_all add: case_prod_beta)
  have "map (\<lambda>(s, d). (SpanID s, SpanExecutionID s)) (map (?f d) rs) = map (\<lambda>(s, d). (SpanID s, SpanExecutionID s)) rs" for d rs
    by (induction rs) auto
  then have k: "span_keys (tel\<lparr>span_rows := map (?f d) (span_rows tel)\<rparr>) = span_keys tel" for d
    unfolding span_keys_def by (simp del: map_map)
  have "confined x tel (tel\<lparr>span_rows := map (?f d) (span_rows tel)\<rparr>)" for d
    using flt [OF assms(2) [OF True], of d] unfolding confined_def k by simp
  with True show ?thesis unfolding write_span_def end_span_def [symmetric] by (simp split: option.split)
next
  case False
  have "SpanExecutionID (span_columns s) = x" using assms(1) by (simp add: span_columns_def)
  with False show ?thesis by (auto simp: write_span_def confined_def span_keys_def split: option.split)
qed

lemma write_causes_confined:
  "(SpanID s, x) \<in> set (span_keys t) \<Longrightarrow> confined x t (snd (write_causes v s t))"
  by (auto simp: write_causes_def confined_def span_keys_def)

lemma persist_span_confined:
  assumes "SpanExecutionID s = x" "exists \<Longrightarrow> \<forall>r \<in> set (span_rows tel). SpanID (fst r) = SpanID s \<longrightarrow> SpanExecutionID (fst r) = x"
  shows "confined x tel (snd (persist_span v exists s tel))"
proof -
  have start: "confined x t (snd (if exists then (None, t) else andThen (write_causes v s t)
      (insertLifecycle v 0 (s\<lparr>SpanStatus := StatusRunning, SpanEndedAt := None\<rparr>) ''SPAN_STARTED'' (SpanStartedAt s))))"
    if "write_span v exists s tel = (None, t)" for t
    using that write_span_new_keys [of v s tel t] assms(1)
    by (auto intro!: andThen_confined write_causes_confined insertLifecycle_confined)
  have finish: "confined x t (snd (andThen (case SpanEndedAt s of None \<Rightarrow> (None, t)
      | Some u \<Rightarrow> insertLifecycle v 1 s (end_kind (SpanStatus s)) u t) (statement v ''commit'')))" for t
    by (rule andThen_confined) (simp_all add: insertLifecycle_confined assms(1) split: option.split)
  have body: "confined x tel (snd (andThen (write_span v exists s tel) (\<lambda>tel.
     andThen (if exists then (None, tel) else andThen (write_causes v s tel)
        (insertLifecycle v 0 (s\<lparr>SpanStatus := StatusRunning, SpanEndedAt := None\<rparr>) ''SPAN_STARTED'' (SpanStartedAt s))) (\<lambda>tel.
     andThen (case SpanEndedAt s of None \<Rightarrow> (None, tel) | Some t \<Rightarrow> insertLifecycle v 1 s (end_kind (SpanStatus s)) t tel)
       (statement v ''commit'')))))"
  proof (rule andThen_confined)
    show "confined x tel (snd (write_span v exists s tel))" using write_span_confined [OF assms] .
    show "confined x t (snd (andThen (if exists then (None, t) else andThen (write_causes v s t)
        (insertLifecycle v 0 (s\<lparr>SpanStatus := StatusRunning, SpanEndedAt := None\<rparr>) ''SPAN_STARTED'' (SpanStartedAt s))) (\<lambda>tel.
      andThen (case SpanEndedAt s of None \<Rightarrow> (None, tel) | Some t \<Rightarrow> insertLifecycle v 1 s (end_kind (SpanStatus s)) t tel)
       (statement v ''commit''))))" if "write_span v exists s tel = (None, t)" for t
      using start [OF that] finish by (rule andThen_confined)
  qed
  show ?thesis unfolding persist_span_def by (cases "check_refs v 0 tel s (span_refs s)") (simp_all add: andThen_def [of "(_, tel)"] body)
qed

lemma check_existing_execution: "check_existing v tel r s = Inr () \<Longrightarrow> SpanExecutionID (fst r) = SpanExecutionID s"
  by (auto simp: check_existing_def Let_def split: if_splits)

lemma InsertSpan_confined:
  assumes inv: "tel_inv tel" and x: "SpanExecutionID s = x"
  shows "confined x tel (snd (InsertSpan v s tel))"
proof -
  let ?s = "normalise_span s"
  have s: "SpanExecutionID ?s = x" using x by (simp add: normalise_span_def)
  have "confined x tel (snd (case filter (\<lambda>(r, d). SpanID r = SpanID ?s) (span_rows tel) of
      [] \<Rightarrow> persist_span v False ?s tel
    | r # _ \<Rightarrow> (case check_existing v tel r ?s of Inl (Some err) \<Rightarrow> (Some err, tel) | Inl None \<Rightarrow> statement v ''commit'' tel
        | Inr _ \<Rightarrow> persist_span v True ?s tel)))"
  proof (cases "filter (\<lambda>(r, d). SpanID r = SpanID ?s) (span_rows tel)")
    case Nil
    then show ?thesis using persist_span_confined [OF s, of False] by simp
  next
    case (Cons r rs)
    have r: "r \<in> set (span_rows tel)" "SpanID (fst r) = SpanID ?s" using filter_Cons_mem [OF Cons] by auto
    have "confined x tel (snd (persist_span v True ?s tel))" if "check_existing v tel r ?s = Inr ()"
      using check_existing_execution [OF that] s span_row_unique [OF inv r(1)] r(2)
      by (intro persist_span_confined [OF s]) metis
    then show ?thesis using Cons by (simp split: sum.split option.split)
  qed
  then show ?thesis
    unfolding InsertSpan_def Let_def
    by (intro transact_confined andThen_confined) (auto dest!: statement_Pair)
qed

lemma prepare_span_execution: "SpanExecutionID (prepare_span v svc x s) = x"
  by (simp add: prepare_span_def Let_def enrichModelInvocationCost_def redactSpan_def case_prod_beta split: option.split)

lemma prepare_event_execution: "EvExecutionID (prepare_event v svc x e) = x"
  by (simp add: prepare_event_def Let_def redactEvent_def case_prod_beta)

lemma ingest_span_confined: "tel_inv tel \<Longrightarrow> confined x tel (snd (ingest_span v svc x sp tel))"
proof (cases sp)
  case (Some s)
  assume inv: "tel_inv tel"
  define s' where "s' = prepare_span v svc x s"
  have "confined x tel (snd (InsertSpan v s' tel))"
    by (rule InsertSpan_confined [OF inv]) (simp add: s'_def prepare_span_execution)
  then show ?thesis
    unfolding Some ingest_span_def Let_def option.case s'_def [symmetric]
    by (cases "InsertSpan v s' tel") (simp split: option.split)
qed (simp add: ingest_span_def)

lemma InsertEvent_confined: "EvExecutionID e = x \<Longrightarrow> confined x tel (snd (InsertEvent v e tel))"
  unfolding InsertEvent_def
  by (intro transact_confined andThen_confined) (auto dest!: statement_Pair simp: insertEventTx_confined)

lemma ingest_event_confined: "confined x tel (snd (ingest_event v svc x ev tel))"
proof (cases ev)
  case (Some e)
  define e' where "e' = prepare_event v svc x e"
  have "confined x tel (snd (InsertEvent v e' tel))"
    by (rule InsertEvent_confined) (simp add: e'_def prepare_event_execution)
  then show ?thesis
    unfolding Some ingest_event_def Let_def option.case e'_def [symmetric]
    by (cases "InsertEvent v e' tel") (simp split: option.split)
qed (simp add: ingest_event_def)

lemma ingest_loop_confined:
  assumes "\<And>v x' t. tel_inv t \<Longrightarrow> confined x t (snd (f v x' t))" "\<And>v x' t. tel_step t (snd (f v x' t))" "tel_inv tel"
  shows "confined x tel (snd (ingest_loop f vs k xs acc tel))"
  using assms by (intro ingest_loop_rel [of tel_inv f "confined x"]) (auto simp: tel_step_def intro: confined_trans)

lemma ingest_loop_total: "\<exists>a errs. fst (ingest_loop f vs k xs (0, []) tel) = (a, errs) \<and> a + length errs = length xs"
  using ingest_loop_counts [of f vs k xs 0 "[]" tel] by (cases "fst (ingest_loop f vs k xs (0, []) tel)") simp

text \<open>
  C23.  Telemetry is confined to the execution it names: whatever a batch of spans or events holds, it
  changes nothing outside the named execution - no other execution, span, event or causal edge -
  nothing at all unless the execution belongs to the calling tenant, and every element is either
  accepted or reported.
\<close>

theorem ingest_confined:
  assumes "tel_inv tel"
  shows "confined x tel (snd (IngestSpans vs svc tid x sps tel)) \<and> confined x tel (snd (IngestEvents vs svc tid x evs tel)) \<and>
    (if isl (GetExecution (vs 0) tel tid x)
     then snd (IngestSpans vs svc tid x sps tel) = tel \<and> snd (IngestEvents vs svc tid x evs tel) = tel
     else (\<exists>e. (tid, e) \<in> set (exec_rows tel) \<and> ExecID e = x) \<and>
       (\<exists>a errs. fst (IngestSpans vs svc tid x sps tel) = (a, errs) \<and> a + length errs = length sps) \<and>
       (\<exists>a errs. fst (IngestEvents vs svc tid x evs tel) = (a, errs) \<and> a + length errs = length evs))"
proof (cases "GetExecution (vs 0) tel tid x")
  case (Inl err)
  then show ?thesis by (simp add: IngestSpans_def IngestEvents_def)
next
  case (Inr e)
  have "confined x tel (snd (ingest_loop (\<lambda>v. ingest_span v svc x) vs 1 sps (0, []) tel))"
    "confined x tel (snd (ingest_loop (\<lambda>v. ingest_event v svc x) vs 1 evs (0, []) tel))"
    using assms by (intro ingest_loop_confined; simp add: ingest_span_confined ingest_event_confined ingest_span_step ingest_event_step)+
  then show ?thesis
    using Inr GetExecution_Inr [OF Inr] ingest_loop_total [of "\<lambda>v. ingest_span v svc x" vs 1 sps tel]
      ingest_loop_total [of "\<lambda>v. ingest_event v svc x" vs 1 evs tel]
    by (auto simp: IngestSpans_def IngestEvents_def)
qed

theorem ingest_confined_witness:
  "snd (IngestSpans (\<lambda>k. sample_env) sample_svc ''u'' ''x'' [Some (sample_span ''s1'' None)] sample_tel) = sample_tel \<and>
   fst (IngestSpans (\<lambda>k. sample_env) sample_svc ''t'' ''x'' [Some (sample_span ''s3'' None)] sample_tel) = (1, [])"
proof -
  have "isl (GetExecution sample_env sample_tel ''u'' ''x'')" by code_simp
  then have "snd (IngestSpans (\<lambda>k. sample_env) sample_svc ''u'' ''x'' [Some (sample_span ''s1'' None)] sample_tel) = sample_tel"
    using ingest_confined [OF sample_tel_inv, of "''x''" "\<lambda>k. sample_env" sample_svc "''u''" "[Some (sample_span ''s1'' None)]"] by simp
  moreover have "fst (IngestSpans (\<lambda>k. sample_env) sample_svc ''t'' ''x'' [Some (sample_span ''s3'' None)] sample_tel) = (1, [])"
    by code_simp
  ultimately show ?thesis by simp
qed

end
