(* ===== verification/Telemetry_Retry.thy ===== *)
theory Telemetry_Retry
  imports Telemetry_Writing
begin

text \<open>
  Sending a span again.  A stored span reads back with its free payloads normalised by \<open>jsonb\<close>;
  \<open>json_sim\<close> relates such documents and is a congruence, so the stored span and the request have one
  canonical text and the comparison of \<open>InsertSpan\<close> recognises the retry.
\<close>

section \<open>Documents with one canonical text\<close>

definition canon_nums :: "json \<Rightarrow> bool" where
  "canon_nums x = (\<forall>s \<in> set (num_lits x). canon_number s \<noteq> None)"

definition json_sim :: "json \<Rightarrow> json \<Rightarrow> bool" where
  "json_sim a b = (wf_json a \<longrightarrow> wf_json b \<and> denote b = denote a \<and> (canon_nums a \<longrightarrow> canon_nums b))"

definition fields_sim :: "(string \<times> json) list \<Rightarrow> (string \<times> json) list \<Rightarrow> bool" where
  "fields_sim = list_all2 (\<lambda>(k, x) (l, y). k = l \<and> json_sim x y)"

lemma json_sim_refl [simp]: "json_sim x x"
  by (simp add: json_sim_def)

lemma fields_sim_refl [simp]: "fields_sim fs fs"
  by (simp add: fields_sim_def list.rel_refl case_prod_beta)

lemma fields_sim_append: "fields_sim a b \<Longrightarrow> fields_sim c d \<Longrightarrow> fields_sim (a @ c) (b @ d)"
  by (simp add: fields_sim_def list_all2_appendI)

lemma fields_sim_Cons [simp]: "fields_sim (f # fs) (f # gs) \<longleftrightarrow> fields_sim fs gs"
  by (simp add: fields_sim_def case_prod_beta)

lemma fields_sim_one: "json_sim x y \<Longrightarrow> fields_sim [(k, x)] [(k, y)]"
  by (simp add: fields_sim_def)

lemma fields_sim_facts:
  assumes "fields_sim fs gs"
  shows "map fst gs = map fst fs \<and>
    (list_all (\<lambda>(k, v). valid_utf8 k \<and> wf_json v) fs \<longrightarrow> list_all (\<lambda>(k, v). valid_utf8 k \<and> wf_json v) gs \<and>
       map (\<lambda>(k, v). (k, denote v)) gs = map (\<lambda>(k, v). (k, denote v)) fs \<and>
       ((\<forall>(k, x) \<in> set fs. canon_nums x) \<longrightarrow> (\<forall>(k, x) \<in> set gs. canon_nums x)))"
  using assms unfolding fields_sim_def
proof (induction rule: list_all2_induct)
  case (Cons x xs y ys)
  obtain k a l b where xy: "x = (k, a)" "y = (l, b)" by (cases x, cases y)
  with Cons.hyps have "k = l" "json_sim a b" by simp_all
  with Cons.IH show ?case unfolding xy json_sim_def by simp
qed simp

lemma canon_nums_obj: "canon_nums (JObj fs) \<longleftrightarrow> (\<forall>(k, x) \<in> set fs. canon_nums x)"
  unfolding canon_nums_def by (simp add: case_prod_beta)

lemma json_sim_obj: "fields_sim fs gs \<Longrightarrow> json_sim (JObj fs) (JObj gs)"
  using fields_sim_facts [of fs gs] unfolding json_sim_def canon_nums_obj by simp

lemma canonical_iff: "wf_json x \<Longrightarrow> JSON_canonical x \<noteq> None \<longleftrightarrow> canon_nums x"
  unfolding canon_nums_def by (rule JSON_canonical_defined)

lemma equalJSON_iff: "equalJSON a b \<longleftrightarrow> JSON_canonical a \<noteq> None \<and> JSON_canonical a = JSON_canonical b"
  by (auto simp: equalJSON_def split: option.splits)

lemma equalJSON_denote:
  assumes "wf_json a" "wf_json b" "equalJSON a b"
  shows "denote a = denote b"
proof -
  from assms(3) obtain t where "JSON_canonical a = Some t" "JSON_canonical b = Some t" by (metis equalJSON_iff option.exhaust)
  from JSON_canonical_denote [OF assms(1,2) this] show ?thesis by simp
qed

lemma equalJSON_sim:
  assumes "json_sim a b" "wf_json a" "JSON_canonical a \<noteq> None"
  shows "equalJSON b a"
proof -
  from assms have b: "wf_json b" "denote b = denote a" "canon_nums b"
    using canonical_iff [of a] by (auto simp: json_sim_def)
  then obtain t where t: "JSON_canonical b = Some t" using canonical_iff [of b] by auto
  obtain u where u: "JSON_canonical a = Some u" using assms(3) by auto
  from JSON_canonical_denote [OF b(1) assms(2) t u] b(2) have "t = u" by simp
  with t u show ?thesis by (simp add: equalJSON_iff)
qed

section \<open>Columns\<close>

lemma jsonb_value_sim:
  assumes "jsonb_ok (jsonb v)" "jsonb_value v x = Some z"
  shows "json_sim x z"
proof -
  have "wf_json z \<and> denote z = denote x \<and> (canon_nums x \<longrightarrow> canon_nums z)" if wf: "wf_json x"
  proof -
    obtain y k where y: "redecode x = Some y" "jsonb v [(''value'', y)] = Some [(k, z)]"
      using assms(2) by (auto simp: jsonb_value_def split: option.splits list.splits)
    have w: "wf_json y" "denote y = denote x" using redecode_sound [OF wf] y(1) by auto
    have "valid_utf8 ''value''" by code_simp
    with w(1) have "wf_json (JObj [(''value'', y)])" by simp
    with assms(1) y(2) have z: "wf_json (JObj [(k, z)])" "plain_numbers (JObj [(k, z)])"
        "denote (JObj [(k, z)]) = denote (JObj [(''value'', y)])"
      unfolding jsonb_ok_def by blast+
    from z(3) have "map_of [(k, denote z)] k = map_of [(''value'', denote y)] k" by simp
    then have "denote z = denote y" by (simp split: if_splits)
    moreover have "canon_nums z"
      using z(2) by (auto simp: canon_nums_def plain_numbers_def list_all_iff dest: plain_canon_number)
    ultimately show ?thesis using z(1) w(2) by simp
  qed
  then show ?thesis by (simp add: json_sim_def)
qed

lemma denote_null: "denote x = VNull \<longleftrightarrow> x = JNull"
  by (cases x) auto

lemma store_payload_sim:
  assumes "jsonb_ok (jsonb v)" "store_payload v p = Some q"
  shows "json_sim (payload_json p) (payload_json q)"
proof (cases "Inline p = JNull \<or> \<not> wf_json (payload_json p)")
  case True
  then show ?thesis using assms(2) by (auto simp: store_payload_def json_sim_def)
next
  case False
  then obtain z where z: "jsonb_value v (Inline p) = Some z" "q = p\<lparr>Inline := z\<rparr>"
    using assms(2) by (auto simp: store_payload_def)
  have sim: "json_sim (Inline p) z" using jsonb_value_sim [OF assms(1) z(1)] .
  have "wf_json (Inline p)" using False by (auto simp: payload_json_def payload_fields_def)
  with sim False have "z \<noteq> JNull" using denote_null [of "Inline p"] by (auto simp: json_sim_def)
  then show ?thesis
    unfolding payload_json_def payload_fields_def z(2) using False
    by (intro json_sim_obj fields_sim_append) (simp_all add: fields_sim_one [OF sim])
qed

lemma store_opt_sim:
  assumes "jsonb_ok (jsonb v)" "store_opt v p = Some q"
  shows "fields_sim (opt_field k payload_json p) (opt_field k payload_json q)"
  using assms store_payload_sim by (cases p) (auto simp: opt_field_def intro!: fields_sim_one)

fun same_shape :: "detail \<Rightarrow> detail \<Rightarrow> bool" where
  "same_shape (DTool a) (DTool b) = True"
| "same_shape (DModel a) (DModel b) = True"
| "same_shape (DState a) (DState b) = True"
| "same_shape a b = (a = b)"

lemma store_two_Some:
  "store_two v p q f = Some d \<longleftrightarrow> (\<exists>p' q'. store_opt v p = Some p' \<and> store_opt v q = Some q' \<and> d = f p' q')"
  by (auto simp: store_two_def split: option.splits)

lemma store_detail_sim:
  assumes "jsonb_ok (jsonb v)" "store_detail v d = Some d'"
  shows "same_shape d d' \<and> json_sim (detail_json d) (detail_json d')"
proof (cases d)
  case (DTool t)
  with assms(2) obtain p q where "store_opt v (ToolInput t) = Some p" "store_opt v (ToolOutput t) = Some q"
      "d' = DTool (t\<lparr>ToolInput := p, ToolOutput := q\<rparr>)" by (auto simp: store_two_Some)
  with DTool show ?thesis
    by (auto simp: tool_call_json_def intro!: json_sim_obj fields_sim_append store_opt_sim [OF assms(1)])
next
  case (DModel t)
  with assms(2) obtain p q where "store_opt v (ModelPrompt t) = Some p" "store_opt v (ModelCompletion t) = Some q"
      "d' = DModel (t\<lparr>ModelPrompt := p, ModelCompletion := q\<rparr>)" by (auto simp: store_two_Some)
  with DModel show ?thesis
    by (auto simp: model_invocation_json_def intro!: json_sim_obj fields_sim_append store_opt_sim [OF assms(1)])
next
  case (DState t)
  with assms(2) obtain p q where "store_opt v (BeforeValue t) = Some p" "store_opt v (AfterValue t) = Some q"
      "d' = DState (t\<lparr>BeforeValue := p, AfterValue := q\<rparr>)" by (auto simp: store_two_Some)
  with DState show ?thesis
    by (auto simp: state_mutation_json_def intro!: json_sim_obj fields_sim_append store_opt_sim [OF assms(1)])
qed (use assms(2) in auto)

section \<open>Spans\<close>

lemma opt_field_sim: "json_sim (f a) (f b) \<Longrightarrow> fields_sim (opt_field k f (Some a)) (opt_field k f (Some b))"
  by (simp add: opt_field_def fields_sim_one)

lemma span_json_scan:
  assumes "same_shape d d'" "json_sim (detail_json d) (detail_json d')" "slice c = slice c'"
  shows "json_sim (span_json ((scanSpanRow (s, d))\<lparr>SpanCausedBy := c\<rparr>)) (span_json ((scanSpanRow (s, d'))\<lparr>SpanCausedBy := c'\<rparr>))"
proof -
  let ?a = "scanSpanRow (s, d)" and ?b = "scanSpanRow (s, d')"
  have scalar: "SpanEndedAt ?a = SpanEndedAt s" "SpanEndedAt ?b = SpanEndedAt s" "SpanMetadata ?a = SpanMetadata s"
      "SpanMetadata ?b = SpanMetadata s" "SpanErr ?a = SpanErr s" "SpanErr ?b = SpanErr s"
    by (simp_all add: scanSpanRow_def Let_def)
  have shape: "d = d' \<or> (\<exists>t u. d = DTool t \<and> d' = DTool u) \<or> (\<exists>t u. d = DModel t \<and> d' = DModel u) \<or>
      (\<exists>t u. d = DState t \<and> d' = DState u)"
    using assms(1) by (cases d; cases d') auto
  have tool: "fields_sim (opt_field ''tool_call'' tool_call_json (SpanToolCall ?a)) (opt_field ''tool_call'' tool_call_json (SpanToolCall ?b))"
    using shape assms(2) by (auto simp: scanSpanRow_def Let_def intro!: opt_field_sim)
  have model: "fields_sim (opt_field ''model_invocation'' model_invocation_json (SpanModel ?a))
      (opt_field ''model_invocation'' model_invocation_json (SpanModel ?b))"
    using shape assms(2) by (auto simp: scanSpanRow_def Let_def intro!: opt_field_sim)
  have state: "fields_sim (opt_field ''state_mutation'' state_mutation_json (SpanState ?a))
      (opt_field ''state_mutation'' state_mutation_json (SpanState ?b))"
    using shape assms(2) by (auto simp: scanSpanRow_def Let_def intro!: opt_field_sim)
  have rest: "SpanApproval ?a = SpanApproval ?b" "SpanPolicy ?a = SpanPolicy ?b"
    using shape by (auto simp: scanSpanRow_def Let_def)
  show ?thesis
    unfolding span_json_def using tool model state
    by (intro json_sim_obj fields_sim_append) (simp_all add: scalar rest assms(3))
qed

text \<open>The span carries no detail but the one of its type.\<close>

definition own_detail :: "span \<Rightarrow> bool" where
  "own_detail s = ((scanSpanRow (span_columns s, spanDetail s))\<lparr>SpanCausedBy := SpanCausedBy s\<rparr> = s)"

lemma stored_equal:
  assumes "jsonb_ok (jsonb v)" "store_detail v (spanDetail s) = Some d" "own_detail s" "slice c = slice (SpanCausedBy s)"
    and "wf_json (span_json s)" "JSON_canonical (span_json s) \<noteq> None"
  shows "equalJSON (span_json ((scanSpanRow (span_columns s, d))\<lparr>SpanCausedBy := c\<rparr>)) (span_json s)"
proof (rule equalJSON_sim [OF _ assms(5,6)])
  have "json_sim (span_json ((scanSpanRow (span_columns s, spanDetail s))\<lparr>SpanCausedBy := SpanCausedBy s\<rparr>))
      (span_json ((scanSpanRow (span_columns s, d))\<lparr>SpanCausedBy := c\<rparr>))"
    using store_detail_sim [OF assms(1,2)] assms(4) by (intro span_json_scan) auto
  then show "json_sim (span_json s) (span_json ((scanSpanRow (span_columns s, d))\<lparr>SpanCausedBy := c\<rparr>))"
    using assms(3) by (simp add: own_detail_def)
qed

lemma equalJSON_opt_refl: "equalJSON (opt_str p) (opt_str p)"
  by (cases p) (simp_all add: opt_str_def equalJSON_iff JSON_canonical_def)

lemma check_existing_stored:
  assumes "equalJSON (span_json ((scanSpanRow (span_columns s, d))\<lparr>SpanCausedBy := map_option sort (causes tel (SpanID s))\<rparr>)) (span_json s)"
    and "\<not> fault v ''reading causality'' 0"
  shows "check_existing v tel (span_columns s, d) s = Inl None"
proof -
  have "SpanExecutionID (span_columns s) = SpanExecutionID s" "SpanName (span_columns s) = SpanName s"
      "SpanType (span_columns s) = SpanType s" "SpanStartedAt (span_columns s) = SpanStartedAt s"
      "SpanParent (span_columns s) = SpanParent s"
    by (simp_all add: span_columns_def)
  with assms show ?thesis by (simp add: check_existing_def equalJSON_opt_refl Let_def)
qed

lemma check_existing_again:
  assumes "check_existing v tel r s = Inl None" "\<forall>site k. \<not> fault v' site k" "sha256 v' = sha256 v"
  shows "check_existing v' tel r s = Inl None"
proof -
  have "start_snapshot v tel s = Some snap \<Longrightarrow> start_snapshot v' tel s = Some snap" for snap
    using assms(2,3) by (simp add: start_snapshot_def split: if_splits)
  with assms(1,2) show ?thesis
    by (auto simp: check_existing_def Let_def split: if_splits option.splits)
qed

section \<open>What a successful write leaves\<close>

lemma andThen_None: "andThen r f = (None, t) \<longleftrightarrow> (\<exists>u. r = (None, u) \<and> f u = (None, t))"
  by (cases r) (auto simp: andThen_def split: option.splits)

lemma statement_None: "statement v site tel = (None, t) \<longleftrightarrow> \<not> fault v site 0 \<and> t = tel"
  by (auto simp: statement_def guardTx_def)

lemma insertLifecycle_tables:
  assumes "insertLifecycle v k s et ts tel = (r, t)"
  shows "span_rows t = span_rows tel \<and> cause_rows t = cause_rows tel"
  using insertEventTx_tables [of v k "lifecycle_event v s et ts" tel] assms by (simp add: insertLifecycle_def)

definition complete_row :: "span \<Rightarrow> detail \<Rightarrow> span \<times> detail \<Rightarrow> span \<times> detail" where
  "complete_row s d r =
     (if SpanID (fst r) = SpanID s then (end_span (SpanStatus s) (SpanEndedAt s) (SpanMetadata s) (SpanErr s) (fst r), d) else r)"

lemma write_span_None:
  assumes "write_span v exists s tel = (None, t)"
  shows "\<exists>d. store_detail v (spanDetail s) = Some d \<and> cause_rows t = cause_rows tel \<and>
    span_rows t = (if exists then map (complete_row s d) (span_rows tel) else span_rows tel @ [(span_columns s, d)])"
proof -
  have "(\<lambda>(r, e). if SpanID r = SpanID s
      then (r\<lparr>SpanStatus := SpanStatus s, SpanEndedAt := SpanEndedAt s, SpanMetadata := SpanMetadata s, SpanErr := SpanErr s\<rparr>, d)
      else (r, e)) = complete_row s d" for d
    by (rule ext) (simp add: complete_row_def end_span_def case_prod_beta)
  then show ?thesis using assms by (simp add: write_span_def split: if_splits option.splits) auto
qed

lemma write_causes_None:
  "write_causes v s tel = (None, t) \<Longrightarrow> span_rows t = span_rows tel \<and> cause_rows t = cause_rows tel @
     filter (\<lambda>r. r \<notin> set (cause_rows tel)) (map (\<lambda>i. (SpanID s, i)) (slice (SpanCausedBy s)))"
  by (auto simp: write_causes_def split: if_splits)

lemma persist_span_None:
  assumes "persist_span v exists s tel = (None, tel')"
  shows "\<exists>d. store_detail v (spanDetail s) = Some d \<and>
    (if exists then span_rows tel' = map (complete_row s d) (span_rows tel) \<and> cause_rows tel' = cause_rows tel
     else span_rows tel' = span_rows tel @ [(span_columns s, d)] \<and> cause_rows tel' = cause_rows tel @
       filter (\<lambda>r. r \<notin> set (cause_rows tel)) (map (\<lambda>i. (SpanID s, i)) (slice (SpanCausedBy s))))"
proof -
  from assms obtain t1 t2 where t1: "write_span v exists s tel = (None, t1)"
    and t2: "(if exists then (None, t1) else andThen (write_causes v s t1) (insertLifecycle v 0
        (s\<lparr>SpanStatus := StatusRunning, SpanEndedAt := None\<rparr>) ''SPAN_STARTED'' (SpanStartedAt s))) = (None, t2)"
    and t3: "(case SpanEndedAt s of None \<Rightarrow> (None, t2) | Some t \<Rightarrow> insertLifecycle v 1 s (end_kind (SpanStatus s)) t t2) = (None, tel')"
    unfolding persist_span_def andThen_None by (auto simp: statement_None split: option.splits)
  have "span_rows tel' = span_rows t2 \<and> cause_rows tel' = cause_rows t2"
    using t3 insertLifecycle_tables by (cases "SpanEndedAt s") auto
  moreover have "span_rows t2 = span_rows t1 \<and> cause_rows t2 = cause_rows t1 @ (if exists then []
      else filter (\<lambda>r. r \<notin> set (cause_rows t1)) (map (\<lambda>i. (SpanID s, i)) (slice (SpanCausedBy s))))"
    using t2 insertLifecycle_tables write_causes_None by (auto simp: andThen_None split: if_splits)
  ultimately show ?thesis using write_span_None [OF t1] by auto
qed

definition insert_body :: "env \<Rightarrow> span \<Rightarrow> telemetry \<Rightarrow> app_error option \<times> telemetry" where
  "insert_body v s tel =
     (case filter (\<lambda>(r, d). SpanID r = SpanID s) (span_rows tel) of
        [] \<Rightarrow> persist_span v False s tel
      | r # _ \<Rightarrow>
          (case check_existing v tel r s of
             Inl (Some err) \<Rightarrow> (Some err, tel)
           | Inl None \<Rightarrow> statement v ''commit'' tel
           | Inr _ \<Rightarrow> persist_span v True s tel))"

lemma InsertSpan_None:
  "InsertSpan v s tel = (None, tel') \<longleftrightarrow>
     \<not> fault v ''begin'' 0 \<and> \<not> fault v ''locking span'' 0 \<and> \<not> fault v ''reading span'' 0 \<and>
     insert_body v (normalise_span s) tel = (None, tel')"
proof -
  have "transact tel r = (None, tel') \<longleftrightarrow> r = (None, tel')" for r
    by (cases r) (auto simp: transact_def split: option.splits)
  then show ?thesis
    unfolding InsertSpan_def Let_def insert_body_def [symmetric] by (auto simp: andThen_None statement_None)
qed

section \<open>The retry\<close>

lemma insert_body_again:
  "filter (\<lambda>(r, d). SpanID r = SpanID s) (span_rows tel) = r # rs \<Longrightarrow> check_existing v tel r s = Inl None \<Longrightarrow> healthy v \<Longrightarrow>
     insert_body v s tel = (None, tel)"
  by (simp add: insert_body_def statement_def guardTx_def healthy_def)

lemma normalised_sorted: "sorted (slice (SpanCausedBy (normalise_span s)))"
  by (cases "SpanCausedBy s") (simp_all add: normalise_span_def slice_def sorted_remdups_adj)

lemma slice_causes: "slice (map_option sort (causes tel i)) = sort (map snd (filter (\<lambda>r. fst r = i) (cause_rows tel)))"
  by (simp add: causes_def slice_def split: list.split)

lemma no_causes:
  assumes "tel_inv tel" "filter (\<lambda>(r, d). SpanID r = i) (span_rows tel) = []"
  shows "filter (\<lambda>r. fst r = i) (cause_rows tel) = []"
proof -
  have "fst r \<noteq> i" if "r \<in> set (cause_rows tel)" for r
  proof -
    have "precedes (span_keys tel) (snd r) (fst r)" using tel_inv_cause [OF assms(1)] that by simp
    then have "fst r \<in> fst ` set (span_keys tel)" by (force simp: precedes_def)
    then show ?thesis using assms(2) by (auto simp: span_keys_def filter_empty_conv)
  qed
  then show ?thesis by (simp add: filter_empty_conv)
qed

lemma retry_new:
  assumes "tel_inv tel" "jsonb_ok (jsonb v)" "healthy v'" "sorted (slice (SpanCausedBy s))" "own_detail s"
    and "wf_json (span_json s)" "JSON_canonical (span_json s) \<noteq> None"
    and new: "filter (\<lambda>(r, d). SpanID r = SpanID s) (span_rows tel) = []" and ok: "persist_span v False s tel = (None, tel')"
  shows "insert_body v' s tel' = (None, tel')"
proof -
  from persist_span_None [OF ok] obtain d where d: "store_detail v (spanDetail s) = Some d"
      "span_rows tel' = span_rows tel @ [(span_columns s, d)]"
      "cause_rows tel' = cause_rows tel @ filter (\<lambda>r. r \<notin> set (cause_rows tel)) (map (\<lambda>i. (SpanID s, i)) (slice (SpanCausedBy s)))"
    by auto
  have row: "filter (\<lambda>(r, d). SpanID r = SpanID s) (span_rows tel') = [(span_columns s, d)]"
    using new by (simp add: d(2) span_columns_def)
  have none: "filter (\<lambda>r. fst r = SpanID s) (cause_rows tel) = []" using no_causes [OF assms(1) new] .
  then have "filter (\<lambda>r. r \<notin> set (cause_rows tel)) (map (\<lambda>i. (SpanID s, i)) xs) = map (\<lambda>i. (SpanID s, i)) xs" for xs
    by (intro filter_True) (auto simp: filter_empty_conv)
  then have "slice (map_option sort (causes tel' (SpanID s))) = sort (slice (SpanCausedBy s))"
    using none by (simp add: slice_causes d(3) comp_def)
  then have "slice (map_option sort (causes tel' (SpanID s))) = slice (SpanCausedBy s)"
    using assms(4) by (simp add: sorted_sort_id)
  from stored_equal [OF assms(2) d(1) assms(5) this assms(6,7)]
  have "check_existing v' tel' (span_columns s, d) s = Inl None"
    using assms(3) by (intro check_existing_stored) (simp_all add: healthy_def)
  with row assms(3) show ?thesis by (intro insert_body_again)
qed

text \<open>The references of a stored span and of a well-formed request are well-formed texts.\<close>

lemma precedes_valid: "tel_inv tel \<Longrightarrow> precedes (span_keys tel) b a \<Longrightarrow> valid_utf8 b"
  by (auto simp: tel_inv_def precedes_def)

lemma stored_parent_wf:
  assumes "tel_inv tel" "r \<in> set (span_rows tel)"
  shows "wf_json (opt_str (SpanParent (fst r)))"
  using tel_inv_span [OF assms(1), of "fst r" "snd r"] assms precedes_valid by (cases "SpanParent (fst r)") (auto simp: opt_str_def)

lemma stored_causes_wf:
  assumes "tel_inv tel"
  shows "wf_json (slice_json (map_option sort (causes tel i)))"
proof -
  have "valid_utf8 (snd r)" if "r \<in> set (cause_rows tel)" for r
    using tel_inv_cause [OF assms, of "fst r" "snd r"] precedes_valid [OF assms] that by auto
  then have "\<forall>x \<in> set (map snd (filter (\<lambda>r. fst r = i) (cause_rows tel))). valid_utf8 x" by auto
  moreover have "causes tel i = Some xs \<Longrightarrow> xs = map snd (filter (\<lambda>r. fst r = i) (cause_rows tel))" for xs
    by (auto simp: causes_def split: list.splits)
  ultimately show ?thesis
    by (cases "causes tel i") (simp_all add: slice_json_def list_all_iff)
qed

lemma request_refs_wf:
  assumes "wf_json (span_json s)"
  shows "wf_json (opt_str (SpanParent s))" "wf_json (slice_json (SpanCausedBy s))"
proof -
  have all: "wf_json (JObj fs) \<Longrightarrow> (k, x) \<in> set fs \<Longrightarrow> wf_json x" for fs k x
    by (auto simp: list_all_iff)
  have "wf_json (JStr p)" if "SpanParent s = Some p" for p
    using all [OF assms [unfolded span_json_def], of "''parent_span_id''" "JStr p"] that by (simp add: opt_field_def)
  then show "wf_json (opt_str (SpanParent s))" by (cases "SpanParent s") (simp_all add: opt_str_def)
  have "wf_json (JArr (map JStr xs))" if "SpanCausedBy s = Some xs" for xs
    using all [OF assms [unfolded span_json_def], of "''caused_by_span_ids''" "JArr (map JStr xs)"] that
    by (cases "xs = []") (simp_all add: omit_list_def slice_def)
  then show "wf_json (slice_json (SpanCausedBy s))" by (cases "SpanCausedBy s") (simp_all add: slice_json_def)
qed

lemma opt_str_inj: "denote (opt_str a) = denote (opt_str b) \<Longrightarrow> a = b"
  by (auto simp: opt_str_def split: option.splits)

lemma slice_json_inj: "denote (slice_json a) = denote (slice_json b) \<Longrightarrow> a = b"
  by (auto simp: slice_json_def comp_def inj_on_def dest!: map_injective split: option.splits)

lemma check_existing_Inr_same:
  assumes "check_existing v tel r s = Inr ()"
  shows "SpanExecutionID (fst r) = SpanExecutionID s" "SpanName (fst r) = SpanName s" "SpanType (fst r) = SpanType s"
    "SpanStartedAt (fst r) = SpanStartedAt s" "equalJSON (opt_str (SpanParent (fst r))) (opt_str (SpanParent s))"
    "equalJSON (slice_json (map_option sort (causes tel (SpanID s)))) (slice_json (SpanCausedBy s))"
  using assms by (simp_all add: check_existing_def Let_def split: if_splits option.splits)

lemma completed_columns:
  assumes "span_columns r = r" "SpanID r = SpanID s" "SpanExecutionID r = SpanExecutionID s" "SpanName r = SpanName s"
    "SpanType r = SpanType s" "SpanStartedAt r = SpanStartedAt s" "SpanParent r = SpanParent s"
  shows "end_span (SpanStatus s) (SpanEndedAt s) (SpanMetadata s) (SpanErr s) r = span_columns s"
  using assms by (cases r, cases s) (simp add: end_span_def span_columns_def)

lemma filter_complete:
  "filter (\<lambda>(r, d). SpanID r = SpanID s) (map (complete_row s e) rows) =
     map (complete_row s e) (filter (\<lambda>(r, d). SpanID r = SpanID s) rows)"
  by (induction rows) (auto simp: complete_row_def)

lemma retry_complete:
  assumes inv: "tel_inv tel" and "jsonb_ok (jsonb v)" "healthy v'" "own_detail s"
    and wf: "wf_json (span_json s)" and canon: "JSON_canonical (span_json s) \<noteq> None"
    and row: "filter (\<lambda>(r, d). SpanID r = SpanID s) (span_rows tel) = r # rs" and check: "check_existing v tel r s = Inr ()"
    and ok: "persist_span v True s tel = (None, tel')"
  shows "insert_body v' s tel' = (None, tel')"
proof -
  from persist_span_None [OF ok] obtain d where d: "store_detail v (spanDetail s) = Some d"
      "span_rows tel' = map (complete_row s d) (span_rows tel)" "cause_rows tel' = cause_rows tel"
    by auto
  have r: "r \<in> set (span_rows tel)" "SpanID (fst r) = SpanID s" using filter_Cons_mem [OF row] by auto
  note same = check_existing_Inr_same [OF check]
  have "SpanParent (fst r) = SpanParent s"
    using equalJSON_denote [OF stored_parent_wf [OF inv r(1)] request_refs_wf(1) [OF wf] same(5)] by (rule opt_str_inj)
  moreover have "span_columns (fst r) = fst r" using tel_inv_span [OF inv, of "fst r" "snd r"] r(1) by simp
  ultimately have cols: "complete_row s d r = (span_columns s, d)"
    using completed_columns [of "fst r" s] r(2) same(1-4) by (simp add: complete_row_def)
  have "map_option sort (causes tel (SpanID s)) = SpanCausedBy s"
    using equalJSON_denote [OF stored_causes_wf [OF inv] request_refs_wf(2) [OF wf] same(6)] by (rule slice_json_inj)
  then have "slice (map_option sort (causes tel' (SpanID s))) = slice (SpanCausedBy s)" by (simp add: causes_def d(3))
  from stored_equal [OF assms(2) d(1) assms(4) this wf canon]
  have "check_existing v' tel' (span_columns s, d) s = Inl None"
    using assms(3) by (intro check_existing_stored) (simp_all add: healthy_def)
  then show ?thesis
    using assms(3) by (intro insert_body_again [of _ _ _ "map (complete_row s d) rs"]) (simp_all add: d(2) filter_complete row cols)
qed


definition sample_tool_span :: span where
  "sample_tool_span = (sample_span ''s3'' (Some ''s1''))\<lparr>SpanCausedBy := Some [''s2''], SpanType := SpanKindToolCall,
     SpanToolCall := Some (zero_tool\<lparr>ToolInput := Some \<lparr>Inline = JNum ''1'', SizeBytes = 1, ContentType = ''c''\<rparr>\<rparr>)\<rparr>"


end
