(* ===== verification/Rate_Limit.thy ===== *)
theory Rate_Limit
  imports Auth Audit_Service Pricing
begin

text \<open>
  api/internal/transport/rest/ratelimit.go and ratelimit_redis.go: the ingest rate limiter.

  The token bucket of golang.org/x/time/rate is not part of the program: its operations are a record
  over a bucket state \<open>'l\<close>.  A distributed backend is an operation over a state of its own; the Redis
  backend of the program is one, over the counters Redis keeps (\<open>INCRBY\<close> on a missing or expired key
  starts at zero, \<open>EXPIRE\<close> sets the end of life of a key).  A \<open>rate.Limit\<close> is a rational; \<open>clock k\<close> is
  the \<open>k\<close>-th reading of the clock in a request.  The request body is its decoded JSON document.
\<close>

section \<open>Configuration and requests\<close>

record rate_limit_config =
  EventsPerSec :: int
  EventsBurst :: int
  ExecutionsPerMin :: int

definition DefaultRateLimitConfig :: rate_limit_config where
  "DefaultRateLimitConfig = \<lparr>EventsPerSec = 50, EventsBurst = 200, ExecutionsPerMin = 120\<rparr>"

record http_request =
  HttpMethod :: string
  UrlPath :: string
  RemoteAddr :: string
  XForwardedFor :: string
  BodyJSON :: "json option"

definition indexByte :: "string \<Rightarrow> char \<Rightarrow> int" where
  "indexByte s b = (case index_of (\<lambda>c. c = b) s of None \<Rightarrow> -1 | Some i \<Rightarrow> int i)"

definition identify :: "context_values \<Rightarrow> http_request \<Rightarrow> string \<times> string" where
  "identify c r =
     (if ctxKeyID c \<noteq> '''' then (''key:'' @ ctxKeyID c, ''api_key'')
      else let h = XForwardedFor r;
               ip = (if h = '''' then RemoteAddr r
                     else let comma = indexByte h (CHR '','') in if 0 < comma then take (nat comma) h else h)
           in (''ip:'' @ ip, ''ip''))"

text \<open>
  \<open>json.Unmarshal\<close> into a struct with the one field \<open>events\<close>: names match without regard to case (the
  long s folds to s), the last one counts, \<open>null\<close> is the empty slice, any other value is an error.
\<close>

definition peek_events :: "json \<Rightarrow> nat option" where
  "peek_events x =
     (case x of
        JObj fs \<Rightarrow>
          (let ms = map snd (filter (\<lambda>(k, y). fold_name k = ''events'') fs)
           in if list_all (\<lambda>y. case y of JArr _ \<Rightarrow> True | JNull \<Rightarrow> True | _ \<Rightarrow> False) ms
              then Some (if ms = [] then 0 else case last ms of JArr ys \<Rightarrow> length ys | _ \<Rightarrow> 0)
              else None)
      | JNull \<Rightarrow> Some 0
      | _ \<Rightarrow> None)"

definition eventCostForRequest :: "http_request \<Rightarrow> int" where
  "eventCostForRequest r =
     (if HttpMethod r = ''POST'' \<and> UrlPath r = ''/v1/events'' then 1
      else if HttpMethod r = ''POST'' \<and> UrlPath r = ''/v1/events/batch''
      then (case BodyJSON r of
              None \<Rightarrow> 1
            | Some x \<Rightarrow> (case peek_events x of None \<Rightarrow> 1 | Some n \<Rightarrow> if n = 0 then 1 else int n))
      else 1)"

definition retryAfterSeconds :: "float_ops \<Rightarrow> int \<Rightarrow> int" where
  "retryAfterSeconds F delay0 =
     (let delay = (if delay0 \<le> 0 then Second else delay0);
          secs = ceiling (fl F (of_int (delay div Second) + fl F (of_int (delay mod Second) / of_int Second)))
      in if secs < 1 then 1 else secs)"

section \<open>Buckets\<close>

record 'l bucket_ops =
  NewLimiter :: "rat \<Rightarrow> int \<Rightarrow> 'l"
  AllowN :: "'l \<Rightarrow> time \<Rightarrow> int \<Rightarrow> bool \<times> 'l"
  ReserveDelay :: "'l \<Rightarrow> time \<Rightarrow> int \<Rightarrow> int \<times> 'l"

record 'l rateLimitBucket =
  b_limiter :: 'l
  b_touched :: int

type_synonym 'l bucket_store = "(string \<times> 'l rateLimitBucket) list"

record 'l rate_limiter =
  rl_events :: "'l bucket_store"
  rl_execs :: "'l bucket_store"

text \<open>A distributed backend: identifier, kind, rate, burst and cost to a verdict and a delay.\<close>

type_synonym 'b rate_backend = "string \<Rightarrow> string \<Rightarrow> rat \<Rightarrow> int \<Rightarrow> int \<Rightarrow> 'b \<Rightarrow> (bool \<times> int) \<times> 'b"

datatype rate_verdict = Pass | Limited int

definition UnixNano :: "time \<Rightarrow> int" where
  "UnixNano t = t - unix_epoch"

definition idleBucketTTL :: int where
  "idleBucketTTL = 600 * Second"

definition evict :: "time \<Rightarrow> 'l bucket_store \<Rightarrow> 'l bucket_store" where
  "evict cur st = filter (\<lambda>(k, b). \<not> b_touched b < UnixNano (cur - idleBucketTTL)) st"

text \<open>One tick of the sweeper.\<close>

definition sweep :: "time \<Rightarrow> 'l rate_limiter \<Rightarrow> 'l rate_limiter" where
  "sweep cur rl = \<lparr>rl_events = evict cur (rl_events rl), rl_execs = evict cur (rl_execs rl)\<rparr>"

definition getOrCreateBucket :: "'l bucket_ops \<Rightarrow> 'l bucket_store \<Rightarrow> string \<Rightarrow> rat \<Rightarrow> int \<Rightarrow> 'l rateLimitBucket" where
  "getOrCreateBucket ops st i r burst =
     (case map_of st i of Some b \<Rightarrow> b | None \<Rightarrow> \<lparr>b_limiter = NewLimiter ops r burst, b_touched = 0\<rparr>)"

text \<open>The cost of a request is clamped to a batch the service would take.\<close>

definition request_cost :: "http_request \<Rightarrow> int" where
  "request_cost req =
     (let cost = eventCostForRequest req; cost1 = (if cost < 1 then 1 else cost)
      in if int MaxBatchSize < cost1 then int MaxBatchSize else cost1)"

definition middleware :: "float_ops \<Rightarrow> 'l bucket_ops \<Rightarrow> 'b rate_backend option \<Rightarrow> (nat \<Rightarrow> time) \<Rightarrow> rat \<Rightarrow> int \<Rightarrow> string \<Rightarrow>
    context_values \<Rightarrow> http_request \<Rightarrow> 'l bucket_store \<times> 'b \<Rightarrow> rate_verdict \<times> 'l bucket_store \<times> 'b" where
  "middleware F ops backend clock r burst kd c req state =
     (case state of (st, bs) \<Rightarrow>
        let i = fst (identify c req); cost = request_cost req
        in case backend of
             Some f \<Rightarrow>
               (case f i kd r burst cost bs of
                  ((allowed, retryAfter), bs') \<Rightarrow>
                    if \<not> allowed then (Limited (retryAfterSeconds F retryAfter), st, bs') else (Pass, st, bs'))
           | None \<Rightarrow>
               (let b = getOrCreateBucket ops st i r burst; t = UnixNano (clock 0)
                in case AllowN ops (b_limiter b) (clock 1) cost of
                     (True, l) \<Rightarrow> (Pass, AList.update i \<lparr>b_limiter = l, b_touched = t\<rparr> st, bs)
                   | (False, l) \<Rightarrow>
                       (case ReserveDelay ops l (clock 2) cost of
                          (delay, l') \<Rightarrow>
                            (Limited (retryAfterSeconds F delay), AList.update i \<lparr>b_limiter = l', b_touched = t\<rparr> st, bs))))"

definition Events_limit :: "float_ops \<Rightarrow> 'l bucket_ops \<Rightarrow> 'b rate_backend option \<Rightarrow> rate_limit_config \<Rightarrow> (nat \<Rightarrow> time) \<Rightarrow>
    context_values \<Rightarrow> http_request \<Rightarrow> 'l rate_limiter \<times> 'b \<Rightarrow> rate_verdict \<times> 'l rate_limiter \<times> 'b" where
  "Events_limit F ops backend cfg clock c req state =
     (case state of (rl, bs) \<Rightarrow>
        case middleware F ops backend clock (of_int (EventsPerSec cfg)) (EventsBurst cfg) ''events'' c req (rl_events rl, bs) of
          (x, st, bs') \<Rightarrow> (x, rl\<lparr>rl_events := st\<rparr>, bs'))"

definition Executions_limit :: "float_ops \<Rightarrow> 'l bucket_ops \<Rightarrow> 'b rate_backend option \<Rightarrow> rate_limit_config \<Rightarrow> (nat \<Rightarrow> time) \<Rightarrow>
    context_values \<Rightarrow> http_request \<Rightarrow> 'l rate_limiter \<times> 'b \<Rightarrow> rate_verdict \<times> 'l rate_limiter \<times> 'b" where
  "Executions_limit F ops backend cfg clock c req state =
     (case state of (rl, bs) \<Rightarrow>
        case middleware F ops backend clock (fl F (of_int (ExecutionsPerMin cfg) / 60)) (ExecutionsPerMin cfg) ''executions'' c req
               (rl_execs rl, bs) of
          (x, st, bs') \<Rightarrow> (x, rl\<lparr>rl_execs := st\<rparr>, bs'))"

section \<open>The Redis backend\<close>

text \<open>
  What one call meets: the clock of the API, its reading when the delay is computed, the clock of
  Redis, and whether the pipeline fails (then it may have been applied or not).
\<close>

record redis_call =
  cNow :: time
  cUntil :: time
  cServer :: time
  cFails :: bool
  cApplied :: bool

type_synonym redis = "(string \<times> (int \<times> time)) list"

definition Unix :: "time \<Rightarrow> int" where
  "Unix t = (t - unix_epoch) div Second"

definition redis_key :: "string \<Rightarrow> string \<Rightarrow> int \<Rightarrow> string" where
  "redis_key kd key w = ''rl:'' @ kd @ '':'' @ key @ '':'' @ FormatInt w"

definition redis_count :: "redis \<Rightarrow> string \<Rightarrow> time \<Rightarrow> int" where
  "redis_count rs k t = (case map_of rs k of Some (n, e) \<Rightarrow> if t < e then n else 0 | None \<Rightarrow> 0)"

text \<open>\<open>INCRBY\<close> and \<open>EXPIRE\<close> in one pipeline.\<close>

definition redis_incr :: "string \<Rightarrow> int \<Rightarrow> time \<Rightarrow> int \<Rightarrow> redis \<Rightarrow> int \<times> redis" where
  "redis_incr k n t ttl rs = (let m = redis_count rs k t + n in (m, AList.update k (m, t + ttl) rs))"

definition redis_limit :: "rat \<Rightarrow> int \<Rightarrow> int" where
  "redis_limit r burst =
     (let limit = (if r < 0 then ceiling r else floor r); limit1 = (if limit < 1 then 1 else limit)
      in if limit1 < burst then burst else limit1)"

definition Redis_AllowN :: "redis_call \<Rightarrow> string \<Rightarrow> string \<Rightarrow> rat \<Rightarrow> int \<Rightarrow> int \<Rightarrow> redis \<Rightarrow> (bool \<times> int) \<times> redis" where
  "Redis_AllowN c key kd r burst n0 rs =
     (let n = (if n0 \<le> 0 then 1 else n0);
          window = Second;
          limit = redis_limit r burst;
          p = redis_incr (redis_key kd key (Unix (cNow c))) n (cServer c) (window * 2) rs
      in if cFails c then ((True, 0), if cApplied c then snd p else rs)
         else if limit < fst p
         then (let retry = Sub_time (Truncate (cNow c) window + window) (cUntil c)
               in ((False, if retry < Second then Second else retry), snd p))
         else ((True, 0), snd p))"

section \<open>Counters\<close>

lemma FormatInt_no_colon: "CHR '':'' \<notin> set (FormatInt n)"
proof -
  have "\<forall>c \<in> set (FormatInt n). is_digit c \<or> c = CHR ''-''" 
    using dec_nat_digits [of "nat \<bar>n\<bar>"] by (auto simp: FormatInt_def list_all_iff)
  moreover have "\<not> is_digit (CHR '':'')" by (simp add: is_digit_def)
  ultimately show ?thesis by auto
qed

lemma split_first: "xs @ c # us = ys @ c # vs \<Longrightarrow> c \<notin> set xs \<Longrightarrow> c \<notin> set ys \<Longrightarrow> xs = ys \<and> us = vs"
  by (auto simp: append_eq_append_conv2 append_eq_Cons_conv Cons_eq_append_conv)

lemma split_last: "us @ c # xs = vs @ c # ys \<Longrightarrow> c \<notin> set xs \<Longrightarrow> c \<notin> set ys \<Longrightarrow> us = vs \<and> xs = ys"
  by (auto simp: append_eq_append_conv2 append_eq_Cons_conv Cons_eq_append_conv)

text \<open>Different identifiers, kinds or seconds never share a counter.\<close>

lemma redis_key_inj:
  assumes "redis_key kd key w = redis_key kd' key' w'" "CHR '':'' \<notin> set kd" "CHR '':'' \<notin> set kd'"
  shows "kd = kd' \<and> key = key' \<and> w = w'"
proof -
  from assms(1) have "kd @ CHR '':'' # (key @ CHR '':'' # FormatInt w) = kd' @ CHR '':'' # (key' @ CHR '':'' # FormatInt w')"
    by (simp add: redis_key_def)
  from split_first [OF this assms(2,3)]
  have "kd = kd'" "key @ CHR '':'' # FormatInt w = key' @ CHR '':'' # FormatInt w'" by auto
  with split_last [OF this(2) FormatInt_no_colon FormatInt_no_colon] show ?thesis by simp
qed

lemma same_second: "Unix s = Unix t \<Longrightarrow> t < s + Second * 2"
proof -
  have *: "\<bar>a - b\<bar> < Second" if "a div Second = b div Second" for a b :: int
    using that pos_mod_bound [of Second a] pos_mod_bound [of Second b] pos_mod_sign [of Second a] pos_mod_sign [of Second b]
      div_mult_mod_eq [of a Second] div_mult_mod_eq [of b Second]
    by (simp add: Second_def)
  assume "Unix s = Unix t"
  then have "\<bar>(s - unix_epoch) - (t - unix_epoch)\<bar> < Second" unfolding Unix_def by (rule *)
  then show ?thesis by (simp add: Second_def)
qed

lemma redis_count_other: "k \<noteq> k' \<Longrightarrow> redis_count (AList.update k' x rs) k t = redis_count rs k t"
  by (simp add: redis_count_def update_conv)

lemma redis_count_new: "redis_count (AList.update k (m, e) rs) k t = (if t < e then m else 0)"
  by (simp add: redis_count_def update_conv)

section \<open>Requests in a row\<close>

record redis_request =
  rCall :: redis_call
  rKey :: string
  rKind :: string
  rRate :: rat
  rBurst :: int
  rCost :: int

fun redis_run :: "redis_request list \<Rightarrow> redis \<Rightarrow> bool list" where
  "redis_run [] rs = []"
| "redis_run (q # qs) rs =
     (case Redis_AllowN (rCall q) (rKey q) (rKind q) (rRate q) (rBurst q) (rCost q) rs of
        ((ok, d), rs') \<Rightarrow> ok # redis_run qs rs')"

text \<open>The requests of one caller and kind in one second, and the cost that was let through.\<close>

definition in_window :: "string \<Rightarrow> string \<Rightarrow> int \<Rightarrow> redis_request \<Rightarrow> bool" where
  "in_window key kd w q = (rKey q = key \<and> rKind q = kd \<and> Unix (cNow (rCall q)) = w)"

definition admitted :: "string \<Rightarrow> string \<Rightarrow> int \<Rightarrow> redis_request list \<Rightarrow> bool list \<Rightarrow> int" where
  "admitted key kd w qs oks = (\<Sum>(q, ok) \<leftarrow> zip qs oks. if in_window key kd w q \<and> ok then max 1 (rCost q) else 0)"

text \<open>The pipeline succeeds and the two clocks agree; kinds are names without a colon.\<close>

definition redis_up :: "redis_request \<Rightarrow> bool" where
  "redis_up q = (\<not> cFails (rCall q) \<and> cServer (rCall q) = cNow (rCall q) \<and> CHR '':'' \<notin> set (rKind q))"

lemma redis_run_Cons:
  "redis_run (q # qs) rs = fst (fst (Redis_AllowN (rCall q) (rKey q) (rKind q) (rRate q) (rBurst q) (rCost q) rs)) #
     redis_run qs (snd (Redis_AllowN (rCall q) (rKey q) (rKind q) (rRate q) (rBurst q) (rCost q) rs))"
  by (simp add: case_prod_beta)

lemma Redis_AllowN_up:
  assumes "redis_up q"
  shows "Redis_AllowN (rCall q) (rKey q) (rKind q) (rRate q) (rBurst q) (rCost q) rs =
    (let k = redis_key (rKind q) (rKey q) (Unix (cNow (rCall q))); m = redis_count rs k (cNow (rCall q)) + max 1 (rCost q);
         x = Redis_AllowN (rCall q) (rKey q) (rKind q) (rRate q) (rBurst q) (rCost q) rs
     in ((m \<le> redis_limit (rRate q) (rBurst q), snd (fst x)), AList.update k (m, cNow (rCall q) + Second * 2) rs))"
  using assms by (auto simp: Redis_AllowN_def redis_up_def redis_incr_def Let_def max_def)

lemma window_run:
  assumes "\<forall>q \<in> set qs. redis_up q" "\<forall>q \<in> set qs. in_window key kd w q \<longrightarrow> redis_limit (rRate q) (rBurst q) = L"
    and "CHR '':'' \<notin> set kd" "\<forall>t. Unix t = w \<longrightarrow> S \<le> redis_count rs (redis_key kd key w) t" "S \<le> L"
  shows "S + admitted key kd w qs (redis_run qs rs) \<le> L"
  using assms(1,2,4,5)
proof (induction qs arbitrary: rs S)
  case Nil
  then show ?case by (simp add: admitted_def)
next
  case (Cons q qs)
  let ?c = "rCall q" and ?k = "redis_key kd key w"
  let ?kq = "redis_key (rKind q) (rKey q) (Unix (cNow ?c))"
  let ?m = "redis_count rs ?kq (cNow ?c) + max 1 (rCost q)"
  let ?rs = "AList.update ?kq (?m, cNow ?c + Second * 2) rs"
  have up: "redis_up q" using Cons.prems(1) by simp
  have run: "redis_run (q # qs) rs = (?m \<le> redis_limit (rRate q) (rBurst q)) # redis_run qs ?rs"
    unfolding redis_run_Cons by (subst (1 2) Redis_AllowN_up [OF up]) (simp add: Let_def)
  define x where "x = (if in_window key kd w q \<and> ?m \<le> redis_limit (rRate q) (rBurst q) then max 1 (rCost q) else 0)"
  have sum: "admitted key kd w (q # qs) (redis_run (q # qs) rs) = x + admitted key kd w qs (redis_run qs ?rs)"
    unfolding run admitted_def x_def by simp
  have "\<forall>t. Unix t = w \<longrightarrow> S + x \<le> redis_count ?rs ?k t" "S + x \<le> L"
  proof -
    have inw: "S \<le> redis_count rs ?k (cNow ?c)" "redis_limit (rRate q) (rBurst q) = L" "?kq = ?k" if "in_window key kd w q"
      using that Cons.prems(2,3) by (auto simp: in_window_def)
    have new: "\<forall>t. Unix t = w \<longrightarrow> redis_count ?rs ?kq t = ?m" if "in_window key kd w q"
      using that same_second by (auto simp: redis_count_new in_window_def)
    show "S + x \<le> L" using inw Cons.prems(4) by (auto simp: x_def)
    show "\<forall>t. Unix t = w \<longrightarrow> S + x \<le> redis_count ?rs ?k t"
    proof (cases "in_window key kd w q")
      case True
      with new inw show ?thesis by (auto simp: x_def)
    next
      case False
      then have "?k \<noteq> ?kq" using redis_key_inj [of kd key w] assms(3) up by (auto simp: in_window_def redis_up_def)
      with False Cons.prems(3) show ?thesis by (simp add: x_def redis_count_other)
    qed
  qed
  with Cons.IH [of "S + x" ?rs] Cons.prems(1,2) sum show ?case by simp
qed


definition sample_redis :: "int \<Rightarrow> redis_request" where
  "sample_redis n = \<lparr>rCall = \<lparr>cNow = unix_epoch, cUntil = unix_epoch, cServer = unix_epoch, cFails = False, cApplied = False\<rparr>,
     rKey = ''key:a'', rKind = ''events'', rRate = 50, rBurst = 200, rCost = n\<rparr>"


section \<open>Batches larger than the burst\<close>

lemma redis_limit_burst: "r \<le> of_int b \<Longrightarrow> 1 \<le> b \<Longrightarrow> redis_limit r b = b"
  by (auto simp: redis_limit_def Let_def floor_le_iff ceiling_le_iff not_less) linarith+

lemma oversize_cost:
  assumes "HttpMethod req = ''POST''" "UrlPath req = ''/v1/events/batch''" "BodyJSON req = Some x" "peek_events x = Some n"
    and "b < int n" "b < int MaxBatchSize"
  shows "b < request_cost req"
  using assms by (auto simp: request_cost_def eventCostForRequest_def Let_def)

text \<open>
  A batch with more events than the burst of the bucket is refused whenever it is sent, though the
  service takes batches of up to a thousand: by the in-memory limiter, whose bucket never lets more
  than its burst through at once, and by the Redis backend.
\<close>

theorem oversize_batch_refused:
  assumes "HttpMethod req = ''POST''" "UrlPath req = ''/v1/events/batch''" "BodyJSON req = Some x" "peek_events x = Some n"
    and "EventsBurst cfg < int n" "EventsBurst cfg < int MaxBatchSize" "1 \<le> EventsBurst cfg" "EventsPerSec cfg \<le> EventsBurst cfg"
    and bucket: "\<forall>l t m. EventsBurst cfg < m \<longrightarrow> \<not> fst (AllowN ops l t m)"
    and redis: "\<not> cFails call" "\<forall>r \<in> set rs. 0 \<le> fst (snd r)"
  shows "\<exists>s s'. fst (Events_limit F ops None cfg clock c req (rl, bs)) = Limited s \<and>
    fst (Events_limit F ops (Some (Redis_AllowN call)) cfg clock c req (rl, rs)) = Limited s'"
proof -
  have cost: "EventsBurst cfg < request_cost req" by (rule oversize_cost) (use assms in auto)
  define b where "b = getOrCreateBucket ops (rl_events rl) (fst (identify c req)) (of_int (EventsPerSec cfg)) (EventsBurst cfg)"
  obtain l where "AllowN ops (b_limiter b) (clock 1) (request_cost req) = (False, l)"
    using bucket cost by (cases "AllowN ops (b_limiter b) (clock 1) (request_cost req)") (metis fst_conv)
  then have "\<exists>s. fst (Events_limit F ops None cfg clock c req (rl, bs)) = Limited s"
    by (simp add: Events_limit_def middleware_def Let_def b_def split: prod.split)
  moreover have "EventsBurst cfg < redis_count rs k t + request_cost req" for k t
  proof -
    have "0 \<le> redis_count rs k t"
      using redis(2) by (auto simp: redis_count_def split: option.split dest!: map_of_SomeD)
    with cost show ?thesis by linarith
  qed
  then have refused: "\<not> fst (fst (Redis_AllowN call i kd (of_int (EventsPerSec cfg)) (EventsBurst cfg) (request_cost req) rs))" for i kd
    using cost assms(7,8) redis(1) by (auto simp: Redis_AllowN_def redis_limit_burst redis_incr_def Let_def)
  have "\<exists>s. fst (Events_limit F ops (Some (Redis_AllowN call)) cfg clock c req (rl, rs)) = Limited s"
    using refused [of "fst (identify c req)" "''events''"]
    by (simp add: Events_limit_def middleware_def Let_def case_prod_beta)
  ultimately show ?thesis by blast
qed

definition sample_bucket :: "int bucket_ops" where
  "sample_bucket = \<lparr>NewLimiter = (\<lambda>r b. b), AllowN = (\<lambda>l t n. if n \<le> min l 200 then (True, l - n) else (False, l)),
     ReserveDelay = (\<lambda>l t n. (Second, l))\<rparr>"

definition sample_batch :: "nat \<Rightarrow> http_request" where
  "sample_batch n = \<lparr>HttpMethod = ''POST'', UrlPath = ''/v1/events/batch'', RemoteAddr = ''a'', XForwardedFor = '''',
     BodyJSON = Some (JObj [(''events'', JArr (replicate n JNull))])\<rparr>"

theorem oversize_batch_refused_witness:
  "\<exists>s. fst (Events_limit sample_floats sample_bucket None DefaultRateLimitConfig (\<lambda>k. unix_epoch) background (sample_batch 201)
     (\<lparr>rl_events = [], rl_execs = []\<rparr>, ())) = Limited s"
proof -
  have peek: "peek_events (JObj [(''events'', JArr (replicate 201 JNull))]) = Some 201"
    by (simp add: peek_events_def lower_char_def)
  have "\<exists>s s'. fst (Events_limit sample_floats sample_bucket None DefaultRateLimitConfig (\<lambda>k. unix_epoch) background (sample_batch 201)
      (\<lparr>rl_events = [], rl_execs = []\<rparr>, ())) = Limited s \<and>
    fst (Events_limit sample_floats sample_bucket (Some (Redis_AllowN (rCall (sample_redis 1)))) DefaultRateLimitConfig (\<lambda>k. unix_epoch)
      background (sample_batch 201) (\<lparr>rl_events = [], rl_execs = []\<rparr>, [])) = Limited s'"
    by (rule oversize_batch_refused [OF _ _ _ peek])
      (simp_all add: sample_batch_def DefaultRateLimitConfig_def MaxBatchSize_def sample_bucket_def sample_redis_def)
  then show ?thesis by blast
qed

end
