(* ===== verification/Copilot.thy ===== *)
theory Copilot
  imports Telemetry_Store "HOL-Library.AList"
begin

text \<open>
  api/internal/copilot (model.go, service.go) and its store (storage/postgres/copilot_store.go): the
  sessions of the dashboard assistant, their transcripts, the activity log and the monthly usage.

  The tables are lists in insertion order.  A title that is \<open>NULL\<close> is the empty text, which the code
  treats alike.  The \<open>k\<close>-th ULID of a call is \<open>fresh k\<close>.  Rows with one creation time come back in the
  order of insertion; the database leaves that order open.
\<close>

section \<open>Model\<close>

definition ActionSessionStarted :: string where "ActionSessionStarted = ''copilot.session.started''"
definition ActionQuerySubmitted :: string where "ActionQuerySubmitted = ''copilot.query.submitted''"

record copilot_session =
  CsID :: string
  CsTenantID :: string
  CsUserID :: string
  CsOrgID :: string
  CsTitle :: string
  CsCreatedAt :: time
  CsUpdatedAt :: time

record copilot_message =
  CmID :: string
  CmSessionID :: string
  CmTenantID :: string
  CmRole :: string
  CmContent :: string
  CmParts :: "json option"
  CmRedacted :: bool
  CmCreatedAt :: time

record message_input =
  InID :: string
  InRole :: string
  InContent :: string
  InParts :: "json option"

record activity_input =
  AiAction :: string
  AiSessionID :: string
  AiOutcome :: string
  AiActorType :: string
  AiMetadata :: "metadata option"

record copilot_activity =
  AcID :: string
  AcTenantID :: string
  AcSessionID :: string
  AcUserID :: string
  AcAction :: string
  AcActorType :: string
  AcOutcome :: string
  AcMetadata :: metadata
  AcCreatedAt :: time

record copilot_quota =
  QUsed :: int
  QLimit :: "int option"
  QResetsAt :: string
  QPlan :: string

record copilot_db =
  session_rows :: "copilot_session list"
  message_rows :: "copilot_message list"
  activity_rows :: "copilot_activity list"
  usage_rows :: "((string \<times> string \<times> string) \<times> int) list"

section \<open>The store\<close>

definition tenant_exists :: "pgdb \<Rightarrow> string \<Rightarrow> bool" where
  "tenant_exists db tid = list_ex (\<lambda>t. TID t = tid) (tenant_rows db)"

definition session_exists :: "copilot_db \<Rightarrow> string \<Rightarrow> bool" where
  "session_exists cdb i = list_ex (\<lambda>s. CsID s = i) (session_rows cdb)"

definition store_CreateSession :: "env \<Rightarrow> pgdb \<Rightarrow> copilot_session \<Rightarrow> copilot_db \<Rightarrow> app_error option \<times> copilot_db" where
  "store_CreateSession v db s cdb =
     (if fault v ''inserting copilot session'' 0 \<or>
         \<not> list_all storable [CsID s, CsTenantID s, CsUserID s, CsOrgID s, CsTitle s] \<or>
         \<not> tenant_exists db (CsTenantID s) \<or> session_exists cdb (CsID s)
      then (Some (Internal ''inserting copilot session''), cdb)
      else (None, cdb\<lparr>session_rows := session_rows cdb @
             [s\<lparr>CsCreatedAt := Truncate (CsCreatedAt s) Microsecond, CsUpdatedAt := Truncate (CsUpdatedAt s) Microsecond\<rparr>]\<rparr>))"

text \<open>The condition \<open>id = $1 AND tenant_id = $2 AND user_id = $3\<close>.\<close>

definition owns :: "string \<Rightarrow> string \<Rightarrow> string \<Rightarrow> copilot_session \<Rightarrow> bool" where
  "owns tid uid i s = (CsID s = i \<and> CsTenantID s = tid \<and> CsUserID s = uid)"

definition store_GetSession :: "env \<Rightarrow> copilot_db \<Rightarrow> string \<Rightarrow> string \<Rightarrow> string \<Rightarrow> copilot_session result" where
  "store_GetSession v cdb tid uid i =
     (if fault v ''getting copilot session'' 0 then Inl (Internal ''getting copilot session'')
      else case filter (owns tid uid i) (session_rows cdb) of
             [] \<Rightarrow> Inl (NotFound ''copilot_session'' i)
           | s # _ \<Rightarrow> Inr s)"

definition store_ListSessions :: "env \<Rightarrow> copilot_db \<Rightarrow> string \<Rightarrow> string \<Rightarrow> time \<Rightarrow> copilot_session list result" where
  "store_ListSessions v cdb tid uid since =
     (if fault v ''listing copilot sessions'' 0 then Inl (Internal ''listing copilot sessions'')
      else Inr (take 20 (sort_key (\<lambda>s. - CsUpdatedAt s)
             (filter (\<lambda>s. CsTenantID s = tid \<and> CsUserID s = uid \<and> Truncate since Microsecond \<le> CsUpdatedAt s) (session_rows cdb)))))"

definition touch :: "env \<Rightarrow> string \<Rightarrow> copilot_session \<Rightarrow> copilot_session" where
  "touch v title s = s\<lparr>CsUpdatedAt := pg_now v, CsTitle := (if CsTitle s = '''' then title else CsTitle s)\<rparr>"

definition store_TouchSession :: "env \<Rightarrow> string \<Rightarrow> string \<Rightarrow> string \<Rightarrow> string \<Rightarrow> copilot_db \<Rightarrow> app_error option \<times> copilot_db" where
  "store_TouchSession v tid uid i title cdb =
     (if fault v ''touching copilot session'' 0 \<or> \<not> storable title then (Some (Internal ''touching copilot session''), cdb)
      else if \<not> list_ex (owns tid uid i) (session_rows cdb) then (Some (NotFound ''copilot_session'' i), cdb)
      else (None, cdb\<lparr>session_rows := map (\<lambda>s. if owns tid uid i s then touch v title s else s) (session_rows cdb)\<rparr>))"

definition roles :: "string list" where
  "roles = [''user'', ''assistant'', ''tool'']"

text \<open>One \<open>INSERT\<close>; an absent or empty raw message is \<open>NULL\<close>.\<close>

definition message_row :: "env \<Rightarrow> string \<Rightarrow> string \<Rightarrow> message_input \<Rightarrow> copilot_message option" where
  "message_row v tid i m =
     map_option (\<lambda>parts. \<lparr>CmID = InID m, CmSessionID = i, CmTenantID = tid, CmRole = InRole m, CmContent = InContent m,
         CmParts = parts, CmRedacted = False, CmCreatedAt = pg_now v\<rparr>)
       (case InParts m of None \<Rightarrow> Some None | Some x \<Rightarrow> map_option Some (jsonb_value v x))"

definition insert_message :: "env \<Rightarrow> nat \<Rightarrow> string \<Rightarrow> string \<Rightarrow> message_input \<Rightarrow> copilot_db \<Rightarrow> copilot_db option" where
  "insert_message v k tid i m cdb =
     (if fault v ''inserting copilot message'' k \<or> \<not> list_all storable [InID m, i, tid, InRole m, InContent m] \<or>
         InRole m \<notin> set roles \<or> \<not> session_exists cdb i \<or> list_ex (\<lambda>r. CmID r = InID m) (message_rows cdb)
      then None
      else map_option (\<lambda>r. cdb\<lparr>message_rows := message_rows cdb @ [r]\<rparr>) (message_row v tid i m))"

fun insert_messages :: "env \<Rightarrow> nat \<Rightarrow> string \<Rightarrow> string \<Rightarrow> message_input list \<Rightarrow> copilot_db \<Rightarrow> copilot_db option" where
  "insert_messages v k tid i [] cdb = Some cdb"
| "insert_messages v k tid i (m # ms) cdb =
     (case insert_message v k tid i m cdb of None \<Rightarrow> None | Some cdb' \<Rightarrow> insert_messages v (Suc k) tid i ms cdb')"

definition store_AppendMessages :: "env \<Rightarrow> string \<Rightarrow> string \<Rightarrow> message_input list \<Rightarrow> copilot_db \<Rightarrow> app_error option \<times> copilot_db" where
  "store_AppendMessages v tid i msgs cdb =
     (if fault v ''begin tx'' 0 then (Some (Internal ''begin tx''), cdb)
      else case insert_messages v 0 tid i msgs cdb of
             None \<Rightarrow> (Some (Internal ''inserting copilot message''), cdb)
           | Some cdb' \<Rightarrow> if fault v ''commit tx'' 0 then (Some (Internal ''commit tx''), cdb) else (None, cdb'))"

definition store_ListMessages :: "env \<Rightarrow> copilot_db \<Rightarrow> string \<Rightarrow> string \<Rightarrow> string \<Rightarrow> copilot_message list result" where
  "store_ListMessages v cdb tid uid i =
     (if fault v ''listing copilot messages'' 0 then Inl (Internal ''listing copilot messages'')
      else Inr (sort_key CmCreatedAt (filter (\<lambda>m. CmSessionID m = i \<and> CmTenantID m = tid \<and>
             list_ex (\<lambda>s. CsID s = CmSessionID m \<and> CsUserID s = uid) (session_rows cdb)) (message_rows cdb))))"

definition store_InsertActivity :: "env \<Rightarrow> pgdb \<Rightarrow> copilot_activity \<Rightarrow> copilot_db \<Rightarrow> app_error option \<times> copilot_db" where
  "store_InsertActivity v db a cdb =
     (if AcMetadata a \<noteq> [] \<and> \<not> marshals (JObj (AcMetadata a))
      then (Some (Internal ''marshaling copilot activity metadata''), cdb)
      else if fault v ''inserting copilot activity'' 0 \<or>
         \<not> list_all storable [AcID a, AcTenantID a, AcSessionID a, AcUserID a, AcAction a, AcActorType a, AcOutcome a] \<or>
         \<not> tenant_exists db (AcTenantID a) \<or> \<not> session_exists cdb (AcSessionID a) \<or>
         AcActorType a \<notin> {''human'', ''agent'', ''system''} \<or> AcOutcome a \<notin> {''success'', ''failure'', ''error''} \<or>
         list_ex (\<lambda>r. AcID r = AcID a) (activity_rows cdb)
      then (Some (Internal ''inserting copilot activity''), cdb)
      else case (if AcMetadata a = [] then Some None else store_metadata v (Some (AcMetadata a))) of
             None \<Rightarrow> (Some (Internal ''inserting copilot activity''), cdb)
           | Some md \<Rightarrow> (None, cdb\<lparr>activity_rows := activity_rows cdb @
               [a\<lparr>AcMetadata := slice md, AcCreatedAt := Truncate (AcCreatedAt a) Microsecond\<rparr>]\<rparr>))"

definition GetUsage :: "env \<Rightarrow> copilot_db \<Rightarrow> string \<Rightarrow> string \<Rightarrow> string \<Rightarrow> int result" where
  "GetUsage v cdb tid uid period =
     (if fault v ''getting copilot usage'' 0 then Inl (Internal ''getting copilot usage'')
      else Inr (case map_of (usage_rows cdb) (tid, uid, period) of None \<Rightarrow> 0 | Some n \<Rightarrow> n))"

text \<open>The column is a 32-bit integer.\<close>

definition store_IncrementUsage :: "env \<Rightarrow> pgdb \<Rightarrow> string \<Rightarrow> string \<Rightarrow> string \<Rightarrow> copilot_db \<Rightarrow> int result \<times> copilot_db" where
  "store_IncrementUsage v db tid uid period cdb =
     (let n = (case map_of (usage_rows cdb) (tid, uid, period) of None \<Rightarrow> 0 | Some n \<Rightarrow> n) + 1
      in if fault v ''incrementing copilot usage'' 0 \<or> \<not> list_all storable [tid, uid, period] \<or> \<not> tenant_exists db tid \<or> 2 ^ 31 \<le> n
         then (Inl (Internal ''incrementing copilot usage''), cdb)
         else (Inr n, cdb\<lparr>usage_rows := AList.update (tid, uid, period) n (usage_rows cdb)\<rparr>))"

section \<open>The service\<close>

record copilot_principal =
  PUserID :: string
  POrgID :: string

text \<open>\<open>NewService\<close>: the resume window.\<close>

definition session_ttl :: "int \<Rightarrow> int" where
  "session_ttl days = (if days \<le> 0 then 7 else days) * Day"

definition maxTitleLen :: nat where "maxTitleLen = 120"
definition maxMetadataField :: nat where "maxMetadataField = 512"

definition ellipsis :: string where
  "ellipsis = [CHR 0xE2, CHR 0x80, CHR 0xA6]"

definition truncate_text :: "string \<Rightarrow> nat \<Rightarrow> string" where
  "truncate_text s0 n =
     (let s = TrimSpace s0; rs = runes s
      in if length rs \<le> n then s else concat (take (n - 1) rs) @ ellipsis)"

definition sanitizeMetadata :: "metadata option \<Rightarrow> metadata" where
  "sanitizeMetadata md =
     map (\<lambda>(k, x). (k, case x of JStr s \<Rightarrow> JStr (truncate_text s maxMetadataField) | y \<Rightarrow> y)) (slice md)"

definition hashContent :: "env \<Rightarrow> string \<Rightarrow> string" where
  "hashContent v s = hex_encode (sha256 v s)"

text \<open>The text of a submitted query is replaced by its hash.\<close>

definition hide_content :: "env \<Rightarrow> metadata \<Rightarrow> metadata" where
  "hide_content v meta =
     (case map_of meta ''content_hash'' of
        Some _ \<Rightarrow> meta
      | None \<Rightarrow>
          (case map_of meta ''content'' of
             Some (JStr s) \<Rightarrow> filter (\<lambda>(k, x). k \<noteq> ''content'') (AList.update ''content_hash'' (JStr (hashContent v s)) meta)
           | _ \<Rightarrow> meta))"

definition activity_row :: "env \<Rightarrow> string \<Rightarrow> string \<Rightarrow> copilot_principal \<Rightarrow> activity_input \<Rightarrow> string \<Rightarrow> string \<Rightarrow> copilot_activity" where
  "activity_row v i tid p inp actorType outc =
     (let meta = sanitizeMetadata (AiMetadata inp);
          meta1 = (if AiAction inp = ActionQuerySubmitted then hide_content v meta else meta)
      in \<lparr>AcID = ''cpa_'' @ i, AcTenantID = tid, AcSessionID = AiSessionID inp, AcUserID = PUserID p, AcAction = AiAction inp,
          AcActorType = actorType, AcOutcome = outc,
          AcMetadata = AList.update ''session_id'' (JStr (AiSessionID inp)) meta1, AcCreatedAt = now v\<rparr>)"

definition logActivity :: "env \<Rightarrow> (nat \<Rightarrow> string) \<Rightarrow> nat \<Rightarrow> pgdb \<Rightarrow> string \<Rightarrow> copilot_principal \<Rightarrow> activity_input \<Rightarrow> copilot_db \<Rightarrow>
    app_error option \<times> copilot_db" where
  "logActivity v fresh k db tid p inp cdb =
     (if AiAction inp = '''' then (Some (Validation ''action'' ''must not be empty''), cdb)
      else if AiSessionID inp = '''' then (Some (Validation ''session_id'' ''must not be empty''), cdb)
      else let actorType = (if AiActorType inp = '''' then ''human'' else AiActorType inp);
               outc = (if AiOutcome inp = '''' then ''success'' else AiOutcome inp)
           in if actorType \<notin> {''human'', ''agent'', ''system''} then (Some (Validation ''actor_type'' ''must be human|agent|system''), cdb)
              else if outc \<notin> {''success'', ''failure'', ''error''} then (Some (Validation ''outcome'' ''must be success|failure|error''), cdb)
              else store_InsertActivity v db (activity_row v (fresh k) tid p inp actorType outc) cdb)"

text \<open>A failure to log the start of a session is dropped.\<close>

definition CreateSession :: "env \<Rightarrow> (nat \<Rightarrow> string) \<Rightarrow> pgdb \<Rightarrow> copilot_principal \<Rightarrow> string \<Rightarrow> copilot_db \<Rightarrow>
    copilot_session result \<times> copilot_db" where
  "CreateSession v fresh db p tid cdb =
     (if PUserID p = '''' \<or> POrgID p = '''' then (Inl (InvalidInput ''user and org required''), cdb)
      else if tid = '''' then (Inl (InvalidInput ''tenant_id required''), cdb)
      else let s = \<lparr>CsID = ''cps_'' @ fresh 0, CsTenantID = tid, CsUserID = PUserID p, CsOrgID = POrgID p, CsTitle = '''',
                    CsCreatedAt = now v, CsUpdatedAt = now v\<rparr>
           in case store_CreateSession v db s cdb of
                (Some err, cdb1) \<Rightarrow> (Inl err, cdb1)
              | (None, cdb1) \<Rightarrow>
                  (Inr s, snd (logActivity v fresh 1 db tid p \<lparr>AiAction = ActionSessionStarted, AiSessionID = CsID s,
                     AiOutcome = ''success'', AiActorType = ''human'', AiMetadata = None\<rparr> cdb1)))"

definition assertResumeWindow :: "env \<Rightarrow> int \<Rightarrow> copilot_session \<Rightarrow> app_error option" where
  "assertResumeWindow v ttl s =
     (if CsUpdatedAt s < now v - ttl then Some (NotFound ''copilot_session'' (CsID s)) else None)"

definition GetSession :: "env \<Rightarrow> int \<Rightarrow> copilot_db \<Rightarrow> copilot_principal \<Rightarrow> string \<Rightarrow> string \<Rightarrow> copilot_session result" where
  "GetSession v ttl cdb p tid i =
     (case store_GetSession v cdb tid (PUserID p) i of
        Inl err \<Rightarrow> Inl err
      | Inr s \<Rightarrow> (case assertResumeWindow v ttl s of Some err \<Rightarrow> Inl err | None \<Rightarrow> Inr s))"

definition ListSessions :: "env \<Rightarrow> int \<Rightarrow> copilot_db \<Rightarrow> copilot_principal \<Rightarrow> string \<Rightarrow> copilot_session list result" where
  "ListSessions v ttl cdb p tid = store_ListSessions v cdb tid (PUserID p) (now v - ttl)"

text \<open>The loop that names the messages and checks their roles, from position \<open>k\<close>.\<close>

fun prepare_messages :: "(nat \<Rightarrow> string) \<Rightarrow> nat \<Rightarrow> message_input list \<Rightarrow> message_input list option" where
  "prepare_messages fresh k [] = Some []"
| "prepare_messages fresh k (m # ms) =
     (let m' = m\<lparr>InID := (if InID m = '''' then ''cpm_'' @ fresh k else InID m), InRole := TrimSpace (InRole m)\<rparr>
      in if InRole m' \<notin> set roles then None
         else map_option ((#) m') (prepare_messages fresh (Suc k) ms))"

definition session_title :: "copilot_session \<Rightarrow> message_input list \<Rightarrow> string" where
  "session_title s msgs =
     (if CsTitle s \<noteq> '''' then CsTitle s
      else case filter (\<lambda>m. InRole m = ''user'' \<and> TrimSpace (InContent m) \<noteq> '''') msgs of
             [] \<Rightarrow> ''''
           | m # _ \<Rightarrow> truncate_text (InContent m) maxTitleLen)"

definition AppendMessages :: "env \<Rightarrow> int \<Rightarrow> (nat \<Rightarrow> string) \<Rightarrow> copilot_principal \<Rightarrow> string \<Rightarrow> string \<Rightarrow> message_input list \<Rightarrow> copilot_db \<Rightarrow>
    app_error option \<times> copilot_db" where
  "AppendMessages v ttl fresh p tid i msgs cdb =
     (if msgs = [] then (Some (InvalidInput ''messages required''), cdb)
      else case GetSession v ttl cdb p tid i of
             Inl err \<Rightarrow> (Some err, cdb)
           | Inr s \<Rightarrow>
               (case prepare_messages fresh 0 msgs of
                  None \<Rightarrow> (Some (Validation ''role'' ''must be user|assistant|tool''), cdb)
                | Some ms \<Rightarrow>
                    (case store_AppendMessages v tid i ms cdb of
                       (Some err, cdb1) \<Rightarrow> (Some err, cdb1)
                     | (None, cdb1) \<Rightarrow> store_TouchSession v tid (PUserID p) i (session_title s ms) cdb1)))"

definition ListMessages :: "env \<Rightarrow> int \<Rightarrow> copilot_db \<Rightarrow> copilot_principal \<Rightarrow> string \<Rightarrow> string \<Rightarrow> copilot_message list result" where
  "ListMessages v ttl cdb p tid i =
     (case GetSession v ttl cdb p tid i of
        Inl err \<Rightarrow> Inl err
      | Inr s \<Rightarrow> store_ListMessages v cdb tid (PUserID p) i)"

definition LogActivity :: "env \<Rightarrow> (nat \<Rightarrow> string) \<Rightarrow> pgdb \<Rightarrow> copilot_principal \<Rightarrow> string \<Rightarrow> activity_input \<Rightarrow> copilot_db \<Rightarrow>
    app_error option \<times> copilot_db" where
  "LogActivity v fresh db p tid inp cdb =
     (if AiSessionID inp \<noteq> '''' then
        (case store_GetSession v cdb tid (PUserID p) (AiSessionID inp) of
           Inl err \<Rightarrow> (Some err, cdb)
         | Inr _ \<Rightarrow> logActivity v fresh 0 db tid p inp cdb)
      else logActivity v fresh 0 db tid p inp cdb)"

text \<open>
  \<open>CheckQuota\<close>; \<open>plans\<close> is \<open>None\<close> without a plan store, otherwise whether the installation is self-hosted.
  The next period starts in the month that holds the day 31 days after the start of this one; a time on
  a whole second prints alike with and without fractions.
\<close>

definition nextPeriodStart :: "time \<Rightarrow> time" where
  "nextPeriodStart t = month_start (month_start t + 31 * Day)"

definition CheckQuota :: "env \<Rightarrow> bool option \<Rightarrow> copilot_db \<Rightarrow> copilot_principal \<Rightarrow> string \<Rightarrow> pgdb \<Rightarrow> copilot_quota result \<times> pgdb" where
  "CheckQuota v plans cdb p tid db =
     (case GetUsage v cdb tid (PUserID p) (Format_month (now v)) of
        Inl err \<Rightarrow> (Inl err, db)
      | Inr used \<Rightarrow>
          (let quota = \<lparr>QUsed = used, QLimit = None, QResetsAt = Format_nano (nextPeriodStart (now v)), QPlan = ''free''\<rparr>;
               cap = (\<lambda>q :: copilot_quota. if QPlan q = ''free'' then q\<lparr>QLimit := Some 6\<rparr> else q)
           in case plans of
                None \<Rightarrow> (Inr (cap quota), db)
              | Some ossMode \<Rightarrow>
                  (case GetTenantPlan v ossMode tid db of
                     (Inl err, db') \<Rightarrow> (Inr quota, db')
                   | (Inr pl, db') \<Rightarrow> (Inr (cap (quota\<lparr>QPlan := PlanID pl, QLimit := MonthlyCopilotLimit pl\<rparr>)), db'))))"

definition IncrementUsage :: "env \<Rightarrow> pgdb \<Rightarrow> copilot_principal \<Rightarrow> string \<Rightarrow> copilot_db \<Rightarrow> int result \<times> copilot_db" where
  "IncrementUsage v db p tid cdb = store_IncrementUsage v db tid (PUserID p) (Format_month (now v)) cdb"

end
