(* ===== verification/Retention.thy ===== *)
theory Retention
  imports Copilot Telemetry_Safety
begin

text \<open>
  api/internal/retention/sweeper.go: one pass of the retention sweeper over the telemetry, the audit
  log, the assistant's transcripts and the trial periods.

  Every statement is one transaction under the constraints of baseline/001_core.sql: a \<open>DELETE\<close> fails
  where a remaining row still refers to a deleted one, and where a trigger forbids it.  The two triggers
  that make history append-only are the flag \<open>append_only\<close> of the audit log and the argument \<open>frozen\<close>
  of the telemetry.  Which rows a \<open>LIMIT\<close> without \<open>ORDER BY\<close> selects is open: \<open>pick n ids\<close> chooses
  them.  \<open>fault site k\<close> is the \<open>k\<close>-th execution of a statement, \<open>cancelled k\<close> the \<open>k\<close>-th check of the
  context in a loop.  A loop that may not end is a partial function with the value \<open>None\<close> then.
\<close>

section \<open>Configuration\<close>

record retention_config =
  Interval :: int
  BatchSize :: int
  DefaultRetentionDays :: int
  CopilotSessionTTLDays :: int

definition withDefaults :: "retention_config \<Rightarrow> retention_config" where
  "withDefaults c =
     \<lparr>Interval = (if Interval c \<le> 0 then 3600 * Second else Interval c),
      BatchSize = (if BatchSize c \<le> 0 then 5000 else BatchSize c),
      DefaultRetentionDays = (if DefaultRetentionDays c \<le> 0 then 30 else DefaultRetentionDays c),
      CopilotSessionTTLDays = (if CopilotSessionTTLDays c \<le> 0 then 7 else CopilotSessionTTLDays c)\<rparr>"

record sweep_env =
  call :: env
  pick :: "nat \<Rightarrow> string list \<Rightarrow> string list"
  cancelled :: "string \<Rightarrow> nat \<Rightarrow> bool"

text \<open>What \<open>LIMIT\<close> guarantees.\<close>

definition pick_ok :: "(nat \<Rightarrow> string list \<Rightarrow> string list) \<Rightarrow> bool" where
  "pick_ok f = (\<forall>n ids. distinct ids \<longrightarrow> distinct (f n ids) \<and> set (f n ids) \<subseteq> set ids \<and> length (f n ids) = min n (length ids))"

text \<open>The error of a sweep: cancelled, or a statement that failed.\<close>

datatype sweep_error = Canceled | Failed string

text \<open>A batched statement until a batch is not full.\<close>

partial_function (option) drain :: "(nat \<Rightarrow> 'a \<Rightarrow> sweep_error + (nat \<times> 'a)) \<Rightarrow> int \<Rightarrow> nat \<Rightarrow> 'a \<Rightarrow> (sweep_error option \<times> 'a) option" where
  "drain f batch k st =
     (case f k st of
        Inl err \<Rightarrow> Some (Some err, st)
      | Inr (ct, st') \<Rightarrow> if int ct < batch then Some (None, st') else drain f batch (Suc k) st')"

definition sw_andThen :: "(sweep_error option \<times> 'a) option \<Rightarrow> ('a \<Rightarrow> (sweep_error option \<times> 'a) option) \<Rightarrow> (sweep_error option \<times> 'a) option" where
  "sw_andThen r f = (case r of None \<Rightarrow> None | Some (Some err, st) \<Rightarrow> Some (Some err, st) | Some (None, st) \<Rightarrow> f st)"

definition days_before :: "time \<Rightarrow> int \<Rightarrow> time" where
  "days_before t d = Truncate (t - d * Day) Microsecond"

section \<open>Telemetry\<close>

definition defaultRetentionDays :: "env \<Rightarrow> retention_config \<Rightarrow> pgdb \<Rightarrow> int" where
  "defaultRetentionDays v cfg db =
     (if fault v ''default retention'' 0 then DefaultRetentionDays cfg
      else case filter (\<lambda>p. PlanID p = ''free'') (plan_rows db) of
             [] \<Rightarrow> DefaultRetentionDays cfg
           | p # _ \<Rightarrow> (case RetentionDays p of None \<Rightarrow> 0 | Some d \<Rightarrow> d))"

definition delete_events :: "sweep_env \<Rightarrow> bool \<Rightarrow> time \<Rightarrow> int \<Rightarrow> nat \<Rightarrow> telemetry \<Rightarrow> sweep_error + (nat \<times> telemetry)" where
  "delete_events sv frozen cutoff batch k tel =
     (let ids = pick sv (nat batch) (map EvID (filter (\<lambda>e. EvTimestamp e < cutoff) (event_rows tel)))
      in if cancelled sv ''execution_events'' k then Inl Canceled
         else if fault (call sv) ''execution_events'' k \<or> frozen \<and> ids \<noteq> [] then Inl (Failed ''execution_events'')
         else Inr (length ids, tel\<lparr>event_rows := filter (\<lambda>e. EvID e \<notin> set ids) (event_rows tel)\<rparr>))"

text \<open>Spans that started before the cutoff and are nobody's parent; rows that still name one fail the statement.\<close>

definition stale_spans :: "time \<Rightarrow> telemetry \<Rightarrow> string list" where
  "stale_spans cutoff tel =
     map (\<lambda>(s, d). SpanID s) (filter (\<lambda>(s, d). SpanStartedAt s < cutoff \<and>
       \<not> list_ex (\<lambda>(c, d). SpanParent c = Some (SpanID s)) (span_rows tel)) (span_rows tel))"

definition span_referenced :: "telemetry \<Rightarrow> string list \<Rightarrow> bool" where
  "span_referenced tel ids =
     (list_ex (\<lambda>e. EvSpanID e \<in> set ids) (event_rows tel) \<or>
      list_ex (\<lambda>(a, b). a \<in> set ids \<or> b \<in> set ids) (cause_rows tel) \<or>
      list_ex (\<lambda>(s, d). SpanID s \<notin> set ids \<and> (case SpanParent s of None \<Rightarrow> False | Some p \<Rightarrow> p \<in> set ids)) (span_rows tel))"

definition delete_spans :: "sweep_env \<Rightarrow> time \<Rightarrow> int \<Rightarrow> nat \<Rightarrow> telemetry \<Rightarrow> sweep_error + (nat \<times> telemetry)" where
  "delete_spans sv cutoff batch k tel =
     (let ids = pick sv (nat batch) (stale_spans cutoff tel)
      in if cancelled sv ''spans'' k then Inl Canceled
         else if fault (call sv) ''spans'' k \<or> span_referenced tel ids then Inl (Failed ''spans'')
         else Inr (length ids, tel\<lparr>span_rows := filter (\<lambda>(s, d). SpanID s \<notin> set ids) (span_rows tel)\<rparr>))"

definition orphan :: "telemetry \<Rightarrow> string \<times> string \<Rightarrow> bool" where
  "orphan tel r = (\<not> list_ex (\<lambda>(s, d). SpanID s = fst r) (span_rows tel) \<or> \<not> list_ex (\<lambda>(s, d). SpanID s = snd r) (span_rows tel))"

definition delete_causality :: "sweep_env \<Rightarrow> nat \<Rightarrow> telemetry \<Rightarrow> sweep_error + (nat \<times> telemetry)" where
  "delete_causality sv k tel =
     (if cancelled sv ''span_causality'' k then Inl Canceled
      else if fault (call sv) ''span_causality'' k then Inl (Failed ''span_causality'')
      else Inr (length (filter (orphan tel) (cause_rows tel)), tel\<lparr>cause_rows := filter (\<lambda>r. \<not> orphan tel r) (cause_rows tel)\<rparr>))"

definition stale_executions :: "time \<Rightarrow> telemetry \<Rightarrow> string list" where
  "stale_executions cutoff tel =
     map (\<lambda>(t, e). ExecID e) (filter (\<lambda>(t, e). ExecStartedAt e < cutoff \<and>
       \<not> list_ex (\<lambda>(s, d). SpanExecutionID s = ExecID e) (span_rows tel)) (exec_rows tel))"

definition delete_executions :: "sweep_env \<Rightarrow> time \<Rightarrow> int \<Rightarrow> nat \<Rightarrow> telemetry \<Rightarrow> sweep_error + (nat \<times> telemetry)" where
  "delete_executions sv cutoff batch k tel =
     (let ids = pick sv (nat batch) (stale_executions cutoff tel)
      in if cancelled sv ''executions'' k then Inl Canceled
         else if fault (call sv) ''executions'' k \<or> list_ex (\<lambda>(s, d). SpanExecutionID s \<in> set ids) (span_rows tel) \<or>
                 list_ex (\<lambda>e. EvExecutionID e \<in> set ids) (event_rows tel)
         then Inl (Failed ''executions'')
         else Inr (length ids, tel\<lparr>exec_rows := filter (\<lambda>(t, e). ExecID e \<notin> set ids) (exec_rows tel)\<rparr>))"

definition sweepTelemetry :: "sweep_env \<Rightarrow> retention_config \<Rightarrow> bool \<Rightarrow> pgdb \<Rightarrow> telemetry \<Rightarrow> (sweep_error option \<times> telemetry) option" where
  "sweepTelemetry sv cfg frozen db tel =
     (let days = defaultRetentionDays (call sv) cfg db; cutoff = days_before (now (call sv)) days; batch = BatchSize cfg
      in if days \<le> 0 then Some (None, tel)
         else sw_andThen (drain (delete_events sv frozen cutoff batch) batch 0 tel) (\<lambda>tel.
              sw_andThen (drain (delete_spans sv cutoff batch) batch 0 tel) (\<lambda>tel.
              sw_andThen (drain (delete_causality sv) batch 0 tel) (\<lambda>tel.
              drain (delete_executions sv cutoff batch) batch 0 tel))))"

section \<open>The audit log\<close>

text \<open>\<open>metadata->>'redacted'\<close> is the text \<open>true\<close>.\<close>

definition is_redacted :: "metadata option \<Rightarrow> bool" where
  "is_redacted md =
     (case md of
        None \<Rightarrow> False
      | Some m \<Rightarrow> (case map_of m ''redacted'' of Some (JBool b) \<Rightarrow> b | Some (JStr s) \<Rightarrow> s = ''true'' | _ \<Rightarrow> False))"

text \<open>\<open>jsonb_set\<close> rejects a document that is not an object or an array; the metadata of an event without any is \<open>null\<close>.\<close>

definition tombstone :: "audit_event \<Rightarrow> audit_event option" where
  "tombstone e =
     map_option (\<lambda>m. e\<lparr>Actor := (Actor e)\<lparr>ActorEmail := ''''\<rparr>, Resource := (Resource e)\<lparr>ResourceName := ''''\<rparr>,
         Metadata := Some (AList.update ''redacted'' (JBool True) m)\<rparr>) (Metadata e)"

definition expired_event :: "string \<Rightarrow> time \<Rightarrow> audit_event \<Rightarrow> bool" where
  "expired_event tid cutoff e = (TenantID e = tid \<and> Timestamp e < cutoff \<and> \<not> is_redacted (Metadata e))"

definition tombstone_step :: "sweep_env \<Rightarrow> nat \<Rightarrow> string \<Rightarrow> time \<Rightarrow> int \<Rightarrow> nat \<Rightarrow> pgdb \<Rightarrow> sweep_error + (nat \<times> pgdb)" where
  "tombstone_step sv j tid cutoff batch k db =
     (let ids = pick sv (nat batch) (map ID (filter (expired_event tid cutoff) (audit_rows db)));
          f = (\<lambda>e. if ID e \<in> set ids then tombstone e else Some e)
      in if fault (call sv) (''audit_events '' @ FormatInt (int j)) k \<or> append_only db \<and> ids \<noteq> [] \<or>
            list_ex (\<lambda>e. f e = None) (audit_rows db)
         then Inl (Failed ''audit_events'')
         else Inr (length ids, db\<lparr>audit_rows := map (\<lambda>e. the (f e)) (audit_rows db)\<rparr>))"

definition audit_windows :: "pgdb \<Rightarrow> (string \<times> int) list" where
  "audit_windows db =
     [(TID t, d). t \<leftarrow> filter active_tenant (tenant_rows db), p \<leftarrow> filter (\<lambda>p. PlanID p = TPlanID t) (plan_rows db),
        d \<leftarrow> (case RetentionDays p of None \<Rightarrow> [] | Some d \<Rightarrow> [d])]"

fun sweep_tenants :: "sweep_env \<Rightarrow> int \<Rightarrow> nat \<Rightarrow> (string \<times> int) list \<Rightarrow> pgdb \<Rightarrow> (sweep_error option \<times> pgdb) option" where
  "sweep_tenants sv batch j [] db = Some (None, db)"
| "sweep_tenants sv batch j ((tid, d) # ws) db =
     (if cancelled sv ''audit'' j then Some (Some Canceled, db)
      else sw_andThen (drain (tombstone_step sv j tid (days_before (now (call sv)) d) batch) batch 0 db) (sweep_tenants sv batch (Suc j) ws))"

definition sweepAudit :: "sweep_env \<Rightarrow> retention_config \<Rightarrow> pgdb \<Rightarrow> (sweep_error option \<times> pgdb) option" where
  "sweepAudit sv cfg db =
     (if fault (call sv) ''tenant plans'' 0 then Some (Some (Failed ''tenant plans''), db)
      else sweep_tenants sv (BatchSize cfg) 0 (audit_windows db) db)"

section \<open>The assistant\<close>

definition redact_step :: "sweep_env \<Rightarrow> nat \<Rightarrow> string \<Rightarrow> time \<Rightarrow> int \<Rightarrow> nat \<Rightarrow> copilot_db \<Rightarrow> sweep_error + (nat \<times> copilot_db)" where
  "redact_step sv j tid cutoff batch k cdb =
     (let ids = pick sv (nat batch) (map CmID (filter (\<lambda>m. CmTenantID m = tid \<and> CmCreatedAt m < cutoff \<and> \<not> CmRedacted m) (message_rows cdb)))
      in if fault (call sv) (''copilot_messages '' @ FormatInt (int j)) k then Inl (Failed ''copilot_messages'')
         else Inr (length ids, cdb\<lparr>message_rows := map (\<lambda>m. if CmID m \<in> set ids
                then m\<lparr>CmContent := '''', CmParts := None, CmRedacted := True\<rparr> else m) (message_rows cdb)\<rparr>))"

definition activity_step :: "sweep_env \<Rightarrow> nat \<Rightarrow> string \<Rightarrow> time \<Rightarrow> int \<Rightarrow> nat \<Rightarrow> copilot_db \<Rightarrow> sweep_error + (nat \<times> copilot_db)" where
  "activity_step sv j tid cutoff batch k cdb =
     (let ids = pick sv (nat batch) (map AcID (filter (\<lambda>a. AcTenantID a = tid \<and> AcCreatedAt a < cutoff) (activity_rows cdb)))
      in if fault (call sv) (''copilot_activity '' @ FormatInt (int j)) k then Inl (Failed ''copilot_activity'')
         else Inr (length ids, cdb\<lparr>activity_rows := filter (\<lambda>a. AcID a \<notin> set ids) (activity_rows cdb)\<rparr>))"

text \<open>Deleting a session deletes its messages and activity.\<close>

definition stale_sessions :: "time \<Rightarrow> copilot_db \<Rightarrow> string list" where
  "stale_sessions cutoff cdb =
     map CsID (filter (\<lambda>s. CsUpdatedAt s < cutoff \<and> \<not> list_ex (\<lambda>m. CmSessionID m = CsID s \<and> \<not> CmRedacted m) (message_rows cdb))
       (session_rows cdb))"

definition session_step :: "sweep_env \<Rightarrow> time \<Rightarrow> int \<Rightarrow> nat \<Rightarrow> copilot_db \<Rightarrow> sweep_error + (nat \<times> copilot_db)" where
  "session_step sv cutoff batch k cdb =
     (let ids = pick sv (nat batch) (stale_sessions cutoff cdb)
      in if fault (call sv) ''copilot_sessions'' k then Inl (Failed ''copilot_sessions'')
         else Inr (length ids, cdb\<lparr>session_rows := filter (\<lambda>s. CsID s \<notin> set ids) (session_rows cdb),
                message_rows := filter (\<lambda>m. CmSessionID m \<notin> set ids) (message_rows cdb),
                activity_rows := filter (\<lambda>a. AcSessionID a \<notin> set ids) (activity_rows cdb)\<rparr>))"

definition transcript_windows :: "pgdb \<Rightarrow> (string \<times> int option) list" where
  "transcript_windows db =
     [(TID t, case CopilotTranscriptRetentionDays p of None \<Rightarrow> RetentionDays p | Some d \<Rightarrow> Some d).
        t \<leftarrow> filter active_tenant (tenant_rows db), p \<leftarrow> filter (\<lambda>p. PlanID p = TPlanID t) (plan_rows db)]"

fun sweep_transcripts :: "sweep_env \<Rightarrow> int \<Rightarrow> nat \<Rightarrow> (string \<times> int option) list \<Rightarrow> copilot_db \<Rightarrow> (sweep_error option \<times> copilot_db) option" where
  "sweep_transcripts sv batch j [] cdb = Some (None, cdb)"
| "sweep_transcripts sv batch j ((tid, w) # ws) cdb =
     (if cancelled sv ''copilot'' j then Some (Some Canceled, cdb)
      else case w of
             None \<Rightarrow> sweep_transcripts sv batch (Suc j) ws cdb
           | Some d \<Rightarrow>
               (let cutoff = days_before (now (call sv)) d
                in sw_andThen (drain (redact_step sv j tid cutoff batch) batch 0 cdb) (\<lambda>cdb.
                   sw_andThen (drain (activity_step sv j tid cutoff batch) batch 0 cdb)
                     (sweep_transcripts sv batch (Suc j) ws))))"

definition sweepCopilot :: "sweep_env \<Rightarrow> retention_config \<Rightarrow> pgdb \<Rightarrow> copilot_db \<Rightarrow> (sweep_error option \<times> copilot_db) option" where
  "sweepCopilot sv cfg db cdb =
     (if fault (call sv) ''copilot plans'' 0 then Some (Some (Failed ''copilot plans''), cdb)
      else sw_andThen (sweep_transcripts sv (BatchSize cfg) 0 (transcript_windows db) cdb)
             (drain (session_step sv (days_before (now (call sv)) (CopilotSessionTTLDays cfg)) (BatchSize cfg)) (BatchSize cfg) 0))"

section \<open>Trial periods\<close>

text \<open>
  The columns \<open>trial_reminder_sent\<close> and \<open>trial_expired_email_sent\<close> are the sets of tenants that have
  them; \<open>members\<close> gives the owners of an organisation, which the identity provider keeps, as mail
  address and name.  The mails are those handed to the bridge.
\<close>

record trial_flags =
  reminder_sent :: "string list"
  expired_sent :: "string list"

record mail =
  MailTemplate :: string
  MailTo :: string
  MailProps :: "(string \<times> string) list"

record sweeper_state =
  sw_db :: pgdb
  sw_tel :: telemetry
  sw_cop :: copilot_db
  sw_trials :: trial_flags
  sw_mails :: "mail list"

definition month_names :: "string list" where
  "month_names = [''January'', ''February'', ''March'', ''April'', ''May'', ''June'', ''July'', ''August'', ''September'',
     ''October'', ''November'', ''December'']"

definition Format_date :: "time \<Rightarrow> string" where
  "Format_date t = (let (y, m, d) = civil (t div Day) in month_names ! nat (m - 1) @ '' '' @ append_int 0 d @ '', '' @ append_int 4 y)"

definition tenant_owners :: "(string \<Rightarrow> (string \<times> string) list) \<Rightarrow> pgdb \<Rightarrow> string \<Rightarrow> (string \<times> string) list" where
  "tenant_owners members db tid =
     (let orgs = map (\<lambda>((p, x), t). x) (filter (\<lambda>((p, x), t). p = ''better_auth_org'' \<and> t = tid) (identity_rows db));
          rows = concat (map (\<lambda>x. if members x = [] then [('''', '''')] else members x) orgs)
      in if orgs = [] then [('''', '''')] else rows)"

definition founder :: string where "founder = ''yash@fact0.io''"

definition trial_mails :: "string \<Rightarrow> string \<Rightarrow> (string \<times> string) list \<Rightarrow> mail list" where
  "trial_mails template email props =
     (if email \<noteq> '''' then [\<lparr>MailTemplate = template, MailTo = email, MailProps = props\<rparr>] else []) @
     [\<lparr>MailTemplate = template, MailTo = founder, MailProps = props\<rparr>]"

definition due_reminders :: "env \<Rightarrow> (string \<Rightarrow> (string \<times> string) list) \<Rightarrow> sweeper_state \<Rightarrow> (tenant_row \<times> string \<times> string) list" where
  "due_reminders v members st =
     [(t, w). t \<leftarrow> filter (\<lambda>t. TPlanID t = ''pro'' \<and> active_tenant t \<and> TID t \<notin> set (reminder_sent (sw_trials st)) \<and>
          (case TPeriodEnd t of None \<Rightarrow> False | Some e \<Rightarrow> e \<le> pg_now v + 3 * Day \<and> pg_now v < e)) (tenant_rows (sw_db st)),
        w \<leftarrow> tenant_owners members (sw_db st) (TID t)]"

definition send_reminder :: "env \<Rightarrow> nat \<Rightarrow> tenant_row \<times> string \<times> string \<Rightarrow> sweeper_state \<Rightarrow> sweeper_state" where
  "send_reminder v k r st =
     (case r of (t, email, name) \<Rightarrow>
        let props = [(''userName'', name), (''workspaceName'', TName t),
              (''expiresAt'', Format_date (case TPeriodEnd t of None \<Rightarrow> 0 | Some e \<Rightarrow> e))];
            st1 = st\<lparr>sw_mails := sw_mails st @ trial_mails ''promo-reminder'' email props\<rparr>
        in if fault v ''trial_reminder_sent'' k then st1
           else st1\<lparr>sw_trials := (sw_trials st1)\<lparr>reminder_sent := TID t # reminder_sent (sw_trials st1)\<rparr>\<rparr>)"

definition expired_trials :: "env \<Rightarrow> (string \<Rightarrow> (string \<times> string) list) \<Rightarrow> sweeper_state \<Rightarrow> (tenant_row \<times> string \<times> string) list" where
  "expired_trials v members st =
     [(t, w). t \<leftarrow> filter (\<lambda>t. active_tenant t \<and> TID t \<notin> set (expired_sent (sw_trials st)) \<and>
          (case TPeriodEnd t of None \<Rightarrow> False | Some e \<Rightarrow> e \<le> pg_now v)) (tenant_rows (sw_db st)),
        w \<leftarrow> tenant_owners members (sw_db st) (TID t)]"

text \<open>A tenant that cannot be downgraded is left for the next pass, mails included.\<close>

definition expire_trial :: "env \<Rightarrow> nat \<Rightarrow> tenant_row \<times> string \<times> string \<Rightarrow> sweeper_state \<Rightarrow> sweeper_state" where
  "expire_trial v k r st =
     (case r of (t, email, name) \<Rightarrow>
        let db = sw_db st;
            blocked = (TPlanID t = ''pro'' \<and> (fault v ''downgrading'' k \<or> \<not> list_ex (\<lambda>p. PlanID p = ''free'') (plan_rows db)));
            db1 = (if TPlanID t = ''pro'' then db\<lparr>tenant_rows := map (\<lambda>x. if TID x = TID t
                     then x\<lparr>TPlanID := ''free'', TSubStatus := Some ''expired''\<rparr> else x) (tenant_rows db)\<rparr> else db);
            st1 = st\<lparr>sw_db := db1, sw_mails := sw_mails st @ trial_mails ''promo-expired'' email [(''userName'', name), (''workspaceName'', TName t)]\<rparr>
        in if blocked then st
           else if fault v ''trial_expired_email_sent'' k then st1
           else st1\<lparr>sw_trials := (sw_trials st1)\<lparr>expired_sent := TID t # expired_sent (sw_trials st1)\<rparr>\<rparr>)"

fun each_row :: "(nat \<Rightarrow> 'r \<Rightarrow> 's \<Rightarrow> 's) \<Rightarrow> nat \<Rightarrow> 'r list \<Rightarrow> 's \<Rightarrow> 's" where
  "each_row f k [] st = st"
| "each_row f k (r # rs) st = each_row f (Suc k) rs (f k r st)"

definition sendTrialRemindersAndExpirationEmails :: "env \<Rightarrow> bool \<Rightarrow> (string \<Rightarrow> (string \<times> string) list) \<Rightarrow> sweeper_state \<Rightarrow>
    sweep_error option \<times> sweeper_state" where
  "sendTrialRemindersAndExpirationEmails v bridge members st =
     (if \<not> bridge then (None, st)
      else if fault v ''trial reminders'' 0 then (Some (Failed ''trial reminders''), st)
      else let st1 = each_row (send_reminder v) 0 (due_reminders v members st) st
           in if fault v ''expired trials'' 0 then (Some (Failed ''expired trials''), st1)
              else (None, each_row (expire_trial v) 0 (expired_trials v members st1) st1))"

section \<open>One pass\<close>

text \<open>
  \<open>runOnce\<close>: a failed part is logged and the pass goes on, a cancelled one ends it.  The outcome is the
  label of the last failure.
\<close>

definition part :: "string \<Rightarrow> (sweep_error option \<times> sweeper_state) option \<Rightarrow> string \<Rightarrow>
    (string \<Rightarrow> sweeper_state \<Rightarrow> (string \<times> sweeper_state) option) \<Rightarrow> (string \<times> sweeper_state) option" where
  "part label r outc go =
     (case r of
        None \<Rightarrow> None
      | Some (Some Canceled, st) \<Rightarrow> Some (''cancelled'', st)
      | Some (Some (Failed msg), st) \<Rightarrow> go label st
      | Some (None, st) \<Rightarrow> go outc st)"

definition runOnce :: "sweep_env \<Rightarrow> retention_config \<Rightarrow> bool \<Rightarrow> bool \<Rightarrow> (string \<Rightarrow> (string \<times> string) list) \<Rightarrow> sweeper_state \<Rightarrow>
    (string \<times> sweeper_state) option" where
  "runOnce sv cfg frozen bridge members st =
     part ''telemetry_error'' (map_option (\<lambda>(e, t). (e, st\<lparr>sw_tel := t\<rparr>)) (sweepTelemetry sv cfg frozen (sw_db st) (sw_tel st))) ''ok'' (\<lambda>outc st.
     part ''audit_error'' (map_option (\<lambda>(e, d). (e, st\<lparr>sw_db := d\<rparr>)) (sweepAudit sv cfg (sw_db st))) outc (\<lambda>outc st.
     part ''copilot_error'' (map_option (\<lambda>(e, c). (e, st\<lparr>sw_cop := c\<rparr>)) (sweepCopilot sv cfg (sw_db st) (sw_cop st))) outc (\<lambda>outc st.
     part ''trial_emails_error'' (Some (sendTrialRemindersAndExpirationEmails (call sv) bridge members st)) outc (\<lambda>outc st.
     Some (outc, st)))))"

end
