(* ===== verification/Copilot_Safety.thy ===== *)
theory Copilot_Safety
  imports Copilot Samples
begin

text \<open>
  Who sees what of the assistant: one step of the service by one user, the run of all others, and the
  transcript a user reads back.
\<close>

section \<open>Steps\<close>

text \<open>A step of the service by the user \<open>(tid, uid)\<close>.\<close>

inductive copilot_step :: "string \<times> string \<Rightarrow> copilot_db \<Rightarrow> copilot_db \<Rightarrow> bool" where
  create: "CreateSession v fresh db p tid cdb = (r, cdb') \<Longrightarrow> copilot_step (tid, PUserID p) cdb cdb'"
| append: "AppendMessages v ttl fresh p tid i msgs cdb = (r, cdb') \<Longrightarrow> copilot_step (tid, PUserID p) cdb cdb'"
| log: "LogActivity v fresh db p tid inp cdb = (r, cdb') \<Longrightarrow> copilot_step (tid, PUserID p) cdb cdb'"
| count: "IncrementUsage v db p tid cdb = (r, cdb') \<Longrightarrow> copilot_step (tid, PUserID p) cdb cdb'"

definition mine :: "string \<times> string \<Rightarrow> copilot_session \<Rightarrow> bool" where
  "mine q s = (CsTenantID s = fst q \<and> CsUserID s = snd q)"

text \<open>What a user can read is the same in both states.\<close>

definition same_view :: "string \<times> string \<Rightarrow> copilot_db \<Rightarrow> copilot_db \<Rightarrow> bool" where
  "same_view q a b =
     (filter (mine q) (session_rows b) = filter (mine q) (session_rows a) \<and>
      (\<forall>i. list_ex (owns (fst q) (snd q) i) (session_rows a) \<longrightarrow>
         filter (\<lambda>m. CmSessionID m = i) (message_rows b) = filter (\<lambda>m. CmSessionID m = i) (message_rows a)) \<and>
      (\<forall>period. map_of (usage_rows b) (fst q, snd q, period) = map_of (usage_rows a) (fst q, snd q, period)))"

definition session_ids :: "copilot_db \<Rightarrow> string list" where
  "session_ids cdb = map CsID (session_rows cdb)"

lemma same_view_refl [simp]: "same_view q a a"
  by (simp add: same_view_def)

lemma owns_mine: "owns (fst q) (snd q) i s \<longleftrightarrow> CsID s = i \<and> mine q s"
  by (auto simp: owns_def mine_def)

lemma same_view_trans:
  assumes "same_view q a b" "same_view q b c"
  shows "same_view q a c"
proof -
  have "list_ex (owns (fst q) (snd q) i) rows \<longleftrightarrow> list_ex (\<lambda>s. CsID s = i) (filter (mine q) rows)" for i rows
    by (auto simp: owns_mine list_ex_iff)
  then show ?thesis using assms by (simp add: same_view_def)
qed

lemma same_tables [simp]:
  "session_rows a = session_rows b \<Longrightarrow> message_rows a = message_rows b \<Longrightarrow> usage_rows a = usage_rows b \<Longrightarrow> same_view q a b"
  by (simp add: same_view_def)

lemma InsertActivity_tables:
  "session_rows (snd (store_InsertActivity v db a cdb)) = session_rows cdb"
  "message_rows (snd (store_InsertActivity v db a cdb)) = message_rows cdb"
  "usage_rows (snd (store_InsertActivity v db a cdb)) = usage_rows cdb"
  by (simp_all add: store_InsertActivity_def split: option.split)

lemma logActivity_tables:
  "session_rows (snd (logActivity v fresh k db tid p inp cdb)) = session_rows cdb"
  "message_rows (snd (logActivity v fresh k db tid p inp cdb)) = message_rows cdb"
  "usage_rows (snd (logActivity v fresh k db tid p inp cdb)) = usage_rows cdb"
  by (simp_all add: logActivity_def Let_def InsertActivity_tables)

lemma GetSession_owned:
  "GetSession v ttl cdb p tid i = Inr s \<Longrightarrow> s \<in> set (session_rows cdb) \<and> owns tid (PUserID p) i s"
  by (auto simp: GetSession_def store_GetSession_def split: if_splits sum.splits option.splits list.splits dest!: filter_Cons_mem)

lemma insert_message_rows:
  assumes "insert_message v k tid i m cdb = Some cdb'"
  shows "\<exists>r. message_row v tid i m = Some r \<and> cdb' = cdb\<lparr>message_rows := message_rows cdb @ [r]\<rparr>"
  using assms by (auto simp: insert_message_def split: if_splits)

lemma insert_messages_rows:
  "insert_messages v k tid i ms cdb = Some cdb' \<Longrightarrow>
     \<exists>rs. map (message_row v tid i) ms = map Some rs \<and> cdb' = cdb\<lparr>message_rows := message_rows cdb @ rs\<rparr>"
proof (induction ms arbitrary: k cdb)
  case (Cons m ms)
  then obtain cdb1 where c1: "insert_message v k tid i m cdb = Some cdb1" "insert_messages v (Suc k) tid i ms cdb1 = Some cdb'"
    by (auto split: option.splits)
  from insert_message_rows [OF c1(1)] obtain r where r: "message_row v tid i m = Some r" "cdb1 = cdb\<lparr>message_rows := message_rows cdb @ [r]\<rparr>"
    by blast
  from Cons.IH [OF c1(2)] obtain rs where "map (message_row v tid i) ms = map Some rs" "cdb' = cdb1\<lparr>message_rows := message_rows cdb1 @ rs\<rparr>"
    by blast
  with r show ?case by (intro exI [of _ "r # rs"]) simp
qed (intro exI [of _ "[]"], simp)

lemma message_row_fields: "message_row v tid i m = Some r \<Longrightarrow> CmSessionID r = i \<and> CmTenantID r = tid \<and> CmCreatedAt r = pg_now v"
  by (auto simp: message_row_def)

lemma row_sessions: "map (message_row v tid i) ms = map Some rs \<Longrightarrow> r \<in> set rs \<Longrightarrow> CmSessionID r = i \<and> CmTenantID r = tid \<and> CmCreatedAt r = pg_now v"
proof -
  assume "map (message_row v tid i) ms = map Some rs" "r \<in> set rs"
  then have "Some r \<in> message_row v tid i ` set ms" by (metis image_eqI list.set_map)
  then show ?thesis using message_row_fields by (metis imageE)
qed

text \<open>What a successful append stored, and what any append leaves.\<close>

definition touch_rows :: "env \<Rightarrow> string \<Rightarrow> string \<Rightarrow> string \<Rightarrow> string \<Rightarrow> copilot_db \<Rightarrow> copilot_session list" where
  "touch_rows v tid uid i title cdb = map (\<lambda>s. if owns tid uid i s then touch v title s else s) (session_rows cdb)"

lemma AppendMessages_cases:
  assumes "AppendMessages v ttl fresh p tid i msgs cdb = (r, cdb')"
  obtains (same) "cdb' = cdb" "r \<noteq> None"
  | (stored) s ms rs where "GetSession v ttl cdb p tid i = Inr s" "prepare_messages fresh 0 msgs = Some ms"
      "map (message_row v tid i) ms = map Some rs" "message_rows cdb' = message_rows cdb @ rs" "usage_rows cdb' = usage_rows cdb"
      "session_rows cdb' = session_rows cdb \<and> r \<noteq> None \<or>
       session_rows cdb' = touch_rows v tid (PUserID p) i (session_title s ms) cdb \<and> r = None"
proof -
  consider (err) "cdb' = cdb" "r \<noteq> None"
    | (ok) s ms cdb1 where "GetSession v ttl cdb p tid i = Inr s" "prepare_messages fresh 0 msgs = Some ms"
        "store_AppendMessages v tid i ms cdb = (None, cdb1)" "store_TouchSession v tid (PUserID p) i (session_title s ms) cdb1 = (r, cdb')"
    using assms unfolding AppendMessages_def
    by (fastforce simp: store_AppendMessages_def split: if_splits sum.splits option.splits prod.splits)
  then show thesis
  proof cases
    case ok
    have "insert_messages v 0 tid i ms cdb = Some cdb1" using ok(3) by (auto simp: store_AppendMessages_def split: if_splits option.splits)
    from insert_messages_rows [OF this] obtain rs where rs: "map (message_row v tid i) ms = map Some rs"
        "cdb1 = cdb\<lparr>message_rows := message_rows cdb @ rs\<rparr>" by blast
    show thesis
    proof (rule stored [OF ok(1,2) rs(1)])
      show "message_rows cdb' = message_rows cdb @ rs" "usage_rows cdb' = usage_rows cdb"
        using ok(4) by (auto simp: store_TouchSession_def rs(2) split: if_splits)
      show "session_rows cdb' = session_rows cdb \<and> r \<noteq> None \<or>
          session_rows cdb' = touch_rows v tid (PUserID p) i (session_title s ms) cdb \<and> r = None"
        using ok(4) by (auto simp: store_TouchSession_def touch_rows_def rs(2) split: if_splits)
    qed
  qed (rule same)
qed

section \<open>Other users\<close>

lemma touch_simps [simp]:
  "CsID (touch v title s) = CsID s" "CsTenantID (touch v title s) = CsTenantID s" "CsUserID (touch v title s) = CsUserID s"
  "CsUpdatedAt (touch v title s) = pg_now v"
  by (simp_all add: touch_def)

lemma touch_rows_ids: "map CsID (touch_rows v tid uid i title cdb) = map CsID (session_rows cdb)"
  by (simp add: touch_rows_def comp_def if_distrib cong: if_cong)

lemma touch_rows_other:
  "q \<noteq> (tid, uid) \<Longrightarrow> filter (mine q) (touch_rows v tid uid i title cdb) = filter (mine q) (session_rows cdb)"
proof -
  assume "q \<noteq> (tid, uid)"
  then have "\<not> (mine q s \<and> owns tid uid i s)" for s by (auto simp: mine_def owns_def prod_eq_iff)
  then have "filter (mine q) (map (\<lambda>s. if owns tid uid i s then touch v title s else s) rows) = filter (mine q) rows" for rows
    by (induction rows) (auto simp: mine_def)
  then show ?thesis by (simp add: touch_rows_def)
qed

lemma id_unique: "distinct (session_ids cdb) \<Longrightarrow> s \<in> set (session_rows cdb) \<Longrightarrow> t \<in> set (session_rows cdb) \<Longrightarrow> CsID s = CsID t \<Longrightarrow> s = t"
  by (auto simp: session_ids_def distinct_map dest: inj_onD)

lemma append_view:
  assumes "AppendMessages v ttl fresh p tid i msgs cdb = (r, cdb')" "distinct (session_ids cdb)"
  shows "distinct (session_ids cdb') \<and> (\<forall>q. q \<noteq> (tid, PUserID p) \<longrightarrow> same_view q cdb cdb')"
  using assms(1)
proof (cases rule: AppendMessages_cases)
  case (stored s ms rs)
  have ids: "distinct (session_ids cdb')" using stored(6) assms(2) by (auto simp: session_ids_def touch_rows_ids)
  have own: "s \<in> set (session_rows cdb)" "owns tid (PUserID p) i s" using GetSession_owned [OF stored(1)] by auto
  have "same_view q cdb cdb'" if q: "q \<noteq> (tid, PUserID p)" for q
    unfolding same_view_def
  proof (intro conjI allI impI)
    show "filter (mine q) (session_rows cdb') = filter (mine q) (session_rows cdb)"
      using stored(6) touch_rows_other [OF q] by auto
    show "map_of (usage_rows cdb') (fst q, snd q, period) = map_of (usage_rows cdb) (fst q, snd q, period)" for period
      by (simp add: stored(5))
    fix j assume "list_ex (owns (fst q) (snd q) j) (session_rows cdb)"
    then obtain u where u: "u \<in> set (session_rows cdb)" "owns (fst q) (snd q) j u" by (auto simp: list_ex_iff)
    have "j \<noteq> i"
    proof
      assume "j = i"
      then have "s = u" using id_unique [OF assms(2) own(1) u(1)] own(2) u(2) by (simp add: owns_def)
      with own(2) u(2) q show False by (simp add: owns_def prod_eq_iff)
    qed
    then have "filter (\<lambda>m. CmSessionID m = j) rs = []" using row_sessions [OF stored(3)] by (auto simp: filter_empty_conv)
    then show "filter (\<lambda>m. CmSessionID m = j) (message_rows cdb') = filter (\<lambda>m. CmSessionID m = j) (message_rows cdb)"
      by (simp add: stored(4))
  qed
  with ids show ?thesis by simp
qed (use assms(2) in simp)

lemma create_view:
  assumes "CreateSession v fresh db p tid cdb = (r, cdb')" "distinct (session_ids cdb)"
  shows "distinct (session_ids cdb') \<and> (\<forall>q. q \<noteq> (tid, PUserID p) \<longrightarrow> same_view q cdb cdb')"
proof -
  have "cdb' = cdb \<or> (\<exists>s. \<not> session_exists cdb (CsID s) \<and> mine (tid, PUserID p) s \<and> session_rows cdb' = session_rows cdb @ [s] \<and>
      message_rows cdb' = message_rows cdb \<and> usage_rows cdb' = usage_rows cdb)"
  proof -
    define s where "s = \<lparr>CsID = ''cps_'' @ fresh 0, CsTenantID = tid, CsUserID = PUserID p, CsOrgID = POrgID p, CsTitle = '''',
      CsCreatedAt = now v, CsUpdatedAt = now v\<rparr>"
    have cdb': "cdb' = snd (CreateSession v fresh db p tid cdb)" using assms(1) by simp
    have "CsID s = ''cps_'' @ fresh 0" "mine (tid, PUserID p) s" by (simp_all add: s_def mine_def)
    then show ?thesis
    proof (cases "store_CreateSession v db s cdb")
      case (Pair e c)
      have c: "e \<noteq> None \<and> c = cdb \<or> \<not> session_exists cdb (CsID s) \<and> c = cdb\<lparr>session_rows := session_rows cdb @
          [s\<lparr>CsCreatedAt := Truncate (CsCreatedAt s) Microsecond, CsUpdatedAt := Truncate (CsUpdatedAt s) Microsecond\<rparr>]\<rparr>"
        using Pair unfolding store_CreateSession_def by (simp split: if_splits) auto
      have "cdb' = cdb \<or> e \<noteq> None \<and> cdb' = c \<or> (session_rows cdb' = session_rows c \<and> message_rows cdb' = message_rows c \<and> usage_rows cdb' = usage_rows c \<and> e = None)"
        unfolding cdb' CreateSession_def s_def [symmetric] Let_def Pair by (simp add: logActivity_tables split: option.split)
      with c \<open>mine (tid, PUserID p) s\<close> show ?thesis
        by (elim disjE conjE) (auto simp: mine_def)
    qed
  qed
  then show ?thesis
  proof
    assume "\<exists>s. \<not> session_exists cdb (CsID s) \<and> mine (tid, PUserID p) s \<and> session_rows cdb' = session_rows cdb @ [s] \<and>
      message_rows cdb' = message_rows cdb \<and> usage_rows cdb' = usage_rows cdb"
    then obtain s where s: "\<not> session_exists cdb (CsID s)" "mine (tid, PUserID p) s" "session_rows cdb' = session_rows cdb @ [s]"
      "message_rows cdb' = message_rows cdb" "usage_rows cdb' = usage_rows cdb" by blast
    have "distinct (session_ids cdb')"
      using assms(2) s(1) by (auto simp: session_ids_def s(3) session_exists_def list_ex_iff)
    moreover have "\<not> mine q s" if "q \<noteq> (tid, PUserID p)" for q using s(2) that by (auto simp: mine_def prod_eq_iff)
    ultimately show ?thesis using s(3-5) by (auto simp: same_view_def)
  qed (use assms(2) in simp)
qed

lemma copilot_step_view:
  assumes "copilot_step w cdb cdb'" "distinct (session_ids cdb)"
  shows "distinct (session_ids cdb') \<and> (\<forall>q. q \<noteq> w \<longrightarrow> same_view q cdb cdb')"
  using assms
proof (induction rule: copilot_step.induct)
  case (create v fresh db p tid cdb r cdb')
  then show ?case by (rule create_view)
next
  case (append v ttl fresh p tid i msgs cdb r cdb')
  then show ?case by (rule append_view)
next
  case (log v fresh db p tid inp cdb r cdb')
  have "cdb' = snd (LogActivity v fresh db p tid inp cdb)" using log(1) by simp
  then have "session_rows cdb' = session_rows cdb" "message_rows cdb' = message_rows cdb" "usage_rows cdb' = usage_rows cdb"
    by (simp_all add: LogActivity_def logActivity_tables split: sum.split)
  with log(2) show ?case by (simp add: session_ids_def)
next
  case (count v db p tid cdb r cdb')
  have "cdb' = snd (IncrementUsage v db p tid cdb)" using count(1) by simp
  then have "cdb' = cdb \<or> (\<exists>n period. cdb' = cdb\<lparr>usage_rows := AList.update (tid, PUserID p, period) n (usage_rows cdb)\<rparr>)"
    by (auto simp: IncrementUsage_def store_IncrementUsage_def Let_def)
  with count(2) show ?case by (auto simp: session_ids_def same_view_def update_conv)
qed

text \<open>The reads depend on the view only.\<close>

lemma store_GetSession_view: "same_view (tid, uid) a b \<Longrightarrow> store_GetSession v b tid uid i = store_GetSession v a tid uid i"
proof -
  assume "same_view (tid, uid) a b"
  moreover have "filter (owns tid uid i) rows = filter (\<lambda>s. CsID s = i) (filter (mine (tid, uid)) rows)" for rows
    by (auto simp: owns_def mine_def intro!: filter_cong)
  ultimately show ?thesis by (simp add: store_GetSession_def same_view_def del: filter_filter)
qed

lemma GetSession_view: "same_view (tid, PUserID p) a b \<Longrightarrow> GetSession v ttl b p tid i = GetSession v ttl a p tid i"
  by (simp add: GetSession_def store_GetSession_view)

lemma store_ListMessages_owned:
  assumes "s \<in> set (session_rows cdb)" "owns tid uid i s"
  shows "store_ListMessages v cdb tid uid i =
    (if fault v ''listing copilot messages'' 0 then Inl (Internal ''listing copilot messages'')
     else Inr (sort_key CmCreatedAt (filter (\<lambda>m. CmTenantID m = tid) (filter (\<lambda>m. CmSessionID m = i) (message_rows cdb)))))"
proof -
  have "CmSessionID m = i \<and> CmTenantID m = tid \<and> list_ex (\<lambda>s. CsID s = CmSessionID m \<and> CsUserID s = uid) (session_rows cdb) \<longleftrightarrow>
      CmSessionID m = i \<and> CmTenantID m = tid" for m
    using assms by (auto simp: owns_def list_ex_iff)
  then have "filter (\<lambda>m. CmSessionID m = i \<and> CmTenantID m = tid \<and>
      list_ex (\<lambda>s. CsID s = CmSessionID m \<and> CsUserID s = uid) (session_rows cdb)) (message_rows cdb) =
    filter (\<lambda>m. CmTenantID m = tid) (filter (\<lambda>m. CmSessionID m = i) (message_rows cdb))"
    by (auto intro!: filter_cong)
  then show ?thesis unfolding store_ListMessages_def by (simp only:)
qed

text \<open>
  C29.  What a user of the assistant reads depends on that user alone: along every run of all other
  users - of the same tenant or of others - the session, the list of sessions, every transcript and the
  usage that the user reads stay what they were.
\<close>

theorem copilot_noninterference:
  assumes "(\<lambda>a b. \<exists>w. w \<noteq> (tid, PUserID p) \<and> copilot_step w a b)\<^sup>*\<^sup>* cdb cdb'" "distinct (map CsID (session_rows cdb))"
  shows "GetSession v ttl cdb' p tid i = GetSession v ttl cdb p tid i \<and>
    ListSessions v ttl cdb' p tid = ListSessions v ttl cdb p tid \<and>
    ListMessages v ttl cdb' p tid i = ListMessages v ttl cdb p tid i \<and>
    GetUsage v cdb' tid (PUserID p) period = GetUsage v cdb tid (PUserID p) period"
proof -
  let ?q = "(tid, PUserID p)"
  have "distinct (session_ids cdb') \<and> same_view ?q cdb cdb'"
    using assms
  proof (induction rule: rtranclp_induct)
    case base
    then show ?case by (simp add: session_ids_def)
  next
    case (step y z)
    then obtain w where "w \<noteq> ?q" "copilot_step w y z" by blast
    with copilot_step_view [OF this(2)] step show ?case by (metis same_view_trans)
  qed
  then have view: "same_view ?q cdb cdb'" by simp
  have sess: "GetSession v ttl cdb' p tid i = GetSession v ttl cdb p tid i" using view by (rule GetSession_view)
  have "filter (\<lambda>s. CsTenantID s = tid \<and> CsUserID s = PUserID p \<and> P s) rows = filter P (filter (mine ?q) rows)" for P rows
    by (auto simp: mine_def intro!: filter_cong)
  then have list: "ListSessions v ttl cdb' p tid = ListSessions v ttl cdb p tid"
    using view by (simp add: ListSessions_def store_ListSessions_def same_view_def del: filter_filter)
  have "ListMessages v ttl cdb' p tid i = ListMessages v ttl cdb p tid i"
  proof (cases "GetSession v ttl cdb p tid i")
    case (Inr s)
    from GetSession_owned [OF Inr] have a: "s \<in> set (session_rows cdb)" "owns tid (PUserID p) i s" by auto
    from GetSession_owned [OF sess [unfolded Inr]] have b: "s \<in> set (session_rows cdb')" by auto
    have "filter (\<lambda>m. CmSessionID m = i) (message_rows cdb') = filter (\<lambda>m. CmSessionID m = i) (message_rows cdb)"
      using view a by (auto simp: same_view_def list_ex_iff)
    then show ?thesis
      by (simp add: ListMessages_def sess Inr store_ListMessages_owned [OF a] store_ListMessages_owned [OF b a(2)])
  qed (simp add: ListMessages_def sess)
  moreover have "GetUsage v cdb' tid (PUserID p) period = GetUsage v cdb tid (PUserID p) period"
    using view by (simp add: GetUsage_def same_view_def)
  ultimately show ?thesis using sess list by simp
qed

definition sample_copilot :: copilot_db where
  "sample_copilot = \<lparr>session_rows = [\<lparr>CsID = ''s'', CsTenantID = ''t'', CsUserID = ''u'', CsOrgID = ''o'', CsTitle = ''x'',
       CsCreatedAt = now sample_env, CsUpdatedAt = now sample_env\<rparr>],
     message_rows = [\<lparr>CmID = ''m0'', CmSessionID = ''s'', CmTenantID = ''t'', CmRole = ''user'', CmContent = ''hi'', CmParts = None,
       CmRedacted = False, CmCreatedAt = pg_now sample_env\<rparr>],
     activity_rows = [], usage_rows = []\<rparr>"

definition sample_user :: "string \<Rightarrow> copilot_principal" where
  "sample_user u = \<lparr>PUserID = u, POrgID = ''o''\<rparr>"

definition sample_copilot2 :: copilot_db where
  "sample_copilot2 = snd (CreateSession sample_env (\<lambda>k. ''1'') sample_db (sample_user ''w'') ''t'' sample_copilot)"

theorem copilot_noninterference_witness:
  "length (session_rows sample_copilot2) = 2 \<and>
   ListMessages sample_env Day sample_copilot2 (sample_user ''u'') ''t'' ''s'' = Inr (message_rows sample_copilot)"
proof -
  have "copilot_step (''t'', PUserID (sample_user ''w'')) sample_copilot sample_copilot2"
    unfolding sample_copilot2_def by (rule copilot_step.create) (rule prod.collapse [symmetric])
  then have run: "(\<lambda>a b. \<exists>w. w \<noteq> (''t'', PUserID (sample_user ''u'')) \<and> copilot_step w a b)\<^sup>*\<^sup>* sample_copilot sample_copilot2"
    by (intro r_into_rtranclp exI [of _ "(''t'', PUserID (sample_user ''w''))"]) (simp add: sample_user_def)
  have "distinct (map CsID (session_rows sample_copilot))" by (simp add: sample_copilot_def)
  from copilot_noninterference [OF run this, of sample_env Day "''s''"]
  have "ListMessages sample_env Day sample_copilot2 (sample_user ''u'') ''t'' ''s'' = ListMessages sample_env Day sample_copilot (sample_user ''u'') ''t'' ''s''"
    by simp
  moreover have "ListMessages sample_env Day sample_copilot (sample_user ''u'') ''t'' ''s'' = Inr (message_rows sample_copilot)" by code_simp
  moreover have "length (session_rows sample_copilot2) = 2" by code_simp
  ultimately show ?thesis by simp
qed

section \<open>Transcripts\<close>



end
