(* ===== verification/Retention_Safety.thy ===== *)
theory Retention_Safety
  imports Retention Copilot_Safety Telemetry_Reading
begin

text \<open>
  What a pass of the sweeper does to the stores it cleans: its loops end, the telemetry keeps its
  references, audit rows are scrubbed but never deleted, and a session the user may resume stays.
\<close>

section \<open>Loops\<close>

lemma drain_ends:
  fixes m :: "'a \<Rightarrow> nat"
  assumes "\<And>k st ct st'. P st \<Longrightarrow> f k st = Inr (ct, st') \<Longrightarrow> P st' \<and> (0 < ct \<longrightarrow> m st' < m st)" "0 < batch" "P st"
  shows "\<exists>e st'. drain f batch k st = Some (e, st') \<and> P st'"
  using assms(3)
proof (induction "m st" arbitrary: st k rule: less_induct)
  case less
  show ?case
  proof (cases "f k st")
    case (Inl err)
    then show ?thesis using less.prems by (subst drain.simps) simp
  next
    case (Inr r)
    obtain ct st' where r: "r = (ct, st')" by (cases r)
    note step = assms(1) [OF less.prems Inr [unfolded r]]
    show ?thesis
    proof (cases "int ct < batch")
      case True
      then show ?thesis using step Inr r by (subst drain.simps) simp
    next
      case False
      then have "m st' < m st" using step assms(2) by simp
      from less.hyps [OF this] step have "\<exists>e st2. drain f batch (Suc k) st' = Some (e, st2) \<and> P st2" by blast
      then show ?thesis using False Inr r by (subst drain.simps) simp
    qed
  qed
qed

lemma sw_andThen_ends:
  assumes "\<exists>e st'. r = Some (e, st') \<and> P st'" "\<And>st. P st \<Longrightarrow> \<exists>e st'. f st = Some (e, st') \<and> P st'"
  shows "\<exists>e st'. sw_andThen r f = Some (e, st') \<and> P st'"
proof -
  from assms(1) obtain e st where "r = Some (e, st)" "P st" by blast
  then show ?thesis using assms(2) by (cases e) (auto simp: sw_andThen_def)
qed

lemma pick_distinct:
  "pick_ok f \<Longrightarrow> distinct ids \<Longrightarrow> set (f n ids) \<subseteq> set ids"
  by (simp add: pick_ok_def)

section \<open>Telemetry\<close>

text \<open>Rows that are gone were old.\<close>

definition thinned :: "('a \<Rightarrow> bool) \<Rightarrow> 'a list \<Rightarrow> 'a list \<Rightarrow> bool" where
  "thinned old xs ys = (\<exists>keep. ys = filter keep xs \<and> (\<forall>x \<in> set xs. \<not> keep x \<longrightarrow> old x))"

lemma thinned_refl [simp]: "thinned old xs xs"
  unfolding thinned_def by (intro exI [of _ "\<lambda>x. True"]) simp

lemma thinned_trans:
  assumes "thinned old xs ys" "thinned old ys zs"
  shows "thinned old xs zs"
proof -
  from assms obtain p q where p: "ys = filter p xs" "\<forall>x \<in> set xs. \<not> p x \<longrightarrow> old x"
    and q: "zs = filter q ys" "\<forall>x \<in> set ys. \<not> q x \<longrightarrow> old x" unfolding thinned_def by blast
  show ?thesis unfolding thinned_def
    by (intro exI [of _ "\<lambda>x. p x \<and> q x"]) (use p q in \<open>auto simp: conj_commute\<close>)
qed

lemma thinned_filter: "(\<And>x. x \<in> set xs \<Longrightarrow> \<not> keep x \<Longrightarrow> old x) \<Longrightarrow> thinned old xs (filter keep xs)"
  unfolding thinned_def by blast

definition tel_swept :: "time \<Rightarrow> telemetry \<Rightarrow> telemetry \<Rightarrow> bool" where
  "tel_swept cutoff a b =
     (thinned (\<lambda>e. EvTimestamp e < cutoff) (event_rows a) (event_rows b) \<and>
      thinned (\<lambda>r. SpanStartedAt (fst r) < cutoff) (span_rows a) (span_rows b) \<and>
      thinned (\<lambda>r. ExecStartedAt (snd r) < cutoff) (exec_rows a) (exec_rows b) \<and>
      cause_rows b = cause_rows a \<and> event_seq b = event_seq a)"

lemma tel_swept_refl [simp]: "tel_swept cutoff a a"
  by (simp add: tel_swept_def)

lemma tel_swept_trans: "tel_swept cutoff a b \<Longrightarrow> tel_swept cutoff b c \<Longrightarrow> tel_swept cutoff a c"
  unfolding tel_swept_def by (metis thinned_trans)

lemma events_inv:
  assumes "tel_inv tel"
  shows "tel_inv (tel\<lparr>event_rows := filter keep (event_rows tel)\<rparr>)"
proof -
  have "sorted_wrt (<) (map EvSeq (event_rows tel))" using assms by (simp add: tel_inv_def)
  then have "sorted_wrt (<) (map EvSeq (filter keep (event_rows tel)))" by (simp add: sorted_wrt_map sorted_wrt_filter)
  with assms show ?thesis by (simp add: tel_inv_def span_keys_def distinct_map_filter)
qed

lemma delete_events_inv:
  assumes "pick_ok (pick sv)" "tel_inv tel" "delete_events sv frozen cutoff batch k tel = Inr (ct, tel')"
  shows "tel_inv tel' \<and> tel_swept cutoff tel tel' \<and> (0 < ct \<longrightarrow> length (event_rows tel') < length (event_rows tel)) \<and> (frozen \<longrightarrow> tel' = tel)"
proof -
  let ?old = "map EvID (filter (\<lambda>e. EvTimestamp e < cutoff) (event_rows tel))"
  define ids where "ids = pick sv (nat batch) ?old"
  have ct: "ct = length ids" "tel' = tel\<lparr>event_rows := filter (\<lambda>e. EvID e \<notin> set ids) (event_rows tel)\<rparr>" "frozen \<longrightarrow> ids = []"
    using assms(3) by (auto simp: delete_events_def ids_def [symmetric] Let_def split: if_splits)
  have dist: "distinct (map EvID (event_rows tel))" using assms(2) by (simp add: tel_inv_def)
  then have sub: "set ids \<subseteq> set ?old"
    unfolding ids_def by (intro pick_distinct [OF assms(1)]) (rule distinct_map_filter)
  have old: "EvTimestamp e < cutoff" if "e \<in> set (event_rows tel)" "EvID e \<in> set ids" for e
  proof -
    from that(2) sub obtain f where "f \<in> set (event_rows tel)" "EvTimestamp f < cutoff" "EvID f = EvID e" by auto
    with that(1) dist show ?thesis by (metis distinct_map inj_on_def)
  qed
  have "length (event_rows tel') < length (event_rows tel)" if "0 < ct"
  proof -
    from that ct(1) obtain i where "i \<in> set ids" by (cases ids) auto
    with sub obtain e where "e \<in> set (event_rows tel)" "EvID e \<in> set ids" by auto
    then show ?thesis by (simp add: ct(2) length_filter_less)
  qed
  moreover have "tel_swept cutoff tel tel'"
    unfolding ct(2) tel_swept_def by (auto intro!: thinned_filter old)
  moreover have "tel' = tel" if frozen using that ct(3) by (simp add: ct(2))
  ultimately show ?thesis using events_inv [OF assms(2)] ct(2) by simp
qed

lemma precedes_filter:
  assumes "precedes ks b a" "keep a" "keep b"
  shows "precedes (filter (\<lambda>k. keep (fst k)) ks) b a"
proof -
  from assms(1) obtain xs e ys where "ks = xs @ (a, e) # ys" "(b, e) \<in> set xs" unfolding precedes_def by blast
  then show ?thesis
    unfolding precedes_def using assms(2,3)
    by (intro exI [of _ "filter (\<lambda>k. keep (fst k)) xs"] exI [of _ e] exI [of _ "filter (\<lambda>k. keep (fst k)) ys"]) simp
qed

lemma spans_inv:
  assumes inv: "tel_inv tel"
    and ev: "\<forall>e \<in> set (event_rows tel). EvSpanID e \<notin> X" and cs: "\<forall>(a, b) \<in> set (cause_rows tel). a \<notin> X \<and> b \<notin> X"
    and ps: "\<forall>(s, d) \<in> set (span_rows tel). SpanID s \<notin> X \<longrightarrow> (\<forall>p. SpanParent s = Some p \<longrightarrow> p \<notin> X)"
  shows "tel_inv (tel\<lparr>span_rows := filter (\<lambda>(s, d). SpanID s \<notin> X) (span_rows tel)\<rparr>)"
proof -
  let ?t = "tel\<lparr>span_rows := filter (\<lambda>(s, d). SpanID s \<notin> X) (span_rows tel)\<rparr>"
  have keys: "span_keys ?t = filter (\<lambda>k. fst k \<notin> X) (span_keys tel)"
    by (simp add: span_keys_def filter_map comp_def case_prod_beta')
  have key: "distinct (map fst (span_keys tel))"
      "\<forall>(i, e) \<in> set (span_keys tel). valid_utf8 i \<and> e \<in> (\<lambda>(t, x). ExecID x) ` set (exec_rows tel)"
    using inv by (simp_all add: tel_inv_def)
  have evk: "\<forall>e \<in> set (event_rows tel). EvSeq e \<le> event_seq tel \<and> (EvSpanID e, EvExecutionID e) \<in> set (span_keys tel)"
    using inv by (simp add: tel_inv_def)
  have par: "span_columns s = s \<and> (\<forall>p. SpanParent s = Some p \<longrightarrow> precedes (span_keys ?t) p (SpanID s))"
    if "(s, d) \<in> set (span_rows ?t)" for s d
  proof -
    have s: "(s, d) \<in> set (span_rows tel)" "SpanID s \<notin> X" using that by auto
    note old = tel_inv_span [OF inv s(1)]
    have "precedes (span_keys ?t) p (SpanID s)" if p: "SpanParent s = Some p" for p
      unfolding keys by (rule precedes_filter) (use old p s ps in auto)
    with old show ?thesis by blast
  qed
  have cau: "precedes (span_keys ?t) b a" if "(a, b) \<in> set (cause_rows tel)" for a b
    unfolding keys by (rule precedes_filter [OF tel_inv_cause [OF inv that]]) (use cs that in auto)
  have rest: "distinct (map (\<lambda>(t, e). ExecID e) (exec_rows tel))" "distinct (map EvID (event_rows tel))"
      "sorted_wrt (<) (map EvSeq (event_rows tel))"
    using inv by (simp_all add: tel_inv_def)
  have k1: "distinct (map fst (span_keys ?t))" unfolding keys using key(1) by (rule distinct_map_filter)
  have k2: "\<forall>(i, e) \<in> set (span_keys ?t). valid_utf8 i \<and> e \<in> (\<lambda>(t, x). ExecID x) ` set (exec_rows tel)"
    unfolding keys using key(2) by auto
  have k3: "\<forall>e \<in> set (event_rows tel). EvSeq e \<le> event_seq tel \<and> (EvSpanID e, EvExecutionID e) \<in> set (span_keys ?t)"
    unfolding keys using evk ev by auto
  have k4: "\<forall>(s, d) \<in> set (span_rows ?t). span_columns s = s \<and> (\<forall>p. SpanParent s = Some p \<longrightarrow> precedes (span_keys ?t) p (SpanID s))"
    using par by blast
  have k5: "\<forall>(a, b) \<in> set (cause_rows ?t). precedes (span_keys ?t) b a" using cau by auto
  show ?thesis unfolding tel_inv_def by (intro conjI k4 k5) (use rest k1 k2 k3 in simp_all)
qed

lemma delete_spans_inv:
  assumes "pick_ok (pick sv)" "tel_inv tel" "delete_spans sv cutoff batch k tel = Inr (ct, tel')"
  shows "tel_inv tel' \<and> tel_swept cutoff tel tel' \<and> (0 < ct \<longrightarrow> length (span_rows tel') < length (span_rows tel))"
proof -
  define ids where "ids = pick sv (nat batch) (stale_spans cutoff tel)"
  have ct: "ct = length ids" "tel' = tel\<lparr>span_rows := filter (\<lambda>(s, d). SpanID s \<notin> set ids) (span_rows tel)\<rparr>" "\<not> span_referenced tel ids"
    using assms(3) by (auto simp: delete_spans_def ids_def [symmetric] Let_def split: if_splits)
  have dist: "distinct (map (\<lambda>(s, d). SpanID s) (span_rows tel))"
    using assms(2) by (simp add: tel_inv_def span_keys_def comp_def case_prod_beta')
  then have sub: "set ids \<subseteq> set (stale_spans cutoff tel)"
    unfolding ids_def by (intro pick_distinct [OF assms(1)]) (simp add: stale_spans_def distinct_map_filter)
  have old: "SpanStartedAt (fst r) < cutoff" if "r \<in> set (span_rows tel)" "SpanID (fst r) \<in> set ids" for r
  proof -
    from that(2) sub obtain q where "q \<in> set (span_rows tel)" "SpanStartedAt (fst q) < cutoff" "SpanID (fst q) = SpanID (fst r)"
      by (auto simp: stale_spans_def)
    with span_row_unique [OF assms(2) _ that(1)] show ?thesis by metis
  qed
  have "length (span_rows tel') < length (span_rows tel)" if "0 < ct"
  proof -
    from that ct(1) obtain i where "i \<in> set ids" by (cases ids) auto
    with sub obtain r where "r \<in> set (span_rows tel)" "SpanID (fst r) \<in> set ids" by (auto simp: stale_spans_def)
    then show ?thesis by (simp add: ct(2) length_filter_less case_prod_beta)
  qed
  moreover have "tel_swept cutoff tel tel'"
    unfolding ct(2) tel_swept_def by (auto intro!: thinned_filter old)
  moreover have "tel_inv tel'"
    unfolding ct(2) by (rule spans_inv [OF assms(2)]) (use ct(3) in \<open>auto simp: span_referenced_def list_ex_iff split: option.splits\<close>)
  ultimately show ?thesis by simp
qed

lemma delete_causality_inv:
  assumes "tel_inv tel" "delete_causality sv k tel = Inr (ct, tel')"
  shows "tel' = tel \<and> ct = 0"
proof -
  have "\<not> orphan tel r" if "r \<in> set (cause_rows tel)" for r
  proof -
    have "precedes (span_keys tel) (snd r) (fst r)" using tel_inv_cause [OF assms(1), of "fst r" "snd r"] that by simp
    then have "fst r \<in> fst ` set (span_keys tel)" "snd r \<in> fst ` set (span_keys tel)" by (force simp: precedes_def)+
    then show ?thesis by (force simp: orphan_def list_ex_iff span_keys_def)
  qed
  then have "filter (orphan tel) (cause_rows tel) = []" "filter (\<lambda>r. \<not> orphan tel r) (cause_rows tel) = cause_rows tel"
    by (auto simp: filter_empty_conv filter_id_conv)
  with assms(2) show ?thesis by (auto simp: delete_causality_def split: if_splits)
qed

lemma delete_executions_inv:
  assumes "pick_ok (pick sv)" "tel_inv tel" "delete_executions sv cutoff batch k tel = Inr (ct, tel')"
  shows "tel_inv tel' \<and> tel_swept cutoff tel tel' \<and> (0 < ct \<longrightarrow> length (exec_rows tel') < length (exec_rows tel))"
proof -
  define ids where "ids = pick sv (nat batch) (stale_executions cutoff tel)"
  have ct: "ct = length ids" "tel' = tel\<lparr>exec_rows := filter (\<lambda>(t, e). ExecID e \<notin> set ids) (exec_rows tel)\<rparr>"
      "\<forall>(s, d) \<in> set (span_rows tel). SpanExecutionID s \<notin> set ids"
    using assms(3) by (auto simp: delete_executions_def ids_def [symmetric] Let_def list_ex_iff split: if_splits)
  have dist: "distinct (map (\<lambda>(t, e). ExecID e) (exec_rows tel))" using assms(2) by (simp add: tel_inv_def)
  then have sub: "set ids \<subseteq> set (stale_executions cutoff tel)"
    unfolding ids_def by (intro pick_distinct [OF assms(1)]) (simp add: stale_executions_def distinct_map_filter)
  have old: "ExecStartedAt (snd r) < cutoff" if "r \<in> set (exec_rows tel)" "ExecID (snd r) \<in> set ids" for r
  proof -
    from that(2) sub obtain q where "q \<in> set (exec_rows tel)" "ExecStartedAt (snd q) < cutoff" "ExecID (snd q) = ExecID (snd r)"
      by (auto simp: stale_executions_def)
    moreover from dist have "inj_on (\<lambda>(t, e). ExecID e) (set (exec_rows tel))" by (simp add: distinct_map)
    ultimately show ?thesis using that(1) by (metis (mono_tags, lifting) case_prod_beta inj_onD)
  qed
  have "length (exec_rows tel') < length (exec_rows tel)" if "0 < ct"
  proof -
    from that ct(1) obtain i where "i \<in> set ids" by (cases ids) auto
    with sub obtain r where "r \<in> set (exec_rows tel)" "ExecID (snd r) \<in> set ids" by (auto simp: stale_executions_def)
    then show ?thesis by (simp add: ct(2) length_filter_less case_prod_beta)
  qed
  moreover have "tel_swept cutoff tel tel'"
    unfolding ct(2) tel_swept_def by (auto intro!: thinned_filter old)
  moreover have "tel_inv tel'"
  proof -
    have "e \<in> (\<lambda>(t, x). ExecID x) ` set (exec_rows tel')" if "(i, e) \<in> set (span_keys tel)" for i e
    proof -
      from that have "e \<notin> set ids" using ct(3) by (auto simp: span_keys_def)
      moreover from that have "e \<in> (\<lambda>(t, x). ExecID x) ` set (exec_rows tel)" using assms(2) by (auto simp: tel_inv_def)
      ultimately show ?thesis by (auto simp: ct(2))
    qed
    moreover have "distinct (map (\<lambda>(t, e). ExecID e) (exec_rows tel'))" using dist by (simp add: ct(2) distinct_map_filter)
    moreover have "span_keys tel' = span_keys tel" "span_rows tel' = span_rows tel" "cause_rows tel' = cause_rows tel"
        "event_rows tel' = event_rows tel" "event_seq tel' = event_seq tel" by (simp_all add: ct(2) span_keys_def)
    ultimately show ?thesis using assms(2) unfolding tel_inv_def by auto
  qed
  ultimately show ?thesis by simp
qed

text \<open>
  C26.  A pass over the telemetry always ends and never leaves a dangling reference: whatever fails on
  the way, executions, spans, causal edges and events stay consistent, only rows older than the window
  are gone, and while history is append-only no event is deleted.
\<close>

theorem sweep_keeps_references:
  assumes "tel_inv tel" "pick_ok (pick sv)"
  shows "\<exists>err tel'. sweepTelemetry sv (withDefaults cfg) frozen db tel = Some (err, tel') \<and> tel_inv tel' \<and>
    tel_swept (days_before (now (call sv)) (defaultRetentionDays (call sv) (withDefaults cfg) db)) tel tel' \<and>
    (frozen \<longrightarrow> event_rows tel' = event_rows tel)"
proof -
  define cutoff where "cutoff = days_before (now (call sv)) (defaultRetentionDays (call sv) (withDefaults cfg) db)"
  define batch where "batch = BatchSize (withDefaults cfg)"
  define P where "P st = (tel_inv st \<and> tel_swept cutoff tel st \<and> (frozen \<longrightarrow> event_rows st = event_rows tel))" for st
  have batch: "0 < batch" by (simp add: batch_def withDefaults_def)
  have P0: "P tel" using assms(1) by (simp add: P_def)
  have e: "\<exists>e st'. drain (delete_events sv frozen cutoff batch) batch 0 st = Some (e, st') \<and> P st'" if "P st" for st
    by (rule drain_ends [where P = P and m = "\<lambda>st. length (event_rows st)", OF _ batch that])
      (use delete_events_inv [OF assms(2)] tel_swept_trans in \<open>unfold P_def, blast\<close>)
  have s: "\<exists>e st'. drain (delete_spans sv cutoff batch) batch 0 st = Some (e, st') \<and> P st'" if "P st" for st
  proof (rule drain_ends [where P = P and m = "\<lambda>st. length (span_rows st)", OF _ batch that])
    fix k st ct st' assume a: "P st" "delete_spans sv cutoff batch k st = Inr (ct, st')"
    have "event_rows st' = event_rows st" using a(2) by (auto simp: delete_spans_def Let_def split: if_splits)
    with a delete_spans_inv [OF assms(2) _ a(2)] tel_swept_trans
    show "P st' \<and> (0 < ct \<longrightarrow> length (span_rows st') < length (span_rows st))" unfolding P_def by metis
  qed
  have c: "\<exists>e st'. drain (delete_causality sv) batch 0 st = Some (e, st') \<and> P st'" if "P st" for st
    by (rule drain_ends [where P = P and m = "\<lambda>st. 0", OF _ batch that]) (use delete_causality_inv in \<open>unfold P_def, blast\<close>)
  have x: "\<exists>e st'. drain (delete_executions sv cutoff batch) batch 0 st = Some (e, st') \<and> P st'" if "P st" for st
  proof (rule drain_ends [where P = P and m = "\<lambda>st. length (exec_rows st)", OF _ batch that])
    fix k st ct st' assume a: "P st" "delete_executions sv cutoff batch k st = Inr (ct, st')"
    have "event_rows st' = event_rows st" using a(2) by (auto simp: delete_executions_def Let_def split: if_splits)
    with a delete_executions_inv [OF assms(2) _ a(2)] tel_swept_trans
    show "P st' \<and> (0 < ct \<longrightarrow> length (exec_rows st') < length (exec_rows st))" unfolding P_def by metis
  qed
  have "\<exists>e st'. sweepTelemetry sv (withDefaults cfg) frozen db tel = Some (e, st') \<and> P st'"
    unfolding sweepTelemetry_def Let_def batch_def [symmetric] cutoff_def [symmetric]
    by (cases "defaultRetentionDays (call sv) (withDefaults cfg) db \<le> 0") (simp_all add: P0 sw_andThen_ends [where P = P] e s c x)
  then show ?thesis unfolding cutoff_def P_def by blast
qed

definition sample_sweep :: sweep_env where
  "sample_sweep = \<lparr>call = sample_env\<lparr>now := unix_epoch + 40 * Day\<rparr>, pick = take, cancelled = (\<lambda>s k. False)\<rparr>"

definition sample_retention :: retention_config where
  "sample_retention = \<lparr>Interval = 0, BatchSize = 1, DefaultRetentionDays = 30, CopilotSessionTTLDays = 7\<rparr>"

lemma take_pick_ok: "pick_ok take"
  by (auto simp: pick_ok_def dest: in_set_takeD)

theorem sweep_keeps_references_witness:
  "\<exists>err tel'. sweepTelemetry sample_sweep (withDefaults sample_retention) True sample_db sample_tel = Some (err, tel') \<and>
     tel_inv tel' \<and> event_rows tel' = event_rows sample_tel"
proof -
  have "pick_ok (pick sample_sweep)" using take_pick_ok by (simp add: sample_sweep_def)
  from sweep_keeps_references [OF sample_tel_inv this, of sample_retention True sample_db] show ?thesis by blast
qed

section \<open>The audit log\<close>

lemma tombstone_fields:
  assumes "tombstone e = Some e'"
  shows "ID e' = ID e \<and> TenantID e' = TenantID e \<and> SequenceNumber e' = SequenceNumber e \<and> PrevHash e' = PrevHash e \<and>
    Hash e' = Hash e \<and> Timestamp e' = Timestamp e \<and> is_redacted (Metadata e')"
  using assms by (auto simp: tombstone_def is_redacted_def update_conv)

text \<open>A row is as it was, or was scrubbed because it is older than the window of its tenant.\<close>

definition scrubbed :: "time \<Rightarrow> (string \<times> int) list \<Rightarrow> audit_event \<Rightarrow> audit_event \<Rightarrow> bool" where
  "scrubbed cur ws e e' =
     (e' = e \<or> \<not> is_redacted (Metadata e) \<and> tombstone e = Some e' \<and> (\<exists>d. (TenantID e, d) \<in> set ws \<and> Timestamp e < days_before cur d))"

lemma scrubbed_trans: "scrubbed cur ws a b \<Longrightarrow> scrubbed cur ws b c \<Longrightarrow> scrubbed cur ws a c"
  unfolding scrubbed_def using tombstone_fields by metis

definition audit_swept :: "time \<Rightarrow> (string \<times> int) list \<Rightarrow> pgdb \<Rightarrow> pgdb \<Rightarrow> bool" where
  "audit_swept cur ws a b =
     (b = a\<lparr>audit_rows := audit_rows b\<rparr> \<and> list_all2 (scrubbed cur ws) (audit_rows a) (audit_rows b) \<and>
      distinct (map ID (audit_rows b)) \<and> (append_only a \<longrightarrow> b = a))"

lemma audit_swept_trans:
  assumes "audit_swept cur ws a b" "audit_swept cur ws b c"
  shows "audit_swept cur ws a c"
proof -
  have "list_all2 (scrubbed cur ws) (audit_rows a) (audit_rows c)"
    using assms list_all2_trans [of "scrubbed cur ws" "scrubbed cur ws" "scrubbed cur ws" "audit_rows a" "audit_rows b" "audit_rows c"]
    by (auto simp: audit_swept_def intro: scrubbed_trans)
  moreover have "c = a\<lparr>audit_rows := audit_rows c\<rparr>" "append_only b = append_only a"
    using assms by (metis audit_swept_def pgdb.surjective pgdb.update_convs(1) pgdb.select_convs(8))+
  ultimately show ?thesis using assms unfolding audit_swept_def by auto
qed

lemma tombstone_step_swept:
  assumes "pick_ok (pick sv)" "(tid, d) \<in> set ws" "distinct (map ID (audit_rows db))"
    and "tombstone_step sv j tid (days_before (now (call sv)) d) batch k db = Inr (ct, db')"
  shows "audit_swept (now (call sv)) ws db db' \<and>
    (0 < ct \<longrightarrow> length (filter (expired_event tid (days_before (now (call sv)) d)) (audit_rows db')) <
                length (filter (expired_event tid (days_before (now (call sv)) d)) (audit_rows db)))"
proof -
  let ?cut = "days_before (now (call sv)) d"
  let ?old = "map ID (filter (expired_event tid ?cut) (audit_rows db))"
  define ids where "ids = pick sv (nat batch) ?old"
  define f where "f e = (if ID e \<in> set ids then tombstone e else Some e)" for e
  have ct: "ct = length ids" "db' = db\<lparr>audit_rows := map (\<lambda>e. the (f e)) (audit_rows db)\<rparr>" "append_only db \<longrightarrow> ids = []"
      "\<forall>e \<in> set (audit_rows db). f e \<noteq> None"
    using assms(4) by (auto simp: tombstone_step_def f_def ids_def [symmetric] Let_def list_ex_iff split: if_splits)
  have sub: "set ids \<subseteq> set ?old" unfolding ids_def by (rule pick_distinct [OF assms(1) distinct_map_filter [OF assms(3)]])
  have exp: "expired_event tid ?cut e" if "e \<in> set (audit_rows db)" "ID e \<in> set ids" for e
  proof -
    from that(2) sub obtain g where "g \<in> set (audit_rows db)" "expired_event tid ?cut g" "ID g = ID e" by auto
    with that(1) assms(3) show ?thesis by (metis distinct_map inj_on_def)
  qed
  have row: "scrubbed (now (call sv)) ws e (the (f e))" "ID (the (f e)) = ID e" "ID e \<in> set ids \<Longrightarrow> is_redacted (Metadata (the (f e)))"
    if e: "e \<in> set (audit_rows db)" for e
  proof -
    have "scrubbed (now (call sv)) ws e (the (f e)) \<and> ID (the (f e)) = ID e \<and> (ID e \<in> set ids \<longrightarrow> is_redacted (Metadata (the (f e))))"
    proof (cases "ID e \<in> set ids")
      case True
      then obtain e' where e': "tombstone e = Some e'" "f e = Some e'" using bspec [OF ct(4) e] by (auto simp: f_def)
      have "TenantID e = tid" "Timestamp e < ?cut" "\<not> is_redacted (Metadata e)" using exp [OF e True] by (simp_all add: expired_event_def)
      with assms(2) have "scrubbed (now (call sv)) ws e e'" unfolding scrubbed_def using e'(1) by blast
      with tombstone_fields [OF e'(1)] e'(2) show ?thesis by simp
    qed (simp add: f_def scrubbed_def)
    then show "scrubbed (now (call sv)) ws e (the (f e))" "ID (the (f e)) = ID e" "ID e \<in> set ids \<Longrightarrow> is_redacted (Metadata (the (f e)))"
      by simp_all
  qed
  have "map ID (audit_rows db') = map ID (audit_rows db)" using row(2) by (simp add: ct(2))
  then have "distinct (map ID (audit_rows db'))" using assms(3) by simp
  moreover have "db' = db\<lparr>audit_rows := audit_rows db'\<rparr>" by (simp add: ct(2))
  moreover have "list_all2 (scrubbed (now (call sv)) ws) (audit_rows db) (audit_rows db')"
    using row(1) by (simp add: ct(2) list_all2_conv_all_nth)
  moreover have "db' = db" if "append_only db"
    using that ct(3) by (simp add: ct(2) f_def)
  moreover have "length (filter (expired_event tid ?cut) (audit_rows db')) < length (filter (expired_event tid ?cut) (audit_rows db))" if "0 < ct"
  proof -
    have same: "expired_event tid ?cut (the (f e)) \<longleftrightarrow> expired_event tid ?cut e \<and> ID e \<notin> set ids" if "e \<in> set (audit_rows db)" for e
      using row(3) [OF that] by (cases "ID e \<in> set ids") (auto simp: f_def expired_event_def)
    have "length (filter (expired_event tid ?cut) (audit_rows db')) =
        length (filter (\<lambda>e. ID e \<notin> set ids) (filter (expired_event tid ?cut) (audit_rows db)))"
      using same by (simp add: ct(2) filter_map comp_def conj_commute cong: filter_cong)
    moreover from that ct(1) obtain i where "i \<in> set ids" by (cases ids) auto
    with sub obtain e where "e \<in> set (filter (expired_event tid ?cut) (audit_rows db))" "ID e \<in> set ids" by auto
    then have "length (filter (\<lambda>e. ID e \<notin> set ids) (filter (expired_event tid ?cut) (audit_rows db))) <
        length (filter (expired_event tid ?cut) (audit_rows db))"
      by (intro length_filter_less) auto
    ultimately show ?thesis by simp
  qed
  ultimately show ?thesis unfolding audit_swept_def by blast
qed

lemma sweep_tenants_swept:
  assumes "pick_ok (pick sv)" "0 < batch" "set ws \<subseteq> set all" "distinct (map ID (audit_rows db))"
  shows "\<exists>err db'. sweep_tenants sv batch j ws db = Some (err, db') \<and> audit_swept (now (call sv)) all db db'"
  using assms(3,4)
proof (induction ws arbitrary: j db)
  case Nil
  then show ?case by (simp add: audit_swept_def scrubbed_def list.rel_refl)
next
  case (Cons w ws)
  obtain tid d where w: "w = (tid, d)" by (cases w)
  define P where "P st = audit_swept (now (call sv)) all db st" for st
  have P0: "P db" using Cons.prems(2) by (simp add: P_def audit_swept_def scrubbed_def list.rel_refl)
  have dist: "P st \<Longrightarrow> distinct (map ID (audit_rows st))" for st by (simp add: P_def audit_swept_def)
  have mem: "(tid, d) \<in> set all" using Cons.prems(1) w by simp
  have one: "\<exists>e st'. drain (tombstone_step sv j tid (days_before (now (call sv)) d) batch) batch 0 db = Some (e, st') \<and> P st'"
  proof (rule drain_ends [where P = P and m = "\<lambda>st. length (filter (expired_event tid (days_before (now (call sv)) d)) (audit_rows st))",
        OF _ assms(2) P0])
    fix k st ct st' assume a: "P st" "tombstone_step sv j tid (days_before (now (call sv)) d) batch k st = Inr (ct, st')"
    note s = tombstone_step_swept [OF assms(1) mem dist [OF a(1)] a(2)]
    have "P st'" using a(1) s unfolding P_def by (blast intro: audit_swept_trans)
    with s show "P st' \<and> (0 < ct \<longrightarrow> length (filter (expired_event tid (days_before (now (call sv)) d)) (audit_rows st')) <
        length (filter (expired_event tid (days_before (now (call sv)) d)) (audit_rows st)))" by blast
  qed
  have rest: "\<exists>e st'. sweep_tenants sv batch (Suc j) ws st = Some (e, st') \<and> P st'" if "P st" for st
    using Cons.IH [OF _ dist [OF that], of "Suc j"] Cons.prems(1) that unfolding P_def by (auto intro: audit_swept_trans)
  show ?case
    using P0 sw_andThen_ends [where P = P, OF one rest] unfolding w P_def by auto
qed

text \<open>
  C27.  A pass over the audit log always ends and deletes nothing: every row stays in its place with its
  identifier, sequence number, link and hash, and is either unchanged or lost its personal fields
  because it is older than the window of its tenant; while the log is append-only nothing changes.
\<close>

theorem sweepAudit_scrubs:
  assumes "distinct (map ID (audit_rows db))" "pick_ok (pick sv)"
  shows "\<exists>err db'. sweepAudit sv (withDefaults cfg) db = Some (err, db') \<and> db' = db\<lparr>audit_rows := audit_rows db'\<rparr> \<and>
    list_all2 (scrubbed (now (call sv)) (audit_windows db)) (audit_rows db) (audit_rows db') \<and> (append_only db \<longrightarrow> db' = db)"
proof -
  have "0 < BatchSize (withDefaults cfg)" by (simp add: withDefaults_def)
  from sweep_tenants_swept [OF assms(2) this subset_refl assms(1), of 0 "audit_windows db"]
  have "\<exists>err db'. sweepAudit sv (withDefaults cfg) db = Some (err, db') \<and> audit_swept (now (call sv)) (audit_windows db) db db'"
    using assms(1) unfolding sweepAudit_def by (auto simp: audit_swept_def scrubbed_def list.rel_refl)
  then show ?thesis unfolding audit_swept_def by blast
qed

definition expired_db :: pgdb where
  "expired_db = small_db\<lparr>append_only := False, plan_rows := [oss_plan\<lparr>RetentionDays := Some 0\<rparr>]\<rparr>"

theorem sweepAudit_scrubs_witness:
  "\<exists>err db'. sweepAudit sample_sweep (withDefaults sample_retention) expired_db = Some (err, db') \<and>
     list_all2 (scrubbed (now (call sample_sweep)) (audit_windows expired_db)) (audit_rows expired_db) (audit_rows db')"
proof -
  have "distinct (map ID (audit_rows expired_db))" by (simp add: expired_db_def small_db_def)
  moreover have "pick_ok (pick sample_sweep)" using take_pick_ok by (simp add: sample_sweep_def)
  ultimately show ?thesis using sweepAudit_scrubs [of expired_db sample_sweep sample_retention] by blast
qed


definition hashed_row :: audit_event where
  "hashed_row = small_row\<lparr>Metadata := Some [], Hash := compute_hash id (small_row\<lparr>Metadata := Some []\<rparr>)\<rparr>"


section \<open>The assistant\<close>

text \<open>A message is as it was, or was blanked because it is older than the window of its tenant.\<close>

definition blank :: "copilot_message \<Rightarrow> copilot_message" where
  "blank m = m\<lparr>CmContent := '''', CmParts := None, CmRedacted := True\<rparr>"

definition hidden :: "time \<Rightarrow> (string \<times> int option) list \<Rightarrow> copilot_message \<Rightarrow> copilot_message \<Rightarrow> bool" where
  "hidden cur ws m m' =
     (m' = m \<or> m' = blank m \<and> (\<exists>d. (CmTenantID m, Some d) \<in> set ws \<and> CmCreatedAt m < days_before cur d))"

lemma blank_simps [simp]:
  "CmID (blank m) = CmID m" "CmSessionID (blank m) = CmSessionID m" "CmTenantID (blank m) = CmTenantID m"
  "CmRedacted (blank m)" "blank (blank m) = blank m" "CmCreatedAt (blank m) = CmCreatedAt m"
  by (simp_all add: blank_def)

lemma hidden_refl [simp]: "hidden cur ws m m"
  by (simp add: hidden_def)

lemma hidden_trans: "hidden cur ws a b \<Longrightarrow> hidden cur ws b c \<Longrightarrow> hidden cur ws a c"
  by (auto simp: hidden_def)

text \<open>Every session of the first state that was used since the cutoff is in the second with its transcript.\<close>

definition cop_keys :: "copilot_db \<Rightarrow> bool" where
  "cop_keys cdb = (distinct (map CsID (session_rows cdb)) \<and> distinct (map CmID (message_rows cdb)) \<and> distinct (map AcID (activity_rows cdb)))"

definition recent :: "time \<Rightarrow> copilot_db \<Rightarrow> string \<Rightarrow> bool" where
  "recent ttl0 cdb i = list_ex (\<lambda>s. CsID s = i \<and> \<not> CsUpdatedAt s < ttl0) (session_rows cdb)"

definition cop_swept :: "time \<Rightarrow> (string \<times> int option) list \<Rightarrow> time \<Rightarrow> copilot_db \<Rightarrow> copilot_db \<Rightarrow> bool" where
  "cop_swept cur ws ttl0 a b =
     (cop_keys b \<and> thinned (\<lambda>s. CsUpdatedAt s < ttl0) (session_rows a) (session_rows b) \<and>
      (\<forall>i. recent ttl0 a i \<longrightarrow> list_all2 (hidden cur ws) (filter (\<lambda>m. CmSessionID m = i) (message_rows a))
         (filter (\<lambda>m. CmSessionID m = i) (message_rows b))))"

lemma cop_swept_refl: "cop_keys a \<Longrightarrow> cop_swept cur ws ttl0 a a"
  by (simp add: cop_swept_def list.rel_refl)

lemma thinned_recent: "thinned (\<lambda>s. CsUpdatedAt s < ttl0) (session_rows a) (session_rows b) \<Longrightarrow> recent ttl0 a i \<Longrightarrow> recent ttl0 b i"
  unfolding thinned_def recent_def by (auto simp: list_ex_iff)

lemma cop_swept_trans:
  assumes "cop_swept cur ws ttl0 a b" "cop_swept cur ws ttl0 b c"
  shows "cop_swept cur ws ttl0 a c"
proof -
  have "thinned (\<lambda>s. CsUpdatedAt s < ttl0) (session_rows a) (session_rows c)"
    using assms unfolding cop_swept_def by (blast intro: thinned_trans)
  moreover have "list_all2 (hidden cur ws) (filter (\<lambda>m. CmSessionID m = i) (message_rows a)) (filter (\<lambda>m. CmSessionID m = i) (message_rows c))"
    if i: "recent ttl0 a i" for i
  proof -
    have "recent ttl0 b i" using thinned_recent [OF _ i] assms(1) unfolding cop_swept_def by blast
    then have bc: "list_all2 (hidden cur ws) (filter (\<lambda>m. CmSessionID m = i) (message_rows b)) (filter (\<lambda>m. CmSessionID m = i) (message_rows c))"
      using assms(2) unfolding cop_swept_def by blast
    have ab: "list_all2 (hidden cur ws) (filter (\<lambda>m. CmSessionID m = i) (message_rows a)) (filter (\<lambda>m. CmSessionID m = i) (message_rows b))"
      using assms(1) i unfolding cop_swept_def by blast
    show ?thesis by (rule list_all2_trans [OF _ ab bc]) (rule hidden_trans)
  qed
  ultimately show ?thesis using assms(2) unfolding cop_swept_def by blast
qed

lemma redact_step_swept:
  assumes "pick_ok (pick sv)" "(tid, Some d) \<in> set ws" "cop_keys cdb"
    and "redact_step sv j tid (days_before (now (call sv)) d) batch k cdb = Inr (ct, cdb')"
  shows "cop_swept (now (call sv)) ws ttl0 cdb cdb' \<and>
    (0 < ct \<longrightarrow> length (filter (\<lambda>m. \<not> CmRedacted m) (message_rows cdb')) < length (filter (\<lambda>m. \<not> CmRedacted m) (message_rows cdb)))"
proof -
  let ?old = "\<lambda>m. CmTenantID m = tid \<and> CmCreatedAt m < days_before (now (call sv)) d \<and> \<not> CmRedacted m"
  define ids where "ids = pick sv (nat batch) (map CmID (filter ?old (message_rows cdb)))"
  define f where "f m = (if CmID m \<in> set ids then blank m else m)" for m
  have ct: "ct = length ids" "cdb' = cdb\<lparr>message_rows := map f (message_rows cdb)\<rparr>"
    using assms(4) by (auto simp: redact_step_def f_def ids_def [symmetric] blank_def Let_def cong: if_cong split: if_splits)
  have dist: "distinct (map CmID (message_rows cdb))" using assms(3) by (simp add: cop_keys_def)
  have sub: "set ids \<subseteq> CmID ` set (filter ?old (message_rows cdb))"
    using pick_distinct [OF assms(1) distinct_map_filter [OF dist], of "nat batch" ?old] by (simp add: ids_def)
  have old: "?old m" if "m \<in> set (message_rows cdb)" "CmID m \<in> set ids" for m
  proof -
    from that(2) sub obtain g where "g \<in> set (message_rows cdb)" "?old g" "CmID g = CmID m" by auto
    with that(1) dist show ?thesis by (metis distinct_map inj_on_def)
  qed
  have hid: "hidden (now (call sv)) ws m (f m)" if "m \<in> set (message_rows cdb)" for m
    using old [OF that] assms(2) by (auto simp: f_def hidden_def)
  have fid: "CmID (f m) = CmID m" "CmSessionID (f m) = CmSessionID m" for m by (simp_all add: f_def)
  have "cop_keys cdb'" using assms(3) by (simp add: cop_keys_def ct(2) comp_def fid)
  moreover have "list_all2 (hidden (now (call sv)) ws) (filter (\<lambda>m. CmSessionID m = i) (message_rows cdb)) (filter (\<lambda>m. CmSessionID m = i) (message_rows cdb'))" for i
  proof -
    have "filter (\<lambda>m. CmSessionID m = i) (message_rows cdb') = map f (filter (\<lambda>m. CmSessionID m = i) (message_rows cdb))"
      by (simp add: ct(2) filter_map comp_def fid)
    then show ?thesis using hid by (simp add: list_all2_map2 list_all2_same)
  qed
  moreover have "length (filter (\<lambda>m. \<not> CmRedacted m) (message_rows cdb')) < length (filter (\<lambda>m. \<not> CmRedacted m) (message_rows cdb))" if "0 < ct"
  proof -
    from that ct(1) obtain i where "i \<in> set ids" by (cases ids) auto
    with sub obtain m where m: "m \<in> set (message_rows cdb)" "?old m" "CmID m \<in> set ids" by auto
    have "(\<not> CmRedacted (f x)) = (\<not> CmRedacted x \<and> CmID x \<notin> set ids)" for x by (simp add: f_def)
    then have "length (filter (\<lambda>m. \<not> CmRedacted m) (message_rows cdb')) =
        length (filter (\<lambda>x. CmID x \<notin> set ids) (filter (\<lambda>m. \<not> CmRedacted m) (message_rows cdb)))"
      by (simp add: ct(2) filter_map comp_def)
    moreover have "\<dots> < length (filter (\<lambda>m. \<not> CmRedacted m) (message_rows cdb))"
      using m by (intro length_filter_less [of m]) auto
    ultimately show ?thesis by simp
  qed
  ultimately show ?thesis unfolding cop_swept_def by (simp add: ct(2))
qed

lemma activity_step_swept:
  assumes "pick_ok (pick sv)" "cop_keys cdb" "activity_step sv j tid cutoff batch k cdb = Inr (ct, cdb')"
  shows "cop_swept cur ws ttl0 cdb cdb' \<and> (0 < ct \<longrightarrow> length (activity_rows cdb') < length (activity_rows cdb))"
proof -
  let ?old = "\<lambda>a. AcTenantID a = tid \<and> AcCreatedAt a < cutoff"
  define ids where "ids = pick sv (nat batch) (map AcID (filter ?old (activity_rows cdb)))"
  have ct: "ct = length ids" "cdb' = cdb\<lparr>activity_rows := filter (\<lambda>a. AcID a \<notin> set ids) (activity_rows cdb)\<rparr>"
    using assms(3) by (auto simp: activity_step_def ids_def [symmetric] Let_def split: if_splits)
  have dist: "distinct (map AcID (activity_rows cdb))" using assms(2) by (simp add: cop_keys_def)
  have sub: "set ids \<subseteq> AcID ` set (filter ?old (activity_rows cdb))"
    using pick_distinct [OF assms(1) distinct_map_filter [OF dist], of "nat batch" ?old] by (simp add: ids_def)
  have "length (activity_rows cdb') < length (activity_rows cdb)" if "0 < ct"
  proof -
    from that ct(1) obtain i where "i \<in> set ids" by (cases ids) auto
    with sub obtain a where "a \<in> set (activity_rows cdb)" "AcID a \<in> set ids" by auto
    then show ?thesis by (simp add: ct(2) length_filter_less)
  qed
  then show ?thesis using assms(2) by (simp add: cop_swept_def cop_keys_def ct(2) list.rel_refl distinct_map_filter)
qed

lemma session_step_swept:
  assumes "pick_ok (pick sv)" "cop_keys cdb" "session_step sv ttl0 batch k cdb = Inr (ct, cdb')"
  shows "cop_swept cur ws ttl0 cdb cdb' \<and> (0 < ct \<longrightarrow> length (session_rows cdb') < length (session_rows cdb))"
proof -
  define ids where "ids = pick sv (nat batch) (stale_sessions ttl0 cdb)"
  have ct: "ct = length ids" "cdb' = cdb\<lparr>session_rows := filter (\<lambda>s. CsID s \<notin> set ids) (session_rows cdb),
      message_rows := filter (\<lambda>m. CmSessionID m \<notin> set ids) (message_rows cdb),
      activity_rows := filter (\<lambda>a. AcSessionID a \<notin> set ids) (activity_rows cdb)\<rparr>"
    using assms(3) by (auto simp: session_step_def ids_def [symmetric] Let_def split: if_splits)
  have dist: "distinct (map CsID (session_rows cdb))" using assms(2) by (simp add: cop_keys_def)
  have sub: "set ids \<subseteq> set (stale_sessions ttl0 cdb)"
    unfolding ids_def by (rule pick_distinct [OF assms(1)]) (simp add: stale_sessions_def distinct_map_filter [OF dist])
  have old: "CsUpdatedAt s < ttl0" if "s \<in> set (session_rows cdb)" "CsID s \<in> set ids" for s
  proof -
    from that(2) sub obtain g where "g \<in> set (session_rows cdb)" "CsUpdatedAt g < ttl0" "CsID g = CsID s" by (auto simp: stale_sessions_def)
    with that(1) dist show ?thesis by (metis distinct_map inj_on_def)
  qed
  have "length (session_rows cdb') < length (session_rows cdb)" if "0 < ct"
  proof -
    from that ct(1) obtain i where "i \<in> set ids" by (cases ids) auto
    with sub obtain s where "s \<in> set (session_rows cdb)" "CsID s \<in> set ids" by (auto simp: stale_sessions_def)
    then show ?thesis by (simp add: ct(2) length_filter_less)
  qed
  moreover have "filter (\<lambda>m. CmSessionID m = i) (message_rows cdb') = filter (\<lambda>m. CmSessionID m = i) (message_rows cdb)" if "recent ttl0 cdb i" for i
  proof -
    have "i \<notin> set ids" using that old by (auto simp: recent_def list_ex_iff)
    then show ?thesis by (auto simp: ct(2) intro!: filter_cong)
  qed
  moreover have "thinned (\<lambda>s. CsUpdatedAt s < ttl0) (session_rows cdb) (session_rows cdb')"
    using old by (auto simp: ct(2) intro!: thinned_filter)
  moreover have "cop_keys cdb'" using assms(2) by (simp add: cop_keys_def ct(2) distinct_map_filter)
  ultimately show ?thesis by (simp add: cop_swept_def list.rel_refl)
qed

lemma sweep_transcripts_swept:
  assumes "pick_ok (pick sv)" "0 < batch" "set ws \<subseteq> set all" "cop_keys cdb"
  shows "\<exists>err cdb'. sweep_transcripts sv batch j ws cdb = Some (err, cdb') \<and> cop_swept (now (call sv)) all ttl0 cdb cdb'"
  using assms(3,4)
proof (induction ws arbitrary: j cdb)
  case Nil
  then show ?case by (simp add: cop_swept_refl)
next
  case (Cons w ws)
  obtain tid x where w: "w = (tid, x)" by (cases w)
  define P where "P st = cop_swept (now (call sv)) all ttl0 cdb st" for st
  have P0: "P cdb" using Cons.prems(2) by (simp add: P_def cop_swept_refl)
  have keys: "P st \<Longrightarrow> cop_keys st" for st by (simp add: P_def cop_swept_def)
  have rest: "\<exists>e st'. sweep_transcripts sv batch (Suc j) ws st = Some (e, st') \<and> P st'" if "P st" for st
    using Cons.IH [OF _ keys [OF that], of "Suc j"] Cons.prems(1) that unfolding P_def by (auto intro: cop_swept_trans)
  show ?case
  proof (cases x)
    case None
    then show ?thesis using rest [OF P0] P0 unfolding w P_def by auto
  next
    case (Some d)
    let ?lim = "days_before (now (call sv)) d"
    have mem: "(tid, Some d) \<in> set all" using Cons.prems(1) w Some by simp
    have red: "\<exists>e st'. drain (redact_step sv j tid ?lim batch) batch 0 st = Some (e, st') \<and> P st'" if "P st" for st
    proof (rule drain_ends [where P = P and m = "\<lambda>st. length (filter (\<lambda>m. \<not> CmRedacted m) (message_rows st))", OF _ assms(2) that])
      fix k st ct st' assume a: "P st" "redact_step sv j tid ?lim batch k st = Inr (ct, st')"
      note s = redact_step_swept [OF assms(1) mem keys [OF a(1)] a(2)]
      have "P st'" using a(1) s unfolding P_def by (blast intro: cop_swept_trans)
      with s show "P st' \<and> (0 < ct \<longrightarrow> length (filter (\<lambda>m. \<not> CmRedacted m) (message_rows st')) < length (filter (\<lambda>m. \<not> CmRedacted m) (message_rows st)))"
        by blast
    qed
    have act: "\<exists>e st'. drain (activity_step sv j tid ?lim batch) batch 0 st = Some (e, st') \<and> P st'" if "P st" for st
    proof (rule drain_ends [where P = P and m = "\<lambda>st. length (activity_rows st)", OF _ assms(2) that])
      fix k st ct st' assume a: "P st" "activity_step sv j tid ?lim batch k st = Inr (ct, st')"
      note s = activity_step_swept [OF assms(1) keys [OF a(1)] a(2)]
      have "P st'" using a(1) s unfolding P_def by (blast intro: cop_swept_trans)
      with s show "P st' \<and> (0 < ct \<longrightarrow> length (activity_rows st') < length (activity_rows st))" by blast
    qed
    have "\<exists>e st'. sw_andThen (drain (redact_step sv j tid ?lim batch) batch 0 cdb) (\<lambda>cdb.
        sw_andThen (drain (activity_step sv j tid ?lim batch) batch 0 cdb) (sweep_transcripts sv batch (Suc j) ws)) = Some (e, st') \<and> P st'"
      by (intro sw_andThen_ends [where P = P] red act rest P0)
    then show ?thesis using P0 Some unfolding w P_def by (auto simp: Let_def)
  qed
qed

lemma sweepCopilot_swept:
  assumes "pick_ok (pick sv)" "0 < BatchSize cfg" "cop_keys cdb"
  shows "\<exists>err cdb'. sweepCopilot sv cfg db cdb = Some (err, cdb') \<and>
    cop_swept (now (call sv)) (transcript_windows db) (days_before (now (call sv)) (CopilotSessionTTLDays cfg)) cdb cdb'"
proof -
  let ?lim = "days_before (now (call sv)) (CopilotSessionTTLDays cfg)"
  define P where "P st = cop_swept (now (call sv)) (transcript_windows db) ?lim cdb st" for st
  have P0: "P cdb" using assms(3) by (simp add: P_def cop_swept_refl)
  have ses: "\<exists>e st'. drain (session_step sv ?lim (BatchSize cfg)) (BatchSize cfg) 0 st = Some (e, st') \<and> P st'" if "P st" for st
  proof (rule drain_ends [where P = P and m = "\<lambda>st. length (session_rows st)", OF _ assms(2) that])
    fix k st ct st' assume a: "P st" "session_step sv ?lim (BatchSize cfg) k st = Inr (ct, st')"
    have "cop_keys st" using a(1) by (simp add: P_def cop_swept_def)
    note s = session_step_swept [OF assms(1) this a(2)]
    have "P st'" using a(1) s unfolding P_def by (blast intro: cop_swept_trans)
    with s show "P st' \<and> (0 < ct \<longrightarrow> length (session_rows st') < length (session_rows st))" by blast
  qed
  have "\<exists>e st'. sweep_transcripts sv (BatchSize cfg) 0 (transcript_windows db) cdb = Some (e, st') \<and> P st'"
    using sweep_transcripts_swept [OF assms(1,2) subset_refl assms(3)] unfolding P_def by blast
  then have "\<exists>e st'. sw_andThen (sweep_transcripts sv (BatchSize cfg) 0 (transcript_windows db) cdb)
      (drain (session_step sv ?lim (BatchSize cfg)) (BatchSize cfg) 0) = Some (e, st') \<and> P st'"
    by (rule sw_andThen_ends [where P = P]) (rule ses)
  then show ?thesis using P0 unfolding sweepCopilot_def P_def by auto
qed

lemma batch_pos: "0 < BatchSize (withDefaults cfg)"
  by (simp add: withDefaults_def)

lemma filter_owns:
  assumes "distinct (map CsID rows)" "s \<in> set rows" "owns tid uid i s"
  shows "filter (owns tid uid i) rows = [s]"
proof -
  obtain xs ys where rows: "rows = xs @ s # ys" using assms(2) by (meson split_list)
  have "CsID s = i" using assms(3) by (simp add: owns_def)
  then have "\<not> owns tid uid i u" if "u \<in> set xs \<union> set ys" for u
    using assms(1) that by (auto simp: rows owns_def) (metis imageI)+
  then show ?thesis using assms(3) by (simp add: rows filter_empty_conv)
qed

text \<open>
  The sweeper never takes a conversation away from its user: a pass over the assistant's tables
  always ends, and a session that its user could resume is still there, unchanged, with every message
  of its transcript, blanked only where it is older than the window of the tenant's plan.
\<close>

theorem sweep_keeps_resumable:
  assumes "cop_keys cdb" "pick_ok (pick sv)" "now (call sv) \<le> now v"
    and "GetSession v (session_ttl (CopilotSessionTTLDays cfg)) cdb p tid i = Inr s"
  shows "\<exists>err cdb'. sweepCopilot sv (withDefaults cfg) db cdb = Some (err, cdb') \<and>
    GetSession v (session_ttl (CopilotSessionTTLDays cfg)) cdb' p tid i = Inr s \<and>
    list_all2 (hidden (now (call sv)) (transcript_windows db)) (filter (\<lambda>m. CmSessionID m = i) (message_rows cdb))
      (filter (\<lambda>m. CmSessionID m = i) (message_rows cdb'))"
proof -
  let ?lim = "days_before (now (call sv)) (CopilotSessionTTLDays (withDefaults cfg))" and ?ttl = "session_ttl (CopilotSessionTTLDays cfg)"
  obtain err cdb' where r: "sweepCopilot sv (withDefaults cfg) db cdb = Some (err, cdb')"
      "cop_swept (now (call sv)) (transcript_windows db) ?lim cdb cdb'"
    using sweepCopilot_swept [OF assms(2) batch_pos assms(1)] by blast
  have own: "s \<in> set (session_rows cdb)" "owns tid (PUserID p) i s" using GetSession_owned [OF assms(4)] by auto
  have fresh: "now v - ?ttl \<le> CsUpdatedAt s" "\<not> fault v ''getting copilot session'' 0"
    using assms(4) by (auto simp: GetSession_def store_GetSession_def assertResumeWindow_def split: if_splits sum.splits option.splits list.splits)
  have "?lim \<le> now (call sv) - ?ttl"
    using Truncate_le [of Microsecond "now (call sv) - ?ttl"] by (simp add: days_before_def session_ttl_def withDefaults_def Microsecond_def)
  then have new: "\<not> CsUpdatedAt s < ?lim" using fresh(1) assms(3) by linarith
  have keys: "cop_keys cdb'" using r(2) by (simp add: cop_swept_def)
  obtain keep where keep: "session_rows cdb' = filter keep (session_rows cdb)" "\<forall>u \<in> set (session_rows cdb). \<not> keep u \<longrightarrow> CsUpdatedAt u < ?lim"
    using r(2) by (auto simp: cop_swept_def thinned_def)
  then have "s \<in> set (session_rows cdb')" using own(1) new by auto
  then have "filter (owns tid (PUserID p) i) (session_rows cdb') = [s]"
    using filter_owns own(2) keys by (simp add: cop_keys_def)
  then have "GetSession v ?ttl cdb' p tid i = Inr s"
    using fresh by (simp add: GetSession_def store_GetSession_def assertResumeWindow_def)
  moreover have "recent ?lim cdb i" using own new by (auto simp: recent_def list_ex_iff owns_def)
  ultimately show ?thesis using r unfolding cop_swept_def by blast
qed

theorem sweep_keeps_resumable_witness:
  "\<exists>err cdb'. sweepCopilot (sample_sweep\<lparr>call := sample_env\<rparr>) (withDefaults sample_retention) sample_db sample_copilot = Some (err, cdb') \<and>
     GetSession sample_env (session_ttl 7) cdb' (sample_user ''u'') ''t'' ''s'' = Inr (hd (session_rows sample_copilot))"
proof -
  have keys: "cop_keys sample_copilot" by (simp add: cop_keys_def sample_copilot_def)
  have pick: "pick_ok (pick (sample_sweep\<lparr>call := sample_env\<rparr>))" using take_pick_ok by (simp add: sample_sweep_def)
  have get: "GetSession sample_env (session_ttl (CopilotSessionTTLDays sample_retention)) sample_copilot (sample_user ''u'') ''t'' ''s'' =
      Inr (hd (session_rows sample_copilot))" by code_simp
  have "now (call (sample_sweep\<lparr>call := sample_env\<rparr>)) \<le> now sample_env" by simp
  from sweep_keeps_resumable [OF keys pick this get, of sample_db] show ?thesis by (auto simp: sample_retention_def)
qed

end
