(* ===== verification/Collector_Data.thy ===== *)
theory Collector_Data
  imports Audit_Model "HOL-Library.AList"
begin

text \<open>
  The data of the Claude Code collector (claude-code-plugin/collector): its configuration, the hook
  payload, the session state kept between hooks, the outgoing operations and the journal envelope; and
  the pure functions on them: capture-mode redaction (redact.go), the audited resource of a tool call
  (resource.go), model usage (otel.go), the verdict on a tool call, request bodies and the reading of a
  backend answer.

  A \<open>json.RawMessage\<close> is its JSON value, \<open>None\<close> when it has no bytes; a decoded object is the list of its
  fields, of which the last one with a key counts.  A Go map built by the program is an association
  list.  SHA-256 and the two directions of float formatting are fields of \<open>cc_lib\<close>; lower case is
  taken on ASCII letters.
\<close>

section \<open>Records\<close>

record cc_lib =
  LibHash :: hash_function
  LibParseFloat :: "string \<Rightarrow> rat option"
  LibFormatFloat :: "rat \<Rightarrow> string"

definition CaptureHash :: string where "CaptureHash = ''hash''"
definition CaptureMetadata :: string where "CaptureMetadata = ''metadata''"
definition CaptureRawMode :: string where "CaptureRawMode = ''raw''"

record cc_config =
  CfgAPIKey :: string
  CfgBaseURL :: string
  CfgActorID :: string
  CfgActorEmail :: string
  CfgCaptureMode :: string
  CfgDisabled :: bool
  CfgStateDir :: string
  CfgSpoolMaxBytes :: int
  CfgRequestMaxBytes :: int

record assistant_message =
  AmID :: string
  AmSource :: string
  AmUUID :: string
  AmTimestamp :: string
  AmModel :: string
  AmContent :: json

record turn_stats =
  TsTurnID :: string
  TsResponseText :: string
  TsInputTokens :: int
  TsOutputTokens :: int
  TsModel :: string
  TsMessages :: "assistant_message list"
  TsCaptureStatus :: string
  TsCaptureReason :: string

record hook_input =
  InSessionID :: string
  InAgentTranscriptPath :: string
  InTranscriptPath :: string
  InCwd :: string
  InPermissionMode :: string
  InHookEventName :: string
  InToolName :: string
  InToolInput :: "json option"
  InToolResponse :: "json option"
  InToolUseID :: string
  InPrompt :: string
  InSource :: string
  InMessage :: string
  InAgentType :: string
  InAgentID :: string
  InReason :: string
  InError :: string
  InTimestamp :: string
  InLastAssistantMessage :: "string option"
  InCapturedTurn :: "turn_stats option"
  InTotalCostUSD :: rat
  InDurationMs :: int
  InUsage :: "json option"

record span_start =
  SpSpanID :: string
  SpName :: string
  SpStartedAt :: string
  SpMetadata :: "(string \<times> string) list"
  SpInput :: "json option"
  SpParentSpanID :: string

definition zero_span :: span_start where
  "zero_span = \<lparr>SpSpanID = '''', SpName = '''', SpStartedAt = '''', SpMetadata = [], SpInput = None, SpParentSpanID = ''''\<rparr>"

record session_state =
  SsSessionID :: string
  SsExecutionKey :: string
  SsExecutionID :: string
  SsTurnSpanID :: string
  SsPendingSpans :: "(string \<times> span_start) list"
  SsCompletedTools :: "(string \<times> bool) list"
  SsClosed :: bool

definition fresh_state :: "string \<Rightarrow> session_state" where
  "fresh_state sid =
     \<lparr>SsSessionID = sid, SsExecutionKey = '''', SsExecutionID = '''', SsTurnSpanID = '''', SsPendingSpans = [],
      SsCompletedTools = [], SsClosed = False\<rparr>"

record audit_input =
  EiID :: string
  EiTimestamp :: string
  EiActor :: actor
  EiAction :: string
  EiResource :: resource
  EiOutcome :: string
  EiMetadata :: "metadata option"

definition dlKindAudit :: string where "dlKindAudit = ''audit''"
definition dlKindSpans :: string where "dlKindSpans = ''spans''"
definition dlKindEndExecution :: string where "dlKindEndExecution = ''end_execution''"

record dead_letter =
  DlKind :: string
  DlSavedAt :: string
  DlAttempts :: int
  DlAudit :: "audit_input option"
  DlExecutionID :: string
  DlSpans :: "json list"
  DlStatus :: string
  DlEndedAt :: string

definition audit_op :: "audit_input \<Rightarrow> dead_letter" where
  "audit_op e =
     \<lparr>DlKind = dlKindAudit, DlSavedAt = '''', DlAttempts = 0, DlAudit = Some e, DlExecutionID = '''', DlSpans = [],
      DlStatus = '''', DlEndedAt = ''''\<rparr>"

definition spans_op :: "string \<Rightarrow> json list \<Rightarrow> dead_letter" where
  "spans_op eid spans =
     \<lparr>DlKind = dlKindSpans, DlSavedAt = '''', DlAttempts = 0, DlAudit = None, DlExecutionID = eid, DlSpans = spans,
      DlStatus = '''', DlEndedAt = ''''\<rparr>"

definition end_op :: "string \<Rightarrow> string \<Rightarrow> string \<Rightarrow> dead_letter" where
  "end_op eid status endedAt =
     \<lparr>DlKind = dlKindEndExecution, DlSavedAt = '''', DlAttempts = 0, DlAudit = None, DlExecutionID = eid, DlSpans = [],
      DlStatus = status, DlEndedAt = endedAt\<rparr>"

record hook_envelope =
  EnvID :: string
  EnvEvent :: string
  EnvInput :: hook_input
  EnvReceivedAt :: string
  EnvCaptureMode :: string
  EnvPrepared :: bool
  EnvState :: "session_state option"
  EnvOperations :: "dead_letter list"
  EnvNext :: int
  EnvAttempts :: int
  EnvLastError :: string
  EnvPermanent :: bool
  EnvConfigKey :: string

section \<open>Configuration\<close>

definition RawCapture :: "cc_config \<Rightarrow> bool" where
  "RawCapture cfg = (CfgCaptureMode cfg = CaptureRawMode)"

definition isTruthy :: "string \<Rightarrow> bool" where
  "isTruthy s = (ToLower (TrimSpace s) \<in> {''1'', ''true'', ''yes'', ''on''})"

definition captureModeFromEnv :: "(string \<Rightarrow> string) \<Rightarrow> string" where
  "captureModeFromEnv getenv =
     (let mode = ToLower (TrimSpace (getenv ''FACT0_CC_CAPTURE_MODE''))
      in if mode \<in> {CaptureHash, CaptureMetadata, CaptureRawMode} then mode
         else if mode \<noteq> '''' then CaptureRawMode
         else if isTruthy (getenv ''FACT0_CC_CAPTURE_RAW'') then CaptureRawMode
         else CaptureRawMode)"

definition positiveBytes :: "(string \<Rightarrow> string) \<Rightarrow> string \<Rightarrow> int \<Rightarrow> int" where
  "positiveBytes getenv name fallback =
     (case ParseInt10 64 (TrimSpace (getenv name)) of None \<Rightarrow> fallback | Some v \<Rightarrow> if v \<le> 0 then fallback else v)"

text \<open>The default state directory, resolved by the operating system, is an argument.\<close>

definition LoadConfig :: "(string \<Rightarrow> string) \<Rightarrow> string \<Rightarrow> cc_config" where
  "LoadConfig getenv defaultStateDir =
     (let stateDir = TrimSpace (getenv ''FACT0_CC_STATE_DIR''); baseURL = TrimSpace (getenv ''FACT0_BASE_URL'')
      in \<lparr>CfgAPIKey = TrimSpace (getenv ''FACT0_API_KEY''),
          CfgBaseURL = (if baseURL = '''' then ''http://localhost:8000'' else baseURL),
          CfgActorID = TrimSpace (getenv ''FACT0_CC_ACTOR_ID''),
          CfgActorEmail = TrimSpace (getenv ''FACT0_CC_ACTOR_EMAIL''),
          CfgCaptureMode = captureModeFromEnv getenv,
          CfgDisabled = isTruthy (getenv ''FACT0_CC_DISABLED''),
          CfgStateDir = (if stateDir = '''' then defaultStateDir else stateDir),
          CfgSpoolMaxBytes = positiveBytes getenv ''FACT0_CC_SPOOL_MAX_BYTES'' 268435456,
          CfgRequestMaxBytes = positiveBytes getenv ''FACT0_CC_REQUEST_MAX_BYTES'' 4194304\<rparr>)"

definition spoolLimit :: "cc_config \<Rightarrow> int" where
  "spoolLimit cfg = (if 0 < CfgSpoolMaxBytes cfg then CfgSpoolMaxBytes cfg else 268435456)"

definition requestLimit :: "cc_config \<Rightarrow> int" where
  "requestLimit cfg =
     (if 0 < CfgRequestMaxBytes cfg \<and> CfgRequestMaxBytes cfg < 4194304 then CfgRequestMaxBytes cfg else 4194304)"

definition Sha256Hex :: "cc_lib \<Rightarrow> string \<Rightarrow> string" where
  "Sha256Hex L s = hex_encode (LibHash L s)"

definition configKey :: "cc_lib \<Rightarrow> cc_config \<Rightarrow> string" where
  "configKey L cfg =
     Sha256Hex L (CfgBaseURL cfg @ ''|'' @ CfgCaptureMode cfg @ ''|'' @ FormatInt (requestLimit cfg) @ ''|'' @
       FormatInt (spoolLimit cfg) @ ''|'' @ CfgAPIKey cfg)"

section \<open>Capture modes\<close>

definition len_json :: "string \<Rightarrow> json" where
  "len_json s = JNum (FormatInt (int (length s)))"

text \<open>\<open>utf8.RuneStart\<close> holds of every byte but a continuation byte.\<close>

fun rune_start_at :: "string \<Rightarrow> nat \<Rightarrow> nat" where
  "rune_start_at s 0 = 0"
| "rune_start_at s (Suc n) = (if cont_byte (s ! Suc n) then rune_start_at s n else Suc n)"

definition truncate_bytes :: "string \<Rightarrow> nat \<Rightarrow> string" where
  "truncate_bytes s n = (if length s \<le> n then s else take (rune_start_at s n) s)"

definition locatorKeys :: "string list" where
  "locatorKeys = [''command'', ''file_path'', ''notebook_path'', ''path'', ''pattern'', ''url'', ''query'']"

definition locatorPreviewLen :: nat where "locatorPreviewLen = 200"

definition digest_json :: "cc_lib \<Rightarrow> string \<Rightarrow> json" where
  "digest_json L t = JObj [(''sha256'', JStr (Sha256Hex L t)), (''len'', len_json t)]"

definition redact_string :: "cc_lib \<Rightarrow> string \<Rightarrow> string \<Rightarrow> string \<Rightarrow> json" where
  "redact_string L key t mode =
     (if mode = CaptureRawMode then JStr t
      else if mode = CaptureMetadata \<and> key \<in> set locatorKeys
      then (if locatorPreviewLen < length t
            then JObj [(''preview'', JStr (truncate_bytes t locatorPreviewLen)), (''sha256'', JStr (Sha256Hex L t)),
                       (''len'', len_json t), (''truncated'', JBool True)]
            else JStr t)
      else digest_json L t)"

fun redact_value :: "cc_lib \<Rightarrow> string \<Rightarrow> string \<Rightarrow> json \<Rightarrow> json" where
  "redact_value L mode key (JStr t) = redact_string L key t mode"
| "redact_value L mode key (JObj kvs) = JObj (dedup_last (map (\<lambda>(k, v). (k, redact_value L mode k v)) kvs))"
| "redact_value L mode key (JArr xs) = JArr (map (redact_value L mode key) xs)"
| "redact_value L mode key v = v"

definition RedactInput :: "cc_lib \<Rightarrow> json option \<Rightarrow> string \<Rightarrow> json" where
  "RedactInput L raw mode =
     (case raw of
        None \<Rightarrow> JObj []
      | Some v \<Rightarrow> (case redact_value L mode '''' v of JObj m \<Rightarrow> JObj m | m \<Rightarrow> JObj [(''value'', m)]))"

definition SummarizeOutput :: "cc_lib \<Rightarrow> json option \<Rightarrow> string \<Rightarrow> json" where
  "SummarizeOutput L raw mode0 =
     (let mode = (if mode0 = CaptureMetadata then CaptureHash else mode0) in RedactInput L raw mode)"

definition capturedError :: "cc_config \<Rightarrow> string \<Rightarrow> string" where
  "capturedError cfg s = (if RawCapture cfg then s else truncate_bytes s 500)"

section \<open>The audited resource\<close>

definition jget :: "(string \<times> json) list \<Rightarrow> string \<Rightarrow> json option" where
  "jget fs k = map_of (rev fs) k"

definition stringField :: "(string \<times> json) list \<Rightarrow> string \<Rightarrow> string" where
  "stringField m key = (case jget m key of Some (JStr v) \<Rightarrow> v | _ \<Rightarrow> '''')"

text \<open>\<open>filepath.Base\<close> on a separator \<open>/\<close>.\<close>

definition Base :: "string \<Rightarrow> string" where
  "Base path =
     (if path = '''' then ''.''
      else let p = TrimRightChar (CHR ''/'') path; b = rev (takeWhile (\<lambda>c. c \<noteq> CHR ''/'') (rev p))
           in if b = '''' then ''/'' else b)"

definition object_fields :: "json option \<Rightarrow> (string \<times> json) list" where
  "object_fields raw = (case raw of Some (JObj fs) \<Rightarrow> fs | _ \<Rightarrow> [])"

definition ResourceFromTool :: "cc_lib \<Rightarrow> string \<Rightarrow> json option \<Rightarrow> string \<Rightarrow> resource" where
  "ResourceFromTool L toolName toolInput mode =
     (let fields = object_fields toolInput; hashOnly = (mode = CaptureHash)
      in if toolName = ''Bash''
         then (let cmd = stringField fields ''command''
               in \<lparr>ResourceID = Sha256Hex L cmd, ResourceType = ''shell.command'',
                   ResourceName = (if hashOnly then '''' else truncate_bytes cmd locatorPreviewLen)\<rparr>)
         else if toolName \<in> {''Read'', ''Edit'', ''Write'', ''MultiEdit'', ''NotebookEdit''}
         then (let p0 = stringField fields ''file_path''; path = (if p0 = '''' then stringField fields ''notebook_path'' else p0)
               in if path = ''''
                  then \<lparr>ResourceID = toolName, ResourceType = ''claude_code.tool'', ResourceName = toolName\<rparr>
                  else if hashOnly
                  then \<lparr>ResourceID = Sha256Hex L path, ResourceType = ''file'', ResourceName = ''''\<rparr>
                  else \<lparr>ResourceID = path, ResourceType = ''file'', ResourceName = Base path\<rparr>)
         else if HasPrefix toolName ''mcp__''
         then \<lparr>ResourceID = toolName, ResourceType = ''mcp.tool'', ResourceName = toolName\<rparr>
         else \<lparr>ResourceID = toolName, ResourceType = ''claude_code.tool'', ResourceName = toolName\<rparr>)"

section \<open>Model usage and the verdict on a tool call\<close>

text \<open>\<open>json.Unmarshal\<close> into an \<open>any\<close> without \<open>UseNumber\<close> fails when a number is out of the range of a float.\<close>

fun floats_ok :: "cc_lib \<Rightarrow> json \<Rightarrow> bool" where
  "floats_ok L (JNum s) = (LibParseFloat L s \<noteq> None)"
| "floats_ok L (JArr xs) = list_all (floats_ok L) xs"
| "floats_ok L (JObj kvs) = list_all (\<lambda>(k, v). floats_ok L v) kvs"
| "floats_ok L _ = True"

definition usageNumber :: "cc_lib \<Rightarrow> json option \<Rightarrow> rat option" where
  "usageNumber L v = (case v of Some (JNum s) \<Rightarrow> LibParseFloat L s | _ \<Rightarrow> None)"

text \<open>The first key whose value is a non-empty string, and the first whose value is a number.\<close>

fun first_name :: "(string \<times> json) list \<Rightarrow> string list \<Rightarrow> string option" where
  "first_name u [] = None"
| "first_name u (k # ks) = (case jget u k of Some (JStr v) \<Rightarrow> if v \<noteq> '''' then Some v else first_name u ks | _ \<Rightarrow> first_name u ks)"

fun first_number :: "cc_lib \<Rightarrow> (string \<times> json) list \<Rightarrow> string list \<Rightarrow> rat option" where
  "first_number L u [] = None"
| "first_number L u (k # ks) = (case usageNumber L (jget u k) of Some v \<Rightarrow> Some v | None \<Rightarrow> first_number L u ks)"

definition copyToken :: "cc_lib \<Rightarrow> (string \<times> json) list \<Rightarrow> string list \<Rightarrow> string \<Rightarrow> (string \<times> json) list" where
  "copyToken L usage srcKeys dst = (case first_number L usage srcKeys of None \<Rightarrow> [] | Some v \<Rightarrow> [(dst, JNum (LibFormatFloat L v))])"

definition parsed_usage :: "cc_lib \<Rightarrow> hook_input \<Rightarrow> (string \<times> json) list" where
  "parsed_usage L i = (case InUsage i of Some (JObj fs) \<Rightarrow> if floats_ok L (JObj fs) then fs else [] | _ \<Rightarrow> [])"

definition parent_field :: "string \<Rightarrow> (string \<times> json) list" where
  "parent_field p = (if p \<noteq> '''' then [(''parent_span_id'', JStr p)] else [])"

text \<open>\<open>sid\<close> is the identifier drawn for the span, \<open>clock\<close> the time read when the hook has no timestamp.\<close>

definition MaybeModelInvocationSpan :: "cc_lib \<Rightarrow> string \<Rightarrow> string \<Rightarrow> hook_input \<Rightarrow> string \<Rightarrow> string \<Rightarrow> json option" where
  "MaybeModelInvocationSpan L sid clock i executionID parentSpanID =
     (let usage = parsed_usage L i; hasUsage = (usage \<noteq> [])
      in if InTotalCostUSD i \<le> 0 \<and> \<not> hasUsage then None
         else let model = (case first_name usage [''model'', ''model_name''] of Some v \<Rightarrow> v | None \<Rightarrow> ''claude'');
                  mi = [(''model_name'', JStr model), (''cost_usd'', JNum (LibFormatFloat L (InTotalCostUSD i)))] @
                       copyToken L usage [''input_tokens'', ''prompt_tokens''] ''prompt_tokens'' @
                       copyToken L usage [''output_tokens'', ''completion_tokens''] ''completion_tokens'' @
                       copyToken L usage [''total_tokens'', ''total''] ''total_tokens'';
                  cur = (if InTimestamp i = '''' then clock else InTimestamp i)
              in Some (JObj ([(''id'', JStr sid), (''execution_id'', JStr executionID), (''span_type'', JStr ''MODEL_INVOCATION''),
                   (''name'', JStr ''model_invocation''), (''status'', JStr ''COMPLETED''), (''started_at'', JStr cur),
                   (''ended_at'', JStr cur), (''model_invocation'', JObj mi), (''metadata'', JObj [])] @ parent_field parentSpanID)))"

definition response_failed :: "cc_lib \<Rightarrow> (string \<times> json) list \<Rightarrow> bool" where
  "response_failed L resp =
     (jget resp ''is_error'' = Some (JBool True) \<or> jget resp ''success'' = Some (JBool False) \<or>
      (case jget resp ''status'' of Some (JStr s) \<Rightarrow> EqualFold s ''error'' | _ \<Rightarrow> False) \<or>
      (case jget resp ''error'' of Some (JStr s) \<Rightarrow> s \<noteq> '''' | _ \<Rightarrow> False) \<or>
      (case jget resp ''exit_code'' of
         Some (JNum c) \<Rightarrow> (case LibParseFloat L c of Some n \<Rightarrow> n \<noteq> 0 | None \<Rightarrow> False)
       | _ \<Rightarrow> False))"

definition toolCallFailed :: "cc_lib \<Rightarrow> hook_input \<Rightarrow> bool" where
  "toolCallFailed L i = (InError i \<noteq> '''' \<or> response_failed L (object_fields (InToolResponse i)))"

section \<open>Requests and answers\<close>

definition audit_input_json :: "audit_input \<Rightarrow> json" where
  "audit_input_json e =
     JObj (omitempty ''id'' (EiID e) @ omitempty ''timestamp'' (EiTimestamp e) @
       [(''actor'', actor_json (EiActor e)), (''action'', JStr (EiAction e)), (''resource'', resource_json (EiResource e)),
        (''outcome'', JStr (EiOutcome e))] @
       (case EiMetadata e of None \<Rightarrow> [] | Some [] \<Rightarrow> [] | Some m \<Rightarrow> [(''metadata'', JObj m)]))"

definition operationBody :: "dead_letter \<Rightarrow> json" where
  "operationBody d =
     (if DlKind d = dlKindAudit
      then JObj [(''events'', JArr [case DlAudit d of None \<Rightarrow> JNull | Some e \<Rightarrow> audit_input_json e])]
      else if DlKind d = dlKindSpans then JObj [(''spans'', JArr (DlSpans d))]
      else if DlKind d = dlKindEndExecution
      then JObj ((''status'', JStr (DlStatus d)) # omitempty ''ended_at'' (DlEndedAt d))
      else JNull)"

text \<open>Errors of a delivery; a \<open>permanentDeliveryError\<close> wraps one.\<close>

datatype delivery_error = PermanentDelivery string | OtherDelivery string

fun delivery_message :: "delivery_error \<Rightarrow> string" where
  "delivery_message (PermanentDelivery m) = m"
| "delivery_message (OtherDelivery m) = m"

definition isPermanentDelivery :: "delivery_error \<Rightarrow> bool" where
  "isPermanentDelivery e =
     (case e of
        PermanentDelivery m \<Rightarrow> True
      | OtherDelivery m \<Rightarrow> Contains m '': 400 '' \<or> Contains m '': 413 '' \<or> Contains m '': 422 '')"

text \<open>
  The answer is decoded with \<open>UseNumber\<close>; a count that is not a 64-bit integer literal is never the
  expected one.
\<close>

definition batch_rejection :: "cc_lib \<Rightarrow> (string \<times> json) list \<Rightarrow> string option" where
  "batch_rejection L resp =
     (case jget resp ''errors'' of
        Some (JArr (x # xs)) \<Rightarrow> Some (''batch item rejection: '' @ print_json (JArr (x # xs)))
      | _ \<Rightarrow>
          (case jget resp ''rejected'' of
             Some (JNum r) \<Rightarrow>
               (case LibParseFloat L r of
                  Some n \<Rightarrow> if 0 < n then Some (''audit batch rejected '' @ r @ '' items'') else None
                | None \<Rightarrow> None)
           | _ \<Rightarrow> None))"

definition checkAcceptance :: "cc_lib \<Rightarrow> (string \<times> json) list \<Rightarrow> string \<Rightarrow> nat \<Rightarrow> delivery_error option" where
  "checkAcceptance L resp countField want =
     (case batch_rejection L resp of
        Some m \<Rightarrow> Some (PermanentDelivery m)
      | None \<Rightarrow>
          (case jget resp countField of
             Some (JNum s) \<Rightarrow>
               (let n = (case ParseInt10 64 s of Some i \<Rightarrow> i | None \<Rightarrow> 0)
                in if n \<noteq> int want
                   then Some (PermanentDelivery (''backend accepted '' @ FormatInt n @ '' of '' @ FormatInt (int want) @ '' items''))
                   else None)
           | _ \<Rightarrow> Some (OtherDelivery (''backend response missing '' @ countField @ ''; acceptance unconfirmed''))))"

section \<open>State files\<close>

text \<open>\<open>strings.Map\<close> works rune by rune; bytes that are no rune become \<open>_\<close> like any rune outside the set.\<close>

definition session_char :: "char \<Rightarrow> bool" where
  "session_char c =
     ((CHR ''a'' \<le> c \<and> c \<le> CHR ''z'') \<or> (CHR ''A'' \<le> c \<and> c \<le> CHR ''Z'') \<or> (CHR ''0'' \<le> c \<and> c \<le> CHR ''9'') \<or>
      c = CHR ''-'' \<or> c = CHR ''_'' \<or> c = CHR ''.'')"

definition map_session_rune :: "string \<Rightarrow> char" where
  "map_session_rune r = (if length r = 1 \<and> session_char (hd r) then hd r else CHR ''_'')"

definition safeSessionID :: "cc_lib \<Rightarrow> string \<Rightarrow> string" where
  "safeSessionID L sid =
     (if sid = '''' then ''default''
      else let mapped = map map_session_rune (runes sid)
           in if mapped = '''' \<or> mapped = ''.'' \<or> mapped = ''..'' then ''default-'' @ take 16 (Sha256Hex L sid)
              else if mapped \<noteq> sid then mapped @ ''-'' @ take 16 (Sha256Hex L sid)
              else mapped)"

text \<open>The name of the state file in the state directory.\<close>

definition StatePath :: "cc_lib \<Rightarrow> string \<Rightarrow> string" where
  "StatePath L sid = ''session-'' @ safeSessionID L sid @ ''.json''"

text \<open>
  What reading a journal gives back for the fields that were written: an empty \<open>json.RawMessage\<close> of a field
  without \<open>omitempty\<close> is written as \<open>null\<close> and read back as the four bytes \<open>null\<close>.
\<close>

definition reread_raw :: "json option \<Rightarrow> json option" where
  "reread_raw raw = (case raw of None \<Rightarrow> Some JNull | Some v \<Rightarrow> Some v)"

definition reread_input :: "hook_input \<Rightarrow> hook_input" where
  "reread_input i = i\<lparr>InToolInput := reread_raw (InToolInput i), InToolResponse := reread_raw (InToolResponse i)\<rparr>"

definition reread :: "hook_envelope \<Rightarrow> hook_envelope" where
  "reread env = env\<lparr>EnvInput := reread_input (EnvInput env)\<rparr>"

end
