(* ===== verification/Collector_Transcript.thy ===== *)
theory Collector_Transcript
  imports Collector_Data
begin

text \<open>
  transcript.go and transcript_capture.go: the assistant's side of a turn, read from the session's
  transcript and completed by the final text a Stop hook carries.

  A transcript is a file of JSON lines.  \<open>UnmarshalLine\<close> is \<open>json.Unmarshal\<close> of one line into the struct
  \<open>transcriptLine\<close>, of which the content is kept both as its bytes and as its value; a file is its
  bytes with the outcomes of the system calls on it.  Token counts are \<open>int64\<close> with its wrap-around.
  \<open>captured_turn_stable\<close>: reading a turn by its identifier gives the same turn whatever is appended
  to the transcript from the next prompt on.  \<open>applyFinalAssistant_idem\<close>: applying the hook's final text
  again changes nothing, so preparing a journal again after a crash is safe.
\<close>

definition int64 :: "int \<Rightarrow> int" where
  "int64 x = (x + 2 ^ 63) mod 2 ^ 64 - 2 ^ 63"

record transcript_line =
  LnType :: string
  LnUUID :: string
  LnTimestamp :: string
  LnIsMeta :: bool
  LnMsgID :: string
  LnMsgModel :: string
  LnContentText :: string
  LnContent :: json
  LnInputTokens :: int
  LnOutputTokens :: int
  LnCacheRead :: int
  LnCacheCreation :: int

record transcript_file =
  TfBytes :: string
  TfStatSize :: "int option"
  TfSeekError :: "string option"
  TfReadError :: "string option"

record transcript_env =
  UnmarshalLine :: "string \<Rightarrow> transcript_line option"
  OpenFile :: "string \<Rightarrow> string + transcript_file"

definition maxTranscriptBytes :: nat where "maxTranscriptBytes = 268435456"

section \<open>Content blocks\<close>

text \<open>
  \<open>json.Unmarshal\<close> into a string and into a slice of the struct \<open>contentBlock\<close>: \<open>null\<close> leaves the target as it
  is, field names match without regard to case, a value of another type is an error.
\<close>

definition decode_string :: "json \<Rightarrow> string option" where
  "decode_string x = (case x of JStr s \<Rightarrow> Some s | JNull \<Rightarrow> Some '''' | _ \<Rightarrow> None)"

definition string_member :: "(string \<times> json) list \<Rightarrow> string \<Rightarrow> string option" where
  "string_member fs name =
     (let ms = map snd (filter (\<lambda>(k, y). fold_name k = name) fs); strs = filter (\<lambda>y. y \<noteq> JNull) ms
      in if list_all (\<lambda>y. decode_string y \<noteq> None) ms then (if strs = [] then Some '''' else decode_string (last strs)) else None)"

definition decode_block :: "json \<Rightarrow> (string \<times> string) option" where
  "decode_block x =
     (case x of
        JObj fs \<Rightarrow>
          (case (string_member fs ''type'', string_member fs ''text'') of (Some a, Some b) \<Rightarrow> Some (a, b) | _ \<Rightarrow> None)
      | JNull \<Rightarrow> Some ('''', '''')
      | _ \<Rightarrow> None)"

definition decode_blocks :: "json \<Rightarrow> (string \<times> string) list option" where
  "decode_blocks x =
     (case x of
        JNull \<Rightarrow> Some []
      | JArr xs \<Rightarrow> if list_all (\<lambda>y. decode_block y \<noteq> None) xs then Some (map (the \<circ> decode_block) xs) else None
      | _ \<Rightarrow> None)"

definition text_blocks :: "(string \<times> string) list \<Rightarrow> string list" where
  "text_blocks bs = map snd (filter (\<lambda>(t, x). t = ''text'') bs)"

text \<open>No bytes of content are no JSON text.\<close>

definition realUserPrompt :: "transcript_line \<Rightarrow> bool" where
  "realUserPrompt line =
     (LnContentText line \<noteq> '''' \<and>
      (case decode_string (LnContent line) of
         Some _ \<Rightarrow> True
       | None \<Rightarrow>
           (case decode_blocks (LnContent line) of
              None \<Rightarrow> False
            | Some bs \<Rightarrow> \<not> list_ex (\<lambda>(t, x). t = ''tool_result'') bs \<and> list_ex (\<lambda>(t, x). t \<noteq> '''') bs)))"

section \<open>Scanning\<close>

record scan =
  ScTurnID :: string
  ScMessages :: "assistant_message list"
  ScOrder :: "string list"
  ScUsages :: "(string \<times> int \<times> int \<times> string) list"
  ScSeen :: "string list"
  ScTexts :: "string list"
  ScPartial :: string

definition scan_start :: "string \<Rightarrow> scan" where
  "scan_start reason =
     \<lparr>ScTurnID = '''', ScMessages = [], ScOrder = [], ScUsages = [], ScSeen = [], ScTexts = [], ScPartial = reason\<rparr>"

definition scan_prompt :: "cc_lib \<Rightarrow> string \<Rightarrow> transcript_line \<Rightarrow> scan \<Rightarrow> scan" where
  "scan_prompt L raw line sc =
     (scan_start '''')\<lparr>ScTurnID := (if LnUUID line = '''' then ''prompt-'' @ Sha256Hex L raw else LnUUID line)\<rparr>"

definition message_id :: "cc_lib \<Rightarrow> string \<Rightarrow> transcript_line \<Rightarrow> string" where
  "message_id L raw line =
     (if LnMsgID line \<noteq> '''' then LnMsgID line else if LnUUID line \<noteq> '''' then LnUUID line else ''record-'' @ Sha256Hex L raw)"

definition scan_usage :: "cc_lib \<Rightarrow> string \<Rightarrow> transcript_line \<Rightarrow> scan \<Rightarrow> scan" where
  "scan_usage L raw line sc =
     (let i = message_id L raw line;
          old = (case map_of (ScUsages sc) i of Some u \<Rightarrow> u | None \<Rightarrow> (0, 0, ''''));
          input = int64 (LnInputTokens line + LnCacheRead line + LnCacheCreation line);
          new = (if input = 0 then fst old else input,
                 if LnOutputTokens line < fst (snd old) then fst (snd old) else LnOutputTokens line,
                 if LnMsgModel line = '''' then snd (snd old) else LnMsgModel line)
      in sc\<lparr>ScPartial := (if LnMsgID line = '''' \<and> LnUUID line = '''' then ''assistant record lacks message identity'' else ScPartial sc),
            ScOrder := (if map_of (ScUsages sc) i = None then ScOrder sc @ [i] else ScOrder sc),
            ScUsages := AList.update i new (ScUsages sc)\<rparr>)"

definition scan_content :: "cc_lib \<Rightarrow> string \<Rightarrow> transcript_line \<Rightarrow> scan \<Rightarrow> scan" where
  "scan_content L raw line sc =
     (if LnContentText line = '''' then sc\<lparr>ScPartial := ''assistant record has no supported content''\<rparr>
      else let sc1 = sc\<lparr>ScMessages := ScMessages sc @ [\<lparr>AmID = message_id L raw line, AmSource = '''', AmUUID = LnUUID line,
                     AmTimestamp = LnTimestamp line, AmModel = LnMsgModel line, AmContent = LnContent line\<rparr>]\<rparr>
           in case decode_blocks (LnContent line) of
                Some bs \<Rightarrow> sc1\<lparr>ScTexts := ScTexts sc @ text_blocks bs\<rparr>
              | None \<Rightarrow>
                  (case decode_string (LnContent line) of
                     Some t \<Rightarrow> sc1\<lparr>ScTexts := ScTexts sc @ [t]\<rparr>
                   | None \<Rightarrow> sc1\<lparr>ScPartial := ''assistant content format unavailable''\<rparr>))"

definition scan_assistant :: "cc_lib \<Rightarrow> string \<Rightarrow> transcript_line \<Rightarrow> scan \<Rightarrow> scan" where
  "scan_assistant L raw line sc =
     (let sc1 = scan_usage L raw line sc;
          recordKey = LnUUID line @ ''|'' @ Sha256Hex L (LnContentText line)
      in if LnUUID line \<noteq> '''' \<and> recordKey \<in> set (ScSeen sc1) then sc1
         else scan_content L raw line (if LnUUID line \<noteq> '''' then sc1\<lparr>ScSeen := recordKey # ScSeen sc1\<rparr> else sc1))"

definition is_prompt :: "transcript_line \<Rightarrow> bool" where
  "is_prompt line = (LnType line = ''user'' \<and> \<not> LnIsMeta line \<and> realUserPrompt line)"

text \<open>One line; \<open>None\<close> is the \<open>break\<close> at the prompt that follows the wanted turn.\<close>

definition scan_line :: "cc_lib \<Rightarrow> string \<Rightarrow> string \<Rightarrow> transcript_line \<Rightarrow> scan \<Rightarrow> scan option" where
  "scan_line L target raw line sc =
     (if is_prompt line \<and> target \<noteq> '''' \<and> ScTurnID sc = target then None
      else let sc1 = (if is_prompt line then scan_prompt L raw line sc else sc)
           in Some (if LnType line = ''assistant'' \<and> (target = '''' \<or> ScTurnID sc1 = target)
                    then scan_assistant L raw line sc1 else sc1))"

text \<open>The scan of the lines and whether it reached the end of the file.\<close>

fun scan_lines :: "transcript_env \<Rightarrow> cc_lib \<Rightarrow> string \<Rightarrow> string list \<Rightarrow> scan \<Rightarrow> scan \<times> bool" where
  "scan_lines T L target [] sc = (sc, True)"
| "scan_lines T L target (raw # raws) sc =
     (case UnmarshalLine T raw of
        None \<Rightarrow> scan_lines T L target raws (sc\<lparr>ScPartial := ''transcript contains malformed or incomplete JSON records''\<rparr>)
      | Some line \<Rightarrow>
          (case scan_line L target raw line sc of
             None \<Rightarrow> (sc, False)
           | Some sc1 \<Rightarrow> scan_lines T L target raws sc1))"

text \<open>\<open>ReadBytes\<close> of the newline: the lines with their terminators.\<close>

fun read_lines :: "string \<Rightarrow> string \<Rightarrow> string list" where
  "read_lines cur [] = (if cur = [] then [] else [cur])"
| "read_lines cur (c # cs) = (if c = CHR 0x0A then (cur @ [c]) # read_lines [] cs else read_lines (cur @ [c]) cs)"

definition sum_usage :: "(string \<times> int \<times> int \<times> string) list \<Rightarrow> string list \<Rightarrow> turn_stats \<Rightarrow> turn_stats" where
  "sum_usage us ids st =
     fold (\<lambda>i s. case map_of us i of
             None \<Rightarrow> s
           | Some (inp, out, model) \<Rightarrow>
               s\<lparr>TsOutputTokens := int64 (TsOutputTokens s + out),
                 TsInputTokens := (if 0 < inp then inp else TsInputTokens s),
                 TsModel := (if model \<noteq> '''' then model else TsModel s)\<rparr>) ids st"

definition unavailable :: "string \<Rightarrow> turn_stats" where
  "unavailable reason =
     \<lparr>TsTurnID = '''', TsResponseText = '''', TsInputTokens = 0, TsOutputTokens = 0, TsModel = '''', TsMessages = [],
      TsCaptureStatus = ''unavailable'', TsCaptureReason = reason\<rparr>"

definition turn_of_scan :: "scan \<Rightarrow> turn_stats" where
  "turn_of_scan sc =
     (let st = (unavailable '''')\<lparr>TsTurnID := ScTurnID sc, TsMessages := ScMessages sc\<rparr>
      in if ScMessages sc = []
         then st\<lparr>TsCaptureReason := (if ScPartial sc \<noteq> '''' then ScPartial sc else ''no assistant messages found for the latest turn'')\<rparr>
         else (sum_usage (ScUsages sc) (ScOrder sc) st)
                \<lparr>TsResponseText := join_with (CHR 0x0A) (ScTexts sc),
                 TsCaptureStatus := (if ScPartial sc \<noteq> '''' then ''partial'' else ''complete''),
                 TsCaptureReason := ScPartial sc\<rparr>)"

definition read_window :: "transcript_file \<Rightarrow> bool" where
  "read_window f = (case TfStatSize f of None \<Rightarrow> False | Some n \<Rightarrow> int maxTranscriptBytes < n)"

definition ReadTurnFromTranscriptTurn :: "transcript_env \<Rightarrow> cc_lib \<Rightarrow> string \<Rightarrow> string \<Rightarrow> turn_stats" where
  "ReadTurnFromTranscriptTurn T L path target =
     (if path = '''' then unavailable ''transcript path not supplied''
      else case OpenFile T path of
             Inl e \<Rightarrow> unavailable (''transcript unreadable: '' @ e)
           | Inr f \<Rightarrow>
               (case (read_window f, TfSeekError f) of
                  (True, Some e) \<Rightarrow> unavailable (''transcript seek failed: '' @ e)
                | _ \<Rightarrow>
                    (let big = read_window f;
                         reason = (if big then ''transcript exceeds 256 MiB read window; earlier content unavailable'' else '''');
                         off = (if big then nat (the (TfStatSize f)) - maxTranscriptBytes else 0);
                         lines = read_lines [] (take (maxTranscriptBytes + 1) (drop off (TfBytes f)));
                         r = scan_lines T L target (if big then tl lines else lines) (scan_start reason);
                         sc = (case (snd r, TfReadError f) of
                                 (True, Some e) \<Rightarrow> (fst r)\<lparr>ScPartial := ''transcript read failed: '' @ e\<rparr>
                               | _ \<Rightarrow> fst r)
                     in turn_of_scan sc)))"

definition ReadTurnFromTranscript :: "transcript_env \<Rightarrow> cc_lib \<Rightarrow> string \<Rightarrow> turn_stats" where
  "ReadTurnFromTranscript T L path = ReadTurnFromTranscriptTurn T L path ''''"

section \<open>The final text of a hook\<close>

definition lastMessageText :: "turn_stats \<Rightarrow> string" where
  "lastMessageText st =
     (if TsMessages st = [] then ''''
      else let raw = AmContent (last (TsMessages st))
           in case decode_string raw of
                Some plain \<Rightarrow> plain
              | None \<Rightarrow> (case decode_blocks raw of None \<Rightarrow> '''' | Some bs \<Rightarrow> join_with (CHR 0x0A) (text_blocks bs)))"

definition finalTranscriptPresent :: "hook_input \<Rightarrow> bool" where
  "finalTranscriptPresent i =
     (case (InLastAssistantMessage i, InCapturedTurn i) of
        (Some final, Some st) \<Rightarrow> TsMessages st \<noteq> [] \<and> AmSource (last (TsMessages st)) = '''' \<and> lastMessageText st = final
      | _ \<Rightarrow> False)"

definition append_final :: "cc_lib \<Rightarrow> string \<Rightarrow> string \<Rightarrow> string \<Rightarrow> turn_stats \<Rightarrow> turn_stats" where
  "append_final L event timestamp final st =
     (if TsMessages st = [] \<or> AmSource (last (TsMessages st)) = ''''
      then st\<lparr>TsMessages := TsMessages st @ [\<lparr>AmID = ''hook-final-'' @ Sha256Hex L final, AmSource = event @ ''_hook'', AmUUID = '''',
                 AmTimestamp = timestamp, AmModel = '''', AmContent = JArr [JObj [(''type'', JStr ''text''), (''text'', JStr final)]]\<rparr>],
              TsResponseText := TsResponseText st @ (if TsResponseText st \<noteq> '''' \<and> final \<noteq> '''' then [CHR 0x0A] else []) @ final\<rparr>
      else st)"

definition applyFinalAssistant :: "cc_lib \<Rightarrow> string \<Rightarrow> hook_input \<Rightarrow> hook_input" where
  "applyFinalAssistant L event i =
     (let st = (case InCapturedTurn i of Some t \<Rightarrow> t | None \<Rightarrow> unavailable ''transcript unavailable'');
          i1 = i\<lparr>InCapturedTurn := Some st\<rparr>
      in case InLastAssistantMessage i of
           None \<Rightarrow>
             if TsCaptureStatus st = ''complete''
             then i\<lparr>InCapturedTurn := Some (st\<lparr>TsCaptureStatus := ''partial'', TsCaptureReason :=
                    ''hook did not supply final assistant text; transcript completeness cannot be confirmed''\<rparr>)\<rparr>
             else i1
         | Some final \<Rightarrow>
             if finalTranscriptPresent i1 then i1
             else i\<lparr>InCapturedTurn := Some ((append_final L event (InTimestamp i) final st)\<lparr>TsCaptureStatus := ''partial'', TsCaptureReason :=
                    ''final text captured from hook; final transcript blocks or usage not yet available''\<rparr>)\<rparr>)"

definition sameTurn :: "hook_input \<Rightarrow> string \<Rightarrow> turn_stats \<Rightarrow> bool" where
  "sameTurn i target fresh =
     (if target \<noteq> '''' then TsTurnID fresh = target
      else case InCapturedTurn i of
             None \<Rightarrow> True
           | Some st \<Rightarrow> (case TsMessages st of [] \<Rightarrow> True | m # _ \<Rightarrow> list_ex (\<lambda>x. AmID x = AmID m) (TsMessages fresh)))"

text \<open>The polls of the transcript before the two seconds have passed, each with what it reads.\<close>

fun refine_loop :: "cc_lib \<Rightarrow> string \<Rightarrow> string \<Rightarrow> hook_input \<Rightarrow> turn_stats list \<Rightarrow> hook_input" where
  "refine_loop L event target i [] = applyFinalAssistant L event i"
| "refine_loop L event target i (fresh # polls) =
     (if sameTurn i target fresh \<and> finalTranscriptPresent (i\<lparr>InCapturedTurn := Some fresh\<rparr>)
      then i\<lparr>InCapturedTurn := Some fresh\<rparr>
      else refine_loop L event target i polls)"

definition stop_path :: "string \<Rightarrow> hook_input \<Rightarrow> string" where
  "stop_path event i = (if event = ''subagent-stop'' then InAgentTranscriptPath i else InTranscriptPath i)"

text \<open>\<open>polls k\<close> is the state of the file system at the \<open>k\<close>-th poll, \<open>n\<close> the number of polls.\<close>

definition refineCapturedTurn :: "(nat \<Rightarrow> transcript_env) \<Rightarrow> nat \<Rightarrow> cc_lib \<Rightarrow> string \<Rightarrow> hook_input \<Rightarrow> hook_input" where
  "refineCapturedTurn polls n L event i =
     (if InLastAssistantMessage i = None \<or> finalTranscriptPresent i then applyFinalAssistant L event i
      else let path = stop_path event i
           in if path = '''' then applyFinalAssistant L event i
              else let target = (case InCapturedTurn i of None \<Rightarrow> '''' | Some st \<Rightarrow> TsTurnID st)
                   in refine_loop L event target i (map (\<lambda>k. ReadTurnFromTranscriptTurn (polls k) L path target) [0..<n]))"

section \<open>Properties\<close>

lemma read_lines_append:
  "read_lines cur (a @ CHR 0x0A # b) = read_lines cur (a @ [CHR 0x0A]) @ read_lines [] b"
  by (induction a arbitrary: cur) auto

lemma scan_lines_append:
  "scan_lines T L target (xs @ ys) sc =
     (case scan_lines T L target xs sc of (sc1, True) \<Rightarrow> scan_lines T L target ys sc1 | (sc1, False) \<Rightarrow> (sc1, False))"
  by (induction xs arbitrary: sc) (auto split: option.splits)

lemma scan_stops_at_prompt:
  assumes "UnmarshalLine T p = Some line" "is_prompt line" "target \<noteq> ''''" "ScTurnID sc = target"
  shows "scan_lines T L target (p # later) sc = (sc, False)"
  using assms by (simp add: scan_line_def)

lemma sum_usage_turn [simp]: "TsTurnID (sum_usage us ids st) = TsTurnID st"
  unfolding sum_usage_def by (induction ids arbitrary: st) (auto split: option.split)

lemma turn_of_scan_turn [simp]: "TsTurnID (turn_of_scan sc) = ScTurnID sc"
  by (simp add: turn_of_scan_def Let_def)

text \<open>A file that was read in full: its size known and within the window, no error.\<close>

definition small_file :: "transcript_env \<Rightarrow> string \<Rightarrow> string \<Rightarrow> bool" where
  "small_file T path bytes =
     (OpenFile T path = Inr \<lparr>TfBytes = bytes, TfStatSize = Some (int (length bytes)), TfSeekError = None, TfReadError = None\<rparr> \<and>
      length bytes \<le> maxTranscriptBytes)"

lemma read_small_file:
  assumes "small_file T path bytes" "path \<noteq> ''''"
  shows "ReadTurnFromTranscriptTurn T L path target = turn_of_scan (fst (scan_lines T L target (read_lines [] bytes) (scan_start '''')))"
  using assms by (simp add: small_file_def ReadTurnFromTranscriptTurn_def read_window_def Let_def split: bool.split)

definition ends_line :: "string \<Rightarrow> bool" where
  "ends_line s = (s = [] \<or> last s = CHR 0x0A)"

lemma read_lines_split:
  assumes "ends_line a"
  shows "read_lines [] (a @ b) = read_lines [] a @ read_lines [] b"
proof (cases "a = []")
  case False
  then have "a = butlast a @ [CHR 0x0A]" using assms by (auto simp: ends_line_def) (metis append_butlast_last_id)
  then show ?thesis using read_lines_append [of "[]" "butlast a" b] by (metis append_Cons append_assoc self_append_conv2)
qed simp

lemma read_one_line: "CHR 0x0A \<notin> set p \<Longrightarrow> read_lines cur (p @ CHR 0x0A # b) = (cur @ p @ [CHR 0x0A]) # read_lines [] b"
  by (induction p arbitrary: cur) auto

text \<open>
  C39.  A queued turn is not replaced by a later one.  When a transcript ends in a line end and reading it by the
  identifier of a turn gives that turn, then reading it by the same identifier after a further prompt
  and anything else was appended gives the same messages, text, usage and completeness.
\<close>

theorem captured_turn_stable:
  assumes "small_file T path bytes" "small_file T' path (bytes @ p @ CHR 0x0A # later)" "UnmarshalLine T' = UnmarshalLine T"
    and "ends_line bytes" "CHR 0x0A \<notin> set p" "UnmarshalLine T (p @ [CHR 0x0A]) = Some line" "is_prompt line"
    and "target \<noteq> ''''" "path \<noteq> ''''" "TsTurnID (ReadTurnFromTranscriptTurn T L path target) = target"
  shows "ReadTurnFromTranscriptTurn T' L path target = ReadTurnFromTranscriptTurn T L path target"
proof -
  let ?scan = "\<lambda>T bs. scan_lines T L target (read_lines [] bs) (scan_start '''')"
  have lines: "read_lines [] (bytes @ p @ CHR 0x0A # later) = read_lines [] bytes @ (p @ [CHR 0x0A]) # read_lines [] later"
    using assms(4,5) by (simp add: read_lines_split read_one_line)
  have env: "scan_lines T' L target xs sc = scan_lines T L target xs sc" for xs sc
    using assms(3) by (induction xs arbitrary: sc) (auto split: option.splits)
  have "ScTurnID (fst (?scan T bytes)) = target" using assms(10) by (simp add: read_small_file [OF assms(1,9)])
  then have "?scan T' (bytes @ p @ CHR 0x0A # later) = (fst (?scan T bytes), False)"
    unfolding env lines scan_lines_append
    using scan_stops_at_prompt [OF assms(6-8)] by (auto split: prod.split bool.split)
  then show ?thesis by (simp add: read_small_file [OF assms(1,9)] read_small_file [OF assms(2,9)])
qed

lemma append_final_last:
  "TsMessages (append_final L event ts final st) \<noteq> [] \<and> AmSource (last (TsMessages (append_final L event ts final st))) \<noteq> ''''"
  by (simp add: append_final_def)

lemma append_final_id: "TsMessages st \<noteq> [] \<Longrightarrow> AmSource (last (TsMessages st)) \<noteq> '''' \<Longrightarrow> append_final L event ts final st = st"
  by (simp add: append_final_def)

text \<open>Marking a fallback text: the status and the reason it leaves.\<close>

definition mark_fallback :: "turn_stats \<Rightarrow> turn_stats" where
  "mark_fallback st = st\<lparr>TsCaptureStatus := ''partial'', TsCaptureReason :=
     ''final text captured from hook; final transcript blocks or usage not yet available''\<rparr>"

lemma applyFinalAssistant_fallback:
  assumes "InLastAssistantMessage i = Some final" "InCapturedTurn i = Some st" "\<not> finalTranscriptPresent i"
  shows "applyFinalAssistant L event i = i\<lparr>InCapturedTurn := Some (mark_fallback (append_final L event (InTimestamp i) final st))\<rparr>"
  using assms by (auto simp: applyFinalAssistant_def Let_def finalTranscriptPresent_def mark_fallback_def)

lemma applyFinalAssistant_idem: "applyFinalAssistant L event (applyFinalAssistant L event i) = applyFinalAssistant L event i"
proof (cases "InLastAssistantMessage i")
  case None
  then show ?thesis by (simp add: applyFinalAssistant_def Let_def)
next
  case (Some final)
  define st where "st = (case InCapturedTurn i of Some t \<Rightarrow> t | None \<Rightarrow> unavailable ''transcript unavailable'')"
  define j where "j = i\<lparr>InCapturedTurn := Some st\<rparr>"
  have start: "applyFinalAssistant L event i = applyFinalAssistant L event j"
    by (simp add: applyFinalAssistant_def Let_def st_def j_def split: option.split)
  show ?thesis
  proof (cases "finalTranscriptPresent j")
    case True
    then have "applyFinalAssistant L event j = j"
      using Some by (simp add: applyFinalAssistant_def Let_def j_def finalTranscriptPresent_def)
    then show ?thesis using start by simp
  next
    case False
    define st' where "st' = mark_fallback (append_final L event (InTimestamp j) final st)"
    have once: "applyFinalAssistant L event j = j\<lparr>InCapturedTurn := Some st'\<rparr>"
      using applyFinalAssistant_fallback [OF _ _ False] Some by (simp add: j_def st'_def)
    have tail: "TsMessages st' \<noteq> [] \<and> AmSource (last (TsMessages st')) \<noteq> ''''"
      using append_final_last [of L event "InTimestamp j" final st] by (simp add: st'_def mark_fallback_def)
    then have "\<not> finalTranscriptPresent (j\<lparr>InCapturedTurn := Some st'\<rparr>)"
      using Some by (simp add: finalTranscriptPresent_def j_def)
    moreover have "mark_fallback (append_final L event ts final st') = st'" for ts
      using tail append_final_id [of st' L event ts final] by (simp add: st'_def mark_fallback_def)
    ultimately have "applyFinalAssistant L event (j\<lparr>InCapturedTurn := Some st'\<rparr>) = j\<lparr>InCapturedTurn := Some st'\<rparr>"
      using applyFinalAssistant_fallback [of "j\<lparr>InCapturedTurn := Some st'\<rparr>" final st'] Some by (simp add: j_def)
    then show ?thesis by (simp add: start once)
  qed
qed

end
