(* ===== verification/Collector_Handlers.thy ===== *)
theory Collector_Handlers
  imports Collector_Transcript
begin

text \<open>
  mapping.go and the journal side of deadletter.go and state.go: the hook handlers, as \<open>prepareHook\<close> runs
  them, with \<open>cfg.transaction\<close> set.  A handler works on the transaction: the session state, which every
  handler changes through one pointer, the outgoing operations, the pending error, and here also the
  number of identifiers drawn and the \<open>StartExecution\<close> requests sent.  \<open>main\<close> only reaches the handlers
  through the journal, so the branches without a transaction are not part of the model.

  What the handlers take from outside is the record \<open>hook_ctx\<close>: the configuration, the identity of the
  hook, the \<open>k\<close>-th random span identifier, the clock, the environment, git, the transcripts, and the answer to
  \<open>StartExecution\<close>.
\<close>

section \<open>The transaction\<close>

record git_info =
  GitBranch :: string
  GitCommit :: string
  GitRemote :: string

record start_call =
  SrAgentID :: string
  SrAgentName :: string
  SrStartedAt :: string
  SrTrigger :: string
  SrIdempotencyKey :: string
  SrMetadata :: "(string \<times> string) list"

record hook_ctx =
  CxLib :: cc_lib
  CxConfig :: cc_config
  CxID :: string
  CxTimestamp :: string
  CxSessionID :: string
  CxSpanID :: "nat \<Rightarrow> string"
  CxNow :: string
  CxGetenv :: "string \<Rightarrow> string"
  CxGit :: "string \<Rightarrow> git_info"
  CxTranscripts :: transcript_env
  CxStart :: "start_call \<Rightarrow> string + (string \<times> json) list"

record hook_tx =
  TxState :: session_state
  TxOperations :: "dead_letter list"
  TxErr :: "string option"
  TxDrawn :: nat
  TxStarts :: "start_call list"

abbreviation mode_of :: "hook_ctx \<Rightarrow> string" where
  "mode_of c \<equiv> CfgCaptureMode (CxConfig c)"

definition set_state :: "session_state \<Rightarrow> hook_tx \<Rightarrow> hook_tx" where
  "set_state st tx = tx\<lparr>TxState := st\<rparr>"

definition newSpanID :: "hook_ctx \<Rightarrow> hook_tx \<Rightarrow> string \<times> hook_tx" where
  "newSpanID c tx = (CxSpanID c (TxDrawn tx), tx\<lparr>TxDrawn := Suc (TxDrawn tx)\<rparr>)"

definition hookTime :: "hook_ctx \<Rightarrow> string" where
  "hookTime c = (if CxTimestamp c \<noteq> '''' then CxTimestamp c else CxNow c)"

section \<open>Operations\<close>

definition put_field :: "string \<Rightarrow> json \<Rightarrow> metadata \<Rightarrow> metadata" where
  "put_field k v m = AList.update k v m"

definition auditLog :: "hook_ctx \<Rightarrow> audit_input \<Rightarrow> hook_tx \<Rightarrow> hook_tx" where
  "auditLog c e tx =
     (case (if EiID e = '''' then (case newSpanID c tx of (s, tx1) \<Rightarrow> (''evt_'' @ TrimPrefix s ''span_'', tx1)) else (EiID e, tx)) of
        (i, tx1) \<Rightarrow>
          (let ts = (if EiTimestamp e = '''' then CxTimestamp c else EiTimestamp e);
               m0 = (case EiMetadata e of None \<Rightarrow> [] | Some m \<Rightarrow> m);
               m1 = put_field ''capture_mode'' (JStr (mode_of c)) m0;
               m2 = put_field ''session_id'' (JStr (CxSessionID c)) m1;
               m3 = put_field ''execution_id'' (JStr (SsExecutionID (TxState tx1))) m2
           in tx1\<lparr>TxOperations := TxOperations tx1 @ [audit_op (e\<lparr>EiID := i, EiTimestamp := ts, EiMetadata := Some m3\<rparr>)]\<rparr>))"

definition spans_size :: "json list \<Rightarrow> int" where
  "spans_size spans = int (length (print_json (JObj [(''spans'', JArr spans)])))"

text \<open>Batches are cut at span boundaries.\<close>

fun span_batches :: "int \<Rightarrow> json list \<Rightarrow> json list \<Rightarrow> json list list" where
  "span_batches limit batch [] = (if batch = [] then [] else [batch])"
| "span_batches limit batch (s # ss) =
     (if batch \<noteq> [] \<and> limit < spans_size (batch @ [s]) then batch # span_batches limit [s] ss
      else span_batches limit (batch @ [s]) ss)"

definition ingestSpans :: "hook_ctx \<Rightarrow> string \<Rightarrow> json list \<Rightarrow> hook_tx \<Rightarrow> hook_tx" where
  "ingestSpans c executionID spans tx =
     tx\<lparr>TxOperations := TxOperations tx @ map (spans_op executionID) (span_batches (requestLimit (CxConfig c)) [] spans)\<rparr>"

definition endExecution :: "hook_ctx \<Rightarrow> string \<Rightarrow> string \<Rightarrow> hook_tx \<Rightarrow> hook_tx" where
  "endExecution c executionID status tx = tx\<lparr>TxOperations := TxOperations tx @ [end_op executionID status (hookTime c)]\<rparr>"

section \<open>Actors and executions\<close>

definition HumanActor :: "hook_ctx \<Rightarrow> actor" where
  "HumanActor c =
     \<lparr>ActorID = (if CfgActorID (CxConfig c) \<noteq> '''' then CfgActorID (CxConfig c)
                 else if CxGetenv c ''USER'' \<noteq> '''' then CxGetenv c ''USER''
                 else if CxGetenv c ''USERNAME'' \<noteq> '''' then CxGetenv c ''USERNAME''
                 else ''unknown''),
      ActorTyp = ''human'', ActorEmail = CfgActorEmail (CxConfig c)\<rparr>"

definition AgentActor :: actor where
  "AgentActor = \<lparr>ActorID = ''claude-code'', ActorTyp = ''agent'', ActorEmail = ''''\<rparr>"

definition systemActor :: actor where
  "systemActor = \<lparr>ActorID = ''claude-code'', ActorTyp = ''system'', ActorEmail = ''''\<rparr>"

definition executionIDFromResponse :: "(string \<times> json) list \<Rightarrow> string" where
  "executionIDFromResponse resp = (if stringField resp ''id'' \<noteq> '''' then stringField resp ''id'' else stringField resp ''execution_id'')"

definition ReadGitInfo :: "hook_ctx \<Rightarrow> string \<Rightarrow> git_info" where
  "ReadGitInfo c cwd = (if cwd = '''' then \<lparr>GitBranch = '''', GitCommit = '''', GitRemote = ''''\<rparr> else CxGit c cwd)"

definition git_fields :: "hook_ctx \<Rightarrow> string \<Rightarrow> (string \<times> string) list" where
  "git_fields c cwd =
     (let gi = ReadGitInfo c cwd
      in if GitBranch gi \<noteq> '''' \<or> GitCommit gi \<noteq> ''''
         then [(''git_branch'', GitBranch gi), (''git_commit'', GitCommit gi), (''git_remote'', GitRemote gi)] else [])"

definition start_req :: "hook_ctx \<Rightarrow> hook_input \<Rightarrow> string \<Rightarrow> string \<Rightarrow> bool \<Rightarrow> start_call" where
  "start_req c i trigger key lazy =
     \<lparr>SrAgentID = ''claude-code'', SrAgentName = ''Claude Code'', SrStartedAt = InTimestamp i, SrTrigger = trigger,
      SrIdempotencyKey = key,
      SrMetadata = [(''session_id'', InSessionID i), (''cwd'', InCwd i), (''permission_mode'', InPermissionMode i), (''source'', InSource i)] @
        (if lazy then [(''lazy_start'', ''true'')] else []) @ git_fields c (InCwd i)\<rparr>"

definition startExecution :: "hook_ctx \<Rightarrow> hook_input \<Rightarrow> string \<Rightarrow> string \<Rightarrow> bool \<Rightarrow> hook_tx \<Rightarrow> (string + string) \<times> hook_tx" where
  "startExecution c i trigger key lazy tx =
     (let req = start_req c i trigger key lazy; tx1 = tx\<lparr>TxStarts := TxStarts tx @ [req]\<rparr>
      in case CxStart c req of
           Inl e \<Rightarrow> (Inl e, tx1)
         | Inr resp \<Rightarrow> (Inr (executionIDFromResponse resp), tx1))"

definition executionKey :: "hook_ctx \<Rightarrow> session_state \<Rightarrow> session_state" where
  "executionKey c st = (if SsExecutionKey st = '''' then st\<lparr>SsExecutionKey := ''cc-'' @ CxID c\<rparr> else st)"

definition reopen :: "hook_input \<Rightarrow> session_state \<Rightarrow> session_state" where
  "reopen i st = (if SsClosed st then fresh_state (InSessionID i) else st)"

definition ensureExecution :: "hook_ctx \<Rightarrow> hook_input \<Rightarrow> hook_tx \<Rightarrow> string \<times> hook_tx" where
  "ensureExecution c i tx =
     (let st = reopen i (TxState tx)
      in if SsExecutionID st \<noteq> '''' then (SsExecutionID st, set_state st tx)
         else let st1 = executionKey c st
              in case startExecution c i ''lazy'' (SsExecutionKey st1) True (set_state st1 tx) of
                   (Inl e, tx1) \<Rightarrow> ('''', tx1\<lparr>TxErr := Some (''execution start unavailable: '' @ e)\<rparr>)
                 | (Inr i1, tx1) \<Rightarrow>
                     if i1 = '''' then ('''', tx1\<lparr>TxErr := Some ''execution start unavailable: <nil>''\<rparr>)
                     else (i1, set_state (st1\<lparr>SsExecutionID := i1\<rparr>) tx1))"

section \<open>Handlers\<close>

text \<open>A handler returns the error it fails with, if any, and the transaction.\<close>

type_synonym handler = "hook_ctx \<Rightarrow> hook_input \<Rightarrow> hook_tx \<Rightarrow> string option \<times> hook_tx"

definition session_resource :: "hook_input \<Rightarrow> resource" where
  "session_resource i = \<lparr>ResourceID = InSessionID i, ResourceType = ''claude_code.session'', ResourceName = ''''\<rparr>"

definition event_of :: "actor \<Rightarrow> string \<Rightarrow> resource \<Rightarrow> string \<Rightarrow> metadata \<Rightarrow> audit_input" where
  "event_of a act r out md =
     \<lparr>EiID = '''', EiTimestamp = '''', EiActor = a, EiAction = act, EiResource = r, EiOutcome = out, EiMetadata = Some md\<rparr>"

abbreviation str_fields :: "(string \<times> string) list \<Rightarrow> (string \<times> json) list" where
  "str_fields m \<equiv> map (\<lambda>(k, s). (k, JStr s)) m"

definition HandleSessionStart :: handler where
  "HandleSessionStart c i tx =
     (let st = reopen i (TxState tx);
          st1 = (if SsExecutionID st = '''' then executionKey c st else st);
          r = (if SsExecutionID st = '''' then startExecution c i (InSource i) (SsExecutionKey st1) False (set_state st1 tx)
               else (Inr (SsExecutionID st), set_state st1 tx))
      in case r of
           (Inl e, tx1) \<Rightarrow> (Some e, tx1)
         | (Inr execID, tx1) \<Rightarrow>
             if execID = '''' then (Some ''backend omitted execution id'', tx1)
             else let st2 = st1\<lparr>SsSessionID := InSessionID i, SsExecutionID := execID, SsClosed := False\<rparr>;
                      md = str_fields ([(''cwd'', InCwd i), (''permission_mode'', InPermissionMode i), (''source'', InSource i),
                             (''execution_id'', execID)] @ git_fields c (InCwd i))
                  in (None, auditLog c (event_of (HumanActor c) ''claude_code.session.start'' (session_resource i) ''success'' md) (set_state st2 tx1)))"

definition prompt_fields :: "hook_ctx \<Rightarrow> hook_input \<Rightarrow> (string \<times> string) list" where
  "prompt_fields c i = (if mode_of c \<noteq> CaptureHash then [(''prompt'', InPrompt i)] else [])"

definition turn_key :: string where "turn_key = ''__turn__''"

definition HandleUserPrompt :: handler where
  "HandleUserPrompt c i tx =
     (let md = [(''cwd'', JStr (InCwd i)), (''prompt_sha256'', JStr (Sha256Hex (CxLib c) (InPrompt i))), (''prompt_len'', len_json (InPrompt i))] @
               str_fields (prompt_fields c i);
          st0 = TxState tx;
          st = (if SsSessionID st0 = '''' then st0\<lparr>SsSessionID := InSessionID i\<rparr> else st0)
      in case newSpanID c (snd (ensureExecution c i (set_state st tx))) of
           (turnSpanID, tx1) \<Rightarrow>
             (let meta = [(''session_id'', InSessionID i), (''capture_mode'', mode_of c)] @ prompt_fields c i;
                  turn = \<lparr>SpSpanID = turnSpanID, SpName = ''turn'', SpStartedAt = hookTime c, SpMetadata = meta, SpInput = None, SpParentSpanID = ''''\<rparr>;
                  st1 = (TxState tx1)\<lparr>SsTurnSpanID := turnSpanID,
                          SsPendingSpans := AList.update turn_key turn (SsPendingSpans (TxState tx1))\<rparr>;
                  tx2 = set_state st1 tx1;
                  sp = JObj [(''id'', JStr turnSpanID), (''execution_id'', JStr (SsExecutionID st1)), (''span_type'', JStr ''CUSTOM''),
                           (''name'', JStr ''turn''), (''status'', JStr ''RUNNING''), (''started_at'', JStr (SpStartedAt turn)),
                           (''metadata'', JObj (str_fields meta))];
                  tx3 = (if SsExecutionID st1 \<noteq> '''' then ingestSpans c (SsExecutionID st1) [sp] tx2 else tx2)
              in (None, auditLog c (event_of (HumanActor c) ''claude_code.prompt.submit'' (session_resource i) ''success'' md) tx3)))"

definition pendingKey :: "hook_input \<Rightarrow> string" where
  "pendingKey i = (if InToolUseID i \<noteq> '''' then InToolUseID i else InToolName i)"

definition completed :: "session_state \<Rightarrow> string \<Rightarrow> bool" where
  "completed st key = (map_of (SsCompletedTools st) key = Some True)"

definition HandlePreTool :: handler where
  "HandlePreTool c i tx =
     (let st0 = TxState tx;
          st = (if SsSessionID st0 = '''' then st0\<lparr>SsSessionID := InSessionID i\<rparr> else st0);
          key = pendingKey i
      in if InToolUseID i \<noteq> '''' \<and> completed st key then (None, set_state st tx)
         else if map_of (SsPendingSpans st) key \<noteq> None then (None, set_state st tx)
         else case newSpanID c tx of
                (sid, tx1) \<Rightarrow>
                  (let new = \<lparr>SpSpanID = sid, SpName = InToolName i, SpStartedAt = hookTime c, SpMetadata = [], SpInput = InToolInput i,
                              SpParentSpanID = SsTurnSpanID st\<rparr>;
                       st1 = st\<lparr>SsPendingSpans := AList.update key new (SsPendingSpans st)\<rparr>
                   in case ensureExecution c i (set_state st1 tx1) of
                        (execID, tx2) \<Rightarrow>
                          if execID = '''' then (None, tx2)
                          else let st2 = TxState tx2;
                                   start = (case map_of (SsPendingSpans st2) key of Some s \<Rightarrow> s | None \<Rightarrow> zero_span);
                                   meta = [(''tool_input'', print_json (RedactInput (CxLib c) (InToolInput i) (mode_of c))),
                                           (''tool_use_id'', InToolUseID i), (''session_id'', InSessionID i), (''capture_mode'', mode_of c)];
                                   st3 = st2\<lparr>SsPendingSpans := AList.update key (start\<lparr>SpMetadata := meta\<rparr>) (SsPendingSpans st2)\<rparr>;
                                   sp = JObj ([(''id'', JStr (SpSpanID start)), (''execution_id'', JStr (SsExecutionID st3)),
                                            (''span_type'', JStr ''TOOL_CALL''), (''name'', JStr (SpName start)), (''status'', JStr ''RUNNING''),
                                            (''started_at'', JStr (SpStartedAt start)), (''metadata'', JObj (str_fields meta))] @
                                            parent_field (SsTurnSpanID st3))
                               in (None, ingestSpans c (SsExecutionID st3) [sp] (set_state st3 tx2))))"

definition error_fields :: "hook_ctx \<Rightarrow> bool \<Rightarrow> hook_input \<Rightarrow> (string \<times> json) list" where
  "error_fields c failed i =
     (if failed \<and> InError i \<noteq> '''' \<and> mode_of c \<noteq> CaptureHash then [(''error'', JStr (capturedError (CxConfig c) (InError i)))] else [])"

definition tool_span :: "hook_ctx \<Rightarrow> hook_input \<Rightarrow> bool \<Rightarrow> string \<Rightarrow> span_start \<Rightarrow> json" where
  "tool_span c i failed executionID sp =
     JObj ([(''id'', JStr (SpSpanID sp)), (''execution_id'', JStr executionID), (''span_type'', JStr ''TOOL_CALL''),
            (''name'', JStr (SpName sp)), (''status'', JStr (if failed then ''FAILED'' else ''COMPLETED'')),
            (''started_at'', JStr (SpStartedAt sp)), (''ended_at'', JStr (hookTime c)),
            (''metadata'', JObj ([(''tool_input'', JStr (print_json (RedactInput (CxLib c) (InToolInput i) (mode_of c)))),
               (''output'', JStr (print_json (SummarizeOutput (CxLib c) (InToolResponse i) (mode_of c)))),
               (''tool_use_id'', JStr (InToolUseID i)), (''session_id'', JStr (InSessionID i)), (''capture_mode'', JStr (mode_of c))] @
               error_fields c failed i))] @ parent_field (SpParentSpanID sp))"

definition tool_event :: "hook_ctx \<Rightarrow> hook_input \<Rightarrow> bool \<Rightarrow> string \<Rightarrow> audit_input" where
  "tool_event c i failed executionID =
     event_of AgentActor (''claude_code.tool.'' @ ToLower (InToolName i)) (ResourceFromTool (CxLib c) (InToolName i) (InToolInput i) (mode_of c))
       (if failed then ''error'' else ''success'')
       ([(''session_id'', JStr (InSessionID i)), (''tool_use_id'', JStr (InToolUseID i)), (''execution_id'', JStr executionID),
         (''tool_input'', RedactInput (CxLib c) (InToolInput i) (mode_of c)),
         (''tool_response'', SummarizeOutput (CxLib c) (InToolResponse i) (mode_of c))] @ error_fields c failed i)"

definition take_span :: "hook_ctx \<Rightarrow> hook_input \<Rightarrow> hook_tx \<Rightarrow> span_start \<times> hook_tx" where
  "take_span c i tx =
     (case map_of (SsPendingSpans (TxState tx)) (pendingKey i) of
        Some s \<Rightarrow> (s, tx)
      | None \<Rightarrow> (case newSpanID c tx of (sid, tx1) \<Rightarrow>
          (\<lparr>SpSpanID = sid, SpName = InToolName i, SpStartedAt = hookTime c, SpMetadata = [], SpInput = None,
            SpParentSpanID = SsTurnSpanID (TxState tx)\<rparr>, tx1)))"

definition fill_input :: "span_start \<Rightarrow> hook_input \<Rightarrow> hook_input" where
  "fill_input sp i =
     (let i1 = (if InToolName i = '''' then i\<lparr>InToolName := SpName sp\<rparr> else i)
      in if InToolInput i1 = None then i1\<lparr>InToolInput := SpInput sp\<rparr> else i1)"

definition finish_tool :: "hook_input \<Rightarrow> session_state \<Rightarrow> session_state" where
  "finish_tool i st =
     (let key = pendingKey i
      in st\<lparr>SsPendingSpans := AList.delete key (SsPendingSpans st),
            SsCompletedTools := (if InToolUseID i \<noteq> '''' then AList.update key True (SsCompletedTools st) else SsCompletedTools st)\<rparr>)"

text \<open>The span of the tool call and, when the hook carries usage, the span of the model call.\<close>

definition tool_batch :: "hook_ctx \<Rightarrow> hook_input \<Rightarrow> bool \<Rightarrow> span_start \<Rightarrow> hook_tx \<Rightarrow> json list \<times> hook_tx" where
  "tool_batch c i failed sp tx =
     (let eid = SsExecutionID (TxState tx)
      in case MaybeModelInvocationSpan (CxLib c) (CxSpanID c (TxDrawn tx)) (CxNow c) i eid (SpParentSpanID sp) of
           None \<Rightarrow> ([tool_span c i failed eid sp], tx)
         | Some mi \<Rightarrow> ([tool_span c i failed eid sp, mi], snd (newSpanID c tx)))"

definition handlePostTool :: "bool \<Rightarrow> handler" where
  "handlePostTool forceError c i0 tx =
     (if InToolUseID i0 \<noteq> '''' \<and> completed (TxState tx) (pendingKey i0) then (None, tx)
      else case take_span c i0 tx of
             (sp, tx1) \<Rightarrow>
               (let i = fill_input sp i0; tx2 = set_state (finish_tool i0 (TxState tx1)) tx1
                in case ensureExecution c i tx2 of
                     (execID, tx3) \<Rightarrow>
                       (let failed = (forceError \<or> toolCallFailed (CxLib c) i)
                        in case tool_batch c i failed sp tx3 of
                             (batch, tx4) \<Rightarrow>
                               (let tx5 = (if execID \<noteq> '''' then ingestSpans c execID batch tx4 else tx4)
                                in (None, auditLog c (tool_event c i failed (SsExecutionID (TxState tx5))) tx5)))))"

definition HandlePostTool :: handler where "HandlePostTool = handlePostTool False"

definition HandlePostToolFailure :: handler where "HandlePostToolFailure = handlePostTool True"

text \<open>A span that starts and ends with the hook, under the current turn.\<close>

definition point_span :: "hook_ctx \<Rightarrow> string \<Rightarrow> string \<Rightarrow> string \<Rightarrow> string \<Rightarrow> (string \<times> json) list \<Rightarrow> string \<Rightarrow> json" where
  "point_span c sid execID typ name md parent =
     JObj ([(''id'', JStr sid), (''execution_id'', JStr execID), (''span_type'', JStr typ), (''name'', JStr name),
            (''status'', JStr ''COMPLETED''), (''started_at'', JStr (hookTime c)), (''ended_at'', JStr (hookTime c)), (''metadata'', JObj md)] @
           parent_field parent)"

definition emit_point :: "hook_ctx \<Rightarrow> hook_input \<Rightarrow> string \<Rightarrow> string \<Rightarrow> (string \<times> json) list \<Rightarrow> hook_tx \<Rightarrow> hook_tx" where
  "emit_point c i typ name md tx =
     (case ensureExecution c i tx of
        (execID, tx1) \<Rightarrow>
          if execID = '''' then tx1
          else case newSpanID c tx1 of
                 (sid, tx2) \<Rightarrow> ingestSpans c execID [point_span c sid execID typ name md (SsTurnSpanID (TxState tx2))] tx2)"

definition HandlePermission :: handler where
  "HandlePermission c i tx =
     (let denied = EqualFold (InHookEventName i) ''PermissionDenied'';
          decision = (if denied then ''denied'' else ''requested'');
          tx1 = emit_point c i ''HUMAN_APPROVAL'' (''permission:'' @ InToolName i)
                  [(''tool'', JStr (InToolName i)), (''decision'', JStr decision)] tx
      in (None, auditLog c (event_of (HumanActor c) (if denied then ''claude_code.permission.denied'' else ''claude_code.permission.request'')
            (ResourceFromTool (CxLib c) (InToolName i) (InToolInput i) (mode_of c)) (if denied then ''failure'' else ''success'')
            [(''session_id'', JStr (InSessionID i)), (''tool_name'', JStr (InToolName i)), (''decision'', JStr decision),
             (''execution_id'', JStr (SsExecutionID (TxState tx1)))]) tx1))"

definition HandleNotification :: handler where
  "HandleNotification c i tx =
     (None, auditLog c (event_of systemActor ''claude_code.notification'' (session_resource i) ''success'' [(''message'', JStr (InMessage i))]) tx)"

definition message_json :: "assistant_message \<Rightarrow> json" where
  "message_json m =
     JObj ((''id'', JStr (AmID m)) # omitempty ''source'' (AmSource m) @ omitempty ''uuid'' (AmUUID m) @
       omitempty ''timestamp'' (AmTimestamp m) @ omitempty ''model'' (AmModel m) @ [(''content'', AmContent m)])"

text \<open>A nil slice is marshalled as \<open>null\<close>.\<close>

definition messages_json :: "assistant_message list \<Rightarrow> json" where
  "messages_json ms = (if ms = [] then JNull else JArr (map message_json ms))"

definition turnResponsePreviewLen :: nat where "turnResponsePreviewLen = 1500"

definition response_fields :: "hook_ctx \<Rightarrow> turn_stats \<Rightarrow> (string \<times> json) list" where
  "response_fields c stats =
     (if mode_of c = CaptureRawMode
      then [(''response'', JStr (TsResponseText stats)), (''messages'', messages_json (TsMessages stats))]
      else if mode_of c = CaptureMetadata
      then [(''response'', JStr (truncate_bytes (TsResponseText stats) turnResponsePreviewLen)),
            (''response_truncated'', JBool (turnResponsePreviewLen < length (TsResponseText stats)))]
      else [])"

definition captured_stats :: "hook_ctx \<Rightarrow> string \<Rightarrow> hook_input \<Rightarrow> turn_stats" where
  "captured_stats c path i = (case InCapturedTurn i of Some s \<Rightarrow> s | None \<Rightarrow> ReadTurnFromTranscript (CxTranscripts c) (CxLib c) path)"

definition HandleSubagentStop :: handler where
  "HandleSubagentStop c i tx =
     (let tx1 = emit_point c i ''CUSTOM'' (''subagent:'' @ InAgentType i)
                  [(''agent_type'', JStr (InAgentType i)), (''agent_id'', JStr (InAgentID i))] tx;
          stats = captured_stats c (InAgentTranscriptPath i) i
      in (None, auditLog c (event_of AgentActor ''claude_code.subagent.stop'' (session_resource i) ''success''
            ([(''agent_type'', JStr (InAgentType i)), (''agent_id'', JStr (InAgentID i)), (''capture_status'', JStr (TsCaptureStatus stats)),
              (''capture_reason'', JStr (TsCaptureReason stats)), (''response_len'', len_json (TsResponseText stats)),
              (''response_sha256'', JStr (Sha256Hex (CxLib c) (TsResponseText stats)))] @ response_fields c stats)) tx1))"

definition num_json :: "int \<Rightarrow> json" where "num_json n = JNum (FormatInt n)"

definition turn_span :: "hook_ctx \<Rightarrow> string \<Rightarrow> span_start \<Rightarrow> json" where
  "turn_span c execID turn =
     JObj [(''id'', JStr (SpSpanID turn)), (''execution_id'', JStr execID), (''span_type'', JStr ''CUSTOM''), (''name'', JStr ''turn''),
       (''status'', JStr ''COMPLETED''), (''started_at'', JStr (SpStartedAt turn)), (''ended_at'', JStr (hookTime c)),
       (''metadata'', if SpMetadata turn = [] then JNull else JObj (str_fields (SpMetadata turn)))]"

definition usage_span :: "hook_ctx \<Rightarrow> string \<Rightarrow> string \<Rightarrow> string \<Rightarrow> turn_stats \<Rightarrow> json" where
  "usage_span c sid execID turnSpanID stats =
     JObj ([(''id'', JStr sid), (''execution_id'', JStr execID), (''span_type'', JStr ''MODEL_INVOCATION''), (''name'', JStr ''model_invocation''),
       (''status'', JStr ''COMPLETED''), (''started_at'', JStr (hookTime c)), (''ended_at'', JStr (hookTime c)), (''metadata'', JObj []),
       (''model_invocation'', JObj [(''model_name'', JStr (if TsModel stats = '''' then ''claude'' else TsModel stats)),
          (''model_provider'', JStr ''anthropic''), (''prompt_tokens'', num_json (TsInputTokens stats)),
          (''completion_tokens'', num_json (TsOutputTokens stats)),
          (''total_tokens'', num_json (int64 (TsInputTokens stats + TsOutputTokens stats)))])] @ parent_field turnSpanID)"

definition emitTurnComplete :: "hook_ctx \<Rightarrow> hook_input \<Rightarrow> string \<Rightarrow> string \<Rightarrow> turn_stats \<Rightarrow> hook_tx \<Rightarrow> hook_tx" where
  "emitTurnComplete c i execID turnSpanID stats tx =
     (let md = [(''session_id'', JStr (InSessionID i)), (''execution_id'', JStr execID), (''model'', JStr (TsModel stats)),
                (''input_tokens'', num_json (TsInputTokens stats)), (''output_tokens'', num_json (TsOutputTokens stats)),
                (''response_len'', len_json (TsResponseText stats)), (''response_sha256'', JStr (Sha256Hex (CxLib c) (TsResponseText stats))),
                (''capture_status'', JStr (TsCaptureStatus stats)), (''capture_reason'', JStr (TsCaptureReason stats))] @ response_fields c stats;
          tx1 = auditLog c (event_of AgentActor ''claude_code.turn.complete'' (session_resource i) ''success'' md) tx
      in if execID \<noteq> '''' \<and> (0 < TsInputTokens stats \<or> 0 < TsOutputTokens stats)
         then (case newSpanID c tx1 of (sid, tx2) \<Rightarrow> ingestSpans c execID [usage_span c sid execID turnSpanID stats] tx2)
         else tx1)"

definition HandleStop :: handler where
  "HandleStop c i tx =
     (case ensureExecution c i tx of
        (execID, tx1) \<Rightarrow>
          (let st = TxState tx1;
               turn = map_of (SsPendingSpans st) turn_key;
               tx2 = (case turn of
                        None \<Rightarrow> tx1
                      | Some t \<Rightarrow> if execID \<noteq> '''' then ingestSpans c execID [turn_span c execID t] tx1 else tx1);
               st1 = st\<lparr>SsPendingSpans := AList.delete turn_key (SsPendingSpans st), SsTurnSpanID := ''''\<rparr>;
               turnSpanID = (case turn of None \<Rightarrow> '''' | Some t \<Rightarrow> SpSpanID t)
           in (None, emitTurnComplete c i execID turnSpanID (captured_stats c (InTranscriptPath i) i) (set_state st1 tx2))))"

definition cancelled_span :: "hook_ctx \<Rightarrow> string \<Rightarrow> string \<Rightarrow> span_start \<Rightarrow> json" where
  "cancelled_span c execID key p =
     JObj ([(''id'', JStr (SpSpanID p)), (''execution_id'', JStr execID),
            (''span_type'', JStr (if key = turn_key then ''CUSTOM'' else ''TOOL_CALL'')), (''name'', JStr (SpName p)),
            (''status'', JStr ''CANCELLED''), (''started_at'', JStr (SpStartedAt p)), (''ended_at'', JStr (hookTime c)),
            (''metadata'', JObj (str_fields (AList.update ''capture_reason'' ''session ended before completion hook''
               (AList.update ''capture_status'' ''partial'' (SpMetadata p)))))] @ parent_field (SpParentSpanID p))"

definition cancelled_spans :: "hook_ctx \<Rightarrow> session_state \<Rightarrow> json list" where
  "cancelled_spans c st = map (\<lambda>key. cancelled_span c (SsExecutionID st) key (the (map_of (SsPendingSpans st) key)))
     (sort (remdups (map fst (SsPendingSpans st))))"

definition HandleSessionEnd :: handler where
  "HandleSessionEnd c i tx =
     (let st = TxState tx; eid = SsExecutionID st;
          tx1 = (if eid \<noteq> '''' \<and> SsPendingSpans st \<noteq> [] then ingestSpans c eid (cancelled_spans c st) tx else tx);
          tx2 = (if eid \<noteq> '''' then endExecution c eid ''COMPLETED'' tx1 else tx1);
          gi = ReadGitInfo c (InCwd i);
          md = [(''reason'', JStr (InReason i)), (''execution_id'', JStr eid)] @
               (if GitCommit gi \<noteq> '''' then [(''git_commit_end'', JStr (GitCommit gi)), (''git_branch'', JStr (GitBranch gi))] else []);
          tx3 = auditLog c (event_of (HumanActor c) ''claude_code.session.end'' (session_resource i) ''success'' md) tx2
      in (None, set_state ((TxState tx3)\<lparr>SsClosed := True\<rparr>) tx3))"

definition dispatchHook :: "string \<Rightarrow> handler" where
  "dispatchHook event c i tx =
     (if event = ''session-start'' then HandleSessionStart c i tx
      else if event = ''prompt'' then HandleUserPrompt c i tx
      else if event = ''pre-tool'' then HandlePreTool c i tx
      else if event = ''post-tool'' then HandlePostTool c i tx
      else if event = ''post-tool-failure'' then HandlePostToolFailure c i tx
      else if event = ''permission'' then HandlePermission c i tx
      else if event = ''notify'' then HandleNotification c i tx
      else if event = ''subagent-stop'' then HandleSubagentStop c i tx
      else if event = ''stop'' then HandleStop c i tx
      else if event = ''session-end'' then HandleSessionEnd c i tx
      else (Some (''unsupported hook '' @ quote_json event), tx))"

end
