(* ===== verification/Collector_Capture.thy ===== *)
theory Collector_Capture
  imports Collector_Handlers
begin

text \<open>
  Properties of the hook handlers: span batches, the retry key of an execution, tool calls recorded once, the closing of
  a session, and what hash mode lets out.
\<close>

section \<open>Span batches\<close>

lemma span_batches_concat: "concat (span_batches limit batch spans) = batch @ spans"
  by (induction limit batch spans rule: span_batches.induct) auto

lemma span_batches_size:
  assumes "batch = [] \<or> length batch = 1 \<or> spans_size batch \<le> limit"
  shows "\<forall>b \<in> set (span_batches limit batch spans). b \<noteq> [] \<and> (length b = 1 \<or> spans_size b \<le> limit)"
  using assms
proof (induction limit batch spans rule: span_batches.induct)
  case (1 limit batch)
  then show ?case by auto
next
  case (2 limit batch s ss)
  show ?case
  proof (cases "batch \<noteq> [] \<and> limit < spans_size (batch @ [s])")
    case True
    have "batch \<noteq> [] \<and> (length batch = 1 \<or> spans_size batch \<le> limit)" using True "2.prems" by auto
    moreover have "\<forall>b \<in> set (span_batches limit [s] ss). b \<noteq> [] \<and> (length b = 1 \<or> spans_size b \<le> limit)"
      using "2.IH"(1) [OF True] by simp
    ultimately show ?thesis using True by simp
  next
    case False
    then have "batch @ [s] = [] \<or> length (batch @ [s]) = 1 \<or> spans_size (batch @ [s]) \<le> limit" by auto
    from "2.IH"(2) [OF False this] show ?thesis using False by auto
  qed
qed

text \<open>
  A batch of spans is split without loss.  The operations \<open>ingestSpans\<close> adds carry, in their order, exactly
  the spans it was given, all for the same execution; none is empty, and every one with more than one span encodes
  to a body within the request limit.
\<close>

theorem ingestSpans_splits:
  "\<exists>ops. TxOperations (ingestSpans c eid spans tx) = TxOperations tx @ ops \<and> concat (map DlSpans ops) = spans \<and>
     (\<forall>d \<in> set ops. DlKind d = dlKindSpans \<and> DlExecutionID d = eid \<and> DlSpans d \<noteq> [] \<and>
        (length (DlSpans d) = 1 \<or> int (length (print_json (operationBody d))) \<le> requestLimit (CxConfig c)))"
proof -
  let ?bs = "span_batches (requestLimit (CxConfig c)) [] spans"
  have "concat (map DlSpans (map (spans_op eid) ?bs)) = spans"
    using span_batches_concat [of _ "[]" spans] by (simp add: spans_op_def comp_def)
  moreover have "\<forall>d \<in> set (map (spans_op eid) ?bs). DlKind d = dlKindSpans \<and> DlExecutionID d = eid \<and> DlSpans d \<noteq> [] \<and>
        (length (DlSpans d) = 1 \<or> int (length (print_json (operationBody d))) \<le> requestLimit (CxConfig c))"
    using span_batches_size [of "[]" "requestLimit (CxConfig c)" spans]
    by (auto simp: spans_op_def operationBody_def spans_size_def dlKindSpans_def dlKindAudit_def)
  moreover have "TxOperations (ingestSpans c eid spans tx) = TxOperations tx @ map (spans_op eid) ?bs"
    by (simp add: ingestSpans_def)
  ultimately show ?thesis by blast
qed

section \<open>Projections\<close>

lemma newSpanID_simps [simp]:
  "TxState (snd (newSpanID c tx)) = TxState tx" "TxOperations (snd (newSpanID c tx)) = TxOperations tx" "TxStarts (snd (newSpanID c tx)) = TxStarts tx"
  by (simp_all add: newSpanID_def)

lemma set_state_simps [simp]:
  "TxState (set_state st tx) = st" "TxOperations (set_state st tx) = TxOperations tx" "TxStarts (set_state st tx) = TxStarts tx"
  "TxDrawn (set_state st tx) = TxDrawn tx" "TxErr (set_state st tx) = TxErr tx"
  by (simp_all add: set_state_def)

lemma ingestSpans_simps [simp]:
  "TxState (ingestSpans c e ss tx) = TxState tx" "TxStarts (ingestSpans c e ss tx) = TxStarts tx" "TxErr (ingestSpans c e ss tx) = TxErr tx"
  by (simp_all add: ingestSpans_def)

lemma auditLog_simps [simp]:
  "TxState (auditLog c e tx) = TxState tx" "TxStarts (auditLog c e tx) = TxStarts tx" "TxErr (auditLog c e tx) = TxErr tx"
  by (simp_all add: auditLog_def newSpanID_def Let_def)

lemma endExecution_simps [simp]:
  "TxState (endExecution c e st tx) = TxState tx" "TxStarts (endExecution c e st tx) = TxStarts tx"
  by (simp_all add: endExecution_def)

lemma take_span_simps [simp]: "TxState (snd (take_span c i tx)) = TxState tx" "TxStarts (snd (take_span c i tx)) = TxStarts tx"
  by (auto simp: take_span_def newSpanID_def split: option.split)

lemma tool_batch_simps [simp]: "TxState (snd (tool_batch c i f sp tx)) = TxState tx" "TxStarts (snd (tool_batch c i f sp tx)) = TxStarts tx"
  by (auto simp: tool_batch_def newSpanID_def Let_def split: option.split)

lemma emitTurnComplete_simps [simp]:
  "TxState (emitTurnComplete c i e t s tx) = TxState tx" "TxStarts (emitTurnComplete c i e t s tx) = TxStarts tx"
  by (simp_all add: emitTurnComplete_def Let_def split: prod.split) (auto simp: newSpanID_def)

section \<open>Starting an execution\<close>

text \<open>The key of the execution a hook would start: that of the open session, else the identity of the hook.\<close>

definition start_key :: "hook_ctx \<Rightarrow> session_state \<Rightarrow> string" where
  "start_key c st = (if SsClosed st \<or> SsExecutionKey st = '''' then ''cc-'' @ CxID c else SsExecutionKey st)"

lemma start_key_simps [simp]:
  "start_key c (st\<lparr>SsPendingSpans := ps\<rparr>) = start_key c st" "start_key c (st\<lparr>SsSessionID := x\<rparr>) = start_key c st"
  "start_key c (st\<lparr>SsCompletedTools := cs\<rparr>) = start_key c st"
  by (simp_all add: start_key_def)

definition one_start :: "string \<Rightarrow> hook_tx \<Rightarrow> hook_tx \<Rightarrow> bool" where
  "one_start key tx tx' = (TxStarts tx' = TxStarts tx \<or> (\<exists>r. TxStarts tx' = TxStarts tx @ [r] \<and> SrIdempotencyKey r = key))"

lemma ensureExecution_starts: "one_start (start_key c (TxState tx)) tx (snd (ensureExecution c i tx))"
  by (auto simp: one_start_def ensureExecution_def startExecution_def start_req_def start_key_def executionKey_def reopen_def fresh_state_def Let_def
      split: sum.splits)

lemma emit_point_starts: "one_start (start_key c (TxState tx)) tx (emit_point c i typ name md tx)"
  using ensureExecution_starts [of c tx i] by (auto simp: emit_point_def one_start_def newSpanID_def split: prod.splits)

text \<open>
  C38.  Starting an execution is safe to retry.  A hook sends at most one \<open>StartExecution\<close> request, and its idempotency
  key is the key of the open session or is made of the identity under which the hook was journalled; so
  every attempt to prepare the hook from the same state, a crash in between or not, uses the same key.
\<close>

theorem start_key_stable:
  "length (TxStarts (snd (dispatchHook event c i tx))) \<le> Suc (length (TxStarts tx)) \<and>
   (\<forall>r \<in> set (drop (length (TxStarts tx)) (TxStarts (snd (dispatchHook event c i tx)))). SrIdempotencyKey r = start_key c (TxState tx))"
proof -
  have start: "one_start (start_key c (TxState tx)) tx (snd (HandleSessionStart c i tx))"
    by (auto simp: HandleSessionStart_def one_start_def startExecution_def start_req_def start_key_def executionKey_def reopen_def fresh_state_def Let_def
        split: sum.splits)
  have prompt: "one_start (start_key c (TxState tx)) tx (snd (HandleUserPrompt c i tx))"
  proof -
    let ?st = "if SsSessionID (TxState tx) = '''' then (TxState tx)\<lparr>SsSessionID := InSessionID i\<rparr> else TxState tx"
    have "start_key c ?st = start_key c (TxState tx)" by simp
    then show ?thesis using ensureExecution_starts [of c "set_state ?st tx" i]
      by (simp add: HandleUserPrompt_def Let_def one_start_def newSpanID_def split: prod.split)
  qed
  have pre: "one_start (start_key c (TxState tx)) tx (snd (HandlePreTool c i tx))"
  proof -
    define st where "st = (if SsSessionID (TxState tx) = '''' then (TxState tx)\<lparr>SsSessionID := InSessionID i\<rparr> else TxState tx)"
    define tx1 where "tx1 = tx\<lparr>TxDrawn := Suc (TxDrawn tx)\<rparr>"
    define st1 where "st1 = st\<lparr>SsPendingSpans := AList.update (pendingKey i)
      \<lparr>SpSpanID = CxSpanID c (TxDrawn tx), SpName = InToolName i, SpStartedAt = hookTime c, SpMetadata = [], SpInput = InToolInput i,
       SpParentSpanID = SsTurnSpanID st\<rparr> (SsPendingSpans st)\<rparr>"
    have key: "start_key c st1 = start_key c (TxState tx)" by (simp add: st1_def st_def)
    have "one_start (start_key c (TxState tx)) tx (snd (ensureExecution c i (set_state st1 tx1)))"
      using ensureExecution_starts [of c "set_state st1 tx1" i] by (simp add: one_start_def key) (simp add: tx1_def)
    moreover have "TxStarts (snd (HandlePreTool c i tx)) \<in> {TxStarts tx, TxStarts (snd (ensureExecution c i (set_state st1 tx1)))}"
      unfolding HandlePreTool_def newSpanID_def prod.case Let_def st_def [symmetric] st1_def [symmetric] tx1_def [symmetric]
      by (simp split: prod.split)
    ultimately show ?thesis by (auto simp: one_start_def)
  qed
  have post: "one_start (start_key c (TxState tx)) tx (snd (handlePostTool f c i tx))" for f
  proof (cases "InToolUseID i \<noteq> '''' \<and> completed (TxState tx) (pendingKey i)")
    case True
    then show ?thesis by (simp add: handlePostTool_def one_start_def)
  next
    case False
    obtain sp tx1 where sp: "take_span c i tx = (sp, tx1)" by fastforce
    have tx1: "TxState tx1 = TxState tx" "TxStarts tx1 = TxStarts tx" using take_span_simps [of c i tx] sp by auto
    let ?tx2 = "set_state (finish_tool i (TxState tx)) tx1"
    have "start_key c (TxState ?tx2) = start_key c (TxState tx)" by (simp add: finish_tool_def Let_def)
    then have "one_start (start_key c (TxState tx)) tx (snd (ensureExecution c (fill_input sp i) ?tx2))"
      using ensureExecution_starts [of c ?tx2 "fill_input sp i"] tx1 by (simp add: one_start_def)
    moreover obtain e tx3 where en: "ensureExecution c (fill_input sp i) ?tx2 = (e, tx3)" by fastforce
    moreover obtain b tx4 where tb: "tool_batch c (fill_input sp i) (f \<or> toolCallFailed (CxLib c) (fill_input sp i)) sp tx3 = (b, tx4)" by fastforce
    moreover have "TxStarts tx4 = TxStarts tx3" using tool_batch_simps(2) [of c "fill_input sp i" "f \<or> toolCallFailed (CxLib c) (fill_input sp i)" sp tx3] tb by simp
    then have "TxStarts (snd (handlePostTool f c i tx)) = TxStarts tx3"
      unfolding handlePostTool_def if_not_P [OF False] by (simp add: sp tx1 en tb Let_def)
    ultimately show ?thesis by (simp add: one_start_def)
  qed
  have stop: "one_start (start_key c (TxState tx)) tx (snd (HandleStop c i tx))"
    using ensureExecution_starts [of c tx i]
    by (auto simp: HandleStop_def Let_def one_start_def split: prod.splits option.splits)
  have rest: "one_start (start_key c (TxState tx)) tx (snd (HandlePermission c i tx))"
    "one_start (start_key c (TxState tx)) tx (snd (HandleSubagentStop c i tx))"
    "one_start (start_key c (TxState tx)) tx (snd (HandleNotification c i tx))"
    "one_start (start_key c (TxState tx)) tx (snd (HandleSessionEnd c i tx))"
    using emit_point_starts [of c tx i]
    by (simp_all add: HandlePermission_def HandleSubagentStop_def HandleNotification_def HandleSessionEnd_def Let_def one_start_def)
  have "one_start (start_key c (TxState tx)) tx (snd (dispatchHook event c i tx))"
    using start prompt pre post stop rest
    by (simp add: dispatchHook_def HandlePostTool_def HandlePostToolFailure_def) (simp add: one_start_def)
  then show ?thesis by (auto simp: one_start_def)
qed

section \<open>Tool calls\<close>

lemma reopen_open [simp]: "\<not> SsClosed st \<Longrightarrow> reopen i st = st"
  by (simp add: reopen_def)

lemma ensureExecution_open:
  assumes "\<not> SsClosed (TxState tx)"
  shows "SsPendingSpans (TxState (snd (ensureExecution c i tx))) = SsPendingSpans (TxState tx) \<and>
    SsCompletedTools (TxState (snd (ensureExecution c i tx))) = SsCompletedTools (TxState tx) \<and>
    SsTurnSpanID (TxState (snd (ensureExecution c i tx))) = SsTurnSpanID (TxState tx) \<and>
    SsClosed (TxState (snd (ensureExecution c i tx))) = False \<and> TxOperations (snd (ensureExecution c i tx)) = TxOperations tx"
  using assms by (auto simp: ensureExecution_def executionKey_def startExecution_def Let_def split: sum.splits)

lemma handlePostTool_completes:
  assumes "InToolUseID i \<noteq> ''''" "\<not> SsClosed (TxState tx)"
  shows "completed (TxState (snd (handlePostTool f c i tx))) (InToolUseID i)"
proof (cases "completed (TxState tx) (pendingKey i)")
  case True
  then show ?thesis using assms(1) by (simp add: handlePostTool_def) (simp add: pendingKey_def)
next
  case False
  obtain sp tx1 where sp: "take_span c i tx = (sp, tx1)" by fastforce
  have tx1: "TxState tx1 = TxState tx" using take_span_simps(1) [of c i tx] sp by simp
  let ?tx2 = "set_state (finish_tool i (TxState tx)) tx1"
  obtain e tx3 where en: "ensureExecution c (fill_input sp i) ?tx2 = (e, tx3)" by fastforce
  let ?failed = "f \<or> toolCallFailed (CxLib c) (fill_input sp i)"
  obtain b tx4 where tb: "tool_batch c (fill_input sp i) ?failed sp tx3 = (b, tx4)" by fastforce
  have "\<not> SsClosed (TxState ?tx2)" using assms(2) by (simp add: finish_tool_def Let_def)
  then have "SsCompletedTools (TxState tx3) = SsCompletedTools (finish_tool i (TxState tx))"
    using ensureExecution_open [of ?tx2 c "fill_input sp i"] by (simp add: en)
  moreover have "TxState tx4 = TxState tx3" using tool_batch_simps(1) [of c "fill_input sp i" ?failed sp tx3] tb by simp
  moreover have "TxState (snd (handlePostTool f c i tx)) = TxState tx4"
    using False by (simp add: handlePostTool_def sp tx1 en tb Let_def)
  ultimately show ?thesis using assms(1) by (simp add: completed_def finish_tool_def Let_def pendingKey_def update_conv')
qed


section \<open>The end of a session\<close>

lemma ingestSpans_carries:
  assumes "sp \<in> set spans"
  shows "\<exists>d \<in> set (TxOperations (ingestSpans c eid spans tx)). DlKind d = dlKindSpans \<and> DlExecutionID d = eid \<and> sp \<in> set (DlSpans d)"
proof -
  have "sp \<in> set (concat (span_batches (requestLimit (CxConfig c)) [] spans))" using assms by (simp add: span_batches_concat)
  then obtain b where "b \<in> set (span_batches (requestLimit (CxConfig c)) [] spans)" "sp \<in> set b" by auto
  then show ?thesis by (auto simp: ingestSpans_def spans_op_def intro!: bexI [of _ "spans_op eid b"])
qed

lemma auditLog_ops: "\<exists>e'. TxOperations (auditLog c e tx) = TxOperations tx @ [audit_op e'] \<and> EiAction e' = EiAction e \<and> EiOutcome e' = EiOutcome e"
  by (auto simp: auditLog_def newSpanID_def Let_def)

text \<open>
  C35.  The end of a session closes its trace.  With an execution, the operations of the hook cancel every span the
  session still has pending, each under its own identifier, and end the execution after that; the state is marked closed, so that the
  state file is removed when the operations were delivered.
\<close>

theorem session_end_closes:
  assumes "SsExecutionID (TxState tx) = eid" "eid \<noteq> ''''"
  shows "\<exists>ops e. TxOperations (snd (HandleSessionEnd c i tx)) = TxOperations tx @ ops @ [end_op eid ''COMPLETED'' (hookTime c), audit_op e] \<and>
      EiAction e = ''claude_code.session.end'' \<and> SsClosed (TxState (snd (HandleSessionEnd c i tx))) \<and>
      (\<forall>key p. map_of (SsPendingSpans (TxState tx)) key = Some p \<longrightarrow>
         (\<exists>d \<in> set ops. DlKind d = dlKindSpans \<and> DlExecutionID d = eid \<and> cancelled_span c eid key p \<in> set (DlSpans d)))"
proof -
  let ?st = "TxState tx"
  let ?sps = "if SsPendingSpans ?st \<noteq> [] then cancelled_spans c ?st else []"
  define tx1 where "tx1 = (if eid \<noteq> '''' \<and> SsPendingSpans ?st \<noteq> [] then ingestSpans c eid (cancelled_spans c ?st) tx else tx)"
  obtain ops where ops: "TxOperations tx1 = TxOperations tx @ ops" "ops = map (spans_op eid) (span_batches (requestLimit (CxConfig c)) [] ?sps)"
    by (cases "SsPendingSpans ?st = []") (auto simp: tx1_def ingestSpans_def assms(2))
  have "\<exists>d \<in> set ops. DlKind d = dlKindSpans \<and> DlExecutionID d = eid \<and> cancelled_span c eid key p \<in> set (DlSpans d)"
    if "map_of (SsPendingSpans ?st) key = Some p" for key p
  proof -
    have "key \<in> fst ` set (SsPendingSpans ?st)" using that by (force dest: map_of_SomeD)
    then have "cancelled_span c eid key p \<in> set (cancelled_spans c ?st)"
      unfolding cancelled_spans_def set_map set_sort set_remdups using that assms(1) by (intro image_eqI [of _ _ key]) auto
    moreover have "SsPendingSpans ?st \<noteq> []" using that by auto
    ultimately show ?thesis
      using ingestSpans_carries [of "cancelled_span c eid key p" ?sps c eid "tx\<lparr>TxOperations := []\<rparr>"] by (simp add: ingestSpans_def ops(2))
  qed
  moreover have "TxOperations (endExecution c eid ''COMPLETED'' tx1) = TxOperations tx @ ops @ [end_op eid ''COMPLETED'' (hookTime c)]"
    by (simp add: endExecution_def ops(1))
  moreover define md where "md = [(''reason'', JStr (InReason i)), (''execution_id'', JStr eid)] @
    (if GitCommit (ReadGitInfo c (InCwd i)) \<noteq> '''' then [(''git_commit_end'', JStr (GitCommit (ReadGitInfo c (InCwd i)))),
       (''git_branch'', JStr (GitBranch (ReadGitInfo c (InCwd i))))] else [])"
  have "snd (HandleSessionEnd c i tx) =
      (let tx3 = auditLog c (event_of (HumanActor c) ''claude_code.session.end'' (session_resource i) ''success'' md) (endExecution c eid ''COMPLETED'' tx1)
       in set_state ((TxState tx3)\<lparr>SsClosed := True\<rparr>) tx3)"
    using assms by (simp add: HandleSessionEnd_def Let_def tx1_def md_def)
  ultimately show ?thesis
    using auditLog_ops [of c "event_of (HumanActor c) ''claude_code.session.end'' (session_resource i) ''success'' md" "endExecution c eid ''COMPLETED'' tx1"]
    by (auto simp: Let_def event_of_def)
qed


end
