(* ===== verification/Collector_Privacy.thy ===== *)
theory Collector_Privacy
  imports Collector_Capture
begin

text \<open>
  What hash mode lets out.  \<open>text_shape\<close> relates JSON values that differ only in their strings, and there only in texts with the
  same digest and the same length.  Hooks whose prompt, tool input, tool output, error text and captured answer are
  related in this way have the same operations and leave related states: what is sent depends on these texts through
  their digest and length only.
\<close>

section \<open>Texts an observer cannot tell apart\<close>

definition same_text :: "cc_lib \<Rightarrow> string \<Rightarrow> string \<Rightarrow> bool" where
  "same_text L a b = (LibHash L a = LibHash L b \<and> length a = length b)"

inductive text_shape :: "cc_lib \<Rightarrow> json \<Rightarrow> json \<Rightarrow> bool" for L where
  "same_text L a b \<Longrightarrow> text_shape L (JStr a) (JStr b)"
| "list_all2 (text_shape L) xs ys \<Longrightarrow> text_shape L (JArr xs) (JArr ys)"
| "list_all2 (\<lambda>p q. fst p = fst q \<and> text_shape L (snd p) (snd q)) xs ys \<Longrightarrow> text_shape L (JObj xs) (JObj ys)"
| "text_shape L JNull JNull"
| "text_shape L (JBool b) (JBool b)"
| "text_shape L (JNum n) (JNum n)"
monos list.rel_mono_strong

inductive_cases text_shape_StrE: "text_shape L (JStr a) w"
inductive_cases text_shape_ArrE: "text_shape L (JArr xs) w"
inductive_cases text_shape_ObjE: "text_shape L (JObj xs) w"
inductive_cases text_shape_NullE: "text_shape L JNull w"

definition same_raw :: "cc_lib \<Rightarrow> json option \<Rightarrow> json option \<Rightarrow> bool" where
  "same_raw L = rel_option (text_shape L)"

definition same_stats :: "cc_lib \<Rightarrow> turn_stats \<Rightarrow> turn_stats \<Rightarrow> bool" where
  "same_stats L s t =
     (same_text L (TsResponseText s) (TsResponseText t) \<and> s\<lparr>TsResponseText := '''', TsMessages := []\<rparr> = t\<lparr>TsResponseText := '''', TsMessages := []\<rparr>)"

definition same_input :: "cc_lib \<Rightarrow> hook_input \<Rightarrow> hook_input \<Rightarrow> bool" where
  "same_input L i j =
     (same_text L (InPrompt i) (InPrompt j) \<and> same_raw L (InToolInput i) (InToolInput j) \<and> same_raw L (InToolResponse i) (InToolResponse j) \<and>
      toolCallFailed L i = toolCallFailed L j \<and> rel_option (same_stats L) (InCapturedTurn i) (InCapturedTurn j) \<and>
      j = i\<lparr>InPrompt := InPrompt j, InToolInput := InToolInput j, InToolResponse := InToolResponse j, InError := InError j,
             InCapturedTurn := InCapturedTurn j, InLastAssistantMessage := InLastAssistantMessage j\<rparr>)"

definition same_span :: "cc_lib \<Rightarrow> string \<times> span_start \<Rightarrow> string \<times> span_start \<Rightarrow> bool" where
  "same_span L p q = (fst p = fst q \<and> same_raw L (SpInput (snd p)) (SpInput (snd q)) \<and> (snd p)\<lparr>SpInput := None\<rparr> = (snd q)\<lparr>SpInput := None\<rparr>)"

definition same_state :: "cc_lib \<Rightarrow> session_state \<Rightarrow> session_state \<Rightarrow> bool" where
  "same_state L s t = (list_all2 (same_span L) (SsPendingSpans s) (SsPendingSpans t) \<and> s\<lparr>SsPendingSpans := []\<rparr> = t\<lparr>SsPendingSpans := []\<rparr>)"

definition same_tx :: "cc_lib \<Rightarrow> hook_tx \<Rightarrow> hook_tx \<Rightarrow> bool" where
  "same_tx L x y = (same_state L (TxState x) (TxState y) \<and> y = x\<lparr>TxState := TxState y\<rparr>)"

section \<open>Redaction\<close>

lemma same_text_hash: "same_text L a b \<Longrightarrow> Sha256Hex L a = Sha256Hex L b \<and> len_json a = len_json b \<and> (a = '''' \<longleftrightarrow> b = '''')"
  by (auto simp: same_text_def Sha256Hex_def len_json_def)

lemma same_text_refl [simp]: "same_text L a a"
  by (simp add: same_text_def)

lemma redact_hash: "text_shape L v w \<Longrightarrow> redact_value L CaptureHash key v = redact_value L CaptureHash key w"
proof (induction arbitrary: key rule: text_shape.induct)
  case (1 a b)
  then show ?case by (simp add: redact_string_def digest_json_def same_text_hash CaptureHash_def CaptureRawMode_def CaptureMetadata_def)
next
  case (2 xs ys)
  then have "list_all2 (\<lambda>x y. redact_value L CaptureHash key x = redact_value L CaptureHash key y) xs ys"
    by (rule list.rel_mono_strong) blast
  then have "map (redact_value L CaptureHash key) xs = map (redact_value L CaptureHash key) ys"
    by (induction rule: list_all2_induct) auto
  then show ?case by simp
next
  case (3 xs ys)
  let ?f = "\<lambda>(k, v). (k, redact_value L CaptureHash k v)"
  have "list_all2 (\<lambda>p q. ?f p = ?f q) xs ys"
    using 3 by (rule list.rel_mono_strong) (auto simp: case_prod_beta')
  then have "map ?f xs = map ?f ys" by (induction rule: list_all2_induct) auto
  then show ?case by simp
qed auto

lemma RedactInput_hash: "same_raw L a b \<Longrightarrow> RedactInput L a CaptureHash = RedactInput L b CaptureHash"
  using redact_hash [of L _ _ "''''"] by (auto simp: same_raw_def RedactInput_def option_rel_Some1 split: option.splits)

lemma SummarizeOutput_hash: "same_raw L a b \<Longrightarrow> SummarizeOutput L a CaptureHash = SummarizeOutput L b CaptureHash"
  using RedactInput_hash by (simp add: SummarizeOutput_def)

lemma same_fields:
  assumes "same_raw L a b"
  shows "list_all2 (\<lambda>p q. fst p = fst q \<and> text_shape L (snd p) (snd q)) (object_fields a) (object_fields b)"
  using assms by (cases a; cases b) (auto simp: same_raw_def object_fields_def elim: text_shape.cases)

lemma same_lookup:
  "list_all2 (\<lambda>p q. fst p = fst q \<and> text_shape L (snd p) (snd q)) xs ys \<Longrightarrow> rel_option (text_shape L) (map_of xs k) (map_of ys k)"
  by (induction rule: list_all2_induct) auto

lemma same_stringField:
  assumes "list_all2 (\<lambda>p q. fst p = fst q \<and> text_shape L (snd p) (snd q)) xs ys"
  shows "same_text L (stringField xs k) (stringField ys k)"
proof -
  have "rel_option (text_shape L) (jget xs k) (jget ys k)"
    using same_lookup [of L "rev xs" "rev ys" k] assms by (simp add: jget_def)
  then show ?thesis by (cases "jget xs k"; cases "jget ys k") (auto simp: stringField_def elim: text_shape.cases)
qed

lemma Resource_hash:
  assumes "same_raw L a b"
  shows "ResourceFromTool L name a CaptureHash = ResourceFromTool L name b CaptureHash"
proof -
  note f = same_text_hash [OF same_stringField [OF same_fields [OF assms]]]
  show ?thesis
    using f [of "''command''"] f [of "''file_path''"] f [of "''notebook_path''"] by (simp add: ResourceFromTool_def Let_def)
qed

section \<open>States\<close>

lemma same_raw_refl [simp]: "same_raw L None None"
  by (simp add: same_raw_def)

lemma same_raw_null: "same_raw L a b \<Longrightarrow> (a = None) = (b = None)"
  by (auto simp: same_raw_def)

lemma same_spans_keys: "list_all2 (same_span L) xs ys \<Longrightarrow> map fst xs = map fst ys"
  by (induction rule: list_all2_induct) (auto simp: same_span_def)

lemma same_spans_lookup:
  "list_all2 (same_span L) xs ys \<Longrightarrow> rel_option (\<lambda>p q. same_span L (k, p) (k, q)) (map_of xs k) (map_of ys k)"
  by (induction rule: list_all2_induct) (auto simp: same_span_def)

lemma same_spans_update:
  "list_all2 (same_span L) xs ys \<Longrightarrow> same_span L (k, p) (k, q) \<Longrightarrow> list_all2 (same_span L) (AList.update k p xs) (AList.update k q ys)"
proof (induction rule: list_all2_induct)
  case (Cons x xs y ys)
  then have "fst x = fst y" by (simp add: same_span_def)
  then show ?case using Cons by (cases x; cases y) simp
qed simp

lemma same_spans_delete: "list_all2 (same_span L) xs ys \<Longrightarrow> list_all2 (same_span L) (AList.delete k xs) (AList.delete k ys)"
  by (induction rule: list_all2_induct) (auto simp: same_span_def AList.delete_eq)

lemma same_state_fields:
  assumes "same_state L s t"
  shows "list_all2 (same_span L) (SsPendingSpans s) (SsPendingSpans t)" "SsSessionID t = SsSessionID s" "SsExecutionKey t = SsExecutionKey s"
    "SsExecutionID t = SsExecutionID s" "SsTurnSpanID t = SsTurnSpanID s" "SsCompletedTools t = SsCompletedTools s" "SsClosed t = SsClosed s"
  using assms by (cases s; cases t; simp add: same_state_def)+

lemma same_stateI:
  "list_all2 (same_span L) (SsPendingSpans s) (SsPendingSpans t) \<Longrightarrow> SsSessionID t = SsSessionID s \<Longrightarrow> SsExecutionKey t = SsExecutionKey s \<Longrightarrow>
   SsExecutionID t = SsExecutionID s \<Longrightarrow> SsTurnSpanID t = SsTurnSpanID s \<Longrightarrow> SsCompletedTools t = SsCompletedTools s \<Longrightarrow> SsClosed t = SsClosed s \<Longrightarrow>
   same_state L s t"
  by (cases s; cases t; simp add: same_state_def)

lemma same_span_fields:
  assumes "same_span L (k, p) (k, q)"
  shows "SpSpanID q = SpSpanID p" "SpName q = SpName p" "SpStartedAt q = SpStartedAt p" "SpMetadata q = SpMetadata p"
    "SpParentSpanID q = SpParentSpanID p" "same_raw L (SpInput p) (SpInput q)"
  using assms by (cases p; cases q; simp add: same_span_def)+

lemma same_spanI:
  "SpSpanID q = SpSpanID p \<Longrightarrow> SpName q = SpName p \<Longrightarrow> SpStartedAt q = SpStartedAt p \<Longrightarrow> SpMetadata q = SpMetadata p \<Longrightarrow>
    SpParentSpanID q = SpParentSpanID p \<Longrightarrow> same_raw L (SpInput p) (SpInput q) \<Longrightarrow> same_span L (k, p) (k, q)"
  by (cases p; cases q; simp add: same_span_def)

lemma same_tx_fields:
  assumes "same_tx L x y"
  shows "same_state L (TxState x) (TxState y)" "TxOperations y = TxOperations x" "TxErr y = TxErr x" "TxDrawn y = TxDrawn x" "TxStarts y = TxStarts x"
  using assms by (cases x; cases y; simp add: same_tx_def)+

lemma same_txI:
  "same_state L (TxState x) (TxState y) \<Longrightarrow> TxOperations y = TxOperations x \<Longrightarrow> TxErr y = TxErr x \<Longrightarrow> TxDrawn y = TxDrawn x \<Longrightarrow> TxStarts y = TxStarts x \<Longrightarrow>
   same_tx L x y"
  by (cases x; cases y; simp add: same_tx_def)

lemma same_input_fields:
  assumes "same_input L i j"
  shows "InSessionID j = InSessionID i" "InTimestamp j = InTimestamp i" "InCwd j = InCwd i" "InPermissionMode j = InPermissionMode i"
    "InSource j = InSource i" "InToolName j = InToolName i" "InToolUseID j = InToolUseID i" "InHookEventName j = InHookEventName i"
    "InMessage j = InMessage i" "InAgentType j = InAgentType i" "InAgentID j = InAgentID i" "InReason j = InReason i"
    "InTranscriptPath j = InTranscriptPath i" "InAgentTranscriptPath j = InAgentTranscriptPath i" "InUsage j = InUsage i"
    "InTotalCostUSD j = InTotalCostUSD i" "same_text L (InPrompt i) (InPrompt j)" "same_raw L (InToolInput i) (InToolInput j)"
    "same_raw L (InToolResponse i) (InToolResponse j)" "toolCallFailed L j = toolCallFailed L i"
    "rel_option (same_stats L) (InCapturedTurn i) (InCapturedTurn j)"
  using assms by (cases i; cases j; simp add: same_input_def)+

section \<open>Handlers\<close>

lemma same_set_state [intro]: "same_tx L x y \<Longrightarrow> same_state L s t \<Longrightarrow> same_tx L (set_state s x) (set_state t y)"
  using same_tx_fields [of L x y] by (intro same_txI) auto

lemma same_ingest [intro]: "same_tx L x y \<Longrightarrow> same_tx L (ingestSpans c e ss x) (ingestSpans c e ss y)"
  using same_tx_fields [of L x y] by (intro same_txI) (auto simp: ingestSpans_def)

lemma same_audit [intro]: "same_tx L x y \<Longrightarrow> same_tx L (auditLog c e x) (auditLog c e y)"
  using same_tx_fields [of L x y] same_state_fields [of L "TxState x" "TxState y"]
  by (intro same_txI) (auto simp: auditLog_def newSpanID_def Let_def)

lemma same_end [intro]: "same_tx L x y \<Longrightarrow> same_tx L (endExecution c e st x) (endExecution c e st y)"
  using same_tx_fields [of L x y] by (intro same_txI) (auto simp: endExecution_def)

lemma same_draw: "same_tx L x y \<Longrightarrow> fst (newSpanID c y) = fst (newSpanID c x) \<and> same_tx L (snd (newSpanID c x)) (snd (newSpanID c y))"
  using same_tx_fields [of L x y] by (auto simp: newSpanID_def intro!: same_txI)

lemma same_state_refl [simp]: "list_all2 (same_span L) (SsPendingSpans s) (SsPendingSpans s) \<Longrightarrow> same_state L s s"
  by (rule same_stateI) auto

lemma same_reopen: "same_state L s t \<Longrightarrow> InSessionID j = InSessionID i \<Longrightarrow> same_state L (reopen i s) (reopen j t)"
  using same_state_fields [of L s t] by (auto simp: reopen_def fresh_state_def intro!: same_stateI)

lemma same_key: "same_state L s t \<Longrightarrow> same_state L (executionKey c s) (executionKey c t)"
  using same_state_fields [of L s t] by (auto simp: executionKey_def intro!: same_stateI)

lemma same_start:
  assumes "same_input L i j" "same_tx L x y"
  shows "fst (startExecution c j tr k lz y) = fst (startExecution c i tr k lz x) \<and>
    same_tx L (snd (startExecution c i tr k lz x)) (snd (startExecution c j tr k lz y))"
proof -
  have "start_req c j tr k lz = start_req c i tr k lz" using same_input_fields [OF assms(1)] by (simp add: start_req_def)
  then show ?thesis using same_tx_fields [OF assms(2)]
    by (auto simp: startExecution_def Let_def intro!: same_txI split: sum.split)
qed

lemma same_ensure:
  assumes "same_input L i j" "same_tx L x y"
  shows "fst (ensureExecution c j y) = fst (ensureExecution c i x) \<and> same_tx L (snd (ensureExecution c i x)) (snd (ensureExecution c j y))"
proof -
  let ?s = "reopen i (TxState x)" and ?t = "reopen j (TxState y)"
  have st: "same_state L ?s ?t" using same_reopen same_tx_fields(1) [OF assms(2)] same_input_fields(1) [OF assms(1)] by blast
  note sf = same_state_fields [OF st]
  show ?thesis
  proof (cases "SsExecutionID ?s = ''''")
    case False
    then show ?thesis using sf(4) same_set_state [OF assms(2) st] by (simp add: ensureExecution_def Let_def)
  next
    case True
    let ?s1 = "executionKey c ?s" and ?t1 = "executionKey c ?t"
    have st1: "same_state L ?s1 ?t1" using same_key [OF st] .
    have k: "SsExecutionKey ?t1 = SsExecutionKey ?s1" using same_state_fields [OF st1] by simp
    obtain a x1 where a: "startExecution c i ''lazy'' (SsExecutionKey ?s1) True (set_state ?s1 x) = (a, x1)" by fastforce
    obtain b y1 where b: "startExecution c j ''lazy'' (SsExecutionKey ?s1) True (set_state ?t1 y) = (b, y1)" by fastforce
    have ab: "b = a" "same_tx L x1 y1"
      using same_start [OF assms(1) same_set_state [OF assms(2) st1], of c "''lazy''" "SsExecutionKey ?s1" True] a b by auto
    have upd: "same_state L (?s1\<lparr>SsExecutionID := e\<rparr>) (?t1\<lparr>SsExecutionID := e\<rparr>)" for e
      using same_state_fields [OF st1] by (intro same_stateI) auto
    have err: "same_tx L (x1\<lparr>TxErr := e\<rparr>) (y1\<lparr>TxErr := e\<rparr>)" for e using same_tx_fields [OF ab(2)] by (intro same_txI) auto
    have ei: "ensureExecution c i x = (case a of Inl e \<Rightarrow> ('''', x1\<lparr>TxErr := Some (''execution start unavailable: '' @ e)\<rparr>)
       | Inr i1 \<Rightarrow> if i1 = '''' then ('''', x1\<lparr>TxErr := Some ''execution start unavailable: <nil>''\<rparr>) else (i1, set_state (?s1\<lparr>SsExecutionID := i1\<rparr>) x1))"
      using True by (simp add: ensureExecution_def Let_def a split: sum.split)
    have ej: "ensureExecution c j y = (case a of Inl e \<Rightarrow> ('''', y1\<lparr>TxErr := Some (''execution start unavailable: '' @ e)\<rparr>)
       | Inr i1 \<Rightarrow> if i1 = '''' then ('''', y1\<lparr>TxErr := Some ''execution start unavailable: <nil>''\<rparr>) else (i1, set_state (?t1\<lparr>SsExecutionID := i1\<rparr>) y1))"
      using True sf(4) ab(1) by (simp add: ensureExecution_def Let_def k b split: sum.split)
    show ?thesis unfolding ei ej using err same_set_state [OF ab(2) upd] by (auto split: sum.split)
  qed
qed

lemma same_emit:
  assumes "same_input L i j" "same_tx L x y"
  shows "same_tx L (emit_point c i typ name md x) (emit_point c j typ name md y)"
proof -
  obtain e x1 where e: "ensureExecution c i x = (e, x1)" by fastforce
  obtain y1 where f: "ensureExecution c j y = (e, y1)" "same_tx L x1 y1"
    using same_ensure [OF assms, of c] e by (metis eq_fst_iff fst_conv snd_conv)
  note st = same_state_fields [OF same_tx_fields(1) [OF f(2)]]
  show ?thesis
    using f(2) same_ingest [OF conjunct2 [OF same_draw [OF f(2)]]] same_draw [OF f(2), of c]
    by (auto simp: emit_point_def e f(1) newSpanID_def st split: prod.split)
qed

text \<open>Two runs of a handler that an observer of the operations cannot tell apart.\<close>

definition same_result :: "cc_lib \<Rightarrow> string option \<times> hook_tx \<Rightarrow> string option \<times> hook_tx \<Rightarrow> bool" where
  "same_result L p q = (fst q = fst p \<and> same_tx L (snd p) (snd q))"

lemma same_SessionStart:
  assumes "same_input L i j" "same_tx L x y"
  shows "same_result L (HandleSessionStart c i x) (HandleSessionStart c j y)"
proof -
  note inp = same_input_fields [OF assms(1)]
  let ?s = "reopen i (TxState x)" and ?t = "reopen j (TxState y)"
  have st: "same_state L ?s ?t" using same_reopen same_tx_fields(1) [OF assms(2)] inp(1) by blast
  let ?s1 = "if SsExecutionID ?s = '''' then executionKey c ?s else ?s" and ?t1 = "if SsExecutionID ?s = '''' then executionKey c ?t else ?t"
  have st1: "same_state L ?s1 ?t1" using st same_key by auto
  note f1 = same_state_fields [OF st1] and f = same_state_fields [OF st]
  let ?r = "\<lambda>i x s1. if SsExecutionID ?s = '''' then startExecution c i (InSource i) (SsExecutionKey ?s1) False (set_state s1 x) else (Inr (SsExecutionID ?s), set_state s1 x)"
  have r: "fst (?r j y ?t1) = fst (?r i x ?s1) \<and> same_tx L (snd (?r i x ?s1)) (snd (?r j y ?t1))"
    using same_start [OF assms(1) same_set_state [OF assms(2) st1], of c "InSource i" "SsExecutionKey ?s1" False] same_set_state [OF assms(2) st1]
    by (auto simp: inp)
  obtain a x1 where a: "?r i x ?s1 = (a, x1)" by fastforce
  obtain b0 y1 where b0: "?r j y ?t1 = (b0, y1)" by fastforce
  have b: "?r j y ?t1 = (a, y1)" "same_tx L x1 y1" using r unfolding a b0 by simp_all
  have upd: "same_state L (?s1\<lparr>SsSessionID := n, SsExecutionID := e, SsClosed := False\<rparr>) (?t1\<lparr>SsSessionID := n, SsExecutionID := e, SsClosed := False\<rparr>)" for n e
    using f1 by (intro same_stateI) auto
  have git: "git_fields c (InCwd j) = git_fields c (InCwd i)" by (simp add: inp)
  have res: "session_resource j = session_resource i" by (simp add: session_resource_def inp)
  show ?thesis
    unfolding HandleSessionStart_def Let_def f(4) f1(3) a b(1) prod.case
    using b(2) same_audit [OF same_set_state [OF b(2) upd]] by (auto simp: same_result_def inp git res split: sum.split)
qed

lemma same_Permission:
  assumes "same_input (CxLib c) i j" "same_tx (CxLib c) x y" "mode_of c = CaptureHash"
  shows "same_result (CxLib c) (HandlePermission c i x) (HandlePermission c j y)"
proof -
  note inp = same_input_fields [OF assms(1)]
  have m: "same_tx (CxLib c) (emit_point c i t n md x) (emit_point c j t n md y)" for t n md using same_emit [OF assms(1,2)] .
  have e: "SsExecutionID (TxState (emit_point c j t n md y)) = SsExecutionID (TxState (emit_point c i t n md x))" for t n md
    using same_state_fields(4) [OF same_tx_fields(1) [OF m]] .
  show ?thesis
    using same_audit [OF m] by (simp add: same_result_def HandlePermission_def Let_def inp e assms(3) Resource_hash [OF inp(18)])
qed

lemma same_Notification:
  assumes "same_input L i j" "same_tx L x y"
  shows "same_result L (HandleNotification c i x) (HandleNotification c j y)"
  using same_audit [OF assms(2)] same_input_fields [OF assms(1)] by (simp add: same_result_def HandleNotification_def session_resource_def)

lemma same_captured:
  assumes "same_input (CxLib c) i j"
  shows "same_stats (CxLib c) (captured_stats c path i) (captured_stats c path j)"
  using same_input_fields(21) [OF assms]
  by (cases "InCapturedTurn i"; cases "InCapturedTurn j") (auto simp: captured_stats_def same_stats_def)

lemma same_stats_fields:
  assumes "same_stats L s t"
  shows "TsCaptureStatus t = TsCaptureStatus s" "TsCaptureReason t = TsCaptureReason s" "TsInputTokens t = TsInputTokens s"
    "TsOutputTokens t = TsOutputTokens s" "TsModel t = TsModel s" "len_json (TsResponseText t) = len_json (TsResponseText s)"
    "Sha256Hex L (TsResponseText t) = Sha256Hex L (TsResponseText s)"
  using assms same_text_hash [of L "TsResponseText s" "TsResponseText t"] by (cases s; cases t; simp add: same_stats_def)+

lemma same_SubagentStop:
  assumes "same_input (CxLib c) i j" "same_tx (CxLib c) x y" "mode_of c = CaptureHash"
  shows "same_result (CxLib c) (HandleSubagentStop c i x) (HandleSubagentStop c j y)"
proof -
  note inp = same_input_fields [OF assms(1)]
  note st = same_stats_fields [OF same_captured [OF assms(1)]]
  have "response_fields c s = []" for s
    using assms(3) by (simp add: response_fields_def CaptureHash_def CaptureRawMode_def CaptureMetadata_def)
  then show ?thesis
    using same_audit [OF same_emit [OF assms(1,2)]] by (simp add: same_result_def HandleSubagentStop_def Let_def inp st session_resource_def)
qed

lemma same_SessionEnd:
  assumes "same_input L i j" "same_tx L x y"
  shows "same_result L (HandleSessionEnd c i x) (HandleSessionEnd c j y)"
proof -
  note inp = same_input_fields [OF assms(1)] and st = same_tx_fields(1) [OF assms(2)]
  note f = same_state_fields [OF st]
  have sp: "the (map_of (SsPendingSpans (TxState y)) k) \<lparr>SpInput := None\<rparr> = the (map_of (SsPendingSpans (TxState x)) k) \<lparr>SpInput := None\<rparr>"
    if mem: "k \<in> fst ` set (SsPendingSpans (TxState x))" for k
  proof -
    obtain p where p: "map_of (SsPendingSpans (TxState x)) k = Some p"
      using mem by (cases "map_of (SsPendingSpans (TxState x)) k") (auto simp: map_of_eq_None_iff)
    with same_spans_lookup [OF f(1), of k] show ?thesis by (auto simp: option_rel_Some1 same_span_def)
  qed
  have cs: "cancelled_span c e k (p\<lparr>SpInput := None\<rparr>) = cancelled_span c e k p" for e k p by (simp add: cancelled_span_def)
  have keys: "map fst (SsPendingSpans (TxState y)) = map fst (SsPendingSpans (TxState x))" using same_spans_keys [OF f(1)] by simp
  have eq: "cancelled_spans c (TxState y) = cancelled_spans c (TxState x)"
    unfolding cancelled_spans_def keys f(4) by (rule map_cong [OF refl]) (metis cs sp set_sort set_remdups set_map)
  have nil: "(SsPendingSpans (TxState y) = []) = (SsPendingSpans (TxState x) = [])" using keys by (metis map_is_Nil_conv)
  have s1: "same_tx L (if q then ingestSpans c e ss x else x) (if q then ingestSpans c e ss y else y)" for q e ss
    using assms(2) same_ingest by auto
  have s2: "same_tx L (if q then endExecution c e st a else a) (if q then endExecution c e st b else b)" if "same_tx L a b" for q e st a b
    using that same_end by auto
  have res: "session_resource j = session_resource i" by (simp add: session_resource_def inp)
  have closed: "same_tx L (set_state ((TxState a)\<lparr>SsClosed := True\<rparr>) a) (set_state ((TxState b)\<lparr>SsClosed := True\<rparr>) b)" if "same_tx L a b" for a b
    using same_state_fields [OF same_tx_fields(1) [OF that]] by (intro same_set_state [OF that] same_stateI) auto
  show ?thesis
    unfolding HandleSessionEnd_def Let_def same_result_def fst_conv snd_conv f(4) nil eq inp(3,12) res
    by (intro conjI refl closed same_audit s2 s1)
qed

lemma hash_fields [simp]:
  assumes "mode_of c = CaptureHash"
  shows "prompt_fields c i = []" "response_fields c s = []" "error_fields c b i = []"
  using assms by (simp_all add: prompt_fields_def response_fields_def error_fields_def CaptureHash_def CaptureRawMode_def CaptureMetadata_def)

lemma same_named:
  assumes "same_state L s t"
  shows "same_state L (if SsSessionID s = '''' then s\<lparr>SsSessionID := n\<rparr> else s) (if SsSessionID t = '''' then t\<lparr>SsSessionID := n\<rparr> else t)"
  using same_state_fields [OF assms] by (intro same_stateI) auto

lemma same_pending:
  assumes "same_state L s t" "same_span L (k, p) (k, q)"
  shows "same_state L (s\<lparr>SsPendingSpans := AList.update k p (SsPendingSpans s)\<rparr>) (t\<lparr>SsPendingSpans := AList.update k q (SsPendingSpans t)\<rparr>)"
  using same_state_fields [OF assms(1)] same_spans_update [OF _ assms(2)] by (intro same_stateI) auto

lemma same_turn: "same_state L s t \<Longrightarrow> same_state L (s\<lparr>SsTurnSpanID := n\<rparr>) (t\<lparr>SsTurnSpanID := n\<rparr>)"
  using same_state_fields [of L s t] by (intro same_stateI) auto

text \<open>The pairs of \<open>ensureExecution\<close> and of \<open>newSpanID\<close>, as they are taken apart.\<close>

lemma same_ensure_pair:
  assumes "same_input L i j" "same_tx L x y"
  obtains e x1 y1 where "ensureExecution c i x = (e, x1)" "ensureExecution c j y = (e, y1)" "same_tx L x1 y1"
  using same_ensure [OF assms, of c] by (cases "ensureExecution c i x"; cases "ensureExecution c j y") auto

lemma same_draw_pair:
  assumes "same_tx L x y"
  obtains sid x1 y1 where "newSpanID c x = (sid, x1)" "newSpanID c y = (sid, y1)" "same_tx L x1 y1"
  using same_draw [OF assms, of c] by (cases "newSpanID c x"; cases "newSpanID c y") auto

lemma same_UserPrompt:
  assumes "same_input (CxLib c) i j" "same_tx (CxLib c) x y" "mode_of c = CaptureHash"
  shows "same_result (CxLib c) (HandleUserPrompt c i x) (HandleUserPrompt c j y)"
proof -
  let ?L = "CxLib c"
  note inp = same_input_fields [OF assms(1)]
  have pr: "Sha256Hex ?L (InPrompt j) = Sha256Hex ?L (InPrompt i)" "len_json (InPrompt j) = len_json (InPrompt i)"
    using same_text_hash [OF inp(17)] by auto
  have res: "session_resource j = session_resource i" by (simp add: session_resource_def inp)
  define s where "s = (if SsSessionID (TxState x) = '''' then (TxState x)\<lparr>SsSessionID := InSessionID i\<rparr> else TxState x)"
  define t where "t = (if SsSessionID (TxState y) = '''' then (TxState y)\<lparr>SsSessionID := InSessionID i\<rparr> else TxState y)"
  have st: "same_state ?L s t" unfolding s_def t_def by (rule same_named [OF same_tx_fields(1) [OF assms(2)]])
  obtain e x1 y1 where en: "ensureExecution c i (set_state s x) = (e, x1)" "ensureExecution c j (set_state t y) = (e, y1)" "same_tx ?L x1 y1"
    by (rule same_ensure_pair [OF assms(1) same_set_state [OF assms(2) st]])
  obtain sid x2 y2 where dr: "newSpanID c x1 = (sid, x2)" "newSpanID c y1 = (sid, y2)" "same_tx ?L x2 y2"
    by (rule same_draw_pair [OF en(3)])
  note f = same_state_fields [OF same_tx_fields(1) [OF dr(3)]]
  have upd: "same_state ?L ((TxState x2)\<lparr>SsTurnSpanID := n, SsPendingSpans := AList.update k p (SsPendingSpans (TxState x2))\<rparr>)
      ((TxState y2)\<lparr>SsTurnSpanID := n, SsPendingSpans := AList.update k p (SsPendingSpans (TxState y2))\<rparr>)" if "SpInput p = None" for n k p
    using f same_spans_update [OF f(1)] that by (intro same_stateI) (auto simp: same_span_def)
  have cond: "same_tx ?L (if q then ingestSpans c eid ss a else a) (if q then ingestSpans c eid ss b else b)" if "same_tx ?L a b" for q eid ss a b
    using that same_ingest by auto
  have eid: "SsExecutionID ((TxState y2)\<lparr>SsTurnSpanID := n, SsPendingSpans := q\<rparr>) = SsExecutionID ((TxState x2)\<lparr>SsTurnSpanID := n, SsPendingSpans := r\<rparr>)" for n q r
    using f(4) by simp
  show ?thesis
    unfolding HandleUserPrompt_def Let_def inp(1,3) s_def [symmetric] t_def [symmetric] en(1,2) snd_conv dr(1,2) prod.case same_result_def fst_conv pr res
      hash_fields [OF assms(3)] eid [of _ _ "AList.update turn_key p (SsPendingSpans (TxState x2))" for p]
    using f(4) by (auto intro!: same_audit cond same_set_state [OF dr(3)] upd)
qed

lemma same_PreTool:
  assumes "same_input (CxLib c) i j" "same_tx (CxLib c) x y" "mode_of c = CaptureHash"
  shows "same_result (CxLib c) (HandlePreTool c i x) (HandlePreTool c j y)"
proof -
  let ?L = "CxLib c" and ?k = "pendingKey i"
  note inp = same_input_fields [OF assms(1)]
  have key: "pendingKey j = ?k" by (simp add: pendingKey_def inp)
  define s where "s = (if SsSessionID (TxState x) = '''' then (TxState x)\<lparr>SsSessionID := InSessionID i\<rparr> else TxState x)"
  define t where "t = (if SsSessionID (TxState y) = '''' then (TxState y)\<lparr>SsSessionID := InSessionID i\<rparr> else TxState y)"
  have st: "same_state ?L s t" unfolding s_def t_def by (rule same_named [OF same_tx_fields(1) [OF assms(2)]])
  note f = same_state_fields [OF st]
  have cmp: "completed t ?k = completed s ?k" by (simp add: completed_def f)
  have pend: "(map_of (SsPendingSpans t) ?k = None) = (map_of (SsPendingSpans s) ?k = None)"
    using same_spans_lookup [OF f(1), of ?k] by (cases "map_of (SsPendingSpans s) ?k"; cases "map_of (SsPendingSpans t) ?k") auto
  show ?thesis
  proof (cases "InToolUseID i \<noteq> '''' \<and> completed s ?k \<or> map_of (SsPendingSpans s) ?k \<noteq> None")
    case True
    then have "HandlePreTool c i x = (None, set_state s x)" unfolding HandlePreTool_def Let_def s_def [symmetric] by auto
    moreover have "HandlePreTool c j y = (None, set_state t y)"
      unfolding HandlePreTool_def Let_def inp key t_def [symmetric] cmp pend using True by auto
    ultimately show ?thesis using same_set_state [OF assms(2) st] by (simp add: same_result_def)
  next
    case False
    obtain sid x1 y1 where dr: "newSpanID c x = (sid, x1)" "newSpanID c y = (sid, y1)" "same_tx ?L x1 y1" by (rule same_draw_pair [OF assms(2)])
    let ?new = "\<lambda>r. \<lparr>SpSpanID = sid, SpName = InToolName i, SpStartedAt = hookTime c, SpMetadata = [], SpInput = r, SpParentSpanID = SsTurnSpanID s\<rparr>"
    have new: "same_span ?L (?k, ?new (InToolInput i)) (?k, ?new (InToolInput j))" by (rule same_spanI) (simp_all add: inp)
    let ?s1 = "s\<lparr>SsPendingSpans := AList.update ?k (?new (InToolInput i)) (SsPendingSpans s)\<rparr>" and ?t1 = "t\<lparr>SsPendingSpans := AList.update ?k (?new (InToolInput j)) (SsPendingSpans t)\<rparr>"
    obtain e x2 y2 where en: "ensureExecution c i (set_state ?s1 x1) = (e, x2)" "ensureExecution c j (set_state ?t1 y1) = (e, y2)" "same_tx ?L x2 y2"
      by (rule same_ensure_pair [OF assms(1) same_set_state [OF dr(3) same_pending [OF st new]]])
    note st2 = same_tx_fields(1) [OF en(3)]
    note f2 = same_state_fields [OF st2]
    let ?start = "\<lambda>st. case map_of (SsPendingSpans st) ?k of Some s \<Rightarrow> s | None \<Rightarrow> zero_span"
    have start: "same_span ?L (?k, ?start (TxState x2)) (?k, ?start (TxState y2))"
      using same_spans_lookup [OF f2(1), of ?k] by (cases "map_of (SsPendingSpans (TxState x2)) ?k"; cases "map_of (SsPendingSpans (TxState y2)) ?k")
        (auto simp: same_span_def zero_span_def)
    note sf = same_span_fields [OF start]
    have marked: "same_span ?L (?k, (?start (TxState x2))\<lparr>SpMetadata := m\<rparr>) (?k, (?start (TxState y2))\<lparr>SpMetadata := m\<rparr>)" for m
      using sf by (intro same_spanI) simp_all
    have red: "RedactInput ?L (InToolInput j) CaptureHash = RedactInput ?L (InToolInput i) CaptureHash" using RedactInput_hash [OF inp(18)] by simp
    have go: "\<not> (InToolUseID i \<noteq> '''' \<and> completed s ?k)" "\<not> map_of (SsPendingSpans s) ?k \<noteq> None" using False by auto
    have rest: "same_result ?L (HandlePreTool c i x) (HandlePreTool c j y)" if "e = ''''"
      unfolding HandlePreTool_def Let_def inp key s_def [symmetric] t_def [symmetric] cmp pend if_not_P [OF go(1)] if_not_P [OF go(2)] dr(1,2) prod.case f(5) en(1,2)
      using that en(3) by (simp add: same_result_def)
    have "same_result ?L (HandlePreTool c i x) (HandlePreTool c j y)" if "e \<noteq> ''''"
    proof -
      let ?m = "[(''tool_input'', print_json (RedactInput ?L (InToolInput i) CaptureHash)), (''tool_use_id'', InToolUseID i), (''session_id'', InSessionID i), (''capture_mode'', CaptureHash)]"
      let ?s3 = "(TxState x2)\<lparr>SsPendingSpans := AList.update ?k ((?start (TxState x2))\<lparr>SpMetadata := ?m\<rparr>) (SsPendingSpans (TxState x2))\<rparr>"
      let ?t3 = "(TxState y2)\<lparr>SsPendingSpans := AList.update ?k ((?start (TxState y2))\<lparr>SpMetadata := ?m\<rparr>) (SsPendingSpans (TxState y2))\<rparr>"
      let ?sp = "JObj ([(''id'', JStr (SpSpanID (?start (TxState x2)))), (''execution_id'', JStr (SsExecutionID (TxState x2))), (''span_type'', JStr ''TOOL_CALL''),
         (''name'', JStr (SpName (?start (TxState x2)))), (''status'', JStr ''RUNNING''), (''started_at'', JStr (SpStartedAt (?start (TxState x2)))),
         (''metadata'', JObj (str_fields ?m))] @ parent_field (SsTurnSpanID (TxState x2)))"
      have i: "HandlePreTool c i x = (None, ingestSpans c (SsExecutionID (TxState x2)) [?sp] (set_state ?s3 x2))"
        unfolding HandlePreTool_def Let_def s_def [symmetric] if_not_P [OF go(1)] if_not_P [OF go(2)] dr(1) prod.case en(1)
        using that by (simp add: assms(3))
      have j: "HandlePreTool c j y = (None, ingestSpans c (SsExecutionID (TxState x2)) [?sp] (set_state ?t3 y2))"
        unfolding HandlePreTool_def Let_def inp key t_def [symmetric] cmp pend if_not_P [OF go(1)] if_not_P [OF go(2)] dr(2) prod.case f(5) en(2)
        using that by (simp add: assms(3) red sf(1-3) f2(4,5))
      show ?thesis unfolding i j same_result_def fst_conv snd_conv
        by (intro conjI refl same_ingest same_set_state [OF en(3)] same_pending [OF st2 marked])
    qed
    then show ?thesis using rest by blast
  qed
qed

lemma toolCallFailed_update [simp]:
  "toolCallFailed L (i\<lparr>InToolName := n\<rparr>) = toolCallFailed L i" "toolCallFailed L (i\<lparr>InToolInput := r\<rparr>) = toolCallFailed L i"
  by (simp_all add: toolCallFailed_def)

lemma same_input_name: "same_input L i j \<Longrightarrow> same_input L (i\<lparr>InToolName := n\<rparr>) (j\<lparr>InToolName := n\<rparr>)"
  by (cases i; cases j) (simp add: same_input_def toolCallFailed_def)

lemma same_input_raw: "same_input L i j \<Longrightarrow> same_raw L a b \<Longrightarrow> same_input L (i\<lparr>InToolInput := a\<rparr>) (j\<lparr>InToolInput := b\<rparr>)"
  by (cases i; cases j) (simp add: same_input_def toolCallFailed_def)

lemma same_fill:
  assumes "same_input L i j" "same_span L (k, p) (k, q)"
  shows "same_input L (fill_input p i) (fill_input q j)"
proof -
  note inp = same_input_fields [OF assms(1)] and sf = same_span_fields [OF assms(2)]
  let ?i = "if InToolName i = '''' then i\<lparr>InToolName := SpName p\<rparr> else i" and ?j = "if InToolName i = '''' then j\<lparr>InToolName := SpName p\<rparr> else j"
  have n: "same_input L ?i ?j" using assms(1) same_input_name by auto
  have r: "(InToolInput ?j = None) = (InToolInput ?i = None)" using same_raw_null [OF same_input_fields(18) [OF n]] by simp
  have i: "fill_input p i = (if InToolInput ?i = None then ?i\<lparr>InToolInput := SpInput p\<rparr> else ?i)" by (simp add: fill_input_def Let_def)
  have j: "fill_input q j = (if InToolInput ?i = None then ?j\<lparr>InToolInput := SpInput q\<rparr> else ?j)"
    unfolding fill_input_def Let_def inp(6) sf(2) r ..
  show ?thesis
  proof (cases "InToolInput ?i = None")
    case True
    show ?thesis unfolding i j if_P [OF True] by (rule same_input_raw [OF n sf(6)])
  next
    case False
    show ?thesis unfolding i j if_not_P [OF False] by (rule n)
  qed
qed

lemma same_take:
  assumes "same_input L i j" "same_tx L x y"
  obtains p q x1 y1 where "take_span c i x = (p, x1)" "take_span c j y = (q, y1)" "same_span L (pendingKey i, p) (pendingKey i, q)" "same_tx L x1 y1"
proof -
  note inp = same_input_fields [OF assms(1)]
  have key: "pendingKey j = pendingKey i" by (simp add: pendingKey_def inp)
  note f = same_state_fields [OF same_tx_fields(1) [OF assms(2)]]
  note look = same_spans_lookup [OF f(1), of "pendingKey i"]
  show ?thesis
  proof (cases "map_of (SsPendingSpans (TxState x)) (pendingKey i)")
    case (Some p)
    then obtain q where "map_of (SsPendingSpans (TxState y)) (pendingKey i) = Some q" "same_span L (pendingKey i, p) (pendingKey i, q)"
      using look by (auto simp: option_rel_Some1)
    then show ?thesis using that [of p x q y] Some assms(2) by (simp add: take_span_def key)
  next
    case None
    then have n: "map_of (SsPendingSpans (TxState y)) (pendingKey i) = None" using look by simp
    obtain sid x1 y1 where dr: "newSpanID c x = (sid, x1)" "newSpanID c y = (sid, y1)" "same_tx L x1 y1" by (rule same_draw_pair [OF assms(2)])
    let ?p = "\<lparr>SpSpanID = sid, SpName = InToolName i, SpStartedAt = hookTime c, SpMetadata = [], SpInput = None, SpParentSpanID = SsTurnSpanID (TxState x)\<rparr>"
    have "take_span c i x = (?p, x1)" "take_span c j y = (?p, y1)" using None n by (simp_all add: take_span_def key dr inp f)
    then show ?thesis using that [of ?p x1 ?p y1] dr(3) by (simp add: same_span_def)
  qed
qed

lemma same_finish:
  assumes "same_input L i j" "same_state L s t"
  shows "same_state L (finish_tool i s) (finish_tool j t)"
  using same_state_fields [OF assms(2)] same_spans_delete same_input_fields(7) [OF assms(1)] same_input_fields(6) [OF assms(1)]
  by (intro same_stateI) (auto simp: finish_tool_def Let_def pendingKey_def)

lemma same_PostTool:
  assumes "same_input (CxLib c) i j" "same_tx (CxLib c) x y" "mode_of c = CaptureHash"
  shows "same_result (CxLib c) (handlePostTool b c i x) (handlePostTool b c j y)"
proof -
  let ?L = "CxLib c"
  note inp = same_input_fields [OF assms(1)]
  have key: "pendingKey j = pendingKey i" by (simp add: pendingKey_def inp)
  note f = same_state_fields [OF same_tx_fields(1) [OF assms(2)]]
  have cmp: "completed (TxState y) (pendingKey i) = completed (TxState x) (pendingKey i)" by (simp add: completed_def f)
  show ?thesis
  proof (cases "InToolUseID i \<noteq> '''' \<and> completed (TxState x) (pendingKey i)")
    case True
    then show ?thesis using assms(2) by (simp add: handlePostTool_def same_result_def inp key cmp)
  next
    case False
    obtain p q x1 y1 where tk: "take_span c i x = (p, x1)" "take_span c j y = (q, y1)" "same_span ?L (pendingKey i, p) (pendingKey i, q)" "same_tx ?L x1 y1"
      by (rule same_take [OF assms(1,2)])
    let ?i = "fill_input p i" and ?j = "fill_input q j"
    have fi: "same_input ?L ?i ?j" by (rule same_fill [OF assms(1) tk(3)])
    note fin = same_input_fields [OF fi] and sf = same_span_fields [OF tk(3)]
    have s2: "same_tx ?L (set_state (finish_tool i (TxState x1)) x1) (set_state (finish_tool j (TxState y1)) y1)"
      by (rule same_set_state [OF tk(4) same_finish [OF assms(1) same_tx_fields(1) [OF tk(4)]]])
    obtain e x3 y3 where en: "ensureExecution c ?i (set_state (finish_tool i (TxState x1)) x1) = (e, x3)"
      "ensureExecution c ?j (set_state (finish_tool j (TxState y1)) y1) = (e, y3)" "same_tx ?L x3 y3" by (rule same_ensure_pair [OF fi s2])
    have st3: "SsExecutionID (TxState y3) = SsExecutionID (TxState x3)" using same_state_fields [OF same_tx_fields(1) [OF en(3)]] by simp
    have red: "RedactInput ?L (InToolInput ?j) CaptureHash = RedactInput ?L (InToolInput ?i) CaptureHash"
      "SummarizeOutput ?L (InToolResponse ?j) CaptureHash = SummarizeOutput ?L (InToolResponse ?i) CaptureHash"
      "ResourceFromTool ?L n (InToolInput ?j) CaptureHash = ResourceFromTool ?L n (InToolInput ?i) CaptureHash" for n
      using RedactInput_hash [OF fin(18)] SummarizeOutput_hash [OF fin(19)] Resource_hash [OF fin(18)] by auto
    have span: "tool_span c ?j fl eid q = tool_span c ?i fl eid p" for fl eid
      by (simp add: tool_span_def assms(3) red sf fin)
    have event: "tool_event c ?j fl eid = tool_event c ?i fl eid" for fl eid
      by (simp add: tool_event_def assms(3) red fin)
    have usage: "MaybeModelInvocationSpan ?L sid clk ?j eid (SpParentSpanID q) = MaybeModelInvocationSpan ?L sid clk ?i eid (SpParentSpanID p)" for sid clk eid
      unfolding MaybeModelInvocationSpan_def parsed_usage_def fin(2,15,16) sf(5) by (rule refl)
    have drawn: "TxDrawn y3 = TxDrawn x3" using same_tx_fields [OF en(3)] by simp
    have batch: "\<exists>bt x4 y4. tool_batch c ?i fl p x3 = (bt, x4) \<and> tool_batch c ?j fl q y3 = (bt, y4) \<and> same_tx ?L x4 y4" for fl
      using en(3) same_draw [OF en(3), of c] by (auto simp: tool_batch_def Let_def usage span drawn st3 split: option.split)
    let ?fl = "b \<or> toolCallFailed ?L ?i"
    obtain bt x4 y4 where bt: "tool_batch c ?i ?fl p x3 = (bt, x4)" "tool_batch c ?j ?fl q y3 = (bt, y4)" "same_tx ?L x4 y4" using batch by blast
    have cond: "same_tx ?L (if e \<noteq> '''' then ingestSpans c e bt x4 else x4) (if e \<noteq> '''' then ingestSpans c e bt y4 else y4)" using bt(3) same_ingest by auto
    note eid = same_state_fields(4) [OF same_tx_fields(1) [OF cond]]
    show ?thesis
      unfolding handlePostTool_def inp(7) key cmp if_not_P [OF False] tk(1,2) prod.case Let_def en(1,2) fin(20) bt(1,2) event eid same_result_def fst_conv snd_conv
      by (intro conjI refl same_audit cond)
  qed
qed

lemma same_if:
  assumes "same_tx L a b" "same_tx L x y"
  shows "same_tx L (if P then a else x) (if P then b else y)"
  using assms by simp

lemma same_turn_complete:
  assumes "same_input (CxLib c) i j" "same_tx (CxLib c) x y" "mode_of c = CaptureHash" "same_stats (CxLib c) s t"
  shows "same_tx (CxLib c) (emitTurnComplete c i e k s x) (emitTurnComplete c j e k t y)"
proof -
  note inp = same_input_fields [OF assms(1)] and st = same_stats_fields [OF assms(4)]
  have res: "session_resource j = session_resource i" by (simp add: session_resource_def inp)
  have span: "usage_span c sid e k t = usage_span c sid e k s" for sid by (simp add: usage_span_def st)
  let ?md = "[(''session_id'', JStr (InSessionID i)), (''execution_id'', JStr e), (''model'', JStr (TsModel s)),
                (''input_tokens'', num_json (TsInputTokens s)), (''output_tokens'', num_json (TsOutputTokens s)),
                (''response_len'', len_json (TsResponseText s)), (''response_sha256'', JStr (Sha256Hex (CxLib c) (TsResponseText s))),
                (''capture_status'', JStr (TsCaptureStatus s)), (''capture_reason'', JStr (TsCaptureReason s))] @ []"
  let ?ev = "event_of AgentActor ''claude_code.turn.complete'' (session_resource i) ''success'' ?md"
  have a: "same_tx (CxLib c) (auditLog c ?ev x) (auditLog c ?ev y)" using same_audit [OF assms(2)] .
  obtain sid x2 y2 where dr: "newSpanID c (auditLog c ?ev x) = (sid, x2)" "newSpanID c (auditLog c ?ev y) = (sid, y2)" "same_tx (CxLib c) x2 y2"
    by (rule same_draw_pair [OF a])
  show ?thesis
    unfolding emitTurnComplete_def Let_def hash_fields [OF assms(3)] inp(1) res st span dr(1,2) prod.case
    by (rule same_if [OF same_ingest [OF dr(3)] a])
qed

lemma same_Stop:
  assumes "same_input (CxLib c) i j" "same_tx (CxLib c) x y" "mode_of c = CaptureHash"
  shows "same_result (CxLib c) (HandleStop c i x) (HandleStop c j y)"
proof -
  let ?L = "CxLib c"
  note inp = same_input_fields [OF assms(1)]
  obtain e x1 y1 where en: "ensureExecution c i x = (e, x1)" "ensureExecution c j y = (e, y1)" "same_tx ?L x1 y1"
    by (rule same_ensure_pair [OF assms(1,2)])
  note st = same_tx_fields(1) [OF en(3)]
  note f = same_state_fields [OF st]
  note look = same_spans_lookup [OF f(1), of turn_key]
  let ?send = "\<lambda>z. case map_of (SsPendingSpans (TxState z)) turn_key of None \<Rightarrow> z | Some t \<Rightarrow> if e \<noteq> '''' then ingestSpans c e [turn_span c e t] z else z"
  let ?id = "\<lambda>z. case map_of (SsPendingSpans (TxState z)) turn_key of None \<Rightarrow> '''' | Some t \<Rightarrow> SpSpanID t"
  have turn: "same_tx ?L (?send x1) (?send y1) \<and> ?id y1 = ?id x1"
  proof (cases "map_of (SsPendingSpans (TxState x1)) turn_key")
    case None
    then show ?thesis using look en(3) by simp
  next
    case (Some p)
    then obtain q where q: "map_of (SsPendingSpans (TxState y1)) turn_key = Some q" "same_span ?L (turn_key, p) (turn_key, q)"
      using look by (auto simp: option_rel_Some1)
    note sf = same_span_fields [OF q(2)]
    have "turn_span c e q = turn_span c e p" by (simp add: turn_span_def sf)
    then show ?thesis using Some q(1) en(3) same_ingest [OF en(3)] sf(1) by simp
  qed
  have upd: "same_state ?L ((TxState x1)\<lparr>SsPendingSpans := AList.delete turn_key (SsPendingSpans (TxState x1)), SsTurnSpanID := ''''\<rparr>)
      ((TxState y1)\<lparr>SsPendingSpans := AList.delete turn_key (SsPendingSpans (TxState y1)), SsTurnSpanID := ''''\<rparr>)"
    using f same_spans_delete [OF f(1)] by (intro same_stateI) auto
  show ?thesis
    unfolding HandleStop_def en(1,2) prod.case Let_def same_result_def fst_conv snd_conv inp(13) conjunct2 [OF turn]
    by (intro conjI refl same_turn_complete [OF assms(1) same_set_state [OF conjunct1 [OF turn] upd] assms(3) same_captured [OF assms(1)]])
qed

text \<open>
  C21.  Hash mode.  In hash mode, two hooks of any event that differ only in the prompt, in strings of the tool input and of the tool
  output, in the error text and in the captured answer, there in texts of the same digest and length and with the same verdict on
  the tool call, and that meet states which differ only in such strings of pending inputs, prepare exactly the same operations and the
  same error, start the same executions, and leave states related in the same way.  So nothing of these texts is sent
  but their digest and their length.
\<close>

theorem hash_mode_hides:
  assumes "mode_of c = CaptureHash" "same_input (CxLib c) i j" "same_tx (CxLib c) x y"
  shows "fst (dispatchHook event c j y) = fst (dispatchHook event c i x) \<and>
    TxOperations (snd (dispatchHook event c j y)) = TxOperations (snd (dispatchHook event c i x)) \<and>
    TxErr (snd (dispatchHook event c j y)) = TxErr (snd (dispatchHook event c i x)) \<and>
    TxStarts (snd (dispatchHook event c j y)) = TxStarts (snd (dispatchHook event c i x)) \<and>
    same_state (CxLib c) (TxState (snd (dispatchHook event c i x))) (TxState (snd (dispatchHook event c j y)))"
proof -
  have "same_result (CxLib c) (dispatchHook event c i x) (dispatchHook event c j y)"
    using same_SessionStart [OF assms(2,3)] same_UserPrompt [OF assms(2,3,1)] same_PreTool [OF assms(2,3,1)] same_PostTool [OF assms(2,3,1)]
      same_Permission [OF assms(2,3,1)] same_Notification [OF assms(2,3)] same_SubagentStop [OF assms(2,3,1)] same_Stop [OF assms(2,3,1)]
      same_SessionEnd [OF assms(2,3)] assms(3)
    by (simp add: dispatchHook_def HandlePostTool_def HandlePostToolFailure_def) (simp add: same_result_def)
  then show ?thesis using same_tx_fields by (auto simp: same_result_def)
qed

end
