(* ===== verification/Collector_Spool.thy ===== *)
theory Collector_Spool
  imports Collector_Handlers Sdk_Client
begin

text \<open>
  spool.go, the file side of state.go and deadletter.go, and the \<open>run\<close> function of main.go: the write-ahead journal of
  the collector.

  The world is the spool directory, the session state files, the capture-error marker, the trace of
  what was journalled and sent, and the number of effects so far.  The outside is \<open>cc_sys\<close>: at each effect
  the process may die (\<open>SysCrash\<close>) or the system call may fail (\<open>SysFault\<close>); answers of the backend,
  random identifiers, clocks and files are read at the number of the effect.  A result is \<open>Died\<close>
  when the process died: nothing after that happens.  So the theorems that quantify over \<open>cc_sys\<close> cover a
  crash between any two effects.  \<open>SysLen\<close> is the length \<open>json.Marshal\<close> gives an envelope.

  The two lock files serialise the writers of the spool and the workers; a lock that cannot be had
  is a failing system call.
\<close>

section \<open>The world\<close>

datatype spool_file = Journal hook_envelope int | Unreadable int | SubDir

fun file_size :: "spool_file \<Rightarrow> int" where
  "file_size (Journal e n) = n"
| "file_size (Unreadable n) = n"
| "file_size SubDir = 0"

datatype state_file = StateFile session_state | BadState string

text \<open>Journalling an envelope under a name, sending a request for a journal, with the outcomes of the attempts.\<close>

datatype io = Wrote string hook_envelope | Sent string http_req "http_outcome list"

record cc_world =
  CwSpool :: "(string \<times> spool_file) list"
  CwStates :: "(string \<times> state_file) list"
  CwCaptureError :: "string option"
  CwTrace :: "io list"
  CwTick :: nat

record cc_sys =
  SysLib :: cc_lib
  SysLen :: "hook_envelope \<Rightarrow> nat"
  SysCrash :: "nat \<Rightarrow> bool"
  SysFault :: "nat \<Rightarrow> string option"
  SysDone :: "nat \<Rightarrow> string option"
  SysHttp :: "nat \<Rightarrow> http_req \<Rightarrow> nat \<Rightarrow> http_outcome"
  SysWait :: "nat \<Rightarrow> nat \<Rightarrow> int \<Rightarrow> string option"
  SysRand :: "nat \<Rightarrow> nat \<Rightarrow> string"
  SysNow :: "nat \<Rightarrow> string"
  SysNano :: "nat \<Rightarrow> nat"
  SysGetenv :: "string \<Rightarrow> string"
  SysGit :: "nat \<Rightarrow> string \<Rightarrow> git_info"
  SysFiles :: "nat \<Rightarrow> nat \<Rightarrow> transcript_env"
  SysPolls :: "nat \<Rightarrow> nat"

datatype 'a io_result = Died | Fails string | Returns 'a

definition bind :: "'a io_result \<times> cc_world \<Rightarrow> ('a \<Rightarrow> cc_world \<Rightarrow> 'b io_result \<times> cc_world) \<Rightarrow> 'b io_result \<times> cc_world" where
  "bind m f = (case m of (Died, w) \<Rightarrow> (Died, w) | (Fails e, w) \<Rightarrow> (Fails e, w) | (Returns x, w) \<Rightarrow> f x w)"

text \<open>\<open>_ = f()\<close>: an error is dropped, a death is not.\<close>

definition ignoring :: "'a io_result \<times> cc_world \<Rightarrow> (cc_world \<Rightarrow> 'b io_result \<times> cc_world) \<Rightarrow> 'b io_result \<times> cc_world" where
  "ignoring m f = (case m of (Died, w) \<Rightarrow> (Died, w) | (_, w) \<Rightarrow> f w)"

text \<open>An error that is handled.\<close>

definition on_error :: "'a io_result \<times> cc_world \<Rightarrow> (string \<Rightarrow> cc_world \<Rightarrow> 'b io_result \<times> cc_world) \<Rightarrow> ('a \<Rightarrow> cc_world \<Rightarrow> 'b io_result \<times> cc_world) \<Rightarrow>
    'b io_result \<times> cc_world" where
  "on_error m h f = (case m of (Died, w) \<Rightarrow> (Died, w) | (Fails e, w) \<Rightarrow> h e w | (Returns x, w) \<Rightarrow> f x w)"

definition tick :: "cc_world \<Rightarrow> cc_world" where
  "tick w = w\<lparr>CwTick := Suc (CwTick w)\<rparr>"

text \<open>One system call with its effect.\<close>

definition call :: "cc_sys \<Rightarrow> (cc_world \<Rightarrow> cc_world) \<Rightarrow> cc_world \<Rightarrow> unit io_result \<times> cc_world" where
  "call s f w =
     (if SysCrash s (CwTick w) then (Died, w)
      else case SysFault s (CwTick w) of Some e \<Rightarrow> (Fails e, tick w) | None \<Rightarrow> (Returns (), f (tick w)))"

section \<open>Files\<close>

definition put_file :: "string \<Rightarrow> spool_file \<Rightarrow> cc_world \<Rightarrow> cc_world" where
  "put_file name f w = w\<lparr>CwSpool := AList.update name f (CwSpool w)\<rparr>"

definition drop_file :: "string \<Rightarrow> cc_world \<Rightarrow> cc_world" where
  "drop_file name w = w\<lparr>CwSpool := AList.delete name (CwSpool w)\<rparr>"

definition spool_size :: "string \<Rightarrow> cc_world \<Rightarrow> int" where
  "spool_size path w = sum_list (map (\<lambda>(n, f). if n = path then 0 else file_size f) (CwSpool w))"

text \<open>The rename that puts the new journal in place.\<close>

definition install :: "cc_sys \<Rightarrow> string \<Rightarrow> string \<Rightarrow> hook_envelope \<Rightarrow> cc_world \<Rightarrow> cc_world" where
  "install s tmp path env w =
     (put_file path (Journal (reread env) (int (SysLen s env))) (drop_file tmp w))\<lparr>CwTrace := CwTrace w @ [Wrote path (reread env)]\<rparr>"

definition temp_name :: "cc_sys \<Rightarrow> cc_world \<Rightarrow> string" where
  "temp_name s w = ''.hook-'' @ SysRand s (CwTick w) 0 @ ''.tmp''"

definition writeEnvelope :: "cc_sys \<Rightarrow> cc_config \<Rightarrow> string \<Rightarrow> hook_envelope \<Rightarrow> cc_world \<Rightarrow> unit io_result \<times> cc_world" where
  "writeEnvelope s cfg path env w0 =
     bind (call s id w0) (\<lambda>_ w1.
       let len = int (SysLen s env); size = spool_size path w1; tmp = temp_name s w1
       in if spoolLimit cfg < size + len
          then (Fails (''spool full: '' @ FormatInt (size + len) @ '' bytes would exceed '' @ FormatInt (spoolLimit cfg) @ ''; existing records retained''), w1)
          else if map_of (CwSpool w1) tmp \<noteq> None then (Fails ''file exists'', w1)
          else bind (call s (put_file tmp (Unreadable 0)) w1) (\<lambda>_ w2.
            on_error (bind (call s (put_file tmp (Unreadable len)) w2) (\<lambda>_ w3. call s (install s tmp path env) w3))
              (\<lambda>e w3. ignoring (call s (drop_file tmp) w3) (\<lambda>w4. (Fails e, w4)))
              (\<lambda>_ w3. call s id w3)))"

definition recordCaptureFailure :: "cc_sys \<Rightarrow> string \<Rightarrow> cc_world \<Rightarrow> unit io_result \<times> cc_world" where
  "recordCaptureFailure s message w =
     (let m = (if 4096 < length message then truncate_bytes message 4096 @ '' (diagnostic truncated; queued payloads are unchanged)'' else message)
      in ignoring (call s (\<lambda>w. w\<lparr>CwCaptureError := Some m\<rparr>) w) (\<lambda>w. (Returns (), w)))"

definition fail_with :: "cc_sys \<Rightarrow> string \<Rightarrow> string \<Rightarrow> cc_world \<Rightarrow> 'a io_result \<times> cc_world" where
  "fail_with s message e w = bind (recordCaptureFailure s message w) (\<lambda>_ w1. (Fails e, w1))"

section \<open>Session state files\<close>

definition LoadState :: "cc_sys \<Rightarrow> string \<Rightarrow> cc_world \<Rightarrow> session_state io_result \<times> cc_world" where
  "LoadState s sid w =
     bind (call s id w) (\<lambda>_ w1.
       case map_of (CwStates w1) (StatePath (SysLib s) sid) of
         None \<Rightarrow> (Returns (fresh_state sid), w1)
       | Some (BadState e) \<Rightarrow> (Fails e, w1)
       | Some (StateFile st) \<Rightarrow> (Returns (if SsSessionID st = '''' then st\<lparr>SsSessionID := sid\<rparr> else st), w1))"

definition SaveState :: "cc_sys \<Rightarrow> session_state \<Rightarrow> cc_world \<Rightarrow> unit io_result \<times> cc_world" where
  "SaveState s st w =
     bind (call s id w) (\<lambda>_ w1.
       bind (call s (\<lambda>w. w\<lparr>CwStates := AList.update (StatePath (SysLib s) (SsSessionID st)) (StateFile st) (CwStates w)\<rparr>) w1) (\<lambda>_ w2.
         call s id w2))"

definition ClearState :: "cc_sys \<Rightarrow> string \<Rightarrow> cc_world \<Rightarrow> unit io_result \<times> cc_world" where
  "ClearState s sid w = call s (\<lambda>w. w\<lparr>CwStates := AList.delete (StatePath (SysLib s) sid) (CwStates w)\<rparr>) w"

section \<open>Delivery\<close>

definition collector_client :: "cc_sys \<Rightarrow> cc_config \<Rightarrow> sdk_config" where
  "collector_client s cfg = NewClient (SysGetenv s)
     \<lparr>SdkAPIKey = CfgAPIKey cfg, SdkBaseURL = CfgBaseURL cfg, SdkSyncIngest = True, SdkTimeout = 8000, SdkMaxRetries = 2\<rparr>"

definition send :: "cc_sys \<Rightarrow> cc_config \<Rightarrow> nat \<Rightarrow> http_req \<Rightarrow> (string + (string \<times> json) list) \<times> http_outcome list" where
  "send s cfg t r = doJSON (collector_client s cfg) (SysHttp s t r) (SysWait s t) r"

definition op_request :: "dead_letter \<Rightarrow> http_req" where
  "op_request d =
     (if DlKind d = dlKindAudit then Audit_LogBatch [case DlAudit d of None \<Rightarrow> JNull | Some e \<Rightarrow> audit_input_json e]
      else if DlKind d = dlKindSpans then Telemetry_IngestSpans (DlExecutionID d) (DlSpans d)
      else Telemetry_EndExecutionAt (DlExecutionID d) (DlStatus d) (DlEndedAt d))"

text \<open>What is wrong with an operation before anything is sent.\<close>

definition unusable :: "dead_letter \<Rightarrow> delivery_error option" where
  "unusable d =
     (if DlKind d = dlKindAudit
      then (if DlAudit d = None then Some (PermanentDelivery ''missing audit payload'') else None)
      else if DlKind d = dlKindSpans
      then (if DlExecutionID d = '''' \<or> DlSpans d = [] then Some (PermanentDelivery ''missing span payload or execution id'') else None)
      else if DlKind d = dlKindEndExecution
      then (if DlExecutionID d = '''' then Some (PermanentDelivery ''missing execution id'') else None)
      else Some (PermanentDelivery (''unknown operation kind '' @ quote_json (DlKind d))))"

definition op_accepted :: "cc_lib \<Rightarrow> dead_letter \<Rightarrow> (string \<times> json) list \<Rightarrow> delivery_error option" where
  "op_accepted L d resp =
     (if DlKind d = dlKindAudit then checkAcceptance L resp ''accepted'' 1
      else if DlKind d = dlKindSpans then checkAcceptance L resp ''accepted_count'' (length (DlSpans d))
      else None)"

definition deliverDeadLetter :: "cc_sys \<Rightarrow> cc_config \<Rightarrow> nat \<Rightarrow> dead_letter \<Rightarrow> delivery_error option \<times> http_outcome list" where
  "deliverDeadLetter s cfg t d =
     (case unusable d of
        Some e \<Rightarrow> (Some e, [])
      | None \<Rightarrow>
          (case send s cfg t (op_request d) of
             (Inl e, ocs) \<Rightarrow> (Some (OtherDelivery e), ocs)
           | (Inr resp, ocs) \<Rightarrow> (op_accepted (SysLib s) d resp, ocs)))"

definition deliverOperation :: "cc_sys \<Rightarrow> cc_config \<Rightarrow> nat \<Rightarrow> dead_letter \<Rightarrow> delivery_error option \<times> http_outcome list" where
  "deliverOperation s cfg t d =
     (let n = int (length (print_json (operationBody d)))
      in if requestLimit cfg < n
         then (Some (PermanentDelivery (''payload too large: '' @ FormatInt n @ '' bytes exceeds request limit '' @ FormatInt (requestLimit cfg) @
                 ''; full operation retained'')), [])
         else deliverDeadLetter s cfg t d)"

section \<open>Preparing\<close>

definition start_json :: "start_call \<Rightarrow> json" where
  "start_json r =
     JObj ((''agent_id'', JStr (SrAgentID r)) # omitempty ''agent_name'' (SrAgentName r) @ omitempty ''trigger'' (SrTrigger r) @
       (if SrMetadata r = [] then [] else [(''metadata'', JObj (str_fields (SrMetadata r)))]) @
       omitempty ''idempotency_key'' (SrIdempotencyKey r) @ omitempty ''started_at'' (SrStartedAt r))"

definition start_http :: "start_call \<Rightarrow> http_req" where
  "start_http r = Telemetry_StartExecution (start_json r)"

definition is_stop :: "string \<Rightarrow> bool" where
  "is_stop event = (event = ''stop'' \<or> event = ''subagent-stop'')"

definition hook_context :: "cc_sys \<Rightarrow> cc_config \<Rightarrow> hook_envelope \<Rightarrow> nat \<Rightarrow> hook_ctx" where
  "hook_context s cfg env t =
     \<lparr>CxLib = SysLib s, CxConfig = cfg, CxID = EnvID env, CxTimestamp = InTimestamp (EnvInput env),
      CxSessionID = InSessionID (EnvInput env), CxSpanID = SysRand s t, CxNow = SysNow s t, CxGetenv = SysGetenv s,
      CxGit = SysGit s t, CxTranscripts = SysFiles s t 0, CxStart = (\<lambda>r. fst (send s cfg t (start_http r)))\<rparr>"

text \<open>The transaction of a prepared hook, the error of the handler or of the transaction first.\<close>

definition run_handler :: "cc_sys \<Rightarrow> cc_config \<Rightarrow> hook_envelope \<Rightarrow> session_state \<Rightarrow> nat \<Rightarrow> string option \<times> hook_tx" where
  "run_handler s cfg env st t =
     (case dispatchHook (EnvEvent env) (hook_context s cfg env t) (EnvInput env)
             \<lparr>TxState = st, TxOperations = [], TxErr = None, TxDrawn = 0, TxStarts = []\<rparr> of
        (Some e, tx) \<Rightarrow> (Some e, tx)
      | (None, tx) \<Rightarrow> (TxErr tx, tx))"

definition log_starts :: "cc_sys \<Rightarrow> cc_config \<Rightarrow> string \<Rightarrow> nat \<Rightarrow> start_call list \<Rightarrow> cc_world \<Rightarrow> cc_world" where
  "log_starts s cfg path t rs w =
     w\<lparr>CwTrace := CwTrace w @ map (\<lambda>r. Sent path (start_http r) (snd (send s cfg t (start_http r)))) rs\<rparr>"

text \<open>The error of the preparation, if any, and the envelope, of which the input may have been refined.\<close>

definition prepareHook :: "cc_sys \<Rightarrow> cc_config \<Rightarrow> string \<Rightarrow> hook_envelope \<Rightarrow> cc_world \<Rightarrow> (string option \<times> hook_envelope) io_result \<times> cc_world" where
  "prepareHook s cfg0 path env0 w0 =
     (let cfg = (if EnvCaptureMode env0 \<noteq> '''' then cfg0\<lparr>CfgCaptureMode := EnvCaptureMode env0\<rparr> else cfg0);
          t0 = CwTick w0;
          env = (if is_stop (EnvEvent env0)
                 then env0\<lparr>EnvInput := refineCapturedTurn (SysFiles s t0) (SysPolls s t0) (SysLib s) (EnvEvent env0) (EnvInput env0)\<rparr> else env0)
      in on_error (LoadState s (InSessionID (EnvInput env)) w0)
           (\<lambda>e w1. (Returns (Some e, env), w1))
           (\<lambda>st w1.
              if SysCrash s (CwTick w1) then (Died, w1)
              else case run_handler s cfg env st (CwTick w1) of
                     (err, tx) \<Rightarrow>
                       (let w2 = log_starts s cfg path (CwTick w1) (TxStarts tx) (tick w1)
                        in case err of
                             Some e \<Rightarrow> (Returns (Some e, env), w2)
                           | None \<Rightarrow> (Returns (None, env\<lparr>EnvPrepared := True, EnvState := Some (TxState tx), EnvOperations := TxOperations tx\<rparr>), w2))))"

section \<open>Draining\<close>

definition failed_attempt :: "string \<Rightarrow> hook_envelope \<Rightarrow> hook_envelope" where
  "failed_attempt e env = env\<lparr>EnvLastError := e, EnvAttempts := EnvAttempts env + 1\<rparr>"

text \<open>An unprepared hook is prepared and journalled again before anything is delivered.\<close>

definition ensure_prepared :: "cc_sys \<Rightarrow> cc_config \<Rightarrow> string \<Rightarrow> hook_envelope \<Rightarrow> cc_world \<Rightarrow> hook_envelope io_result \<times> cc_world" where
  "ensure_prepared s cfg path env w =
     (if EnvPrepared env then (Returns env, w)
      else bind (prepareHook s cfg path env w) (\<lambda>(perr, env1) w1.
        let give_up = (\<lambda>e w2. ignoring (writeEnvelope s cfg path (failed_attempt e env1) w2) (\<lambda>w3. fail_with s e e w3))
        in case perr of
             Some e \<Rightarrow> give_up e w1
           | None \<Rightarrow> on_error (writeEnvelope s cfg path env1 w1) give_up (\<lambda>_ w2. (Returns env1, w2))))"

definition send_op :: "cc_sys \<Rightarrow> cc_config \<Rightarrow> string \<Rightarrow> dead_letter \<Rightarrow> cc_world \<Rightarrow> delivery_error option io_result \<times> cc_world" where
  "send_op s cfg path d w =
     (if SysCrash s (CwTick w) then (Died, w)
      else case deliverOperation s cfg (CwTick w) d of
             (e, ocs) \<Rightarrow> (Returns e, (tick w)\<lparr>CwTrace := CwTrace w @ (if ocs = [] then [] else [Sent path (op_request d) ocs])\<rparr>))"

definition delivered_one :: "hook_envelope \<Rightarrow> hook_envelope" where
  "delivered_one env = env\<lparr>EnvNext := EnvNext env + 1, EnvPermanent := False, EnvLastError := ''''\<rparr>"

definition undelivered :: "cc_sys \<Rightarrow> cc_config \<Rightarrow> delivery_error \<Rightarrow> hook_envelope \<Rightarrow> hook_envelope" where
  "undelivered s cfg e env = env\<lparr>EnvAttempts := EnvAttempts env + 1, EnvLastError := delivery_message e,
     EnvConfigKey := configKey (SysLib s) cfg, EnvPermanent := isPermanentDelivery e\<rparr>"

text \<open>The rest of the operations; the envelope when all were delivered, the error when a permanent one stops the hook.\<close>

fun deliver_ops :: "cc_sys \<Rightarrow> cc_config \<Rightarrow> string \<Rightarrow> hook_envelope \<Rightarrow> dead_letter list \<Rightarrow> cc_world \<Rightarrow>
    (string + hook_envelope) io_result \<times> cc_world" where
  "deliver_ops s cfg path env [] w = (Returns (Inr env), w)"
| "deliver_ops s cfg path env (d # ds) w =
     bind (send_op s cfg path d w) (\<lambda>err w1.
       case err of
         Some e \<Rightarrow>
           (let env1 = undelivered s cfg e env; m = delivery_message e
            in ignoring (writeEnvelope s cfg path env1 w1) (\<lambda>w2.
                 bind (recordCaptureFailure s m w2) (\<lambda>_ w3.
                   if \<not> EnvPermanent env1 then (Fails m, w3) else (Returns (Inl m), w3))))
       | None \<Rightarrow>
           (let env1 = delivered_one env
            in on_error (writeEnvelope s cfg path env1 w1) (\<lambda>e w2. fail_with s e e w2)
                 (\<lambda>_ w2. deliver_ops s cfg path env1 ds w2)))"

text \<open>A finished hook leaves the spool, and a closed session its state file.\<close>

definition finish_hook :: "cc_sys \<Rightarrow> string \<Rightarrow> hook_envelope \<Rightarrow> cc_world \<Rightarrow> unit io_result \<times> cc_world" where
  "finish_hook s path env w =
     on_error (call s (drop_file path) w) (\<lambda>e w1. fail_with s e e w1) (\<lambda>_ w1.
       ignoring (call s id w1) (\<lambda>w2.
         if (case EnvState env of Some st \<Rightarrow> SsClosed st | None \<Rightarrow> False)
         then ignoring (ClearState s (InSessionID (EnvInput env)) w2) (\<lambda>w3. (Returns (), w3))
         else (Returns (), w2)))"

text \<open>One journal; the message it is retained with when its session is blocked.\<close>

definition drain_hook :: "cc_sys \<Rightarrow> cc_config \<Rightarrow> string \<Rightarrow> hook_envelope \<Rightarrow> cc_world \<Rightarrow> string option io_result \<times> cc_world" where
  "drain_hook s cfg path env0 w0 =
     bind (ensure_prepared s cfg path env0 w0) (\<lambda>env w1.
       bind (case EnvState env of None \<Rightarrow> (Returns (), w1) | Some st \<Rightarrow> on_error (SaveState s st w1) (\<lambda>e w2. fail_with s e e w2) (\<lambda>_ w2. (Returns (), w2)))
         (\<lambda>_ w2.
            bind (deliver_ops s cfg path env (drop (nat (EnvNext env)) (EnvOperations env)) w2) (\<lambda>r w3.
              case r of
                Inl m \<Rightarrow> (Returns (Some m), w3)
              | Inr env1 \<Rightarrow> bind (finish_hook s path env1 w3) (\<lambda>_ w4. (Returns None, w4)))))"

definition is_hook_file :: "string \<Rightarrow> bool" where
  "is_hook_file name = (HasPrefix name ''hook-'' \<and> HasSuffix name ''.json'')"

definition invalid_journal :: "hook_envelope \<Rightarrow> bool" where
  "invalid_journal env =
     (EnvID env = '''' \<or> InSessionID (EnvInput env) = '''' \<or> EnvNext env < 0 \<or> int (length (EnvOperations env)) < EnvNext env)"

text \<open>The journals in the order of their names; \<open>blocked\<close> are the sessions with an undelivered hook.\<close>

fun drain_entries :: "cc_sys \<Rightarrow> cc_config \<Rightarrow> string list \<Rightarrow> string option \<Rightarrow> string list \<Rightarrow> cc_world \<Rightarrow> string option io_result \<times> cc_world" where
  "drain_entries s cfg blocked retained [] w = (Returns retained, w)"
| "drain_entries s cfg blocked retained (name # names) w =
     (case SysDone s (CwTick w) of
        Some e \<Rightarrow> (Fails e, w)
      | None \<Rightarrow>
          if \<not> is_hook_file name \<or> map_of (CwSpool w) name = Some SubDir then drain_entries s cfg blocked retained names w
          else bind (call s id w) (\<lambda>_ w1.
            case map_of (CwSpool w1) name of
              None \<Rightarrow> (Fails ''no such file'', w1)
            | Some (Journal env n) \<Rightarrow>
                if invalid_journal env then fail_with s (''invalid journal retained: '' @ name) (''invalid journal retained: '' @ name) w1
                else if InSessionID (EnvInput env) \<in> set blocked then drain_entries s cfg blocked retained names w1
                else if EnvPermanent env \<and> EnvConfigKey env = configKey (SysLib s) cfg
                then drain_entries s cfg (InSessionID (EnvInput env) # blocked)
                       (Some (''hook '' @ EnvID env @ '' requires configuration/repair: '' @ EnvLastError env)) names w1
                else bind (drain_hook s cfg name env w1) (\<lambda>r w2.
                       case r of
                         None \<Rightarrow> drain_entries s cfg blocked retained names w2
                       | Some m \<Rightarrow> drain_entries s cfg (InSessionID (EnvInput env) # blocked) (Some m) names w2)
            | Some _ \<Rightarrow> fail_with s (''unreadable journal retained: '' @ name) (''unreadable journal retained: '' @ name) w1))"

definition drainHooks :: "cc_sys \<Rightarrow> cc_config \<Rightarrow> cc_world \<Rightarrow> string option io_result \<times> cc_world" where
  "drainHooks s cfg w =
     bind (call s id w) (\<lambda>_ w1. bind (call s id w1) (\<lambda>_ w2. drain_entries s cfg [] None (sort (map fst (CwSpool w2))) w2))"

section \<open>Capturing\<close>

definition stamp_input :: "cc_sys \<Rightarrow> string \<Rightarrow> nat \<Rightarrow> hook_input \<Rightarrow> hook_input" where
  "stamp_input s event t i0 =
     (let i = (if InTimestamp i0 = '''' then i0\<lparr>InTimestamp := SysNow s t\<rparr> else i0)
      in if is_stop event
         then applyFinalAssistant (SysLib s) event (i\<lparr>InCapturedTurn := Some (ReadTurnFromTranscript (SysFiles s t 0) (SysLib s) (stop_path event i))\<rparr>)
         else i)"

definition new_envelope :: "cc_sys \<Rightarrow> cc_config \<Rightarrow> string \<Rightarrow> nat \<Rightarrow> hook_input \<Rightarrow> hook_envelope" where
  "new_envelope s cfg event t i =
     \<lparr>EnvID = SysRand s t 1, EnvEvent = event, EnvInput = stamp_input s event t i, EnvReceivedAt = SysNow s t,
      EnvCaptureMode = CfgCaptureMode cfg, EnvPrepared = False, EnvState = None, EnvOperations = [], EnvNext = 0, EnvAttempts = 0,
      EnvLastError = '''', EnvPermanent = False, EnvConfigKey = ''''\<rparr>"

definition hook_file :: "cc_sys \<Rightarrow> nat \<Rightarrow> string" where
  "hook_file s t = ''hook-'' @ zpad 20 (SysNano s t) @ ''-'' @ SysRand s t 1 @ ''.json''"

definition enqueueHook :: "cc_sys \<Rightarrow> cc_config \<Rightarrow> string \<Rightarrow> hook_input \<Rightarrow> cc_world \<Rightarrow> unit io_result \<times> cc_world" where
  "enqueueHook s cfg event i w = writeEnvelope s cfg (hook_file s (CwTick w)) (new_envelope s cfg event (CwTick w) i) w"

text \<open>
  \<open>raw\<close> is what standard input holds and \<open>parse\<close> is \<open>Decode\<close> into the struct \<open>HookInput\<close>; the reader stops one
  byte past the spool limit.
\<close>

definition decodeHook :: "cc_config \<Rightarrow> (string \<Rightarrow> string + hook_input) \<Rightarrow> string \<Rightarrow> string + hook_input" where
  "decodeHook cfg parse raw0 =
     (let raw = take (nat (spoolLimit cfg + 1)) raw0
      in if spoolLimit cfg < int (length raw) then Inl (''hook exceeds spool capacity '' @ FormatInt (spoolLimit cfg))
         else case parse raw of
                Inl e \<Rightarrow> Inl e
              | Inr i \<Rightarrow> if InSessionID i = '''' then Inl ''missing session_id'' else Inr i)"

text \<open>
  The manual commands: their exit code.  What they print is not kept, and a missing directory is an empty one.
\<close>

definition printVerify :: "cc_sys \<Rightarrow> cc_config \<Rightarrow> nat \<Rightarrow> int" where
  "printVerify s cfg t =
     (if CfgAPIKey cfg = '''' then 1
      else case fst (send s cfg t (Audit_Verify '''')) of
             Inl e \<Rightarrow> 1
           | Inr resp \<Rightarrow>
               if (case jget resp ''valid'' of Some (JBool b) \<Rightarrow> b | Some (JStr v) \<Rightarrow> isTruthy v | _ \<Rightarrow> False) then 0 else 1)"

definition printStatus :: "cc_sys \<Rightarrow> nat \<Rightarrow> int" where
  "printStatus s t = (if SysFault s t \<noteq> None \<or> SysFault s (Suc t) \<noteq> None then 1 else 0)"

text \<open>
  \<open>run\<close>: the exit code, \<open>None\<close> when the process died.  The worker process that a hook starts is a later \<open>flush\<close>.
\<close>

definition run :: "cc_sys \<Rightarrow> cc_config \<Rightarrow> (string \<Rightarrow> string + hook_input) \<Rightarrow> string list \<Rightarrow> string \<Rightarrow> cc_world \<Rightarrow> int option \<times> cc_world" where
  "run s cfg parse args raw w =
     (case args of
        [] \<Rightarrow> (Some 0, w)
      | event # rest \<Rightarrow>
          if event = ''status'' then (Some (printStatus s (CwTick w)), w)
          else if event = ''verify'' then (Some (printVerify s cfg (CwTick w)), w)
          else if CfgDisabled cfg then (Some (if event = ''flush'' then 1 else 0), w)
          else if CfgAPIKey cfg = ''''
          then (if event = ''flush'' then (Some 1, w)
                else case recordCaptureFailure s ''FACT0_API_KEY is not set; hook was not captured'' w of (Died, w1) \<Rightarrow> (None, w1) | (_, w1) \<Rightarrow> (Some 0, w1))
          else if event = ''flush''
          then (case drainHooks s cfg w of (Died, w1) \<Rightarrow> (None, w1) | (Returns None, w1) \<Rightarrow> (Some 0, w1) | (_, w1) \<Rightarrow> (Some 1, w1))
          else let hook = (case decodeHook cfg parse raw of
                             Inl e \<Rightarrow> recordCaptureFailure s (''parse hook: '' @ e) w
                           | Inr i \<Rightarrow>
                               on_error (enqueueHook s cfg event i w) (recordCaptureFailure s) (\<lambda>_ w1.
                                 on_error (call s id w1) (\<lambda>e. recordCaptureFailure s (''hook retained; could not start delivery worker: '' @ e)) (\<lambda>_ w2. (Returns (), w2))))
               in case hook of (Died, w1) \<Rightarrow> (None, w1) | (_, w1) \<Rightarrow> (Some 0, w1))"

end
