(* ===== verification/Collector_Journal.thy ===== *)
theory Collector_Journal
  imports Collector_Spool
begin

text \<open>
  What the journal of the collector guarantees, for every outcome of the system calls, every answer of the backend
  and a crash between any two effects.

  \<open>writeEnvelope_cases\<close> is the one lemma about the atomic write: the spool is as before, or has one more
  temporary file, or has the new journal under its name.  \<open>journal_safe\<close> is the invariant and \<open>journal_good\<close> the relation
  between the worlds before and after an operation; it is transitive, every operation is in it, and so is
  every run of captures and drains.
\<close>

section \<open>System calls\<close>

lemma tick_simps [simp]:
  "CwSpool (tick w) = CwSpool w" "CwStates (tick w) = CwStates w" "CwTrace (tick w) = CwTrace w" "CwCaptureError (tick w) = CwCaptureError w"
  by (simp_all add: tick_def)

lemma file_simps [simp]:
  "CwSpool (put_file n f w) = AList.update n f (CwSpool w)" "CwTrace (put_file n f w) = CwTrace w"
  "CwSpool (drop_file n w) = AList.delete n (CwSpool w)" "CwTrace (drop_file n w) = CwTrace w"
  by (simp_all add: put_file_def drop_file_def)

lemma install_simps [simp]:
  "CwSpool (install s tmp path env w) =
     AList.update path (Journal (reread env) (int (SysLen s env))) (AList.delete tmp (CwSpool w))"
  "CwTrace (install s tmp path env w) = CwTrace w @ [Wrote path (reread env)]"
  by (simp_all add: install_def)

lemma call_cases:
  assumes "call s f w = (r, w')"
  obtains (died) "r = Died" "w' = w" | (fails) e where "r = Fails e" "w' = tick w" | (returns) "r = Returns ()" "w' = f (tick w)"
  using assms by (auto simp: call_def split: if_splits option.splits)

lemma bind_cases:
  assumes "bind m f = (r, w')"
  obtains (died) "m = (Died, w')" "r = Died" | (fails) e where "m = (Fails e, w')" "r = Fails e"
  | (returns) x w where "m = (Returns x, w)" "f x w = (r, w')"
  using assms by (cases m) (auto simp: bind_def split: io_result.splits)

lemma ignoring_cases:
  assumes "ignoring m f = (r, w')"
  obtains (died) "m = (Died, w')" "r = Died" | (runs) q w where "m = (q, w)" "q \<noteq> Died" "f w = (r, w')"
  using assms by (cases m) (auto simp: ignoring_def split: io_result.splits)

lemma on_error_cases:
  assumes "on_error m h f = (r, w')"
  obtains (died) "m = (Died, w')" "r = Died" | (fails) e w where "m = (Fails e, w)" "h e w = (r, w')"
  | (returns) x w where "m = (Returns x, w)" "f x w = (r, w')"
  using assms by (cases m) (auto simp: on_error_def split: io_result.splits)

lemma delete_update_fresh: "map_of ps k = None \<Longrightarrow> AList.delete k (AList.update k v ps) = ps"
  by (induction ps) (auto simp: AList.delete_eq)

lemma update_update_same: "AList.update k v (AList.update k u ps) = AList.update k v ps"
  by (induction ps) auto

section \<open>The atomic write\<close>

definition no_change :: "cc_world \<Rightarrow> cc_world \<Rightarrow> bool" where
  "no_change w w' = (CwSpool w' = CwSpool w \<and> CwTrace w' = CwTrace w)"

lemma no_change_simps [simp]: "no_change w w" "no_change w (tick w)"
  by (simp_all add: no_change_def)

lemma install_sequence:
  assumes "bind (call s (put_file tmp (Unreadable x)) w2) (\<lambda>_ w3. call s (install s tmp path env) w3) = (r, w')"
    and "CwSpool w2 = AList.update tmp (Unreadable 0) sp" "map_of sp tmp = None"
  shows "(\<exists>y \<in> {0, x}. CwSpool w' = AList.update tmp (Unreadable y) sp) \<and> CwTrace w' = CwTrace w2 \<and> r \<noteq> Returns () \<or>
    CwSpool w' = AList.update path (Journal (reread env) (int (SysLen s env))) sp \<and> CwTrace w' = CwTrace w2 @ [Wrote path (reread env)] \<and> r = Returns ()"
  using assms(1)
proof (cases rule: bind_cases)
  case (returns u w3)
  then have w3: "CwSpool w3 = AList.update tmp (Unreadable x) sp" "CwTrace w3 = CwTrace w2"
    using assms(2) by (auto elim!: call_cases simp: update_update_same)
  from returns(2) show ?thesis
    using w3 assms(3) by (cases rule: call_cases) (auto simp: delete_update_fresh)
qed (use assms(2) in \<open>auto elim: call_cases\<close>)

lemma writeEnvelope_cases:
  assumes "writeEnvelope s cfg path env w = (r, w')"
  obtains (same) "CwSpool w' = CwSpool w" "CwTrace w' = CwTrace w" "r \<noteq> Returns ()"
  | (temp) tmp x where "CwSpool w' = AList.update tmp (Unreadable x) (CwSpool w)" "CwTrace w' = CwTrace w" "r \<noteq> Returns ()"
      "map_of (CwSpool w) tmp = None" "HasPrefix tmp ''.hook-''" "x \<in> {0, int (SysLen s env)}" "spool_size path w + int (SysLen s env) \<le> spoolLimit cfg"
  | (installed) "CwSpool w' = AList.update path (Journal (reread env) (int (SysLen s env))) (CwSpool w)"
      "CwTrace w' = CwTrace w @ [Wrote path (reread env)]" "spool_size path w + int (SysLen s env) \<le> spoolLimit cfg"
proof -
  let ?len = "int (SysLen s env)"
  from assms show ?thesis unfolding writeEnvelope_def
  proof (cases rule: bind_cases)
    case (returns u w1)
    define tmp where "tmp = temp_name s w1"
    have w1: "CwSpool w1 = CwSpool w" "CwTrace w1 = CwTrace w" using returns(1) by (auto elim: call_cases)
    have size: "spool_size path w1 = spool_size path w" by (simp add: spool_size_def w1)
    show ?thesis
    proof (cases "spoolLimit cfg < spool_size path w + ?len \<or> map_of (CwSpool w) tmp \<noteq> None")
      case True
      then show ?thesis using returns(2) w1 same by (auto simp: Let_def tmp_def size split: if_splits)
    next
      case False
      note fits = False
      then have fresh: "map_of (CwSpool w) tmp = None" and lim: "spool_size path w + ?len \<le> spoolLimit cfg" by auto
      have pre: "HasPrefix tmp ''.hook-''" by (simp add: tmp_def temp_name_def HasPrefix_def)
      from returns(2) fits have
        "bind (call s (put_file tmp (Unreadable 0)) w1) (\<lambda>_ w2.
            on_error (bind (call s (put_file tmp (Unreadable ?len)) w2) (\<lambda>_ w3. call s (install s tmp path env) w3))
              (\<lambda>e w3. ignoring (call s (drop_file tmp) w3) (\<lambda>w4. (Fails e, w4)))
              (\<lambda>_ w3. call s id w3)) = (r, w')"
        by (auto simp: Let_def tmp_def size w1 split: if_splits)
      then show ?thesis
      proof (cases rule: bind_cases)
        case died
        then show ?thesis using w1 same by (auto elim: call_cases)
      next
        case fails
        then show ?thesis using w1 same by (auto elim: call_cases)
      next
        case (returns u' w2)
        then have w2: "CwSpool w2 = AList.update tmp (Unreadable 0) (CwSpool w)" "CwTrace w2 = CwTrace w"
          using w1 by (auto elim: call_cases)
        note seq = install_sequence [OF _ w2(1) fresh]
        from returns(2) show ?thesis
        proof (cases rule: on_error_cases)
          case died
          from seq [OF died(1)] show ?thesis using died w2 temp [OF _ _ _ fresh pre _ lim] by auto
        next
          case (fails e w3)
          from seq [OF fails(1)] obtain y where y: "y \<in> {0, ?len}" "CwSpool w3 = AList.update tmp (Unreadable y) (CwSpool w)" "CwTrace w3 = CwTrace w"
            using w2 by auto
          from fails(2) show ?thesis
          proof (cases rule: ignoring_cases)
            case died
            then show ?thesis using y temp [OF _ _ _ fresh pre y(1) lim] by (auto elim!: call_cases)
          next
            case (runs q w4)
            from runs(1) show ?thesis
            proof (cases rule: call_cases)
              case died
              then show ?thesis using runs by simp
            next
              case fails
              then show ?thesis using runs y temp [OF _ _ _ fresh pre y(1) lim] by auto
            next
              case returns
              then show ?thesis using runs y fresh same by (auto simp: delete_update_fresh)
            qed
          qed
        next
          case (returns u'' w3)
          from seq [OF returns(1)] have "CwSpool w3 = AList.update path (Journal (reread env) ?len) (CwSpool w)" "CwTrace w3 = CwTrace w @ [Wrote path (reread env)]"
            using w2 by auto
          moreover have "CwSpool w' = CwSpool w3" "CwTrace w' = CwTrace w3" using returns(2) by (auto elim: call_cases)
          ultimately show ?thesis using installed lim by simp
        qed
      qed
    qed
  qed (use same in \<open>auto elim: call_cases\<close>)
qed

section \<open>The invariant\<close>

text \<open>The backend confirmed the operation: the last attempt of a request for it was answered with success and with the expected count.\<close>

definition acked :: "cc_lib \<Rightarrow> dead_letter \<Rightarrow> io list \<Rightarrow> bool" where
  "acked L d tr = (\<exists>n ocs resp fs. Sent n (op_request d) ocs \<in> set tr \<and> ocs \<noteq> [] \<and> last ocs = Answer resp \<and> RsStatus resp < 300 \<and>
     decode_answer resp = Inr fs \<and> op_accepted L d fs = None)"

definition env_ok :: "cc_lib \<Rightarrow> io list \<Rightarrow> hook_envelope \<Rightarrow> bool" where
  "env_ok L tr env =
     (if EnvPrepared env
      then 0 \<le> EnvNext env \<and> EnvNext env \<le> int (length (EnvOperations env)) \<and> (\<forall>d \<in> set (take (nat (EnvNext env)) (EnvOperations env)). acked L d tr)
      else EnvNext env = 0)"

text \<open>
  A request for a journal was written ahead: an operation it sends is one of a prepared envelope journalled under
  that name before; an execution is only started for a hook that was journalled before.
\<close>

definition journalled :: "string \<Rightarrow> http_req \<Rightarrow> io list \<Rightarrow> bool" where
  "journalled n r tr =
     ((\<exists>env d. Wrote n env \<in> set tr \<and> EnvPrepared env \<and> d \<in> set (EnvOperations env) \<and> r = op_request d) \<or>
      (\<exists>env q. Wrote n env \<in> set tr \<and> r = start_http q))"

definition written_ahead :: "io list \<Rightarrow> bool" where
  "written_ahead tr = (\<forall>xs n r ocs ys. tr = xs @ Sent n r ocs # ys \<longrightarrow> journalled n r xs)"

definition journal_safe :: "cc_lib \<Rightarrow> cc_world \<Rightarrow> bool" where
  "journal_safe L w =
     (distinct (map fst (CwSpool w)) \<and> written_ahead (CwTrace w) \<and>
      (\<forall>n env z. map_of (CwSpool w) n = Some (Journal env z) \<longrightarrow> env_ok L (CwTrace w) env \<and> Wrote n env \<in> set (CwTrace w)))"

definition finished :: "cc_lib \<Rightarrow> string \<Rightarrow> string \<Rightarrow> io list \<Rightarrow> bool" where
  "finished L i n tr = (\<exists>env. Wrote n env \<in> set tr \<and> EnvID env = i \<and> EnvPrepared env \<and> (\<forall>d \<in> set (EnvOperations env). acked L d tr))"

text \<open>A journal stays, under its name and with its identity, or all of its operations were confirmed.\<close>

definition kept :: "cc_lib \<Rightarrow> cc_world \<Rightarrow> cc_world \<Rightarrow> bool" where
  "kept L w w' = (\<forall>n env z. map_of (CwSpool w) n = Some (Journal env z) \<longrightarrow>
     (\<exists>env' z'. map_of (CwSpool w') n = Some (Journal env' z') \<and> EnvID env' = EnvID env) \<or> finished L (EnvID env) n (CwTrace w'))"

definition journal_good :: "cc_lib \<Rightarrow> cc_world \<Rightarrow> cc_world \<Rightarrow> bool" where
  "journal_good L w w' = (journal_safe L w' \<and> kept L w w' \<and> (\<exists>tr. CwTrace w' = CwTrace w @ tr))"

lemma acked_append: "acked L d tr \<Longrightarrow> acked L d (tr @ tr')"
  by (fastforce simp: acked_def)

lemma env_ok_append: "env_ok L tr env \<Longrightarrow> env_ok L (tr @ tr') env"
  by (auto simp: env_ok_def intro: acked_append split: if_splits)

lemma finished_append: "finished L i n tr \<Longrightarrow> finished L i n (tr @ tr')"
  by (auto simp: finished_def intro: acked_append)

lemma written_ahead_Nil [simp]: "written_ahead []"
  by (simp add: written_ahead_def)

lemma written_ahead_snoc:
  "written_ahead (tr @ [e]) \<longleftrightarrow> written_ahead tr \<and> (\<forall>n r ocs. e = Sent n r ocs \<longrightarrow> journalled n r tr)"
  unfolding written_ahead_def append_eq_append_conv2 by (fastforce simp: append_eq_Cons_conv Cons_eq_append_conv)

lemma journal_good_trans: "journal_good L a b \<Longrightarrow> journal_good L b c \<Longrightarrow> journal_good L a c"
  unfolding journal_good_def
proof (elim conjE exE, intro conjI)
  fix tr tr' assume b: "kept L a b" "CwTrace b = CwTrace a @ tr" and c: "kept L b c" "CwTrace c = CwTrace b @ tr'"
  show "kept L a c" unfolding kept_def
  proof (intro allI impI)
    fix n env z assume "map_of (CwSpool a) n = Some (Journal env z)"
    then consider env' z' where "map_of (CwSpool b) n = Some (Journal env' z')" "EnvID env' = EnvID env" | "finished L (EnvID env) n (CwTrace b)"
      using b(1) unfolding kept_def by blast
    then show "(\<exists>env' z'. map_of (CwSpool c) n = Some (Journal env' z') \<and> EnvID env' = EnvID env) \<or> finished L (EnvID env) n (CwTrace c)"
    proof cases
      case 1
      with c(1) show ?thesis unfolding kept_def by metis
    qed (simp add: c(2) finished_append)
  qed
  show "\<exists>tr. CwTrace c = CwTrace a @ tr" by (simp add: b(2) c(2))
qed

lemma no_change_good: "journal_safe L w \<Longrightarrow> no_change w w' \<Longrightarrow> journal_good L w w'"
  by (auto simp: journal_good_def journal_safe_def kept_def no_change_def)

lemma journal_good_safe: "journal_good L w w' \<Longrightarrow> journal_safe L w'"
  by (simp add: journal_good_def)

lemma reread_fields [simp]:
  "EnvID (reread env) = EnvID env" "EnvPrepared (reread env) = EnvPrepared env" "EnvOperations (reread env) = EnvOperations env"
  "EnvNext (reread env) = EnvNext env"
  by (simp_all add: reread_def)

lemma env_ok_reread [simp]: "env_ok L tr (reread env) = env_ok L tr env"
  by (simp add: env_ok_def)

text \<open>The disk holds no other hook under the name.\<close>

definition own_name :: "string \<Rightarrow> string \<Rightarrow> cc_world \<Rightarrow> bool" where
  "own_name i path w = (\<forall>env z. map_of (CwSpool w) path = Some (Journal env z) \<longrightarrow> EnvID env = i)"

lemma distinct_update: "distinct (map fst ps) \<Longrightarrow> distinct (map fst (AList.update k v ps))"
  by (rule distinct_update)

lemma writeEnvelope_good:
  assumes "writeEnvelope s cfg path env w = (r, w')" "journal_safe L w" "env_ok L (CwTrace w) env" "own_name (EnvID env) path w"
  shows "journal_good L w w' \<and> own_name (EnvID env) path w' \<and> (r = Returns () \<longrightarrow> Wrote path (reread env) \<in> set (CwTrace w'))"
  using assms(1)
proof (cases rule: writeEnvelope_cases)
  case same
  then have "no_change w w'" by (simp add: no_change_def)
  moreover have "own_name (EnvID env) path w'" using assms(4) unfolding own_name_def same(1) .
  ultimately show ?thesis using no_change_good [OF assms(2)] same(3) by blast
next
  case (temp tmp x)
  have at: "map_of (CwSpool w') n = Some (Journal e z) \<longleftrightarrow> map_of (CwSpool w) n = Some (Journal e z)" for n e z
    using temp(4) by (simp add: temp(1) update_conv')
  have "journal_good L w w'"
    using assms(2) by (simp add: journal_good_def journal_safe_def kept_def at temp(2)) (simp add: temp(1) distinct_update)
  moreover have "own_name (EnvID env) path w'" using assms(4) unfolding own_name_def at .
  ultimately show ?thesis using temp by simp
next
  case installed
  let ?new = "Journal (reread env) (int (SysLen s env))"
  have at: "map_of (CwSpool w') n = (if n = path then Some ?new else map_of (CwSpool w) n)" for n
    by (simp add: installed(1) update_conv')
  have "env_ok L (CwTrace w') e \<and> Wrote n e \<in> set (CwTrace w')" if "map_of (CwSpool w') n = Some (Journal e z)" for n e z
  proof (cases "n = path")
    case True
    then show ?thesis using that assms(3) by (auto simp: at installed(2) intro: env_ok_append)
  next
    case False
    then have "env_ok L (CwTrace w) e \<and> Wrote n e \<in> set (CwTrace w)" using that assms(2) unfolding at journal_safe_def if_not_P [OF False] by blast
    then show ?thesis by (simp add: installed(2) env_ok_append)
  qed
  then have "journal_safe L w'"
    using assms(2) unfolding journal_safe_def by (simp add: installed(1,2) distinct_update written_ahead_snoc)
  moreover have "kept L w w'" unfolding kept_def at using assms(4) by (auto simp: own_name_def)
  ultimately show ?thesis by (simp add: journal_good_def installed(2) own_name_def at)
qed

section \<open>Steps of a drain\<close>

lemma judge_Success:
  "judge r k oc = Success fs \<Longrightarrow> \<exists>resp. oc = Answer resp \<and> RsStatus resp < 300 \<and> decode_answer resp = Inr fs"
  by (auto simp: judge_def split: http_outcome.splits if_splits sum.splits)

lemma send_answer:
  assumes "send s cfg t r = (Inr fs, ocs)"
  shows "\<exists>resp. ocs \<noteq> [] \<and> last ocs = Answer resp \<and> RsStatus resp < 300 \<and> decode_answer resp = Inr fs"
proof -
  have "try_send (SysHttp s t r) (SysWait s t) r 0 2 = (Inr fs, ocs)"
    using assms by (simp add: send_def doJSON_def collector_client_def NewClient_def)
  from try_send_bounded [OF this] show ?thesis using judge_Success [of r] by blast
qed

lemma deliverOperation_acks:
  assumes "deliverOperation s cfg t d = (None, ocs)"
  shows "acked (SysLib s) d [Sent n (op_request d) ocs] \<and> ocs \<noteq> []"
proof -
  obtain fs where "send s cfg t (op_request d) = (Inr fs, ocs)" "op_accepted (SysLib s) d fs = None"
    using assms by (auto simp: deliverOperation_def deliverDeadLetter_def Let_def split: if_splits option.splits prod.splits sum.splits)
  then show ?thesis using send_answer by (fastforce simp: acked_def)
qed

text \<open>The worker holds a prepared hook: what it was journalled with, and the part already confirmed.\<close>

definition in_hand :: "cc_lib \<Rightarrow> string \<Rightarrow> hook_envelope \<Rightarrow> cc_world \<Rightarrow> bool" where
  "in_hand L path env w =
     (EnvPrepared env \<and> env_ok L (CwTrace w) env \<and> own_name (EnvID env) path w \<and>
      (\<exists>e0. Wrote path e0 \<in> set (CwTrace w) \<and> EnvID e0 = EnvID env \<and> EnvPrepared e0 \<and> EnvOperations e0 = EnvOperations env))"

lemma own_name_no_change: "no_change w w' \<Longrightarrow> own_name i path w' = own_name i path w"
  by (simp add: own_name_def no_change_def)

lemma in_hand_no_change: "in_hand L path env w \<Longrightarrow> no_change w w' \<Longrightarrow> in_hand L path env w'"
  using own_name_no_change [of w w'] by (simp add: in_hand_def) (simp add: no_change_def)

lemma recordCaptureFailure_no_change: "recordCaptureFailure s m w = (r, w') \<Longrightarrow> no_change w w'"
  by (auto simp: recordCaptureFailure_def Let_def no_change_def elim!: ignoring_cases call_cases)

lemma fail_with_no_change: "fail_with s m e w = (r, w') \<Longrightarrow> no_change w w'"
  unfolding fail_with_def by (erule bind_cases) (auto dest: recordCaptureFailure_no_change)

lemma fail_with_not_Returns: "fail_with s m e w = (r, w') \<Longrightarrow> r \<noteq> Returns x"
  by (auto simp: fail_with_def bind_def split: prod.splits io_result.splits)

lemma no_change_trans: "no_change a b \<Longrightarrow> no_change b c \<Longrightarrow> no_change a c"
  by (simp add: no_change_def)

lemma send_op_good:
  assumes "send_op s cfg path d w = (r, w')" "journal_safe (SysLib s) w" "in_hand (SysLib s) path env w" "d \<in> set (EnvOperations env)"
  shows "journal_good (SysLib s) w w' \<and> in_hand (SysLib s) path env w' \<and> (r = Returns None \<longrightarrow> acked (SysLib s) d (CwTrace w'))"
proof (cases "SysCrash s (CwTick w)")
  case True
  then show ?thesis using assms no_change_good [OF assms(2), of w'] by (simp add: send_op_def)
next
  case False
  obtain e ocs where del: "deliverOperation s cfg (CwTick w) d = (e, ocs)" by fastforce
  have r: "r = Returns e" and spool: "CwSpool w' = CwSpool w"
    and tr: "CwTrace w' = CwTrace w @ (if ocs = [] then [] else [Sent path (op_request d) ocs])"
    using assms(1) False by (auto simp: send_op_def del)
  have "journalled path (op_request d) (CwTrace w)"
    using assms(3,4) unfolding in_hand_def journalled_def by metis
  then have wa: "written_ahead (CwTrace w')"
    using assms(2) by (simp add: journal_safe_def tr written_ahead_snoc)
  have "env_ok (SysLib s) (CwTrace w') x" if "env_ok (SysLib s) (CwTrace w) x" for x
    using that by (simp add: tr env_ok_append)
  moreover have "x \<in> set (CwTrace w')" if "x \<in> set (CwTrace w)" for x using that by (simp add: tr)
  ultimately have "journal_safe (SysLib s) w'" "in_hand (SysLib s) path env w'"
    using assms(2,3) wa unfolding journal_safe_def in_hand_def own_name_def spool by blast+
  moreover have "kept (SysLib s) w w'" by (simp add: kept_def spool)
  moreover have "acked (SysLib s) d (CwTrace w')" if "r = Returns None"
    using deliverOperation_acks [of s cfg "CwTick w" d ocs path] that
    by (auto simp: del r tr acked_def)
  ultimately show ?thesis by (simp add: journal_good_def tr)
qed

lemma delivered_one_in_hand:
  assumes "in_hand L path env w" "drop (nat (EnvNext env)) (EnvOperations env) = d # ds" "acked L d (CwTrace w)"
  shows "in_hand L path (delivered_one env) w \<and> drop (nat (EnvNext (delivered_one env))) (EnvOperations (delivered_one env)) = ds"
proof -
  let ?k = "nat (EnvNext env)"
  have k: "0 \<le> EnvNext env" "?k < length (EnvOperations env)"
    using assms(1,2) by (auto simp: in_hand_def env_ok_def) (metis drop_all linorder_not_less list.distinct(1))
  then have nxt: "nat (EnvNext env + 1) = Suc ?k" by simp
  have "EnvOperations env ! ?k = d" using assms(2) by (metis hd_drop_conv_nth k(2) list.sel(1))
  then have "take (Suc ?k) (EnvOperations env) = take ?k (EnvOperations env) @ [d]" by (simp add: take_Suc_conv_app_nth k(2))
  moreover have "drop (Suc ?k) (EnvOperations env) = ds" by (metis assms(2) drop_Suc list.sel(3) tl_drop)
  ultimately show ?thesis
    using assms(1,3) k by (auto simp: in_hand_def env_ok_def delivered_one_def nxt)
qed

lemma undelivered_ok: "in_hand L path env w \<Longrightarrow> env_ok L (CwTrace w) (undelivered s cfg e env) \<and> own_name (EnvID (undelivered s cfg e env)) path w"
  by (simp add: in_hand_def env_ok_def undelivered_def)

lemma in_hand_advance:
  assumes "in_hand L path env w" "journal_good L w w'" "own_name (EnvID env) path w'"
  shows "in_hand L path env w'"
  using assms by (fastforce simp: in_hand_def journal_good_def intro: env_ok_append)

lemma deliver_ops_good:
  assumes "deliver_ops s cfg path env ds w = (r, w')" "journal_safe (SysLib s) w" "in_hand (SysLib s) path env w"
    and "drop (nat (EnvNext env)) (EnvOperations env) = ds"
  shows "journal_good (SysLib s) w w' \<and>
    (\<forall>env'. r = Returns (Inr env') \<longrightarrow> in_hand (SysLib s) path env' w' \<and> drop (nat (EnvNext env')) (EnvOperations env') = [] \<and>
       EnvID env' = EnvID env \<and> EnvState env' = EnvState env \<and> EnvInput env' = EnvInput env)"
  using assms
proof (induction ds arbitrary: env w)
  case Nil
  then show ?case using no_change_good [of "SysLib s" w w] by auto
next
  case (Cons d ds)
  have d: "d \<in> set (EnvOperations env)" using Cons.prems(4) by (metis in_set_dropD list.set_intros(1))
  from Cons.prems(1) show ?case unfolding deliver_ops.simps
  proof (cases rule: bind_cases)
    case died
    then show ?thesis using send_op_good [OF died(1) Cons.prems(2,3) d] by simp
  next
    case (fails e)
    then show ?thesis using send_op_good [OF fails(1) Cons.prems(2,3) d] by simp
  next
    case (returns err w1)
    note sent = send_op_good [OF returns(1) Cons.prems(2,3) d]
    then have s1: "journal_safe (SysLib s) w1" and h1: "in_hand (SysLib s) path env w1" by (auto simp: journal_good_safe)
    show ?thesis
    proof (cases err)
      case (Some e)
      note ok = undelivered_ok [OF h1, of s cfg e]
      from returns(2) [unfolded Some Let_def option.case] show ?thesis
      proof (cases rule: ignoring_cases)
        case died
        then show ?thesis using writeEnvelope_good [OF died(1) s1] ok sent journal_good_trans by auto
      next
        case (runs q w2)
        have g: "journal_good (SysLib s) w w2" using writeEnvelope_good [OF runs(1) s1] ok sent journal_good_trans by blast
        have "no_change w2 w' \<and> (\<forall>env'. r \<noteq> Returns (Inr env'))"
          using runs(3) by (auto elim!: bind_cases dest: recordCaptureFailure_no_change split: if_splits)
        then show ?thesis using g no_change_good [OF journal_good_safe [OF g]] journal_good_trans by blast
      qed
    next
      case None
      then have ack: "acked (SysLib s) d (CwTrace w1)" using sent by simp
      note hand = delivered_one_in_hand [OF h1 Cons.prems(4) ack]
      then have ok: "env_ok (SysLib s) (CwTrace w1) (delivered_one env)" "own_name (EnvID (delivered_one env)) path w1" by (auto simp: in_hand_def)
      from returns(2) [unfolded None Let_def option.case] show ?thesis
      proof (cases rule: on_error_cases)
        case died
        then show ?thesis using writeEnvelope_good [OF died(1) s1 ok] sent journal_good_trans by auto
      next
        case (fails e w2)
        have g: "journal_good (SysLib s) w w2" using writeEnvelope_good [OF fails(1) s1 ok] sent journal_good_trans by blast
        show ?thesis
          using g no_change_good [OF journal_good_safe [OF g] fail_with_no_change [OF fails(2)]] fail_with_not_Returns [OF fails(2)] journal_good_trans
          by blast
      next
        case (returns u w2)
        note wr = writeEnvelope_good [OF returns(1) s1 ok]
        have h2: "in_hand (SysLib s) path (delivered_one env) w2" using in_hand_advance [of "SysLib s" path "delivered_one env" w1 w2] hand wr by blast
        have "journal_safe (SysLib s) w2" using wr journal_good_safe by blast
        note ih = Cons.IH [OF returns(2) this h2 conjunct2 [OF hand]]
        have "journal_good (SysLib s) w w2" using sent wr journal_good_trans by blast
        then have "journal_good (SysLib s) w w'" using ih journal_good_trans by blast
        moreover have "EnvID (delivered_one env) = EnvID env" "EnvState (delivered_one env) = EnvState env" "EnvInput (delivered_one env) = EnvInput env"
          by (simp_all add: delivered_one_def)
        ultimately show ?thesis using ih by metis
      qed
    qed
  qed
qed

lemma call_id_no_change: "call s id w = (r, w') \<Longrightarrow> no_change w w'"
  by (auto elim: call_cases)

lemma LoadState_no_change: "LoadState s sid w = (r, w') \<Longrightarrow> no_change w w'"
  unfolding LoadState_def by (erule bind_cases) (auto dest: call_id_no_change split: option.splits state_file.splits)

lemma call_states_no_change: "call s (\<lambda>w. w\<lparr>CwStates := f w\<rparr>) w = (r, w') \<Longrightarrow> no_change w w'"
  by (auto elim!: call_cases simp: no_change_def)

lemma SaveState_no_change: "SaveState s st w = (r, w') \<Longrightarrow> no_change w w'"
  unfolding SaveState_def by (auto elim!: bind_cases dest!: call_id_no_change call_states_no_change intro: no_change_trans)

lemma ClearState_no_change: "ClearState s sid w = (r, w') \<Longrightarrow> no_change w w'"
  unfolding ClearState_def by (rule call_states_no_change)

lemma log_starts_good:
  assumes "journal_safe L w" "Wrote path e0 \<in> set (CwTrace w)"
  shows "journal_good L w (log_starts s cfg path t rs w)"
  using assms
proof (induction rs arbitrary: w)
  case Nil
  then show ?case using no_change_good by (simp add: log_starts_def)
next
  case (Cons r rs)
  let ?w = "w\<lparr>CwTrace := CwTrace w @ [Sent path (start_http r) (snd (send s cfg t (start_http r)))]\<rparr>"
  have "journalled path (start_http r) (CwTrace w)" using Cons.prems(2) by (auto simp: journalled_def)
  then have "journal_safe L ?w" using Cons.prems(1) by (fastforce simp: journal_safe_def written_ahead_snoc intro: env_ok_append)
  then have "journal_good L w ?w" by (simp add: journal_good_def kept_def)
  moreover have "journal_good L ?w (log_starts s cfg path t rs ?w)"
    using Cons.IH [OF \<open>journal_safe L ?w\<close>] Cons.prems(2) by simp
  moreover have "log_starts s cfg path t rs ?w = log_starts s cfg path t (r # rs) w" by (simp add: log_starts_def)
  ultimately show ?case using journal_good_trans by metis
qed

lemma log_starts_spool [simp]: "CwSpool (log_starts s cfg path t rs w) = CwSpool w"
  by (simp add: log_starts_def)

definition same_hook :: "hook_envelope \<Rightarrow> hook_envelope \<Rightarrow> bool" where
  "same_hook a b = (EnvID b = EnvID a \<and> EnvNext b = EnvNext a)"

lemma prepareHook_good:
  assumes "prepareHook s cfg path env w = (r, w')" "journal_safe L w" "Wrote path env \<in> set (CwTrace w)"
  shows "journal_good L w w' \<and> CwSpool w' = CwSpool w \<and>
    (\<forall>e env1. r = Returns (e, env1) \<longrightarrow> same_hook env env1 \<and> (EnvPrepared env1 \<longleftrightarrow> EnvPrepared env \<or> e = None))"
proof -
  define env0 where "env0 = (if is_stop (EnvEvent env)
     then env\<lparr>EnvInput := refineCapturedTurn (SysFiles s (CwTick w)) (SysPolls s (CwTick w)) (SysLib s) (EnvEvent env) (EnvInput env)\<rparr> else env)"
  have env0: "same_hook env env0" "EnvPrepared env0 = EnvPrepared env" by (simp_all add: env0_def same_hook_def)
  from assms(1) show ?thesis unfolding prepareHook_def Let_def env0_def [symmetric]
  proof (cases rule: on_error_cases)
    case died
    then show ?thesis using LoadState_no_change [OF died(1)] no_change_good [OF assms(2)] by (simp add: no_change_def)
  next
    case (fails e w1)
    then have "no_change w w'" using LoadState_no_change by blast
    then show ?thesis using no_change_good [OF assms(2)] env0 fails by (auto simp: no_change_def)
  next
    case (returns st w1)
    have nc: "no_change w w1" using LoadState_no_change [OF returns(1)] .
    have g: "journal_good L w w1" using no_change_good [OF assms(2) nc] .
    show ?thesis
    proof (cases "SysCrash s (CwTick w1)")
      case True
      then show ?thesis using returns(2) g nc by (simp add: no_change_def)
    next
      case False
      obtain cfg' err tx where tx: "run_handler s cfg' env0 st (CwTick w1) = (err, tx)"
        and w': "w' = log_starts s cfg' path (CwTick w1) (TxStarts tx) (tick w1)"
        and r: "r = Returns (case err of Some e \<Rightarrow> (Some e, env0) |
           None \<Rightarrow> (None, env0\<lparr>EnvPrepared := True, EnvState := Some (TxState tx), EnvOperations := TxOperations tx\<rparr>))"
        using returns(2) False by (auto split: prod.splits option.splits)
      have "journal_safe L (tick w1)" "Wrote path env \<in> set (CwTrace (tick w1))"
        using journal_good_safe [OF g] assms(3) nc by (auto simp: journal_safe_def no_change_def)
      then have "journal_good L (tick w1) w'" unfolding w' by (rule log_starts_good)
      moreover have "journal_good L w (tick w1)" using no_change_good [OF assms(2) no_change_trans [OF nc no_change_simps(2)]] .
      ultimately have "journal_good L w w'" using journal_good_trans by blast
      moreover have "CwSpool w' = CwSpool w" using nc by (simp add: w' no_change_def)
      ultimately show ?thesis using env0 by (auto simp: r same_hook_def split: option.splits)
    qed
  qed
qed

lemma journal_safe_disk:
  "journal_safe L w \<Longrightarrow> map_of (CwSpool w) path = Some (Journal env z) \<Longrightarrow> env_ok L (CwTrace w) env \<and> Wrote path env \<in> set (CwTrace w)"
  unfolding journal_safe_def by blast

lemma ensure_prepared_good:
  assumes "ensure_prepared s cfg path env w = (r, w')" "journal_safe L w" "map_of (CwSpool w) path = Some (Journal env z)"
  shows "journal_good L w w' \<and> (\<forall>env'. r = Returns env' \<longrightarrow> in_hand L path env' w' \<and> EnvID env' = EnvID env)"
proof (cases "EnvPrepared env")
  case True
  have "own_name (EnvID env) path w" using assms(3) by (simp add: own_name_def)
  then have "in_hand L path env w" using journal_safe_disk [OF assms(2,3)] True unfolding in_hand_def by blast
  then show ?thesis using assms(1) True no_change_good [OF assms(2)] by (auto simp: ensure_prepared_def)
next
  case False
  have disk: "env_ok L (CwTrace w) env" "Wrote path env \<in> set (CwTrace w)" using journal_safe_disk [OF assms(2,3)] by auto
  then have next0: "EnvNext env = 0" using False by (simp add: env_ok_def)
  from assms(1) False have "bind (prepareHook s cfg path env w) (\<lambda>(perr, env1) w1.
        let give_up = (\<lambda>e w2. ignoring (writeEnvelope s cfg path (failed_attempt e env1) w2) (\<lambda>w3. fail_with s e e w3))
        in case perr of
             Some e \<Rightarrow> give_up e w1
           | None \<Rightarrow> on_error (writeEnvelope s cfg path env1 w1) give_up (\<lambda>_ w2. (Returns env1, w2))) = (r, w')"
    by (simp add: ensure_prepared_def)
  then show ?thesis
  proof (cases rule: bind_cases)
    case died
    then show ?thesis using prepareHook_good [OF died(1) assms(2) disk(2)] by simp
  next
    case (fails e)
    then show ?thesis using prepareHook_good [OF fails(1) assms(2) disk(2)] by simp
  next
    case (returns x w1)
    obtain perr env1 where x: "x = (perr, env1)" by fastforce
    note prep = prepareHook_good [OF returns(1) [unfolded x] assms(2) disk(2)]
    then have g1: "journal_good L w w1" and sp: "CwSpool w1 = CwSpool w" and sh: "same_hook env env1"
      and pr: "EnvPrepared env1 \<longleftrightarrow> perr = None" using False by auto
    have ok: "env_ok L (CwTrace w2) env1" "env_ok L (CwTrace w2) (failed_attempt e env1)" "EnvID (failed_attempt e env1) = EnvID env" for w2 e
      using sh next0 by (auto simp: env_ok_def same_hook_def failed_attempt_def)
    have own: "own_name (EnvID env) path w1" using assms(3) by (simp add: own_name_def sp)
    have give_up: "journal_good L w w' \<and> (\<forall>env'. r \<noteq> Returns env')"
      if "ignoring (writeEnvelope s cfg path (failed_attempt e env1) w2) (\<lambda>w3. fail_with s e e w3) = (r, w')"
        "journal_good L w w2" "own_name (EnvID env) path w2" for e w2
      using that(1)
    proof (cases rule: ignoring_cases)
      case died
      then show ?thesis
        using writeEnvelope_good [OF died(1) journal_good_safe [OF that(2)] ok(2)] that(2,3) ok(3) journal_good_trans by auto
    next
      case (runs q w3)
      have "journal_good L w2 w3" using writeEnvelope_good [OF runs(1) journal_good_safe [OF that(2)] ok(2)] that(3) ok(3) by auto
      then have g: "journal_good L w w3" using that(2) journal_good_trans by blast
      show ?thesis
        using g no_change_good [OF journal_good_safe [OF g] fail_with_no_change [OF runs(3)]] fail_with_not_Returns [OF runs(3)] journal_good_trans
        by blast
    qed
    show ?thesis
    proof (cases perr)
      case (Some e)
      then show ?thesis using give_up [OF _ g1 own] returns(2) by (auto simp: x Let_def)
    next
      case None
      have "on_error (writeEnvelope s cfg path env1 w1) (\<lambda>e w2. ignoring (writeEnvelope s cfg path (failed_attempt e env1) w2) (\<lambda>w3. fail_with s e e w3))
          (\<lambda>_ w2. (Returns env1, w2)) = (r, w')"
        using returns(2) None by (simp add: x Let_def)
      moreover have own1: "own_name (EnvID env1) path w1" using own sh by (simp add: same_hook_def)
      ultimately show ?thesis
      proof (cases rule: on_error_cases)
        case died
        then show ?thesis using writeEnvelope_good [OF died(1) journal_good_safe [OF g1] ok(1) own1] g1 journal_good_trans by auto
      next
        case (fails e w2)
        have "journal_good L w w2" "own_name (EnvID env) path w2"
          using writeEnvelope_good [OF fails(1) journal_good_safe [OF g1] ok(1) own1] g1 sh journal_good_trans by (auto simp: same_hook_def)
        then show ?thesis using give_up [OF fails(2)] by auto
      next
        case (returns u w2)
        note wr = writeEnvelope_good [OF returns(1) journal_good_safe [OF g1] ok(1) own1]
        have "Wrote path (reread env1) \<in> set (CwTrace w2)" "own_name (EnvID env1) path w2" using wr by auto
        then have "in_hand L path env1 w2" using ok(1) [of w2] pr None by (auto simp: in_hand_def)
        moreover have "r = Returns env1" "w' = w2" using returns(2) by auto
        moreover have "journal_good L w w2" using wr g1 journal_good_trans by blast
        ultimately show ?thesis using sh by (simp add: same_hook_def)
      qed
    qed
  qed
qed

lemma finish_hook_good:
  assumes "finish_hook s path env w = (r, w')" "journal_safe L w" "in_hand L path env w" "drop (nat (EnvNext env)) (EnvOperations env) = []"
  shows "journal_good L w w'"
proof -
  have "nat (EnvNext env) = length (EnvOperations env)" using assms(3,4) by (auto simp: in_hand_def env_ok_def)
  then have all_acked: "finished L (EnvID env) path (CwTrace w)"
    using assms(3) by (auto simp: in_hand_def env_ok_def finished_def)
  have dropped: "journal_good L w w1" if "no_change (drop_file path w) w1" for w1
  proof -
    have sp: "CwSpool w1 = AList.delete path (CwSpool w)" "CwTrace w1 = CwTrace w" using that by (auto simp: no_change_def)
    have at: "map_of (CwSpool w1) n = (if n = path then None else map_of (CwSpool w) n)" for n by (simp add: sp delete_conv')
    have "journal_safe L w1"
      using assms(2) unfolding journal_safe_def at sp(2) by (auto simp: sp distinct_delete split: if_splits)
    moreover have "kept L w w1" unfolding kept_def at sp(2) using all_acked assms(3) by (auto simp: in_hand_def own_name_def)
    ultimately show ?thesis by (simp add: journal_good_def sp)
  qed
  from assms(1) show ?thesis unfolding finish_hook_def
  proof (cases rule: on_error_cases)
    case died
    then show ?thesis using no_change_good [OF assms(2)] by (auto elim: call_cases)
  next
    case (fails e w1)
    then have "no_change w w1" by (auto elim: call_cases)
    then show ?thesis using no_change_good [OF assms(2)] fail_with_no_change [OF fails(2)] no_change_trans by blast
  next
    case (returns u w1)
    then have w1: "w1 = drop_file path (tick w)" by (auto elim: call_cases)
    have "no_change w1 w'" using returns(2)
      by (auto elim!: ignoring_cases dest!: call_id_no_change ClearState_no_change intro: no_change_trans split: if_splits)
    then have "no_change (drop_file path w) w'" by (simp add: w1 no_change_def)
    then show ?thesis by (rule dropped)
  qed
qed

lemma save_state_no_change:
  "(case st of None \<Rightarrow> (Returns (), w1) | Some st \<Rightarrow> on_error (SaveState s st w1) (\<lambda>e w2. fail_with s e e w2) (\<lambda>_ w2. (Returns (), w2))) = (r, w') \<Longrightarrow>
   no_change w1 w'"
  by (auto elim!: on_error_cases dest!: SaveState_no_change fail_with_no_change intro: no_change_trans split: option.splits)

lemma drain_hook_good:
  assumes "drain_hook s cfg path env w = (r, w')" "journal_safe (SysLib s) w" "map_of (CwSpool w) path = Some (Journal env z)"
  shows "journal_good (SysLib s) w w'"
  using assms(1) unfolding drain_hook_def
proof (cases rule: bind_cases)
  case died
  then show ?thesis using ensure_prepared_good [OF died(1) assms(2,3)] by simp
next
  case (fails e)
  then show ?thesis using ensure_prepared_good [OF fails(1) assms(2,3)] by simp
next
  case (returns env1 w1)
  then have g1: "journal_good (SysLib s) w w1" and h1: "in_hand (SysLib s) path env1 w1"
    using ensure_prepared_good [OF returns(1) assms(2,3)] by auto
  have after: "journal_good (SysLib s) w w2" "in_hand (SysLib s) path env1 w2" if "no_change w1 w2" for w2
    using no_change_good [OF journal_good_safe [OF g1] that] g1 journal_good_trans in_hand_no_change [OF h1 that] by blast+
  from returns(2) show ?thesis
  proof (cases rule: bind_cases)
    case died
    then show ?thesis using after save_state_no_change by blast
  next
    case (fails e)
    then show ?thesis using after save_state_no_change by blast
  next
    case (returns u w2)
    have nc: "no_change w1 w2" using save_state_no_change [OF returns(1)] .
    note dg = deliver_ops_good [OF _ journal_good_safe [OF after(1) [OF nc]] after(2) [OF nc] refl]
    from returns(2) show ?thesis
    proof (cases rule: bind_cases)
      case died
      then show ?thesis using dg [OF died(1)] after(1) [OF nc] journal_good_trans by blast
    next
      case (fails e)
      then show ?thesis using dg [OF fails(1)] after(1) [OF nc] journal_good_trans by blast
    next
      case (returns x w3)
      note d = dg [OF returns(1)]
      then have g3: "journal_good (SysLib s) w w3" using after(1) [OF nc] journal_good_trans by blast
      show ?thesis
      proof (cases x)
        case (Inl m)
        then show ?thesis using returns(2) g3 by simp
      next
        case (Inr env')
        then have fin: "in_hand (SysLib s) path env' w3" "drop (nat (EnvNext env')) (EnvOperations env') = []" using d by auto
        obtain q where "finish_hook s path env' w3 = (q, w')"
          using returns(2) Inr by (auto elim: bind_cases)
        then show ?thesis using finish_hook_good [OF _ journal_good_safe [OF g3] fin] g3 journal_good_trans by blast
      qed
    qed
  qed
qed

section \<open>Drains and runs\<close>

lemma fail_with_good: "journal_safe L w \<Longrightarrow> fail_with s m e w = (r, w') \<Longrightarrow> journal_good L w w'"
  using fail_with_no_change no_change_good by blast

lemma journal_good_after:
  assumes "journal_good L a b" "journal_safe L b \<Longrightarrow> journal_good L b c"
  shows "journal_good L a c"
  using assms journal_good_safe journal_good_trans by blast

text \<open>One entry: the drain ends without touching it, passes over it, or works on its journal.\<close>

lemma drain_entries_step:
  assumes "drain_entries s cfg blocked retained (name # names) w = (r, w')"
  obtains (ends) "no_change w w'" "\<forall>x. r \<noteq> Returns x"
  | (skip) w1 blocked' retained' where "no_change w w1" "drain_entries s cfg blocked' retained' names w1 = (r, w')" "set blocked \<subseteq> set blocked'"
      "\<And>env z. is_hook_file name \<Longrightarrow> map_of (CwSpool w) name = Some (Journal env z) \<Longrightarrow> InSessionID (EnvInput env) \<in> set blocked'"
  | (works) env z w1 q w2 where "no_change w w1" "map_of (CwSpool w) name = Some (Journal env z)" "InSessionID (EnvInput env) \<notin> set blocked"
      "drain_hook s cfg name env w1 = (q, w2)" "\<forall>x. q \<noteq> Returns x" "\<forall>x. r \<noteq> Returns x" "w' = w2"
  | (passes) env z w1 x w2 retained' where "no_change w w1" "map_of (CwSpool w) name = Some (Journal env z)" "InSessionID (EnvInput env) \<notin> set blocked"
      "drain_hook s cfg name env w1 = (Returns x, w2)" "is_hook_file name"
      "drain_entries s cfg (if x = None then blocked else InSessionID (EnvInput env) # blocked) retained' names w2 = (r, w')"
proof (cases "SysDone s (CwTick w)")
  case (Some e)
  then show ?thesis using assms ends by auto
next
  case None
  show ?thesis
  proof (cases "\<not> is_hook_file name \<or> map_of (CwSpool w) name = Some SubDir")
    case True
    then show ?thesis using assms None skip [of w blocked retained] by auto
  next
    case False
    note body = assms [unfolded drain_entries.simps None option.case if_not_P [OF False]]
    show ?thesis using body
    proof (cases rule: bind_cases)
      case (returns u w1)
      have nc: "no_change w w1" using call_id_no_change [OF returns(1)] .
      have at: "map_of (CwSpool w1) name = map_of (CwSpool w) name" using nc by (simp add: no_change_def)
      show ?thesis
      proof (cases "\<exists>env z. map_of (CwSpool w) name = Some (Journal env z) \<and> \<not> invalid_journal env")
        case False
        then have "(r, w') = (Fails ''no such file'', w1) \<or> (\<exists>m. fail_with s m m w1 = (r, w'))"
          using returns(2) by (auto simp: at split: option.splits spool_file.splits)
        then show ?thesis
        proof (elim disjE exE)
          assume "(r, w') = (Fails ''no such file'', w1)"
          then show ?thesis using ends nc by simp
        next
          fix m assume m: "fail_with s m m w1 = (r, w')"
          show ?thesis using ends [OF no_change_trans [OF nc fail_with_no_change [OF m]]] fail_with_not_Returns [OF m] by blast
        qed
      next
        case True
        then obtain env z where j: "map_of (CwSpool w) name = Some (Journal env z)" and v: "\<not> invalid_journal env" by auto
        let ?s = "InSessionID (EnvInput env)"
        show ?thesis
        proof (cases "?s \<in> set blocked \<or> EnvPermanent env \<and> EnvConfigKey env = configKey (SysLib s) cfg")
          case True
          obtain blocked' retained' where "drain_entries s cfg blocked' retained' names w1 = (r, w')" "set blocked \<subseteq> set blocked'" "?s \<in> set blocked'"
          proof (cases "?s \<in> set blocked")
            case True
            then have "drain_entries s cfg blocked retained names w1 = (r, w')" using returns(2) by (simp add: at j v)
            then show ?thesis using that True by blast
          next
            case False
            then have "drain_entries s cfg (?s # blocked) (Some (''hook '' @ EnvID env @ '' requires configuration/repair: '' @ EnvLastError env)) names w1 = (r, w')"
              using returns(2) True by (simp add: at j v)
            then show ?thesis using that by (metis list.set_intros(1) set_subset_Cons)
          qed
          then show ?thesis using skip [OF nc] j by auto
        next
          case False
          then have "bind (drain_hook s cfg name env w1) (\<lambda>r w2.
                       case r of
                         None \<Rightarrow> drain_entries s cfg blocked retained names w2
                       | Some m \<Rightarrow> drain_entries s cfg (?s # blocked) (Some m) names w2) = (r, w')"
            using returns(2) by (auto simp: at j v)
          then show ?thesis
          proof (cases rule: bind_cases)
            case died
            then show ?thesis using works [OF nc j] False by auto
          next
            case (fails e)
            then show ?thesis using works [OF nc j] False by auto
          next
            case (returns x w2)
            then show ?thesis using passes [OF nc j] False \<open>\<not> (\<not> is_hook_file name \<or> map_of (CwSpool w) name = Some SubDir)\<close>
              by (cases x) auto
          qed
        qed
      qed
    qed (use ends call_id_no_change in auto)
  qed
qed

lemma drain_entries_good:
  assumes "drain_entries s cfg blocked retained names w = (r, w')" "journal_safe (SysLib s) w"
  shows "journal_good (SysLib s) w w'"
  using assms
proof (induction names arbitrary: blocked retained w)
  case Nil
  then show ?case using no_change_good by auto
next
  case (Cons name names)
  from Cons.prems(1) show ?case
  proof (cases rule: drain_entries_step)
    case ends
    then show ?thesis using no_change_good [OF Cons.prems(2)] by blast
  next
    case (skip w1 blocked' retained')
    then show ?thesis using journal_good_after [OF no_change_good [OF Cons.prems(2) skip(1)]] Cons.IH by blast
  next
    case (works env z w1 q w2)
    have "map_of (CwSpool w1) name = Some (Journal env z)" using works(1,2) by (simp add: no_change_def)
    then show ?thesis
      using journal_good_after [OF no_change_good [OF Cons.prems(2) works(1)]] drain_hook_good [OF works(4)] works(7) by blast
  next
    case (passes env z w1 x w2 retained')
    have "map_of (CwSpool w1) name = Some (Journal env z)" using passes(1,2) by (simp add: no_change_def)
    then have "journal_good (SysLib s) w w2"
      using journal_good_after [OF no_change_good [OF Cons.prems(2) passes(1)]] drain_hook_good [OF passes(4)] by blast
    then show ?thesis using journal_good_after Cons.IH [OF passes(6)] by blast
  qed
qed

end
