(* ===== verification/Collector_Safety.thy ===== *)
theory Collector_Safety
  imports Collector_Journal
begin

text \<open>
  The properties of the collector's journal.  \<open>cc_run\<close> is a sequence of invocations of the collector, each with
  outcomes of its own for the system calls, the backend and a crash.
\<close>

section \<open>Runs\<close>

lemma drainHooks_good:
  assumes "drainHooks s cfg w = (r, w')" "journal_safe (SysLib s) w"
  shows "journal_good (SysLib s) w w'"
  using assms(1) unfolding drainHooks_def
proof (cases rule: bind_cases)
  case (returns u w1)
  have g1: "journal_good (SysLib s) w w1" using no_change_good [OF assms(2) call_id_no_change [OF returns(1)]] .
  from returns(2) show ?thesis
  proof (cases rule: bind_cases)
    case (returns u w2)
    then show ?thesis
      using g1 journal_good_after [OF no_change_good [OF journal_good_safe [OF g1] call_id_no_change [OF returns(1)]]] drain_entries_good journal_good_trans
      by blast
  qed (use g1 journal_good_after no_change_good call_id_no_change in blast)+
qed (use assms(2) no_change_good call_id_no_change in blast)+

definition unused_name :: "cc_sys \<Rightarrow> cc_world \<Rightarrow> bool" where
  "unused_name s w = (map_of (CwSpool w) (hook_file s (CwTick w)) = None)"

lemma enqueueHook_good:
  assumes "enqueueHook s cfg event i w = (r, w')" "journal_safe L w" "unused_name s w"
  shows "journal_good L w w'"
proof -
  have "env_ok L (CwTrace w) (new_envelope s cfg event (CwTick w) i)" by (simp add: env_ok_def new_envelope_def)
  moreover have "own_name (EnvID (new_envelope s cfg event (CwTick w) i)) (hook_file s (CwTick w)) w"
    using assms(3) by (simp add: own_name_def unused_name_def)
  ultimately show ?thesis using writeEnvelope_good assms(1,2) unfolding enqueueHook_def by blast
qed

lemma run_cases:
  assumes "run s cfg parse args raw w = (r, w')"
  obtains (idle) "w' = w" | (marks) m q where "recordCaptureFailure s m w = (q, w')" | (drains) q where "drainHooks s cfg w = (q, w')"
  | (captures) i q event where "on_error (enqueueHook s cfg event i w) (recordCaptureFailure s) (\<lambda>_ w1.
       on_error (call s id w1) (\<lambda>e. recordCaptureFailure s (''hook retained; could not start delivery worker: '' @ e)) (\<lambda>_ w2. (Returns (), w2))) = (q, w')"
  using assms by (auto simp: run_def Let_def split: list.splits if_splits prod.splits io_result.splits option.splits sum.splits)

lemma run_good:
  assumes "run s cfg parse args raw w = (r, w')" "journal_safe (SysLib s) w" "unused_name s w"
  shows "journal_good (SysLib s) w w'"
proof -
  let ?L = "SysLib s"
  have quiet: "journal_good ?L w w'" if "no_change w w'" using no_change_good [OF assms(2) that] .
  have rec: "journal_good ?L a b" if "journal_safe ?L a" "recordCaptureFailure s m a = (q, b)" for a b m q
    using no_change_good [OF that(1) recordCaptureFailure_no_change [OF that(2)]] .
  from assms(1) show ?thesis
  proof (cases rule: run_cases)
    case idle
    then show ?thesis using quiet by simp
  next
    case marks
    then show ?thesis using rec [OF assms(2)] by blast
  next
    case drains
    then show ?thesis using drainHooks_good assms(2) by blast
  next
    case captures
    then show ?thesis
    proof (cases rule: on_error_cases)
      case died
      then show ?thesis using enqueueHook_good assms(2,3) by blast
    next
      case (fails e w1)
      then show ?thesis using journal_good_after [OF enqueueHook_good [OF fails(1) assms(2,3)]] rec by blast
    next
      case (returns u w1)
      have "journal_good ?L w1 w'" if "journal_safe ?L w1"
        using returns(2)
      proof (cases rule: on_error_cases)
        case died
        then show ?thesis using no_change_good [OF that] call_id_no_change by blast
      next
        case (fails e w2)
        then show ?thesis using journal_good_after [OF no_change_good [OF that call_id_no_change [OF fails(1)]]] rec by blast
      next
        case (returns u w2)
        then show ?thesis using no_change_good [OF that] call_id_no_change by auto
      qed
      then show ?thesis using journal_good_after [OF enqueueHook_good [OF returns(1) assms(2,3)]] by blast
    qed
  qed
qed

text \<open>
  A sequence of invocations with one spool limit.  A new journal never has the name of an old one: the name carries
  the time and sixteen random bytes.
\<close>

inductive cc_run :: "cc_lib \<Rightarrow> int \<Rightarrow> cc_world \<Rightarrow> cc_world \<Rightarrow> bool" for L limit where
  cc_run_refl: "cc_run L limit w w"
| cc_run_step: "cc_run L limit w w1 \<Longrightarrow> SysLib s = L \<Longrightarrow> spoolLimit cfg = limit \<Longrightarrow> unused_name s w1 \<Longrightarrow>
    run s cfg parse args raw w1 = (r, w2) \<Longrightarrow> cc_run L limit w w2"

lemma cc_run_good: "cc_run L limit w w' \<Longrightarrow> journal_safe L w \<Longrightarrow> journal_good L w w'"
proof (induction rule: cc_run.induct)
  case (cc_run_refl w)
  then show ?case using no_change_good by simp
next
  case (cc_run_step w w1 s cfg parse args raw r w2)
  then show ?case using journal_good_after [of L w w1 w2] run_good [of s cfg parse args raw w1 r w2] by simp
qed

definition empty_world :: cc_world where
  "empty_world = \<lparr>CwSpool = [], CwStates = [], CwCaptureError = None, CwTrace = [], CwTick = 0\<rparr>"

lemma empty_safe: "journal_safe L empty_world"
  by (simp add: journal_safe_def empty_world_def)

text \<open>
  C16.  No captured hook is lost.  In every run of the collector from an empty state directory, with any failures,
  any answers and a crash between any two effects, a journal that is in the spool at some moment is at every later
  moment still there under its name and identity, or it was prepared and the backend confirmed every one of its operations.
\<close>

theorem journal_no_loss:
  assumes "cc_run L limit empty_world w" "map_of (CwSpool w) n = Some (Journal env z)" "cc_run L limit w w'"
  shows "(\<exists>env' z'. map_of (CwSpool w') n = Some (Journal env' z') \<and> EnvID env' = EnvID env) \<or>
    (\<exists>env'. Wrote n env' \<in> set (CwTrace w') \<and> EnvID env' = EnvID env \<and> EnvPrepared env' \<and>
       (\<forall>d \<in> set (EnvOperations env'). acked L d (CwTrace w')))"
proof -
  have "journal_good L empty_world w" using cc_run_good [OF assms(1) empty_safe] .
  then have "journal_good L w w'" using cc_run_good [OF assms(3)] journal_good_safe by blast
  then have "kept L w w'" by (simp add: journal_good_def)
  then show ?thesis using assms(2) unfolding kept_def finished_def by blast
qed

text \<open>
  C17.  Write-ahead.  In every run, with any failures and a crash between any two effects, every request the collector
  sent for a journal was preceded by the journal: an operation by an envelope that was written under that name in its
  prepared form and contains it, the start of an execution by an envelope under that name.
\<close>

theorem journal_written_ahead:
  assumes "cc_run L limit empty_world w" "CwTrace w = xs @ Sent n r ocs # ys"
  shows "\<exists>env. Wrote n env \<in> set xs \<and> ((\<exists>q. r = start_http q) \<or> EnvPrepared env \<and> (\<exists>d \<in> set (EnvOperations env). r = op_request d))"
proof -
  have "written_ahead (CwTrace w)" using cc_run_good [OF assms(1) empty_safe] by (simp add: journal_good_def journal_safe_def)
  then show ?thesis using assms(2) unfolding written_ahead_def journalled_def by metis
qed

end
