(* ===== verification/Collector_Order.thy ===== *)
theory Collector_Order
  imports Collector_Safety
begin

text \<open>
  What a drain changes and in which order.  \<open>hook_relation\<close> is the interface between the five ways a worker touches the
  spool for a journal and a relation on worlds they all respect: the work on a journal respects it
  then.  It is interpreted twice: with the frame of a journal (other files stay, requests are sent for this journal
  only), from which the order of delivery in a session follows, and with the bound on the spool.
\<close>

section \<open>Relations the worker respects\<close>

locale hook_relation =
  fixes s :: cc_sys and cfg :: cc_config and path :: string and R :: "cc_world \<Rightarrow> cc_world \<Rightarrow> bool"
  assumes R_trans: "R a b \<Longrightarrow> R b c \<Longrightarrow> R a c"
    and R_quiet: "no_change a b \<Longrightarrow> R a b"
    and R_write: "writeEnvelope s cfg path env a = (r, b) \<Longrightarrow> R a b"
    and R_drop: "R a (drop_file path a)"
    and R_sent: "R a (a\<lparr>CwTrace := CwTrace a @ [Sent path q ocs]\<rparr>)"
begin

lemma fail_R: "fail_with s m e a = (r, b) \<Longrightarrow> R a b"
  using fail_with_no_change R_quiet by blast

lemma send_op_R:
  assumes "send_op s cfg path d a = (r, b)"
  shows "R a b"
proof (cases "SysCrash s (CwTick a)")
  case True
  then show ?thesis using assms R_quiet [of a b] by (simp add: send_op_def)
next
  case False
  obtain e ocs where "deliverOperation s cfg (CwTick a) d = (e, ocs)" by fastforce
  then have b: "b = (if ocs = [] then tick a else (tick a)\<lparr>CwTrace := CwTrace (tick a) @ [Sent path (op_request d) ocs]\<rparr>)"
    using assms False by (auto simp: send_op_def tick_def)
  show ?thesis unfolding b using R_quiet [of a "tick a"] R_sent [of "tick a"] R_trans by auto
qed

lemma deliver_ops_R: "deliver_ops s cfg path env ds a = (r, b) \<Longrightarrow> R a b"
proof (induction ds arbitrary: env a)
  case Nil
  then show ?case using R_quiet [of a a] by simp
next
  case (Cons d ds)
  from Cons.prems show ?case unfolding deliver_ops.simps
  proof (cases rule: bind_cases)
    case (returns err w1)
    have s1: "R a w1" using send_op_R [OF returns(1)] .
    show ?thesis
    proof (cases err)
      case (Some e)
      from returns(2) [unfolded Some Let_def option.case] show ?thesis
      proof (cases rule: ignoring_cases)
        case died
        then show ?thesis using s1 R_write R_trans by blast
      next
        case (runs q w2)
        have "no_change w2 b" using runs(3) by (auto elim!: bind_cases dest: recordCaptureFailure_no_change split: if_splits)
        then show ?thesis using s1 R_write [OF runs(1)] R_quiet R_trans by blast
      qed
    next
      case None
      from returns(2) [unfolded None Let_def option.case] show ?thesis
      proof (cases rule: on_error_cases)
        case died
        then show ?thesis using s1 R_write R_trans by blast
      next
        case (fails e w2)
        then show ?thesis using s1 R_write [OF fails(1)] fail_R [OF fails(2)] R_trans by blast
      next
        case (returns u w2)
        then show ?thesis using s1 R_write [OF returns(1)] Cons.IH [OF returns(2)] R_trans by blast
      qed
    qed
  qed (use send_op_R in blast)+
qed

lemma log_starts_R: "R a (log_starts s cfg' path t rs a)"
proof (induction rs arbitrary: a)
  case Nil
  then show ?case using R_quiet by (simp add: log_starts_def)
next
  case (Cons r rs)
  let ?a = "a\<lparr>CwTrace := CwTrace a @ [Sent path (start_http r) (snd (send s cfg' t (start_http r)))]\<rparr>"
  have "log_starts s cfg' path t rs ?a = log_starts s cfg' path t (r # rs) a" by (simp add: log_starts_def)
  then show ?case using Cons.IH [of ?a] R_sent [of a] R_trans by metis
qed

lemma prepareHook_R:
  assumes "prepareHook s cfg path env a = (r, b)"
  shows "R a b"
  using assms unfolding prepareHook_def Let_def
proof (cases rule: on_error_cases)
  case (returns st w1)
  have q: "R a w1" "R a (tick w1)"
    using LoadState_no_change [OF returns(1)] R_quiet no_change_trans [OF _ no_change_simps(2)] by blast+
  from returns(2) have "b = w1 \<or> (\<exists>cfg' t rs. b = log_starts s cfg' path t rs (tick w1))"
    by (auto split: if_splits prod.splits option.splits)
  then show ?thesis using q log_starts_R R_trans by blast
qed (use LoadState_no_change R_quiet in auto)

lemma ensure_prepared_R:
  assumes "ensure_prepared s cfg path env a = (r, b)"
  shows "R a b"
proof (cases "EnvPrepared env")
  case True
  then show ?thesis using assms R_quiet [of a a] by (simp add: ensure_prepared_def)
next
  case False
  have give_up: "R w2 b" if "ignoring (writeEnvelope s cfg path env1 w2) (\<lambda>w3. fail_with s e e w3) = (r, b)" for env1 e w2
    using that by (cases rule: ignoring_cases) (use R_write fail_R R_trans in blast)+
  from assms [unfolded ensure_prepared_def if_not_P [OF False]] show ?thesis
  proof (cases rule: bind_cases)
    case (returns x w1)
    obtain perr env1 where x: "x = (perr, env1)" by fastforce
    have p: "R a w1" using prepareHook_R [OF returns(1)] .
    show ?thesis
    proof (cases perr)
      case (Some e)
      then show ?thesis using returns(2) p give_up R_trans by (fastforce simp: x Let_def)
    next
      case None
      from returns(2) [unfolded x prod.case Let_def None option.case] show ?thesis
      proof (cases rule: on_error_cases)
        case died
        then show ?thesis using p R_write R_trans by blast
      next
        case (fails e w2)
        then show ?thesis using p R_write [OF fails(1)] give_up [OF fails(2)] R_trans by blast
      next
        case (returns u w2)
        then show ?thesis using p R_write [OF returns(1)] R_trans by auto
      qed
    qed
  qed (use prepareHook_R in blast)+
qed

lemma finish_hook_R:
  assumes "finish_hook s path env a = (r, b)"
  shows "R a b"
  using assms unfolding finish_hook_def
proof (cases rule: on_error_cases)
  case (fails e w1)
  have "R a w1" using fails(1) R_quiet by (auto elim!: call_cases)
  then show ?thesis using fail_R [OF fails(2)] R_trans by blast
next
  case (returns u w1)
  have "w1 = drop_file path (tick a)" using returns(1) by (auto elim: call_cases)
  then have "R a w1" using R_quiet [of a "tick a"] R_drop [of "tick a"] R_trans by simp
  moreover have "no_change w1 b" using returns(2)
    by (auto elim!: ignoring_cases dest!: call_id_no_change ClearState_no_change intro: no_change_trans split: if_splits)
  ultimately show ?thesis using R_quiet R_trans by blast
qed (use R_quiet in \<open>auto elim!: call_cases\<close>)

theorem drain_hook_R:
  assumes "drain_hook s cfg path env a = (r, b)"
  shows "R a b"
  using assms unfolding drain_hook_def
proof (cases rule: bind_cases)
  case (returns env1 w1)
  have p: "R a w1" using ensure_prepared_R [OF returns(1)] .
  from returns(2) show ?thesis
  proof (cases rule: bind_cases)
    case (returns u w2)
    have p2: "R a w2" using p save_state_no_change [OF returns(1)] R_quiet R_trans by blast
    from returns(2) show ?thesis
    proof (cases rule: bind_cases)
      case (returns x w3)
      have p3: "R a w3" using p2 deliver_ops_R [OF returns(1)] R_trans by blast
      show ?thesis
      proof (cases x)
        case (Inl m)
        then show ?thesis using returns(2) p3 by simp
      next
        case (Inr env')
        obtain q where "finish_hook s path env' w3 = (q, b)" using returns(2) Inr by (auto elim: bind_cases)
        then show ?thesis using p3 finish_hook_R R_trans by blast
      qed
    qed (use p2 deliver_ops_R R_trans in blast)+
  qed (use p save_state_no_change R_quiet R_trans in blast)+
qed (use ensure_prepared_R in blast)+

end

text \<open>A relation that the work on every journal respects is respected by a drain.\<close>

locale spool_relation =
  fixes s :: cc_sys and cfg :: cc_config and R :: "cc_world \<Rightarrow> cc_world \<Rightarrow> bool"
  assumes every_path: "hook_relation s cfg path R"
begin

lemma R_trans: "R a b \<Longrightarrow> R b c \<Longrightarrow> R a c"
  using hook_relation.R_trans [OF every_path] .

lemma R_quiet: "no_change a b \<Longrightarrow> R a b"
  using hook_relation.R_quiet [OF every_path] .

lemma drain_entries_R: "drain_entries s cfg blocked retained names a = (r, b) \<Longrightarrow> R a b"
proof (induction names arbitrary: blocked retained a)
  case Nil
  then show ?case using R_quiet [of a a] by simp
next
  case (Cons name names)
  from Cons.prems show ?case
  proof (cases rule: drain_entries_step)
    case ends
    then show ?thesis using R_quiet by blast
  next
    case (skip w1 blocked' retained')
    then show ?thesis using R_quiet Cons.IH R_trans by blast
  next
    case (works env z w1 q w2)
    then show ?thesis using R_quiet R_trans hook_relation.drain_hook_R [OF every_path works(4)] by blast
  next
    case (passes env z w1 x w2 retained')
    then show ?thesis using R_quiet R_trans hook_relation.drain_hook_R [OF every_path passes(4)] Cons.IH [OF passes(6)] by blast
  qed
qed

lemma call_R: "call s id a = (r, b) \<Longrightarrow> R a b"
  using call_id_no_change R_quiet by blast

lemma drainHooks_R:
  assumes "drainHooks s cfg a = (r, b)"
  shows "R a b"
  using assms unfolding drainHooks_def
proof (cases rule: bind_cases)
  case (returns u w1)
  from returns(2) have "R w1 b"
    by (cases rule: bind_cases) (use call_R drain_entries_R R_trans in blast)+
  then show ?thesis using call_R [OF returns(1)] R_trans by blast
qed (use call_R in blast)+

lemma enqueueHook_R: "enqueueHook s cfg event i a = (r, b) \<Longrightarrow> R a b"
  unfolding enqueueHook_def using hook_relation.R_write [OF every_path] .

lemma record_R: "recordCaptureFailure s m a = (r, b) \<Longrightarrow> R a b"
  using recordCaptureFailure_no_change R_quiet by blast

lemma run_R:
  assumes "run s cfg parse args raw a = (r, b)"
  shows "R a b"
  using assms
proof (cases rule: run_cases)
  case captures
  then show ?thesis
  proof (cases rule: on_error_cases)
    case (returns u w1)
    from returns(2) have "R w1 b"
    proof (cases rule: on_error_cases)
      case (fails e w2)
      then show ?thesis using call_R record_R R_trans by blast
    qed (use call_R in auto)
    then show ?thesis using enqueueHook_R [OF returns(1)] R_trans by blast
  qed (use enqueueHook_R record_R R_trans in blast)+
qed (use R_quiet [of a a] record_R drainHooks_R in auto)

end

section \<open>The bound on the spool\<close>

definition spool_total :: "cc_world \<Rightarrow> int" where
  "spool_total w = sum_list (map (file_size \<circ> snd) (CwSpool w))"

text \<open>Every file is within the limit, all files together are within twice the limit.\<close>

definition sized :: "int \<Rightarrow> cc_world \<Rightarrow> bool" where
  "sized M w = (distinct (map fst (CwSpool w)) \<and> (\<forall>(n, f) \<in> set (CwSpool w). 0 \<le> file_size f \<and> file_size f \<le> M) \<and> spool_total w \<le> 2 * M)"

lemma size_of_others:
  "k \<notin> fst ` set ps \<Longrightarrow> sum_list (map (\<lambda>(n, g). if n = k then 0 else file_size g) ps) = sum_list (map (file_size \<circ> snd) ps)"
  by (induction ps) auto

lemma total_update:
  "distinct (map fst ps) \<Longrightarrow> sum_list (map (file_size \<circ> snd) (AList.update k f ps)) =
     sum_list (map (\<lambda>(n, g). if n = k then 0 else file_size g) ps) + file_size f"
proof (induction ps)
  case (Cons p ps)
  then show ?case using size_of_others [of k ps] by (cases p) (auto simp: comp_def)
qed simp

lemma update_present: "map_of ps k = Some v \<Longrightarrow> AList.update k v ps = ps"
  by (induction ps) auto

lemma total_split:
  assumes "distinct (map fst (CwSpool w))"
  shows "spool_total w = spool_size path w + (case map_of (CwSpool w) path of None \<Rightarrow> 0 | Some f \<Rightarrow> file_size f)"
proof (cases "map_of (CwSpool w) path")
  case None
  then have "path \<notin> fst ` set (CwSpool w)" by (simp add: map_of_eq_None_iff)
  then show ?thesis using size_of_others [of path "CwSpool w"] None by (simp add: spool_total_def spool_size_def)
next
  case (Some f)
  then show ?thesis using total_update [OF assms, of path f] update_present [OF Some] by (simp add: spool_total_def spool_size_def)
qed

lemma spoolLimit_pos [simp]: "0 < spoolLimit cfg" "0 \<le> spoolLimit cfg"
  by (simp_all add: spoolLimit_def)

lemma spool_size_nonneg: "sized M w \<Longrightarrow> 0 \<le> spool_size path w"
  unfolding sized_def spool_size_def by (intro sum_list_nonneg) auto

lemma total_delete: "(\<forall>(n, f) \<in> set ps. 0 \<le> file_size f) \<Longrightarrow>
   sum_list (map (file_size \<circ> snd) (AList.delete k ps)) \<le> sum_list (map (file_size \<circ> snd) ps)"
  by (induction ps) (auto simp: AList.delete_eq)

lemma sized_same: "CwSpool b = CwSpool a \<Longrightarrow> sized M b = sized M a"
  by (simp add: sized_def spool_total_def)

lemma sized_update:
  assumes "sized M w" "CwSpool w' = AList.update k f (CwSpool w)" "0 \<le> file_size f" "file_size f \<le> M" "spool_size k w + file_size f \<le> 2 * M"
  shows "sized M w'"
proof -
  have d: "distinct (map fst (CwSpool w))" using assms(1) by (simp add: sized_def)
  have "spool_total w' = spool_size k w + file_size f" using total_update [OF d] by (simp add: spool_total_def spool_size_def assms(2))
  moreover have "0 \<le> file_size g \<and> file_size g \<le> M" if "(n, g) \<in> set (CwSpool w')" for n g
  proof -
    have "map_of (CwSpool w') n = Some g" using that d by (simp add: assms(2) distinct_update)
    then have "g = f \<or> map_of (CwSpool w) n = Some g" by (auto simp: assms(2) update_conv' split: if_splits)
    then show ?thesis using assms(1,3,4) by (auto simp: sized_def dest: map_of_SomeD)
  qed
  ultimately show ?thesis using assms(5) d by (auto simp: sized_def assms(2) distinct_update)
qed

lemma sized_write:
  assumes "writeEnvelope s cfg path env w = (r, w')" "sized (spoolLimit cfg) w"
  shows "sized (spoolLimit cfg) w'"
proof -
  let ?M = "spoolLimit cfg" and ?len = "int (SysLen s env)"
  have d: "distinct (map fst (CwSpool w))" using assms(2) by (simp add: sized_def)
  note nn = spool_size_nonneg [OF assms(2)]
  from assms(1) show ?thesis
  proof (cases rule: writeEnvelope_cases)
    case same
    then show ?thesis using assms(2) sized_same by blast
  next
    case (temp tmp x)
    have "spool_total w \<le> spool_size path w + ?M"
      using total_split [OF d, of path] assms(2) by (auto simp: sized_def dest: map_of_SomeD split: option.splits)
    moreover have "spool_size tmp w = spool_total w" using total_split [OF d, of tmp] temp(4) by simp
    ultimately show ?thesis using sized_update [OF assms(2) temp(1)] temp(6,7) nn [of path] nn [of tmp] by auto
  next
    case installed
    then show ?thesis using sized_update [OF assms(2) installed(1)] nn [of path] by simp
  qed
qed

interpretation bounded: spool_relation s cfg "\<lambda>a b. sized (spoolLimit cfg) a \<longrightarrow> sized (spoolLimit cfg) b" for s cfg
proof (unfold_locales, goal_cases)
  case (3 path env a r b)
  then show ?case using sized_write by blast
next
  case (4 path a)
  show ?case
  proof
    assume sz: "sized (spoolLimit cfg) a"
    then have "\<forall>(n, f) \<in> set (CwSpool a). 0 \<le> file_size f" by (auto simp: sized_def)
    note total_delete [OF this, of path]
    with sz show "sized (spoolLimit cfg) (drop_file path a)"
      unfolding sized_def spool_total_def by (simp add: distinct_delete) (simp add: AList.delete_eq)
  qed
next
  case (2 path a b)
  then show ?case using sized_same [of b a] by (simp add: no_change_def)
next
  case (5 path a q ocs)
  show ?case using sized_same [of "a\<lparr>CwTrace := CwTrace a @ [Sent path q ocs]\<rparr>" a] by simp
qed blast

lemma cc_run_sized: "cc_run L limit w w' \<Longrightarrow> sized limit w \<Longrightarrow> sized limit w'"
proof (induction rule: cc_run.induct)
  case (cc_run_step w w1 s cfg parse event raw r w2)
  then show ?case using bounded.run_R [of s cfg parse event raw w1 r w2] by simp
qed

text \<open>
  C20.  The spool is bounded.  In every run of the collector from an empty state directory, with any failures and a
  crash between any two effects, the files of the spool, left-over temporary files included, never take more than
  twice the limit together, and none of them more than the limit.
\<close>

theorem spool_bounded:
  assumes "cc_run L limit empty_world w" "0 < limit"
  shows "spool_total w \<le> 2 * limit \<and> (\<forall>n f. map_of (CwSpool w) n = Some f \<longrightarrow> file_size f \<le> limit)"
proof -
  have "sized limit empty_world" using assms(2) by (simp add: sized_def empty_world_def spool_total_def)
  then have "sized limit w" using cc_run_sized [OF assms(1)] by blast
  then show ?thesis by (auto simp: sized_def dest!: map_of_SomeD)
qed

section \<open>Order of delivery\<close>

text \<open>
  The frame of a journal: every other file but temporary ones is as it was, and what was sent was sent for this journal.
\<close>

definition is_temp :: "string \<Rightarrow> bool" where
  "is_temp n = HasPrefix n ''.hook-''"

definition only_sent :: "string set \<Rightarrow> io list \<Rightarrow> bool" where
  "only_sent ps tr = (\<forall>p q ocs. Sent p q ocs \<in> set tr \<longrightarrow> p \<in> ps)"

definition frame :: "string set \<Rightarrow> cc_world \<Rightarrow> cc_world \<Rightarrow> bool" where
  "frame ps a b = ((\<forall>n. n \<notin> ps \<and> \<not> is_temp n \<longrightarrow> map_of (CwSpool b) n = map_of (CwSpool a) n) \<and> (\<exists>tr. CwTrace b = CwTrace a @ tr \<and> only_sent ps tr))"

lemma frame_trans: "frame ps a b \<Longrightarrow> frame ps b c \<Longrightarrow> frame ps a c"
  unfolding frame_def only_sent_def by (clarsimp, blast)

lemma frame_quiet: "no_change a b \<Longrightarrow> frame ps a b"
  by (simp add: frame_def no_change_def only_sent_def)

lemma frame_mono: "frame ps a b \<Longrightarrow> ps \<subseteq> qs \<Longrightarrow> frame qs a b"
  unfolding frame_def only_sent_def by blast

lemma frame_file: "frame ps a b \<Longrightarrow> n \<notin> ps \<Longrightarrow> \<not> is_temp n \<Longrightarrow> map_of (CwSpool b) n = map_of (CwSpool a) n"
  by (simp add: frame_def)

lemma frame_write:
  assumes "writeEnvelope s cfg path env a = (r, b)"
  shows "frame {path} a b"
  using assms by (cases rule: writeEnvelope_cases) (auto simp: frame_def only_sent_def is_temp_def update_conv')

interpretation framed: hook_relation s cfg path "frame {path}" for s cfg path
proof (unfold_locales, goal_cases)
  case (1 a b c)
  then show ?case by (rule frame_trans)
next
  case (2 a b)
  then show ?case by (rule frame_quiet)
next
  case (3 env a r b)
  then show ?case by (rule frame_write)
next
  case (4 a)
  then show ?case by (simp add: frame_def only_sent_def delete_conv')
next
  case (5 a q ocs)
  then show ?case by (simp add: frame_def only_sent_def)
qed

lemma frame_entries: "drain_entries s cfg blocked retained names a = (r, b) \<Longrightarrow> frame (set names) a b"
proof (induction names arbitrary: blocked retained a)
  case Nil
  then show ?case using frame_quiet by auto
next
  case (Cons name names)
  have tail: "frame (set (name # names)) w b" if "drain_entries s cfg blk ret names w = (r, b)" for blk ret w
    using Cons.IH [OF that] by (rule frame_mono) auto
  have head: "frame (set (name # names)) w1 w2" if "drain_hook s cfg name env w1 = (q, w2)" for env q w1 w2
    using framed.drain_hook_R [OF that] by (rule frame_mono) auto
  from Cons.prems show ?case
  proof (cases rule: drain_entries_step)
    case ends
    then show ?thesis using frame_quiet by blast
  next
    case (skip w1 blocked' retained')
    show ?thesis by (rule frame_trans [OF frame_quiet [OF skip(1)] tail [OF skip(2)]])
  next
    case (works env z w1 q w2)
    show ?thesis using frame_trans [OF frame_quiet [OF works(1)] head [OF works(4)]] works(7) by simp
  next
    case (passes env z w1 x w2 retained')
    show ?thesis by (rule frame_trans [OF frame_trans [OF frame_quiet [OF passes(1)] head [OF passes(4)]] tail [OF passes(6)]])
  qed
qed

lemma drain_hook_removes:
  assumes "drain_hook s cfg path env a = (Returns None, b)"
  shows "map_of (CwSpool b) path = None"
proof -
  obtain env' w3 u where fin: "finish_hook s path env' w3 = (Returns u, b)"
    using assms unfolding drain_hook_def by (auto elim!: bind_cases split: sum.splits)
  from fin show ?thesis unfolding finish_hook_def
  proof (cases rule: on_error_cases)
    case (fails e w1)
    show ?thesis using fail_with_not_Returns [OF fails(2), of u] by simp
  next
    case (returns u w1)
    have "no_change w1 b" using returns(2)
      by (auto elim!: ignoring_cases dest!: call_id_no_change ClearState_no_change intro: no_change_trans split: if_splits)
    moreover have "w1 = drop_file path (tick w3)" using returns(1) by (auto elim: call_cases)
    ultimately show ?thesis by (simp add: no_change_def delete_conv')
  qed simp
qed

text \<open>A hook of a blocked session is not touched.\<close>

lemma blocked_untouched:
  assumes "drain_entries s cfg blocked retained names a = (r, b)" "distinct names" "is_hook_file n" "\<not> is_temp n"
    and "map_of (CwSpool a) n = Some (Journal env z)" "InSessionID (EnvInput env) \<in> set blocked"
  shows "\<exists>ps. n \<notin> ps \<and> frame ps a b"
  using assms
proof (induction names arbitrary: blocked retained a)
  case Nil
  then show ?case using frame_quiet [of a b "{}"] by auto
next
  case (Cons name names)
  have join: "\<exists>ps. n \<notin> ps \<and> frame ps a c" if "n \<notin> qs" "frame qs a b" "\<exists>ps. n \<notin> ps \<and> frame ps b c" for a b c qs
  proof -
    from that obtain ps where "n \<notin> ps" "frame ps b c" by blast
    then have "frame (ps \<union> qs) a c" using that(2) frame_mono [of _ _ _ "ps \<union> qs"] frame_trans by blast
    then show ?thesis using that(1) \<open>n \<notin> ps\<close> by blast
  qed
  show ?case
  proof (cases "n = name")
    case True
    from Cons.prems(1) show ?thesis
    proof (cases rule: drain_entries_step)
      case ends
      then show ?thesis using frame_quiet [of a b "{}"] by auto
    next
      case (skip w1 blocked' retained')
      then have "frame (set names) a b" using frame_entries frame_quiet frame_trans by blast
      then show ?thesis using True Cons.prems(2) by auto
    next
      case works
      then show ?thesis using True Cons.prems(5,6) by auto
    next
      case passes
      then show ?thesis using True Cons.prems(5,6) by auto
    qed
  next
    case False
    from Cons.prems(1) show ?thesis
    proof (cases rule: drain_entries_step)
      case ends
      then show ?thesis using frame_quiet [of a b "{}"] by auto
    next
      case (skip w1 blocked' retained')
      have "map_of (CwSpool w1) n = Some (Journal env z)" using skip(1) Cons.prems(5) by (simp add: no_change_def)
      then have "\<exists>ps. n \<notin> ps \<and> frame ps w1 b" using Cons.IH [OF skip(2)] Cons.prems skip(3) by auto
      then show ?thesis using join [of "{}" a w1 b] frame_quiet [OF skip(1)] by blast
    next
      case (works e z' w1 q w2)
      have "frame {name} a b" using works frame_quiet framed.drain_hook_R [OF works(4)] frame_trans by blast
      then show ?thesis using False by blast
    next
      case (passes e z' w1 x w2 retained')
      have fr: "frame {name} a w2" using passes frame_quiet framed.drain_hook_R [OF passes(4)] frame_trans by blast
      then have "map_of (CwSpool w2) n = Some (Journal env z)" using Cons.prems(4,5) False frame_file [OF fr, of n] by simp
      then have "\<exists>ps. n \<notin> ps \<and> frame ps w2 b" using Cons.IH [OF passes(6)] Cons.prems by auto
      then show ?thesis using join [OF _ fr] False by simp
    qed
  qed
qed

lemma hook_not_temp: "is_hook_file n \<Longrightarrow> \<not> is_temp n"
  by (auto simp: is_hook_file_def is_temp_def HasPrefix_iff)

lemma not_sent_for:
  assumes "frame ps a b" "n \<notin> ps" "CwTrace b = CwTrace a @ tr"
  shows "Sent n q ocs \<notin> set tr"
  using assms by (auto simp: frame_def only_sent_def)

lemma entries_in_order:
  assumes "drain_entries s cfg blocked retained names w = (r, w')" "distinct names" "sorted names" "n1 \<in> set names" "n1 < n2"
    and "is_hook_file n1" "is_hook_file n2" "map_of (CwSpool w) n1 = Some (Journal e1 z1)" "map_of (CwSpool w) n2 = Some (Journal e2 z2)"
    and "InSessionID (EnvInput e1) = InSessionID (EnvInput e2)" "CwTrace w' = CwTrace w @ tr" "Sent n2 q ocs \<in> set tr"
  shows "map_of (CwSpool w') n1 = None"
  using assms
proof (induction names arbitrary: blocked retained w tr)
  case (Cons name names)
  note temps = hook_not_temp [OF Cons.prems(6)] hook_not_temp [OF Cons.prems(7)]
  have sent: "\<not> (n2 \<notin> ps \<and> frame ps w w')" for ps using not_sent_for Cons.prems(11,12) by blast
  have quiet: "\<not> no_change w w'" using sent [of "{}"] frame_quiet by blast
  have ne: "name \<noteq> n2" using Cons.prems(3,4,5) by auto
  have later: "map_of (CwSpool w') n1 = None" if fr: "frame {name} w w1" and d: "drain_entries s cfg blk ret names w1 = (r, w')"
    and n1: "n1 \<in> set names" for blk ret w1
  proof -
    have "name \<noteq> n1" using Cons.prems(2) n1 by auto
    then have f: "map_of (CwSpool w1) n1 = Some (Journal e1 z1)" "map_of (CwSpool w1) n2 = Some (Journal e2 z2)"
      using frame_file [OF fr] temps ne Cons.prems(8,9) by auto
    from fr obtain t1 where t1: "CwTrace w1 = CwTrace w @ t1" "only_sent {name} t1" by (auto simp: frame_def)
    from frame_entries [OF d] obtain t2 where t2: "CwTrace w' = CwTrace w1 @ t2" by (auto simp: frame_def)
    have "tr = t1 @ t2" using Cons.prems(11) t1(1) t2 by simp
    then have "Sent n2 q ocs \<in> set t2" using Cons.prems(12) t1(2) ne unfolding only_sent_def by auto
    then show ?thesis using Cons.IH [OF d _ _ n1 Cons.prems(5-7) f Cons.prems(10) t2] Cons.prems(2,3) by auto
  qed
  have blocks: "False" if fr: "frame {name} w w1" and d: "drain_entries s cfg blk ret names w1 = (r, w')" and b: "InSessionID (EnvInput e2) \<in> set blk" for blk ret w1
  proof -
    have "map_of (CwSpool w1) n2 = Some (Journal e2 z2)" using frame_file [OF fr, of n2] ne temps(2) Cons.prems(9) by simp
    then obtain ps where "n2 \<notin> ps" "frame ps w1 w'"
      using blocked_untouched [OF d _ Cons.prems(7) temps(2) _ b] Cons.prems(2) by auto
    then have "n2 \<notin> insert name ps \<and> frame (insert name ps) w w'"
      using ne fr frame_mono [of _ _ _ "insert name ps"] frame_trans by blast
    then show False using sent by blast
  qed
  show ?case
  proof (cases "name = n1")
    case False
    then have n1: "n1 \<in> set names" using Cons.prems(4) by simp
    from Cons.prems(1) show ?thesis
    proof (cases rule: drain_entries_step)
      case ends
      then show ?thesis using quiet by blast
    next
      case (skip w1 blocked' retained')
      show ?thesis by (rule later [OF frame_quiet [OF skip(1)] skip(2) n1])
    next
      case (works env z w1 q w2)
      have "frame {name} w w'" using frame_trans [OF frame_quiet [OF works(1)] framed.drain_hook_R [OF works(4)]] works(7) by simp
      then show ?thesis using sent [of "{name}"] ne by simp
    next
      case (passes env z w1 x w2 retained')
      show ?thesis by (rule later [OF frame_trans [OF frame_quiet [OF passes(1)] framed.drain_hook_R [OF passes(4)]] passes(6) n1])
    qed
  next
    case True
    from Cons.prems(1) show ?thesis
    proof (cases rule: drain_entries_step)
      case ends
      then show ?thesis using quiet by blast
    next
      case (skip w1 blocked' retained')
      then show ?thesis using blocks [OF frame_quiet [OF skip(1)] skip(2)] True Cons.prems(6,8,10) by auto
    next
      case (works env z w1 q w2)
      have "frame {name} w w'" using frame_trans [OF frame_quiet [OF works(1)] framed.drain_hook_R [OF works(4)]] works(7) by simp
      then show ?thesis using sent [of "{name}"] ne by simp
    next
      case (passes env z w1 x w2 retained')
      have fr: "frame {name} w w2" by (rule frame_trans [OF frame_quiet [OF passes(1)] framed.drain_hook_R [OF passes(4)]])
      show ?thesis
      proof (cases x)
        case None
        then have "map_of (CwSpool w2) n1 = None" using drain_hook_removes passes(4) True by blast
        moreover have "n1 \<notin> set names" using Cons.prems(2) True by simp
        ultimately show ?thesis using frame_file [OF frame_entries [OF passes(6)]] temps(1) by simp
      next
        case (Some m)
        then show ?thesis using blocks [OF fr passes(6)] True Cons.prems(8,10) passes(2) by auto
      qed
    qed
  qed
qed simp

text \<open>
  C18.  Hooks of a session are delivered in their order.  When a drain sends anything for a journal, then
  every earlier journal of the same session that was in the spool has left it in this drain: with \<open>journal_no_loss\<close>, the
  backend has confirmed all of its operations.
\<close>

theorem drain_in_order:
  assumes "drainHooks s cfg w = (r, w')" "distinct (map fst (CwSpool w))" "n1 < n2" "is_hook_file n1" "is_hook_file n2"
    and "map_of (CwSpool w) n1 = Some (Journal e1 z1)" "map_of (CwSpool w) n2 = Some (Journal e2 z2)"
    and "InSessionID (EnvInput e1) = InSessionID (EnvInput e2)" "CwTrace w' = CwTrace w @ tr" "Sent n2 q ocs \<in> set tr"
  shows "map_of (CwSpool w') n1 = None"
proof -
  have quiet: "\<not> no_change w w'" using assms(9,10) by (auto simp: no_change_def)
  from assms(1) show ?thesis unfolding drainHooks_def
  proof (cases rule: bind_cases)
    case (returns u w1)
    note nc1 = call_id_no_change [OF returns(1)]
    from returns(2) show ?thesis
    proof (cases rule: bind_cases)
      case (returns u w2)
      have nc: "no_change w w2" using no_change_trans [OF nc1 call_id_no_change [OF returns(1)]] .
      then have sp: "CwSpool w2 = CwSpool w" "CwTrace w2 = CwTrace w" by (auto simp: no_change_def)
      have "n1 \<in> set (sort (map fst (CwSpool w2)))" using assms(6) by (force simp: sp dest: map_of_SomeD)
      then show ?thesis
        using entries_in_order [OF returns(2) _ _ _ assms(3-5), of e1 z1 e2 z2 tr] assms(2,6-10) by (simp add: sp)
    qed (use quiet nc1 no_change_trans call_id_no_change in blast)+
  qed (use quiet call_id_no_change in blast)+
qed

end
