(* ===== verification/Collector_Drain.thy ===== *)
theory Collector_Drain
  imports Collector_Order
begin

text \<open>
  Progress: with working system calls, room in the spool and a backend that accepts the operations, a drain
  empties the spool.
\<close>

section \<open>A machine_healthy machine\<close>

definition machine_healthy :: "cc_sys \<Rightarrow> bool" where
  "machine_healthy s = ((\<forall>t. \<not> SysCrash s t) \<and> (\<forall>t. SysFault s t = None) \<and> (\<forall>t. SysDone s t = None))"

definition deliverable :: "cc_sys \<Rightarrow> cc_config \<Rightarrow> dead_letter \<Rightarrow> bool" where
  "deliverable s cfg d = (\<forall>t. fst (deliverOperation s cfg t d) = None)"

text \<open>A prepared journal, not held back for the present configuration, whose operations the backend accepts.\<close>

definition ready :: "cc_sys \<Rightarrow> cc_config \<Rightarrow> hook_envelope \<Rightarrow> bool" where
  "ready s cfg env =
     (EnvPrepared env \<and> \<not> invalid_journal env \<and> \<not> (EnvPermanent env \<and> EnvConfigKey env = configKey (SysLib s) cfg) \<and>
      (\<forall>d \<in> set (EnvOperations env). deliverable s cfg d))"

text \<open>Only ready journals of at most \<open>K\<close> bytes each, and room for one more.\<close>

definition roomy :: "cc_sys \<Rightarrow> cc_config \<Rightarrow> nat \<Rightarrow> (string \<times> spool_file) list \<Rightarrow> bool" where
  "roomy s cfg K sp =
     (distinct (map fst sp) \<and> (\<forall>(n, f) \<in> set sp. is_hook_file n \<and> file_size f \<le> int K \<and> (\<exists>env z. f = Journal env z \<and> ready s cfg env)) \<and>
      int (Suc (length sp) * K) \<le> spoolLimit cfg \<and> (\<forall>env. SysLen s env \<le> K))"

lemma call_healthy: "machine_healthy s \<Longrightarrow> call s f w = (Returns (), f (tick w))"
  by (simp add: call_def machine_healthy_def)

lemma bind_Returns [simp]: "bind (Returns x, w) f = f x w"
  by (simp add: bind_def)

lemma on_error_Returns [simp]: "on_error (Returns x, w) h f = f x w"
  by (simp add: on_error_def)

lemma ignoring_Returns [simp]: "ignoring (Returns x, w) f = f w"
  by (simp add: ignoring_def)

lemma spool_size_le: "(\<forall>(n, f) \<in> set (CwSpool w). file_size f \<le> int K) \<Longrightarrow> spool_size path w \<le> int (length (CwSpool w) * K)"
proof -
  have "sum_list (map (\<lambda>(n, f). if n = path then 0 else file_size f) sp) \<le> int (length sp * K)"
    if "\<forall>(n, f) \<in> set sp. file_size f \<le> int K" for sp :: "(string \<times> spool_file) list"
    using that by (induction sp) auto
  then show "(\<forall>(n, f) \<in> set (CwSpool w). file_size f \<le> int K) \<Longrightarrow> ?thesis" by (simp add: spool_size_def)
qed

lemma write_healthy:
  assumes "machine_healthy s" "roomy s cfg K (CwSpool w)"
  shows "\<exists>w'. writeEnvelope s cfg path env w = (Returns (), w') \<and> CwSpool w' = AList.update path (Journal (reread env) (int (SysLen s env))) (CwSpool w)"
proof -
  let ?w1 = "tick w"
  have "\<forall>(n, f) \<in> set (CwSpool w). file_size f \<le> int K" using assms(2) by (auto simp: roomy_def)
  then have "spool_size path ?w1 \<le> int (length (CwSpool w) * K)" using spool_size_le [of ?w1 K path] by simp
  moreover
  have "int (SysLen s env) \<le> int K" using assms(2) by (simp add: roomy_def)
  moreover have "int (length (CwSpool w) * K) + int K \<le> spoolLimit cfg" using assms(2) by (simp add: roomy_def algebra_simps)
  ultimately have fits: "\<not> spoolLimit cfg < spool_size path ?w1 + int (SysLen s env)" by linarith
  have temp: "map_of (CwSpool w) (temp_name s ?w1) = None"
  proof (rule ccontr)
    assume "map_of (CwSpool w) (temp_name s ?w1) \<noteq> None"
    then obtain f where "(temp_name s ?w1, f) \<in> set (CwSpool w)" by (auto dest: map_of_SomeD)
    then have "is_hook_file (temp_name s ?w1)" using assms(2) by (auto simp: roomy_def)
    then show False using hook_not_temp [of "temp_name s ?w1"] by (simp add: is_temp_def temp_name_def HasPrefix_def)
  qed
  show ?thesis
    using fits temp by (simp add: writeEnvelope_def Let_def call_healthy [OF assms(1)] delete_update_fresh update_update_same)
qed

lemma roomy_update:
  assumes "roomy s cfg K sp" "path \<in> fst ` set sp" "ready s cfg env"
  shows "roomy s cfg K (AList.update path (Journal (reread env) (int (SysLen s env))) sp)"
proof -
  let ?f = "Journal (reread env) (int (SysLen s env))"
  have d: "distinct (map fst sp)" using assms(1) by (simp add: roomy_def)
  have rr: "ready s cfg (reread env)" using assms(3) by (simp add: ready_def invalid_journal_def reread_def reread_input_def)
  have "length (AList.update path ?f sp) = length sp" using assms(2) by (induction sp) auto
  moreover have "is_hook_file n \<and> file_size g \<le> int K \<and> (\<exists>env z. g = Journal env z \<and> ready s cfg env)"
    if "(n, g) \<in> set (AList.update path ?f sp)" for n g
  proof -
    have "map_of (AList.update path ?f sp) n = Some g" using that d by (simp add: distinct_update)
    then consider "n = path" "g = ?f" | "(n, g) \<in> set sp" by (auto simp: update_conv' split: if_splits dest: map_of_SomeD)
    then show ?thesis
    proof cases
      case 1
      then show ?thesis using assms(1,2) rr by (auto simp: roomy_def)
    next
      case 2
      then show ?thesis using assms(1) by (auto simp: roomy_def)
    qed
  qed
  ultimately show ?thesis using assms(1) d by (auto simp: roomy_def distinct_update)
qed

lemma roomy_delete:
  assumes "roomy s cfg K sp"
  shows "roomy s cfg K (AList.delete path sp)"
proof -
  have "length (AList.delete path sp) \<le> length sp" by (simp add: AList.delete_eq)
  then have "int (Suc (length (AList.delete path sp)) * K) \<le> int (Suc (length sp) * K)"
    by (simp only: of_nat_le_iff Suc_le_mono mult_le_mono1)
  then have "int (Suc (length (AList.delete path sp)) * K) \<le> spoolLimit cfg" using assms unfolding roomy_def by linarith
  moreover have "\<forall>(n, f) \<in> set (AList.delete path sp). is_hook_file n \<and> file_size f \<le> int K \<and> (\<exists>env z. f = Journal env z \<and> ready s cfg env)"
    using assms by (auto simp: roomy_def AList.delete_eq)
  moreover have "distinct (map fst (AList.delete path sp))" using assms by (simp add: roomy_def distinct_delete)
  moreover have "\<forall>env. SysLen s env \<le> K" using assms by (simp add: roomy_def)
  ultimately show ?thesis unfolding roomy_def by (intro conjI)
qed

lemma send_op_delivers:
  assumes "machine_healthy s" "deliverable s cfg d"
  shows "\<exists>w'. send_op s cfg path d w = (Returns None, w') \<and> CwSpool w' = CwSpool w"
  using assms by (auto simp: send_op_def machine_healthy_def deliverable_def split: prod.split) (metis fst_conv)+

lemma ready_delivered_one:
  assumes "ready s cfg env" "drop (nat (EnvNext env)) (EnvOperations env) = d # ds"
  shows "ready s cfg (delivered_one env) \<and> drop (nat (EnvNext (delivered_one env))) (EnvOperations (delivered_one env)) = ds"
proof -
  let ?k = "nat (EnvNext env)"
  have "?k < length (EnvOperations env)" using assms(2) by (metis drop_all linorder_not_less list.distinct(1))
  then have k: "0 \<le> EnvNext env" "?k < length (EnvOperations env)" using assms(1) by (auto simp: ready_def invalid_journal_def)
  then have nxt: "nat (EnvNext env + 1) = Suc ?k" by simp
  have "drop (Suc ?k) (EnvOperations env) = ds" by (metis assms(2) drop_Suc list.sel(3) tl_drop)
  moreover have "EnvNext env + 1 \<le> int (length (EnvOperations env))" using k by simp
  ultimately show ?thesis using assms(1) k by (simp add: ready_def delivered_one_def invalid_journal_def nxt)
qed

lemma deliver_ops_completes:
  assumes "machine_healthy s" "roomy s cfg K (CwSpool w)" "path \<in> fst ` set (CwSpool w)" "ready s cfg env"
    and "drop (nat (EnvNext env)) (EnvOperations env) = ds"
  shows "\<exists>env' w'. deliver_ops s cfg path env ds w = (Returns (Inr env'), w') \<and> roomy s cfg K (CwSpool w') \<and>
    fst ` set (CwSpool w') = fst ` set (CwSpool w)"
  using assms
proof (induction ds arbitrary: env w)
  case Nil
  then show ?case by simp
next
  case (Cons d ds)
  have "d \<in> set (EnvOperations env)" using Cons.prems(5) by (metis in_set_dropD list.set_intros(1))
  then obtain w1 where w1: "send_op s cfg path d w = (Returns None, w1)" "CwSpool w1 = CwSpool w"
    using send_op_delivers [OF Cons.prems(1), of cfg d path w] Cons.prems(4) by (auto simp: ready_def)
  note one = ready_delivered_one [OF Cons.prems(4,5)]
  obtain w2 where w2: "writeEnvelope s cfg path (delivered_one env) w1 = (Returns (), w2)"
    "CwSpool w2 = AList.update path (Journal (reread (delivered_one env)) (int (SysLen s (delivered_one env)))) (CwSpool w)"
    using write_healthy [OF Cons.prems(1), of cfg K w1 path "delivered_one env"] Cons.prems(2) w1(2) by auto
  have r2: "roomy s cfg K (CwSpool w2)" using roomy_update [OF Cons.prems(2,3)] one by (simp add: w2(2))
  have k2: "fst ` set (CwSpool w2) = fst ` set (CwSpool w)" using Cons.prems(3) by (simp add: w2(2) dom_update insert_absorb)
  then obtain env' w' where "deliver_ops s cfg path (delivered_one env) ds w2 = (Returns (Inr env'), w')" "roomy s cfg K (CwSpool w')"
    "fst ` set (CwSpool w') = fst ` set (CwSpool w2)"
    using Cons.IH [OF Cons.prems(1) r2, of "delivered_one env"] one Cons.prems(3) by auto
  then show ?case using w1(1) w2(1) k2 by (simp add: Let_def)
qed

lemma finish_healthy:
  assumes "machine_healthy s"
  shows "\<exists>w'. finish_hook s path env w = (Returns (), w') \<and> CwSpool w' = AList.delete path (CwSpool w)"
  by (simp add: finish_hook_def ClearState_def call_healthy [OF assms])

lemma drain_hook_completes:
  assumes "machine_healthy s" "roomy s cfg K (CwSpool w)" "map_of (CwSpool w) path = Some (Journal env z)"
  shows "\<exists>w'. drain_hook s cfg path env w = (Returns None, w') \<and> roomy s cfg K (CwSpool w') \<and>
    fst ` set (CwSpool w') = fst ` set (CwSpool w) - {path}"
proof -
  have p: "path \<in> fst ` set (CwSpool w)" using assms(3) by (force dest: map_of_SomeD)
  have r: "ready s cfg env" using assms(2,3) by (auto simp: roomy_def dest!: map_of_SomeD)
  then have prep: "ensure_prepared s cfg path env w = (Returns env, w)" by (simp add: ensure_prepared_def ready_def)
  obtain w1 where w1: "(case EnvState env of None \<Rightarrow> (Returns (), w) | Some st \<Rightarrow> on_error (SaveState s st w) (\<lambda>e w2. fail_with s e e w2) (\<lambda>_ w2. (Returns (), w2))) = (Returns (), w1)"
    "CwSpool w1 = CwSpool w"
    by (cases "EnvState env") (auto simp: SaveState_def call_healthy [OF assms(1)])
  obtain env' w2 where w2: "deliver_ops s cfg path env (drop (nat (EnvNext env)) (EnvOperations env)) w1 = (Returns (Inr env'), w2)"
    "roomy s cfg K (CwSpool w2)" "fst ` set (CwSpool w2) = fst ` set (CwSpool w)"
    using deliver_ops_completes [OF assms(1), of cfg K w1 path env] assms(2) p r w1(2) by auto
  obtain w3 where w3: "finish_hook s path env' w2 = (Returns (), w3)" "CwSpool w3 = AList.delete path (CwSpool w2)"
    using finish_healthy [OF assms(1)] by blast
  show ?thesis using prep w1(1) w2 w3 roomy_delete [OF w2(2)]
    by (simp add: drain_hook_def) (simp add: delete_keys image_set [symmetric] flip: set_map)
qed

lemma drain_entries_completes:
  assumes "machine_healthy s" "roomy s cfg K (CwSpool w)" "set names = fst ` set (CwSpool w)" "distinct names"
  shows "\<exists>w'. drain_entries s cfg [] None names w = (Returns None, w') \<and> CwSpool w' = []"
  using assms
proof (induction names arbitrary: w)
  case Nil
  then show ?case by simp
next
  case (Cons name names)
  obtain f where f: "map_of (CwSpool w) name = Some f"
    using Cons.prems(3) by (metis list.set_intros(1) map_of_eq_None_iff not_None_eq)
  then have mem: "(name, f) \<in> set (CwSpool w)" by (rule map_of_SomeD)
  then obtain env z where j: "f = Journal env z" and r: "ready s cfg env" and h: "is_hook_file name"
    using Cons.prems(2) by (auto simp: roomy_def)
  obtain w1 where w1: "drain_hook s cfg name env (tick w) = (Returns None, w1)" "roomy s cfg K (CwSpool w1)"
    "fst ` set (CwSpool w1) = fst ` set (CwSpool w) - {name}"
    using drain_hook_completes [OF Cons.prems(1), of cfg K "tick w" name env z] Cons.prems(2) f j by auto
  have "set names = fst ` set (CwSpool w1)" using Cons.prems(3,4) w1(3) by auto
  then obtain w' where "drain_entries s cfg [] None names w1 = (Returns None, w')" "CwSpool w' = []"
    using Cons.IH [OF Cons.prems(1) w1(2)] Cons.prems(4) by auto
  then show ?case
    using f j h r w1(1) Cons.prems(1) by (auto simp: call_healthy [OF Cons.prems(1)] machine_healthy_def ready_def)
qed


end
