(* ===== verification/Collector_Examples.thy ===== *)
theory Collector_Examples
  imports Collector_Privacy Collector_Drain
begin

text \<open>
  The collector on a sample machine: a session with one notification that is captured, delivered and removed,
  and the properties of the collector's theories at concrete inputs.
\<close>

section \<open>A machine\<close>

definition sample_cc :: cc_lib where
  "sample_cc = \<lparr>LibHash = (\<lambda>s. ''h''), LibParseFloat = (\<lambda>s. Some 1), LibFormatFloat = (\<lambda>r. ''1'')\<rparr>"

definition cc_cfg :: cc_config where
  "cc_cfg = \<lparr>CfgAPIKey = ''k'', CfgBaseURL = ''u'', CfgActorID = ''a'', CfgActorEmail = [], CfgCaptureMode = ''hash'',
     CfgDisabled = False, CfgStateDir = ''d'', CfgSpoolMaxBytes = 9, CfgRequestMaxBytes = 0\<rparr>"

definition no_files :: transcript_env where
  "no_files = \<lparr>UnmarshalLine = (\<lambda>s. None), OpenFile = (\<lambda>p. Inl ''none'')\<rparr>"

definition cc_answer :: http_outcome where
  "cc_answer = Answer \<lparr>RsStatus = 200, RsBody = ''{}'',
     RsValue = Some (JObj [(''accepted'', JNum ''1''), (''accepted_count'', JNum ''1''), (''id'', JStr ''e'')]), RsRetryAfter = []\<rparr>"

definition cc_machine :: cc_sys where
  "cc_machine = \<lparr>SysLib = sample_cc, SysLen = (\<lambda>env. 1), SysCrash = (\<lambda>t. False), SysFault = (\<lambda>t. None), SysDone = (\<lambda>t. None),
     SysHttp = (\<lambda>t r k. cc_answer), SysWait = (\<lambda>t k d. None), SysRand = (\<lambda>t k. ''r''), SysNow = (\<lambda>t. ''now''), SysNano = (\<lambda>t. t),
     SysGetenv = (\<lambda>v. []), SysGit = (\<lambda>t p. \<lparr>GitBranch = [], GitCommit = [], GitRemote = []\<rparr>), SysFiles = (\<lambda>t k. no_files),
     SysPolls = (\<lambda>t. 0)\<rparr>"

definition cc_input :: hook_input where
  "cc_input = \<lparr>InSessionID = ''s'', InAgentTranscriptPath = [], InTranscriptPath = [], InCwd = [], InPermissionMode = [],
     InHookEventName = [], InToolName = [], InToolInput = None, InToolResponse = None, InToolUseID = [], InPrompt = ''ab'',
     InSource = [], InMessage = ''m'', InAgentType = [], InAgentID = [], InReason = [], InError = [], InTimestamp = ''ts'',
     InLastAssistantMessage = None, InCapturedTurn = None, InTotalCostUSD = 0, InDurationMs = 0, InUsage = None\<rparr>"

definition cc_parse :: "string \<Rightarrow> string + hook_input" where
  "cc_parse raw = Inr cc_input"

text \<open>The capture of a notification, and the worker that delivers it.\<close>

definition cc_captured :: cc_world where
  "cc_captured = snd (run cc_machine cc_cfg cc_parse [''notify''] ''{}'' empty_world)"

definition cc_flushed :: cc_world where
  "cc_flushed = snd (run cc_machine cc_cfg cc_parse [''flush''] [] cc_captured)"

abbreviation cc_name :: string where "cc_name \<equiv> ''hook-00000000000000000000-r.json''"

definition spool_names :: "cc_world \<Rightarrow> string list" where
  "spool_names w = map fst (CwSpool w)"

definition journal_at :: "cc_world \<Rightarrow> string \<Rightarrow> hook_envelope option" where
  "journal_at w n = (case map_of (CwSpool w) n of Some (Journal env z) \<Rightarrow> Some env | _ \<Rightarrow> None)"

lemma journal_atE: "journal_at w n = Some env \<Longrightarrow> \<exists>z. map_of (CwSpool w) n = Some (Journal env z)"
  by (auto simp: journal_at_def split: option.splits spool_file.splits)

lemma cc_captured_spool: "spool_names cc_captured = [cc_name] \<and> map_option EnvID (journal_at cc_captured cc_name) = Some ''r''"
  by code_simp

lemma cc_flushed_spool: "spool_names cc_flushed = []"
  by code_simp

lemma unused_code: "unused_name cc_machine cc_captured"
  by code_simp

lemma cc_step:
  assumes "cc_run sample_cc 9 w0 w" "unused_name cc_machine w"
  shows "cc_run sample_cc 9 w0 (snd (run cc_machine cc_cfg cc_parse ev raw w))"
  by (rule cc_run_step [OF assms(1) _ _ assms(2) prod.collapse [symmetric]]) (simp_all add: cc_machine_def spoolLimit_def cc_cfg_def)

lemma unused_start: "unused_name cc_machine empty_world"
  by (simp add: unused_name_def empty_world_def)

lemma cc_run_captured: "cc_run sample_cc 9 empty_world cc_captured"
  unfolding cc_captured_def by (rule cc_step [OF cc_run_refl unused_start])

lemma cc_run_flushed: "cc_run sample_cc 9 cc_captured cc_flushed" "cc_run sample_cc 9 empty_world cc_flushed"
  unfolding cc_flushed_def by (rule cc_step [OF cc_run_refl unused_code], rule cc_step [OF cc_run_captured unused_code])

section \<open>The journal\<close>

theorem journal_no_loss_witness:
  "\<exists>env. Wrote cc_name env \<in> set (CwTrace cc_flushed) \<and> EnvID env = ''r'' \<and> EnvPrepared env \<and>
     (\<forall>d \<in> set (EnvOperations env). acked sample_cc d (CwTrace cc_flushed))"
proof -
  obtain env where "journal_at cc_captured cc_name = Some env" and i: "EnvID env = ''r''" using cc_captured_spool by auto
  then obtain z where z: "map_of (CwSpool cc_captured) cc_name = Some (Journal env z)" using journal_atE by blast
  have "map_of (CwSpool cc_flushed) cc_name = None" using cc_flushed_spool by (simp add: spool_names_def)
  then show ?thesis using journal_no_loss [OF cc_run_captured z cc_run_flushed(1)] i by simp
qed

definition is_sent :: "string \<Rightarrow> io \<Rightarrow> bool" where
  "is_sent n x = (case x of Sent m q ocs \<Rightarrow> m = n | _ \<Rightarrow> False)"

lemma is_sentE: "list_ex (is_sent n) xs \<Longrightarrow> \<exists>q ocs. Sent n q ocs \<in> set xs"
  by (induction xs) (auto simp: is_sent_def split: io.splits)

lemma cc_flushed_sent: "list_ex (is_sent cc_name) (CwTrace cc_flushed)"
  by code_simp

theorem journal_written_ahead_witness:
  "\<exists>xs r ocs ys env. CwTrace cc_flushed = xs @ Sent cc_name r ocs # ys \<and> Wrote cc_name env \<in> set xs"
proof -
  obtain r ocs where "Sent cc_name r ocs \<in> set (CwTrace cc_flushed)" using is_sentE [OF cc_flushed_sent] by blast
  then obtain xs ys where t: "CwTrace cc_flushed = xs @ Sent cc_name r ocs # ys" by (meson split_list)
  from journal_written_ahead [OF cc_run_flushed(2) t] t show ?thesis by blast
qed

section \<open>Draining\<close>

definition cc_ended :: hook_envelope where
  "cc_ended = \<lparr>EnvID = ''r'', EnvEvent = ''session-end'', EnvInput = cc_input, EnvReceivedAt = ''now'', EnvCaptureMode = ''hash'',
     EnvPrepared = True, EnvState = None, EnvOperations = [end_op ''e'' ''COMPLETED'' ''ts''], EnvNext = 0, EnvAttempts = 0,
     EnvLastError = [], EnvPermanent = False, EnvConfigKey = []\<rparr>"

definition cc_queue :: cc_world where
  "cc_queue = empty_world\<lparr>CwSpool := [(''hook-1.json'', Journal cc_ended 1), (''hook-2.json'', Journal cc_ended 1)]\<rparr>"

definition cc_drained :: cc_world where
  "cc_drained = snd (drainHooks cc_machine cc_cfg cc_queue)"

lemma cc_drained_sent: "list_ex (is_sent ''hook-2.json'') (CwTrace cc_drained)"
  by code_simp

theorem drain_in_order_witness: "map_of (CwSpool cc_drained) ''hook-1.json'' = None"
proof -
  obtain q ocs where sent: "Sent ''hook-2.json'' q ocs \<in> set (CwTrace cc_drained)" using is_sentE [OF cc_drained_sent] by blast
  show ?thesis
    by (rule drain_in_order [of cc_machine cc_cfg cc_queue "fst (drainHooks cc_machine cc_cfg cc_queue)" cc_drained "''hook-1.json''"
          "''hook-2.json''" cc_ended 1 cc_ended 1 "CwTrace cc_drained" q ocs])
      (use sent in \<open>simp_all add: cc_drained_def cc_queue_def empty_world_def is_hook_file_def HasPrefix_def HasSuffix_def less_list_code less_char_def\<close>)
qed

theorem spool_bounded_witness: "spool_total cc_captured \<le> 18"
  using spool_bounded [OF cc_run_captured] by simp

lemma cc_send: "\<exists>fs ocs. send cc_machine cc_cfg t q = (Inr fs, ocs)"
proof -
  have "judge q 0 cc_answer = Success [(''accepted'', JNum ''1''), (''accepted_count'', JNum ''1''), (''id'', JStr ''e'')]"
    by (simp add: judge_def cc_answer_def decode_answer_def)
  moreover have "send cc_machine cc_cfg t q = try_send (\<lambda>k. cc_answer) (\<lambda>k d. None) q 0 2"
    by (simp add: send_def doJSON_def collector_client_def NewClient_def cc_machine_def)
  ultimately show ?thesis by (simp add: try_send.simps [of _ _ _ 0])
qed

lemma cc_end_delivers: "deliverable cc_machine cc_cfg (end_op ''e'' ''COMPLETED'' ''ts'')"
proof -
  let ?d = "end_op ''e'' ''COMPLETED'' ''ts''"
  have n: "length (print_json (operationBody ?d)) = 38" by code_simp
  have "unusable ?d = None" "op_accepted L ?d fs = None" for L fs
    by (simp_all add: unusable_def op_accepted_def end_op_def dlKindAudit_def dlKindSpans_def dlKindEndExecution_def)
  then have "fst (deliverDeadLetter cc_machine cc_cfg t ?d) = None" for t
    using cc_send [of t "op_request ?d"] by (auto simp: deliverDeadLetter_def)
  moreover have "requestLimit cc_cfg = 4194304" by (simp add: requestLimit_def cc_cfg_def)
  ultimately show ?thesis by (simp add: deliverable_def deliverOperation_def n)
qed

lemma cc_ready: "ready cc_machine cc_cfg cc_ended"
  using cc_end_delivers by (simp add: ready_def cc_ended_def invalid_journal_def cc_input_def)

lemma cc_roomy: "roomy cc_machine cc_cfg 1 (CwSpool cc_queue)"
  using cc_ready by (simp add: roomy_def cc_queue_def is_hook_file_def HasPrefix_def HasSuffix_def spoolLimit_def) (simp add: cc_cfg_def cc_machine_def)


section \<open>Handlers\<close>

definition cc_ctx :: hook_ctx where
  "cc_ctx = hook_context cc_machine cc_cfg cc_ended 0"

definition cc_ask :: span_start where
  "cc_ask = \<lparr>SpSpanID = ''p'', SpName = ''turn'', SpStartedAt = ''ts'', SpMetadata = [], SpInput = None, SpParentSpanID = []\<rparr>"

text \<open>An open session with an execution and a pending turn.\<close>

definition cc_open :: hook_tx where
  "cc_open = \<lparr>TxState = (fresh_state ''s'')\<lparr>SsExecutionID := ''e'', SsPendingSpans := [(turn_key, cc_ask)]\<rparr>,
     TxOperations = [], TxErr = None, TxDrawn = 0, TxStarts = []\<rparr>"

lemma cc_open_state [simp]:
  "SsExecutionID (TxState cc_open) = ''e''" "SsPendingSpans (TxState cc_open) = [(turn_key, cc_ask)]" "\<not> SsClosed (TxState cc_open)"
  "TxDrawn cc_open = 0" "TxOperations cc_open = []" "TxStarts cc_open = []"
  by (simp_all add: cc_open_def fresh_state_def)

theorem ingestSpans_splits_witness:
  "\<exists>ops. TxOperations (ingestSpans cc_ctx ''e'' [JNull, JNull] cc_open) = ops \<and> concat (map DlSpans ops) = [JNull, JNull]"
  using ingestSpans_splits [of cc_ctx "''e''" "[JNull, JNull]" cc_open] by auto

theorem start_key_stable_witness:
  "length (TxStarts (snd (dispatchHook ''session-start'' cc_ctx cc_input (set_state (fresh_state ''s'') cc_open)))) \<le> 1"
  using start_key_stable [of "''session-start''" cc_ctx cc_input "set_state (fresh_state ''s'') cc_open"] by simp


theorem session_end_closes_witness:
  "\<exists>ops. TxOperations (snd (HandleSessionEnd cc_ctx cc_input cc_open)) = ops \<and> end_op ''e'' ''COMPLETED'' (hookTime cc_ctx) \<in> set ops"
  using session_end_closes [of cc_open "''e''" cc_ctx cc_input] by auto


section \<open>Capture\<close>

definition cc_prompted :: hook_input where
  "cc_prompted = cc_input\<lparr>InPrompt := ''cd''\<rparr>"

theorem hash_mode_hides_witness:
  "TxOperations (snd (dispatchHook ''prompt'' cc_ctx cc_prompted cc_open)) = TxOperations (snd (dispatchHook ''prompt'' cc_ctx cc_input cc_open))"
proof -
  have m: "mode_of cc_ctx = CaptureHash" by (simp add: cc_ctx_def hook_context_def cc_cfg_def CaptureHash_def)
  have L: "CxLib cc_ctx = sample_cc" by (simp add: cc_ctx_def hook_context_def cc_machine_def)
  have i: "same_input (CxLib cc_ctx) cc_input cc_prompted"
    by (simp add: same_input_def cc_prompted_def cc_input_def same_text_def L sample_cc_def toolCallFailed_def response_failed_def)
  have "same_tx (CxLib cc_ctx) cc_open cc_open"
    by (simp add: same_tx_def same_state_def same_span_def cc_ask_def)
  from hash_mode_hides [OF m i this] show ?thesis by simp
qed

definition cc_line :: "string \<Rightarrow> transcript_line" where
  "cc_line u = \<lparr>LnType = ''user'', LnUUID = u, LnTimestamp = [], LnIsMeta = False, LnMsgID = [], LnMsgModel = [], LnContentText = ''c'',
     LnContent = JStr ''c'', LnInputTokens = 0, LnOutputTokens = 0, LnCacheRead = 0, LnCacheCreation = 0\<rparr>"

definition cc_file :: "string \<Rightarrow> transcript_env" where
  "cc_file bytes = \<lparr>UnmarshalLine = (\<lambda>raw. Some (cc_line (take 1 raw))), OpenFile = (\<lambda>p. Inr \<lparr>TfBytes = bytes,
     TfStatSize = Some (int (length bytes)), TfSeekError = None, TfReadError = None\<rparr>)\<rparr>"

theorem captured_turn_stable_witness:
  "ReadTurnFromTranscriptTurn (cc_file ((''a'' @ [CHR 0x0A]) @ ''b'' @ [CHR 0x0A])) sample_cc ''p'' ''a'' =
   ReadTurnFromTranscriptTurn (cc_file (''a'' @ [CHR 0x0A])) sample_cc ''p'' ''a''"
proof -
  let ?a = "''a'' @ [CHR 0x0A]"
  have f: "small_file (cc_file bs) q bs" if "length bs \<le> 4" for bs q
    using that by (simp add: small_file_def cc_file_def maxTranscriptBytes_def)
  have pr: "is_prompt (cc_line u)" for u
    by (simp add: is_prompt_def cc_line_def realUserPrompt_def decode_string_def)
  have e: "ReadTurnFromTranscriptTurn (cc_file ?a) sample_cc ''p'' ''a'' =
      turn_of_scan (fst (scan_lines (cc_file ?a) sample_cc ''a'' (read_lines [] ?a) (scan_start '''')))"
    by (rule read_small_file [OF f]) simp_all
  have t: "TsTurnID (ReadTurnFromTranscriptTurn (cc_file ?a) sample_cc ''p'' ''a'') = ''a''"
    unfolding e turn_of_scan_turn by code_simp
  show ?thesis
    by (rule captured_turn_stable [OF f f _ _ _ _ pr]) (use t in \<open>simp_all add: ends_line_def cc_file_def\<close>)
qed

end
