(* ===== verification/Collector_Operations.thy ===== *)
theory Collector_Operations
  imports Collector_Examples
begin

text \<open>
  The type of an operation: what its kind requires is there.  Every handler keeps it, so what \<open>prepareHook\<close> journals
  can always be sent.
\<close>

definition usable_ops :: "hook_tx \<Rightarrow> bool" where
  "usable_ops tx = (\<forall>d \<in> set (TxOperations tx). unusable d = None)"

named_theorems usable

lemma usable_same [usable]:
  "usable_ops (set_state st tx) = usable_ops tx" "usable_ops (tx\<lparr>TxErr := e\<rparr>) = usable_ops tx" "usable_ops (tx\<lparr>TxStarts := r\<rparr>) = usable_ops tx"
  "usable_ops (snd (newSpanID c tx)) = usable_ops tx"
  by (simp_all add: usable_ops_def set_state_def)

lemma usable_drawn: "newSpanID c tx = (i, tx') \<Longrightarrow> usable_ops tx' = usable_ops tx"
  using usable_same(4) [of c tx] by simp

lemma usable_audit [usable]: "usable_ops (auditLog c e tx) = usable_ops tx"
proof -
  obtain e' where "TxOperations (auditLog c e tx) = TxOperations tx @ [audit_op e']" using auditLog_ops by blast
  then show ?thesis by (auto simp: usable_ops_def unusable_def audit_op_def)
qed

lemma usable_ingest [usable]:
  assumes "eid \<noteq> ''''"
  shows "usable_ops (ingestSpans c eid spans tx) = usable_ops tx"
proof -
  have "unusable (spans_op eid b) = None" if "b \<in> set (span_batches limit [] spans)" for limit b
    using that span_batches_size [of "[]" limit spans] assms by (auto simp: unusable_def spans_op_def dlKindSpans_def dlKindAudit_def)
  then show ?thesis by (auto simp: usable_ops_def ingestSpans_def)
qed

lemma usable_end [usable]: "eid \<noteq> '''' \<Longrightarrow> usable_ops (endExecution c eid st tx) = usable_ops tx"
  by (auto simp: usable_ops_def endExecution_def unusable_def end_op_def dlKindEndExecution_def dlKindSpans_def dlKindAudit_def)

text \<open>An execution is either missing or that of the state.\<close>

lemma ensureExecution_typed:
  assumes "ensureExecution c i tx = (e, tx')"
  shows "usable_ops tx' = usable_ops tx \<and> (e \<noteq> '''' \<longrightarrow> SsExecutionID (TxState tx') = e)"
  using assms by (auto simp: ensureExecution_def startExecution_def Let_def usable split: if_splits sum.splits)

lemma usable_ensure [usable]: "usable_ops (snd (ensureExecution c i tx)) = usable_ops tx"
  using ensureExecution_typed [of c i tx] by (metis prod.collapse)

lemma usable_emit [usable]: "usable_ops (emit_point c i typ name md tx) = usable_ops tx"
  using ensureExecution_typed [of c i tx]
  by (auto simp: emit_point_def usable usable_drawn split: prod.split)

lemma usable_turn [usable]: "usable_ops (emitTurnComplete c i e t s tx) = usable_ops tx"
  by (auto simp: emitTurnComplete_def Let_def usable usable_drawn split: prod.split)

section \<open>Handlers\<close>

lemma usable_SessionStart: "usable_ops (snd (HandleSessionStart c i tx)) = usable_ops tx"
  by (auto simp: HandleSessionStart_def startExecution_def Let_def usable split: sum.splits)

lemma usable_UserPrompt: "usable_ops (snd (HandleUserPrompt c i tx)) = usable_ops tx"
  by (auto simp: HandleUserPrompt_def Let_def usable usable_drawn split: prod.split)

lemma usable_case: "(\<And>e y. m = (e, y) \<Longrightarrow> usable_ops (snd (f e y)) = b) \<Longrightarrow> usable_ops (snd (case m of (e, y) \<Rightarrow> f e y)) = b"
  by (cases m) simp

lemma usable_if: "(P \<Longrightarrow> usable_ops (snd x) = b) \<Longrightarrow> (\<not> P \<Longrightarrow> usable_ops (snd y) = b) \<Longrightarrow> usable_ops (snd (if P then x else y)) = b"
  by simp

lemma usable_PreTool: "usable_ops (snd (HandlePreTool c i tx)) = usable_ops tx"
  unfolding HandlePreTool_def Let_def
proof (intro usable_if usable_case, goal_cases)
  case (3 sid tx1 e tx2)
  then show ?case using ensureExecution_typed [OF 3(4)] usable_drawn [OF 3(3)] by (simp add: usable)
next
  case (4 sid tx1 e tx2)
  then have "SsExecutionID (TxState tx2) \<noteq> ''''" "usable_ops tx2 = usable_ops tx"
    using ensureExecution_typed [OF 4(4)] usable_drawn [OF 4(3)] by (simp_all add: usable)
  then show ?case by (simp add: usable)
qed (simp_all add: usable)

lemma usable_PostTool: "usable_ops (snd (handlePostTool f c i tx)) = usable_ops tx"
proof -
  have take: "usable_ops tx1 = usable_ops tx" if "take_span c i tx = (sp, tx1)" for sp tx1
    using that by (auto simp: take_span_def usable_drawn split: option.splits prod.splits)
  have ens: "usable_ops tx3 = usable_ops tx1" if "ensureExecution c j (set_state st tx1) = (e, tx3)" for j st tx1 e tx3
    using ensureExecution_typed [OF that] by (simp add: usable)
  have batch: "usable_ops tx4 = usable_ops tx3" if "tool_batch c j g sp tx3 = (b, tx4)" for j g sp tx3 b tx4
    using that by (auto simp: tool_batch_def Let_def usable split: option.splits)
  show ?thesis by (auto simp: handlePostTool_def Let_def usable take ens batch split: prod.split)
qed

lemma usable_Stop: "usable_ops (snd (HandleStop c i tx)) = usable_ops tx"
proof -
  have "usable_ops tx' = usable_ops tx" if "ensureExecution c i tx = (e, tx')" for e tx'
    using ensureExecution_typed [OF that] by simp
  then show ?thesis by (auto simp: HandleStop_def Let_def usable split: prod.split option.split)
qed

lemma usable_SessionEnd: "usable_ops (snd (HandleSessionEnd c i tx)) = usable_ops tx"
  by (simp add: HandleSessionEnd_def Let_def usable)

lemma usable_dispatch: "usable_ops (snd (dispatchHook event c i tx)) = usable_ops tx"
  by (simp add: dispatchHook_def HandlePostTool_def HandlePostToolFailure_def HandlePermission_def HandleNotification_def HandleSubagentStop_def
      Let_def usable usable_SessionStart usable_UserPrompt usable_PreTool usable_PostTool usable_Stop usable_SessionEnd)



end
