(* ===== verification/Spec2Isabelle.thy ===== *)
theory Spec2Isabelle
  imports Ingest_Properties Outbox_Safety Quota_Properties Auth_Properties Telemetry_Retry Rate_Limit Retention_Safety Collector_Operations
begin

text \<open>
  Fact0 (api/ under the repository root) keeps, for each tenant, an append-only audit log in
  PostgreSQL in which every event carries the hash of its predecessor, so that a change to history is
  found by recomputing the hashes.  Around the log stand the accounts that may write to it (tenants,
  API keys, plans, share links), an outbox that accepts batches asynchronously, a monthly quota, the
  middleware that decides who is served and how often, the telemetry of agent executions with its
  replay and lineage, the sessions of the dashboard assistant, and the sweeper that enforces retention
  over all of them.  On the machine of a developer the Claude Code collector (claude-code-plugin/collector/)
  turns the hooks of a session into audit events and spans and delivers them through the Go SDK (sdk/go/), with a
  write-ahead journal between the two.  This development models that core and proves it.

  \<^bold>\<open>Layers, each theory importing those above it.\<close>

  \<^item> \<open>Prelude\<close>: lists, strings, options and association lists; the collections of simp rules.
  \<^item> \<open>JSON_Value\<close>, \<open>JSON_Encoding\<close>, \<open>JSON_Numbers\<close>, \<open>Canonical_JSON\<close>, \<open>JSON_Storage\<close>:
    api/internal/canonical/json.go and what it uses of encoding/json.  A document is a tree with number
    literals kept as text; \<open>denote\<close> is its abstract value, \<open>JSON_canonical\<close> the canonical text.
  \<^item> \<open>Go_Time\<close>: time.Time as nanoseconds, truncation, RFC 3339 output and the calendar.
  \<^item> \<open>App_Errors\<close>: platform/errors/errors.go; every operation returns \<open>app_error + 'a\<close>.
  \<^item> \<open>Audit_Model\<close>, \<open>Audit_Hash\<close>: audit/model.go, validation.go, hash.go.  SHA-256 is a parameter.
  \<^item> \<open>Audit_Repository\<close>: audit/repository.go, the operations the service calls as a record, their
    contract as the locale \<open>audit_repository\<close> and its extension \<open>verify_repository\<close>.
  \<^item> \<open>Pg_Db\<close>: the tables, with the constraints of the schema, and the environment of a call: the
    clock, the hash, the jsonb column and which statements fail (\<open>fault\<close>).
  \<^item> \<open>Audit_Store\<close>, \<open>Audit_Chain\<close>, \<open>Audit_Repo_Pg\<close>: storage/postgres/audit_store.go on
    audit_events, its chain invariant, and the interpretation of the repository contract on it.
  \<^item> \<open>Redaction\<close>: redaction/redactor.go with its patterns as regular expressions.
  \<^item> \<open>Audit_Service\<close>, \<open>Audit_Verify\<close>, \<open>Audit_Properties\<close>, \<open>Ingest_Properties\<close>: audit/service.go:
    ingest, verification, re-anchoring, live subscriptions, and the properties of log and verifier.
  \<^item> \<open>Tenant_Store\<close>, \<open>Tenant_Accounts\<close>: the tenant, key, plan and webhook half of audit_store.go;
    \<open>store_step\<close> is one call of any of them or of the append, by any caller.
  \<^item> \<open>Outbox\<close>, \<open>Outbox_Safety\<close>: ingest/outbox/*.go; \<open>outbox_step\<close> interleaves enqueues, claims,
    workers, crashes and resets with the steps of the store.
  \<^item> \<open>Share_Store\<close>: share/store.go and quota_settings.go.
  \<^item> \<open>Quota\<close>, \<open>Quota_Properties\<close>: audit/limit.go.
  \<^item> \<open>Auth\<close>, \<open>Auth_Properties\<close>: auth/{key,keycache,middleware,context,jwt,dual,share}.go.
  \<^item> \<open>Execution_Model\<close>, \<open>Telemetry_Store\<close>, \<open>Pricing\<close>, \<open>Ingestion\<close>, \<open>Telemetry_Query\<close>: execution/*.go,
    storage/postgres/{store,telemetry_write}.go, analytics/cost.go, ingestion/*.go, and the services in
    lineage/, replay/ and query/.  Tables are lists in insertion order.
  \<^item> \<open>Telemetry_Safety\<close>: the invariant of those tables and \<open>telemetry_step\<close>; \<open>Telemetry_Reading\<close>,
    \<open>Telemetry_Writing\<close>, \<open>Telemetry_Retry\<close>: what readers see, what a batch can touch, and that sending a
    span again is harmless.
  \<^item> \<open>Rate_Limit\<close>: transport/rest/ratelimit.go and ratelimit_redis.go.
  \<^item> \<open>Copilot\<close>, \<open>Copilot_Safety\<close>: copilot/*.go and storage/postgres/copilot_store.go; \<open>copilot_step\<close> is a
    call of the service by one user.
  \<^item> \<open>Retention\<close>, \<open>Retention_Safety\<close>: retention/sweeper.go over the telemetry, the audit log, the
    assistant's tables and the trial periods.
  \<^item> \<open>Sdk_Client\<close>: sdk/go/{client,audit,telemetry}.go, the requests and the retry loop.
  \<^item> \<open>Collector_Data\<close>, \<open>Collector_Transcript\<close>, \<open>Collector_Handlers\<close>, \<open>Collector_Spool\<close>: the collector.  Its records,
    configuration and capture modes (config.go, redact.go, resource.go, otel.go, hookinput.go); the reading of a transcript
    (transcript.go, transcript_capture.go); the hook handlers on the transaction \<open>hook_tx\<close> (mapping.go and the journal side of
    deadletter.go); and spool.go, state.go and the \<open>run\<close> of main.go on the world \<open>cc_world\<close> of spool, state files and trace.
  \<^item> \<open>Collector_Journal\<close>, \<open>Collector_Safety\<close>, \<open>Collector_Order\<close>, \<open>Collector_Drain\<close>: the invariant of the journal, runs of
    captures and drains (\<open>cc_run\<close>), the relations every operation keeps (the locales \<open>hook_relation\<close> and \<open>spool_relation\<close>,
    interpreted for the size of the spool and for what a drain may touch), and progress.
  \<^item> \<open>Collector_Capture\<close>, \<open>Collector_Privacy\<close>, \<open>Collector_Operations\<close>, \<open>Collector_Examples\<close>: the properties of the
    handlers, what hash mode lets out, the type of the prepared operations, and a sample machine.
  \<^item> \<open>Samples\<close>: the concrete environment, rows and events the witnesses evaluate.

  \<^bold>\<open>How code becomes definitions.\<close>  An operation is a function of the environment of the call, its
  arguments and the state; one that writes returns the new state.  Each place where the source wraps
  a driver error is a named fault, so every error path is a branch and a theorem that says nothing of
  faults holds whichever statements fail.  A failed transaction leaves the state as it was.  Advisory
  locks and row locks make transactions sequential; interleavings of whole transactions are the step
  relations.  Times are integers of nanoseconds, counters that cannot reach the bounds of int64 are
  unbounded, and strings are lists of bytes.  In the collector every effect is numbered: the process may die at it, the
  system call may fail, and the backend, the clock and the files answer by its number, so a theorem about all machines covers
  a crash between any two effects.

  \<^bold>\<open>What the theorems show.\<close>  The canonical encoding identifies exactly equal values and the hash binds
  every field of an event.  Appending keeps and extends the chains, is idempotent, and the verifier
  decides the chain recipe, names the first break, lists all of them and always returns; two logs that
  verify with one root hash are the same log or a collision is exhibited.  Batches are accounted for,
  re-anchoring repairs what it says, the outbox commits a batch with the effect of exactly once under
  retries, accounts keep their constraints along every run, revocation is final, the quota decides by
  the count, and keys, dashboard tokens and share links serve what they grant and no more.  Telemetry
  keeps its references along every run, a batch reaches only the execution it names, only the owner
  reads it, replays are complete and ordered, the walk to the root span ends, and an accepted span can
  be sent again.  The distributed rate limit bounds what is admitted in a second, users of the
  assistant do not influence each other, and a retention pass ends, leaves no dangling reference,
  deletes no audit row and takes no conversation from a user who may resume it; a scrubbed audit row
  no longer matches its hash.  The collector loses no journalled hook, sends nothing that was not journalled first, delivers the
  hooks of a session in their order, keeps its spool within twice the limit and empties it when it can; what it
  prepares is well-formed, uses one key to start an execution however often it is repeated, records a tool call once, closes what is pending when a
  session ends, and in hash mode depends on the texts only through digest and length.  That a turn which was
  interrupted stays open is proved too, as the flaw it is.  A call of the SDK makes a bounded number of attempts.

  \<^bold>\<open>Bounds and fuel.\<close>  Loops that are not structural carry a termination proof: the pages of \<open>Walk\<close> by
  the rows still ahead, the insert chunks by the events left, the redaction scan and the decoding of
  UTF-8 by the bytes left.  Trimming white space and unbounded repetition in a pattern count down the
  length of the text, which bounds the number of rounds because each consumes a byte.  The walk to the
  root span and the batched statements of the sweeper have no bound of their own: they are partial
  functions, and the theorems prove that they return, by the order in which spans were stored and by
  the rows each full batch removes.

  \<^bold>\<open>Parameters.\<close>  SHA-256, bcrypt, the JWT parser, the entropy source, the fixed-point formatting of
  floating-point literals, the rounding and printing of \<open>float64\<close>, the decoding of JSON texts inside
  payloads and of the hook on standard input, the length of an encoded journal, the jsonb normalisation, the token bucket of golang.org/x/time/rate and the rows a \<open>LIMIT\<close>
  selects are arguments.  Where a property needs something
  of them it is a named premise (\<open>jsonb_ok\<close>, \<open>pick_ok\<close>, that bcrypt accepts the secret it hashed) and its
  witness instantiates the argument.

  \<^bold>\<open>Not modelled.\<close>  HTTP routing and rendering (transport/), the SQL-only reporting stores (analytics,
  admin, billing, dashboards), PDF export, mail and webhook delivery, OpenTelemetry, configuration and
  migrations are input, output or queries without state of their own.  SSE tickets are signed JSON texts whose
  parsing is not modelled.  Of the collector, the branches without a transaction and the replay of dead letters,
  which \<open>run\<close> never reaches, and the text its manual commands print; its lock files and git are outcomes from
  outside, the temporary file of a session state is part of one effect, and lower case is taken on ASCII letters.  Of the SDKs, the policy
  client of the Go one and the SDKs in other languages.
\<close>

section \<open>Properties of the canonical encoding and the content hash\<close>

text \<open>
  C8.  Two decoded JSON documents get the same canonical text from \<open>canonical.JSON\<close> exactly when
  they denote the same abstract value: objects are compared as maps, numbers by value, strings
  byte for byte.  In particular \<open>1e3\<close> and \<open>1000\<close> are one value and no two different values are
  encoded alike.
\<close>

theorem canonical_eq_iff:
  assumes "wf_json v" "wf_json w" "JSON_canonical v = Some a" "JSON_canonical w = Some b"
  shows "a = b \<longleftrightarrow> denote v = denote w"
  using assms by (rule JSON_canonical_denote)

theorem canonical_eq_iff_witness:
  "denote (JObj [(''b'', JNum ''10.0e2''), (''a'', JStr ''x<y'')]) =
   denote (JObj [(''a'', JStr ''x<y''), (''b'', JNum ''1000'')])"
proof -
  let ?v = "JObj [(''b'', JNum ''10.0e2''), (''a'', JStr ''x<y'')]"
  let ?w = "JObj [(''a'', JStr ''x<y''), (''b'', JNum ''1000'')]"
  have "wf_json ?v" "wf_json ?w" by code_simp+
  moreover have "JSON_canonical ?v = Some (the (JSON_canonical ?w))" by code_simp
  moreover have "JSON_canonical ?w = Some (the (JSON_canonical ?w))" by code_simp
  ultimately show ?thesis by (rule canonical_eq_iff [THEN iffD1]) (rule refl)
qed

text \<open>
  C9.  The content hash binds every public field of an event: if \<open>ComputeHash\<close> gives two
  well-formed events the same non-empty hash, then their identifiers, tenants, times (to the
  microsecond), actors, actions, resources, outcomes, metadata values, previous hashes and
  sequence numbers agree, or the two encoded texts are an explicit collision of SHA-256.
\<close>

theorem ComputeHash_binds:
  assumes "event_ok e" "event_ok f"
    and "ComputeHash H (Some e) = ComputeHash H (Some f)" "ComputeHash H (Some e) \<noteq> ''''"
  shows "event_content e = event_content f \<or>
    (\<exists>a b. JSON_canonical (hash_preimage e) = Some a \<and> JSON_canonical (hash_preimage f) = Some b \<and>
           a \<noteq> b \<and> H a = H b)"
  using compute_hash_eq [OF assms] by (simp add: hash_collision_def)

definition sample_event :: audit_event where
  "sample_event =
     \<lparr>ID = ''evt_1'', TenantID = ''t'', Timestamp = 5000,
      Actor = \<lparr>ActorID = ''u'', ActorTyp = ''human'', ActorEmail = []\<rparr>, Action = ''a.b'',
      Resource = \<lparr>ResourceID = ''r'', ResourceType = ''doc'', ResourceName = ''n''\<rparr>,
      Outcome = ''success'', Metadata = Some [(''k'', JNum ''1e3'')], PrevHash = ''genesis'',
      Hash = [], SequenceNumber = 1\<rparr>"

theorem ComputeHash_binds_witness:
  "meta_value (Some [(''k'', JNum ''1e3'')]) = meta_value (Some [(''k'', JNum ''1000'')])"
proof -
  let ?f = "sample_event\<lparr>Metadata := Some [(''k'', JNum ''1000'')], Timestamp := 5999\<rparr>"
  have ok: "event_ok sample_event" "event_ok ?f"
    unfolding event_ok_def by (intro conjI; code_simp)+
  have \<open>JSON_canonical (hash_preimage sample_event) = Some (
      ''{"action":"a.b","actor":{"id":"u","type":"human"},"id":"evt_1","metadata":{"k":1e3},'' @
      ''"outcome":"success","prev_hash":"genesis","resource":{"id":"r","name":"n","type":"doc"},'' @
      ''"sequence_number":1,"tenant_id":"t","timestamp":"0001-01-01T00:00:00.000005Z"}'')\<close>
    by code_simp
  moreover have \<open>JSON_canonical (hash_preimage ?f) = Some (
      ''{"action":"a.b","actor":{"id":"u","type":"human"},"id":"evt_1","metadata":{"k":1e3},'' @
      ''"outcome":"success","prev_hash":"genesis","resource":{"id":"r","name":"n","type":"doc"},'' @
      ''"sequence_number":1,"tenant_id":"t","timestamp":"0001-01-01T00:00:00.000005Z"}'')\<close>
    by code_simp
  ultimately have "ComputeHash id (Some sample_event) = ComputeHash id (Some ?f)"
      "ComputeHash id (Some sample_event) \<noteq> []"
    by (auto simp: ComputeHash_def HashPrefix_def)
  then have "event_content sample_event = event_content ?f"
    using ComputeHash_binds [OF ok, of id] by auto
  then show ?thesis by (simp add: event_content_def sample_event_def)
qed

end
